(* ===== verification/Prelude.thy ===== *)
theory Prelude
  imports Main "HOL-Library.List_Lexorder" "HOL-Library.Char_ord" "HOL-Library.Multiset"
begin

text \<open>
  Shared vocabulary of the development: the collections of rewrite rules the component
  theories fill, sorting by a comparison function (Go's \<open>slices.SortFunc\<close> and
  \<open>sort.Slice\<close>), selection by rank (the "highest level wins" loops), and keyed tables
  as lists, the shape every database table of the model has.
  A Go \<open>string\<close> is a sequence of bytes, which is what HOL's \<open>string\<close> (a list of
  eight-bit characters) is; the order on strings is the byte-wise lexicographic one of
  \<open>HOL-Library.List_Lexorder\<close>.
\<close>

named_theorems auth_simps \<open>definitions of the access decisions\<close>
named_theorems guard_simps \<open>definitions of the transition guards\<close>
named_theorems row_simps \<open>how a statement changes the tables\<close>

section \<open>Results\<close>

text \<open>A Go function returning \<open>(T, error)\<close> returns a sum here: \<open>Inl\<close> the error.\<close>

abbreviation is_ok :: "'e + 'a \<Rightarrow> bool" where
  "is_ok r \<equiv> \<not> isl r"

lemma isl_case: "isl r \<longleftrightarrow> (case r of Inl _ \<Rightarrow> True | Inr _ \<Rightarrow> False)"
  by (cases r) auto

section \<open>Sorting by a comparison\<close>

fun insert_by :: "('a \<Rightarrow> 'a \<Rightarrow> bool) \<Rightarrow> 'a \<Rightarrow> 'a list \<Rightarrow> 'a list" where
  "insert_by le x [] = [x]"
| "insert_by le x (y # ys) = (if le x y then x # y # ys else y # insert_by le x ys)"

fun sort_by :: "('a \<Rightarrow> 'a \<Rightarrow> bool) \<Rightarrow> 'a list \<Rightarrow> 'a list" where
  "sort_by le [] = []"
| "sort_by le (x # xs) = insert_by le x (sort_by le xs)"

lemma mset_insert_by [simp]: "mset (insert_by le x xs) = add_mset x (mset xs)"
  by (induction xs) auto

lemma mset_sort_by [simp]: "mset (sort_by le xs) = mset xs"
  by (induction xs) auto

lemma set_insert_by [simp]: "set (insert_by le x xs) = insert x (set xs)"
  by (induction xs) auto

lemma set_sort_by [simp]: "set (sort_by le xs) = set xs"
  by (induction xs) auto

lemma length_sort_by [simp]: "length (sort_by le xs) = length xs"
  by (metis mset_sort_by size_mset)

lemma distinct_sort_by [simp]: "distinct (sort_by le xs) \<longleftrightarrow> distinct xs"
  by (metis mset_sort_by mset_eq_imp_distinct_iff)

text \<open>
  A comparison that is total and transitive on the elements of the list makes the result
  sorted; one that is also antisymmetric makes it the only sorted arrangement, so that the
  instability of the library's sort cannot be observed.
\<close>

definition total_on_list :: "('a \<Rightarrow> 'a \<Rightarrow> bool) \<Rightarrow> 'a set \<Rightarrow> bool" where
  "total_on_list le A \<longleftrightarrow> (\<forall>x\<in>A. \<forall>y\<in>A. le x y \<or> le y x)
     \<and> (\<forall>x\<in>A. \<forall>y\<in>A. \<forall>z\<in>A. le x y \<longrightarrow> le y z \<longrightarrow> le x z)"

lemma total_on_list_mono: "total_on_list le A \<Longrightarrow> B \<subseteq> A \<Longrightarrow> total_on_list le B"
  unfolding total_on_list_def by blast

lemma sorted_insert_by:
  assumes "total_on_list le (insert x (set ys))" and "sorted_wrt le ys"
  shows "sorted_wrt le (insert_by le x ys)"
  using assms
proof (induction ys)
  case Nil
  then show ?case by simp
next
  case (Cons y ys)
  have sub: "total_on_list le (insert x (set ys))"
    by (rule total_on_list_mono [OF Cons.prems(1)]) auto
  have ys: "sorted_wrt le ys" and y: "\<forall>z\<in>set ys. le y z" using Cons.prems(2) by auto
  show ?case
  proof (cases "le x y")
    case True
    have tr: "\<And>z. z \<in> set ys \<Longrightarrow> le x y \<Longrightarrow> le y z \<Longrightarrow> le x z"
      using Cons.prems(1) unfolding total_on_list_def by (meson insertI1 insertI2 list.set_intros)
    then have "\<forall>z\<in>set ys. le x z" using True y by blast
    with True y ys show ?thesis by simp
  next
    case False
    then have "le y x" using Cons.prems(1) unfolding total_on_list_def by auto
    with False y Cons.IH [OF sub ys] show ?thesis by auto
  qed
qed

lemma sorted_sort_by: "total_on_list le (set xs) \<Longrightarrow> sorted_wrt le (sort_by le xs)"
proof (induction xs)
  case Nil
  then show ?case by simp
next
  case (Cons x xs)
  have "total_on_list le (set xs)" by (rule total_on_list_mono [OF Cons.prems]) auto
  then have "sorted_wrt le (sort_by le xs)" by (rule Cons.IH)
  then show ?case using Cons.prems by (auto intro!: sorted_insert_by)
qed

lemma sorted_wrt_mset_unique:
  assumes "sorted_wrt le xs" and "sorted_wrt le ys" and "mset xs = mset ys"
    and "\<And>x y. x \<in> set xs \<Longrightarrow> y \<in> set xs \<Longrightarrow> le x y \<Longrightarrow> le y x \<Longrightarrow> x = y"
  shows "xs = ys"
  using assms
proof (induction xs arbitrary: ys)
  case Nil
  then show ?case by simp
next
  case (Cons x xs)
  then obtain y ys' where ys: "ys = y # ys'" by (cases ys) auto
  have sets: "set (x # xs) = set (y # ys')" using Cons.prems(3) ys by (metis mset_eq_setD)
  have "x = y"
  proof (rule ccontr)
    assume ne: "x \<noteq> y"
    then have "y \<in> set xs" and "x \<in> set ys'" using sets by auto
    then have "le x y" and "le y x" using Cons.prems(1,2) ys by auto
    then show False using Cons.prems(4) [of x y] ne \<open>y \<in> set xs\<close> by simp
  qed
  moreover have "xs = ys'"
    using Cons.prems ys \<open>x = y\<close> by (intro Cons.IH) auto
  ultimately show ?case using ys by simp
qed

lemma sort_by_unique:
  assumes "total_on_list le (set xs)" and "sorted_wrt le ys" and "mset ys = mset xs"
    and "\<And>x y. x \<in> set xs \<Longrightarrow> y \<in> set xs \<Longrightarrow> le x y \<Longrightarrow> le y x \<Longrightarrow> x = y"
  shows "sort_by le xs = ys"
  by (rule sorted_wrt_mset_unique [where le = le]) (use assms sorted_sort_by in auto)

lemma sort_by_perm:
  assumes "total_on_list le (set xs)" and "mset xs = mset ys"
    and "\<And>x y. x \<in> set xs \<Longrightarrow> y \<in> set xs \<Longrightarrow> le x y \<Longrightarrow> le y x \<Longrightarrow> x = y"
  shows "sort_by le xs = sort_by le ys"
proof (rule sort_by_unique [OF assms(1) _ _ assms(3)])
  show "sorted_wrt le (sort_by le ys)"
    using assms(1,2) by (metis mset_eq_setD sorted_sort_by)
qed (use assms(2) in auto)

section \<open>Selection by rank\<close>

text \<open>
  The loop \<open>if x.rank() > out.rank() { out = x }\<close> keeps the first element of the highest
  rank seen. It is shared by \<open>MaxRisk\<close> and by \<open>Grants.LevelFor\<close>; the interface it needs
  is a rank in which the starting value is lowest.
\<close>

fun pick_highest :: "('a \<Rightarrow> nat) \<Rightarrow> 'a \<Rightarrow> 'a list \<Rightarrow> 'a" where
  "pick_highest rk out [] = out"
| "pick_highest rk out (x # xs) = pick_highest rk (if rk x > rk out then x else out) xs"

locale ranked =
  fixes rk :: "'a \<Rightarrow> nat" and bottom :: "'a"
  assumes rank_bottom: "rk bottom = 0"
begin

lemma pick_mem: "pick_highest rk out xs = out \<or> pick_highest rk out xs \<in> set xs"
  by (induction xs arbitrary: out) (auto split: if_splits)

lemma pick_rank: "rk (pick_highest rk out xs) = Max (insert (rk out) (rk ` set xs))"
proof (induction xs arbitrary: out)
  case Nil
  then show ?case by simp
next
  case (Cons x xs)
  show ?case
    by (cases "rk ` set xs = {}") (auto simp: Cons.IH max_def)
qed

lemma pick_upper: "x \<in> set xs \<Longrightarrow> rk x \<le> rk (pick_highest rk out xs)"
  by (simp add: pick_rank)

lemma pick_lower: "rk out \<le> rk (pick_highest rk out xs)"
  by (simp add: pick_rank)

lemma pick_reaches:
  "n > 0 \<Longrightarrow> n \<le> rk (pick_highest rk bottom xs) \<longleftrightarrow> (\<exists>x\<in>set xs. n \<le> rk x)"
  by (simp add: pick_rank Max_ge_iff rank_bottom)

end

section \<open>Selection by a comparison\<close>

text \<open>
  The loop \<open>if best == nil || better(x, *best) { best = x }\<close>. When the comparison is a strict
  weak order, what it keeps is beaten by nothing, and where no two elements tie the result does not
  depend on the order in which they are visited.
\<close>

fun select_best :: "('a \<Rightarrow> 'a \<Rightarrow> bool) \<Rightarrow> 'a option \<Rightarrow> 'a list \<Rightarrow> 'a option" where
  "select_best better best [] = best"
| "select_best better best (x # xs) =
    select_best better (case best of None \<Rightarrow> Some x
                   | Some b \<Rightarrow> if better x b then Some x else best) xs"

locale strict_choice =
  fixes better :: "'a \<Rightarrow> 'a \<Rightarrow> bool"
  assumes better_irrefl: "\<not> better x x"
    and better_trans: "better x y \<Longrightarrow> better y z \<Longrightarrow> better x z"
    and better_negtrans: "\<not> better x y \<Longrightarrow> \<not> better y z \<Longrightarrow> \<not> better x z"
begin

lemma select_Some: "select_best better (Some c) xs \<noteq> None"
  by (induction xs arbitrary: c) auto

lemma select_None_iff: "select_best better None xs = None \<longleftrightarrow> xs = []"
  by (cases xs) (simp_all add: select_Some)

lemma select_mem: "select_best better best xs = Some b \<Longrightarrow> best = Some b \<or> b \<in> set xs"
  by (induction xs arbitrary: best) (auto split: option.splits if_splits)

lemma select_unbeaten:
  "select_best better best xs = Some b \<Longrightarrow>
     (\<forall>x\<in>set xs. \<not> better x b) \<and> (\<forall>c. best = Some c \<longrightarrow> \<not> better c b)"
proof (induction xs arbitrary: best)
  case Nil
  then show ?case by (simp add: better_irrefl)
next
  case (Cons x xs)
  let ?next = "case best of None \<Rightarrow> Some x | Some c \<Rightarrow> if better x c then Some x else best"
  have ih: "(\<forall>y\<in>set xs. \<not> better y b) \<and> (\<forall>c. ?next = Some c \<longrightarrow> \<not> better c b)"
    using Cons.prems by (intro Cons.IH) simp
  show ?case
  proof (cases best)
    case None
    with ih show ?thesis by simp
  next
    case (Some c)
    show ?thesis
    proof (cases "better x c")
      case True
      with ih Some have "\<not> better x b" by simp
      moreover from this True have "\<not> better c b" using better_trans by blast
      ultimately show ?thesis using ih Some by simp
    next
      case False
      with ih Some have "\<not> better c b" by simp
      moreover from this False have "\<not> better x b" using better_negtrans by blast
      ultimately show ?thesis using ih Some by simp
    qed
  qed
qed

lemma select_order_free:
  assumes "set xs = set ys"
    and "\<And>x y. x \<in> set xs \<Longrightarrow> y \<in> set xs \<Longrightarrow> x \<noteq> y \<Longrightarrow> better x y \<or> better y x"
  shows "select_best better None xs = select_best better None ys"
proof (cases "select_best better None xs")
  case None
  then show ?thesis using assms(1) by (simp add: select_None_iff)
next
  case (Some a)
  then have "ys \<noteq> []" using assms(1) by (auto simp: select_None_iff)
  then obtain b where b: "select_best better None ys = Some b"
    using select_None_iff [of ys] by (cases "select_best better None ys") auto
  have "a \<in> set xs" and "b \<in> set ys" using select_mem [OF Some] select_mem [OF b] by auto
  moreover have "\<not> better b a" and "\<not> better a b"
    using select_unbeaten [OF Some] select_unbeaten [OF b] calculation assms(1) by auto
  ultimately have "a = b" using assms by metis
  with Some b show ?thesis by simp
qed

end

section \<open>Keyed tables\<close>

text \<open>
  A table is the list of its rows in insertion order. \<open>update_where p f\<close> is an
  \<open>UPDATE ... WHERE p\<close>; its row count is \<open>count_where p\<close>.
\<close>

definition update_where :: "('r \<Rightarrow> bool) \<Rightarrow> ('r \<Rightarrow> 'r) \<Rightarrow> 'r list \<Rightarrow> 'r list" where
  "update_where p f rs = map (\<lambda>r. if p r then f r else r) rs"

definition count_where :: "('r \<Rightarrow> bool) \<Rightarrow> 'r list \<Rightarrow> nat" where
  "count_where p rs = length (filter p rs)"

lemma length_update_where [simp]: "length (update_where p f rs) = length rs"
  by (simp add: update_where_def)

lemma update_where_Nil [simp]: "update_where p f [] = []"
  and update_where_Cons [simp]:
    "update_where p f (r # rs) = (if p r then f r else r) # update_where p f rs"
  by (simp_all add: update_where_def)

lemma map_key_update_where:
  "(\<And>r. key (f r) = key r) \<Longrightarrow> map key (update_where p f rs) = map key rs"
  by (simp add: update_where_def)

lemma update_where_none: "count_where p rs = 0 \<Longrightarrow> update_where p f rs = rs"
  by (induction rs) (auto simp: count_where_def)

lemma set_update_where:
  "x \<in> set (update_where p f rs) \<longleftrightarrow> (\<exists>r\<in>set rs. x = (if p r then f r else r))"
  by (auto simp: update_where_def)

lemma find_update_where:
  assumes "\<And>r. key (f r) = key r"
  shows "find (\<lambda>r. key r = k) (update_where p f rs)
    = map_option (\<lambda>r. if p r then f r else r) (find (\<lambda>r. key r = k) rs)"
  by (induction rs) (auto simp: assms)

lemma find_append_new:
  "find p (rs @ [r]) = (case find p rs of Some x \<Rightarrow> Some x | None \<Rightarrow> if p r then Some r else None)"
  by (induction rs) auto

lemma find_key_unique:
  assumes "distinct (map key rs)" and "r \<in> set rs"
  shows "find (\<lambda>x. key x = key r) rs = Some r"
  using assms by (induction rs) (auto simp: rev_image_eqI)

lemma find_SomeD: "find p rs = Some r \<Longrightarrow> r \<in> set rs \<and> p r"
  by (auto simp: find_Some_iff in_set_conv_nth)

lemma find_None_all: "find p rs = None \<longleftrightarrow> (\<forall>r\<in>set rs. \<not> p r)"
  by (auto simp: find_None_iff)

lemma count_where_key:
  assumes "distinct (map key rs)"
  shows "count_where (\<lambda>r. key r = k \<and> q r) rs
    = (case find (\<lambda>r. key r = k) rs of Some r \<Rightarrow> (if q r then 1 else 0) | None \<Rightarrow> 0)"
  using assms
proof (induction rs)
  case Nil
  then show ?case by (simp add: count_where_def)
next
  case (Cons r rs)
  have none: "k \<notin> key ` set rs \<Longrightarrow> filter (\<lambda>r. key r = k \<and> q r) rs = []"
    by (auto simp: filter_empty_conv)
  show ?case
  proof (cases "key r = k")
    case True
    with Cons.prems none show ?thesis by (simp add: count_where_def)
  next
    case False
    with Cons show ?thesis by (simp add: count_where_def)
  qed
qed

section \<open>Maps as association lists\<close>

text \<open>
  A Go map that is iterated is the list of its entries, no key twice; the order of the list is
  the unspecified iteration order. \<open>put\<close> is the assignment \<open>m[k] = v\<close>.
\<close>

fun put :: "'k \<Rightarrow> 'v \<Rightarrow> ('k \<times> 'v) list \<Rightarrow> ('k \<times> 'v) list" where
  "put k v [] = [(k, v)]"
| "put k v ((k', v') # es) = (if k = k' then (k, v) # es else (k', v') # put k v es)"

lemma map_of_put [simp]: "map_of (put k v es) = (map_of es)(k \<mapsto> v)"
  by (induction es) auto

lemma keys_put [simp]: "fst ` set (put k v es) = insert k (fst ` set es)"
proof (induction es)
  case Nil
  then show ?case by simp
next
  case (Cons e es)
  then show ?case by (cases e) auto
qed

lemma set_put_subset: "set (put k v es) \<subseteq> insert (k, v) (set es)"
proof (induction es)
  case Nil
  then show ?case by simp
next
  case (Cons e es)
  then show ?case by (cases e) auto
qed

lemma distinct_put [simp]: "distinct (map fst (put k v es)) \<longleftrightarrow> distinct (map fst es)"
proof (induction es)
  case Nil
  then show ?case by simp
next
  case (Cons e es)
  then show ?case by (cases e) auto
qed

lemma put_new: "k \<notin> fst ` set es \<Longrightarrow> put k v es = es @ [(k, v)]"
  by (induction k v es rule: put.induct) auto

text \<open>The map that a sequence of assignments leaves: the last one to a key wins.\<close>

definition last_wins :: "('k \<times> 'v) list \<Rightarrow> ('k \<times> 'v) list" where
  "last_wins es = foldl (\<lambda>m e. put (fst e) (snd e) m) [] es"

lemma last_wins_snoc: "last_wins (es @ [e]) = put (fst e) (snd e) (last_wins es)"
  by (simp add: last_wins_def)

lemma distinct_last_wins [simp]: "distinct (map fst (last_wins es))"
proof (induction es rule: rev_induct)
  case Nil
  then show ?case by (simp add: last_wins_def)
next
  case (snoc e es)
  then show ?case by (simp add: last_wins_snoc)
qed

lemma map_of_last_wins: "map_of (last_wins es) = map_of (rev es)"
proof (induction es rule: rev_induct)
  case Nil
  then show ?case by (simp add: last_wins_def)
next
  case (snoc e es)
  then show ?case by (cases e) (simp add: last_wins_snoc fun_eq_iff)
qed

lemma last_wins_distinct: "distinct (map fst es) \<Longrightarrow> last_wins es = es"
proof (induction es rule: rev_induct)
  case Nil
  then show ?case by (simp add: last_wins_def)
next
  case (snoc e es)
  then show ?case by (cases e) (simp add: last_wins_snoc put_new)
qed

lemma map_of_Some_in: "distinct (map fst es) \<Longrightarrow> map_of es k = Some v \<longleftrightarrow> (k, v) \<in> set es"
  by (rule map_of_eq_Some_iff)

lemma map_of_filter_key:
  "map_of (filter (\<lambda>e. P (fst e)) es) k = (if P k then map_of es k else None)"
  by (induction es) auto

end
