(* ===== verification/Risk.thy ===== *)
theory Risk
  imports Prelude
begin

text \<open>
  Risk levels of a mutation (\<open>internal/operations/models.go\<close>). \<open>RiskLevel\<close> is a Go string
  type, so a value need not be one of the four constants: the empty string is the unset level
  and any other string is an unrecognised one.
\<close>

datatype risk_level = RiskUnset | RiskLow | RiskMedium | RiskHigh | RiskCritical | RiskOther string

fun risk_String :: "risk_level \<Rightarrow> string" where
  "risk_String RiskUnset = ''''"
| "risk_String RiskLow = ''low''"
| "risk_String RiskMedium = ''medium''"
| "risk_String RiskHigh = ''high''"
| "risk_String RiskCritical = ''critical''"
| "risk_String (RiskOther s) = s"

text \<open>The conversion \<open>RiskLevel(s)\<close>; \<open>RiskOther\<close> holds none of the five known spellings.\<close>

definition risk_of_string :: "string \<Rightarrow> risk_level" where
  "risk_of_string s =
    (if s = '''' then RiskUnset
     else if s = ''low'' then RiskLow
     else if s = ''medium'' then RiskMedium
     else if s = ''high'' then RiskHigh
     else if s = ''critical'' then RiskCritical
     else RiskOther s)"

definition wf_risk :: "risk_level \<Rightarrow> bool" where
  "wf_risk r \<longleftrightarrow> (case r of
     RiskOther s \<Rightarrow> s \<notin> {'''', ''low'', ''medium'', ''high'', ''critical''} | _ \<Rightarrow> True)"

lemma risk_String_of_string [simp]: "risk_String (risk_of_string s) = s"
  by (simp add: risk_of_string_def)

lemma risk_of_string_String: "wf_risk r \<Longrightarrow> risk_of_string (risk_String r) = r"
  by (cases r) (auto simp: risk_of_string_def wf_risk_def)

lemma wf_risk_of_string [simp]: "wf_risk (risk_of_string s)"
  by (auto simp: risk_of_string_def wf_risk_def)

fun risk_rank :: "risk_level \<Rightarrow> nat" where
  "risk_rank RiskUnset = 0"
| "risk_rank RiskLow = 1"
| "risk_rank RiskMedium = 2"
| "risk_rank RiskHigh = 3"
| "risk_rank RiskCritical = 4"
| "risk_rank (RiskOther _) = 5"

definition risk_Valid :: "risk_level \<Rightarrow> bool" where
  "risk_Valid r = (let rank = risk_rank r in rank \<ge> 1 \<and> rank \<le> 4)"

definition risk_AtLeast :: "risk_level \<Rightarrow> risk_level \<Rightarrow> bool" where
  "risk_AtLeast r other \<longleftrightarrow> risk_rank r \<ge> risk_rank other"

fun MaxRisk_loop :: "risk_level \<Rightarrow> risk_level list \<Rightarrow> risk_level" where
  "MaxRisk_loop out [] = out"
| "MaxRisk_loop out (l # ls) =
    (if l = RiskUnset then MaxRisk_loop out ls
     else if risk_rank l > risk_rank out then MaxRisk_loop l ls
     else MaxRisk_loop out ls)"

definition MaxRisk :: "risk_level list \<Rightarrow> risk_level" where
  "MaxRisk levels =
    (let out = MaxRisk_loop RiskUnset levels
     in if out = RiskUnset then RiskLow else out)"

section \<open>Lemmas\<close>

interpretation risk: ranked risk_rank RiskUnset
  by unfold_locales simp

lemma risk_rank_0: "risk_rank r = 0 \<longleftrightarrow> r = RiskUnset"
  by (cases r) auto

lemma risk_Valid_cases:
  "risk_Valid r \<longleftrightarrow> r \<in> {RiskLow, RiskMedium, RiskHigh, RiskCritical}"
  by (cases r) (auto simp: risk_Valid_def Let_def)

lemma risk_Valid_of_rank: "risk_rank r = risk_rank s \<Longrightarrow> risk_Valid r = risk_Valid s"
  by (simp add: risk_Valid_def)

lemma risk_rank_inj: "risk_Valid r \<Longrightarrow> risk_rank r = risk_rank s \<Longrightarrow> r = s"
  by (cases r; cases s) (auto simp: risk_Valid_def Let_def)

lemma MaxRisk_loop_pick: "MaxRisk_loop out ls = pick_highest risk_rank out ls"
  by (induction ls arbitrary: out) auto

lemma MaxRisk_rank: "risk_rank (MaxRisk ls) = Max (insert 1 (risk_rank ` set ls))"
proof -
  let ?out = "pick_highest risk_rank RiskUnset ls"
  have r: "risk_rank ?out = Max (insert 0 (risk_rank ` set ls))"
    using risk.pick_rank [of RiskUnset ls] by simp
  show ?thesis
  proof (cases "?out = RiskUnset")
    case True
    then have "Max (insert 0 (risk_rank ` set ls)) = 0" using r by simp
    then have "\<forall>x\<in>set ls. risk_rank x = 0" by (simp add: Max_eq_iff)
    then have "Max (insert 1 (risk_rank ` set ls)) = 1" by (intro Max_eqI) auto
    with True show ?thesis by (simp add: MaxRisk_def MaxRisk_loop_pick)
  next
    case False
    then have ge: "risk_rank ?out \<ge> 1" using risk_rank_0 [of ?out] by linarith
    have fin: "finite (risk_rank ` set ls)" by simp
    have "Max (insert 1 (risk_rank ` set ls)) = risk_rank ?out"
    proof (rule Max_eqI)
      show "risk_rank ?out \<in> insert 1 (risk_rank ` set ls)"
        using risk.pick_mem [of RiskUnset ls] False by auto
    qed (use ge risk.pick_upper in auto)
    with False show ?thesis by (simp add: MaxRisk_def MaxRisk_loop_pick)
  qed
qed

lemma MaxRisk_ge: "l \<in> set ls \<Longrightarrow> risk_rank l \<le> risk_rank (MaxRisk ls)"
  by (simp add: MaxRisk_rank)

lemma MaxRisk_mem: "MaxRisk ls \<in> insert RiskLow (set ls)"
  using risk.pick_mem [of RiskUnset ls] by (auto simp: MaxRisk_def MaxRisk_loop_pick Let_def)

lemma MaxRisk_not_unset: "MaxRisk ls \<noteq> RiskUnset"
  by (simp add: MaxRisk_def Let_def)

text \<open>
  \<open>MaxRisk\<close> is the only way a declared risk is combined with overrides, and it can raise
  but never lower: the result is at least as severe as every level given, it is one of the
  levels given (or low, when none is given), it is the unset level never, and adding an unset
  override changes nothing.
\<close>
theorem MaxRisk_raises_only:
  "(\<forall>l\<in>set ls. risk_AtLeast (MaxRisk ls) l)
   \<and> MaxRisk ls \<in> insert RiskLow (set ls)
   \<and> MaxRisk ls \<noteq> RiskUnset
   \<and> MaxRisk (ls @ [RiskUnset]) = MaxRisk ls"
proof -
  have "MaxRisk_loop out (ls @ [RiskUnset]) = MaxRisk_loop out ls" for out
    by (induction ls arbitrary: out) auto
  then have "MaxRisk (ls @ [RiskUnset]) = MaxRisk ls" by (simp add: MaxRisk_def)
  then show ?thesis
    using MaxRisk_mem MaxRisk_not_unset by (auto simp: risk_AtLeast_def MaxRisk_ge)
qed

theorem MaxRisk_raises_only_witness:
  "risk_AtLeast (MaxRisk [RiskLow, RiskHigh, RiskUnset]) RiskHigh
   \<and> MaxRisk [RiskLow, RiskHigh, RiskUnset] = RiskHigh"
  using MaxRisk_raises_only [of "[RiskLow, RiskHigh, RiskUnset]"]
  by (auto simp: MaxRisk_def)

end
