(* ===== verification/Go_Lib.thy ===== *)
theory Go_Lib
  imports Prelude
begin

text \<open>
  What the modelled packages use of Go's standard library on strings and times:
  decimal printing (\<open>fmt\<close> verb \<open>%d\<close>, \<open>strconv.FormatInt\<close>), \<open>strings.TrimSpace\<close>,
  \<open>strings.Cut\<close>, \<open>strings.HasPrefix\<close>, \<open>strings.ToLower\<close> on ASCII, \<open>hex.EncodeToString\<close>,
  and the instants of package \<open>time\<close>.
\<close>

section \<open>Time\<close>

text \<open>
  An instant is its distance from the Unix epoch in nanoseconds. The zero \<open>time.Time\<close>
  (what \<open>IsZero\<close> tests) is midnight, January 1 of year 1. \<open>UnixMilli\<close> rounds towards
  minus infinity, and \<open>time.UnixMilli\<close> is its section.
\<close>

type_synonym time = int
type_synonym duration = int
type_synonym millis = int

definition zero_time :: time where
  "zero_time = -62135596800 * 1000000000"

definition IsZero :: "time \<Rightarrow> bool" where
  "IsZero t \<longleftrightarrow> t = zero_time"

definition UnixMilli :: "time \<Rightarrow> millis" where
  "UnixMilli t = t div 1000000"

definition time_UnixMilli :: "millis \<Rightarrow> time" where
  "time_UnixMilli ms = ms * 1000000"

abbreviation Second :: duration where "Second \<equiv> 1000000000"
abbreviation Minute :: duration where "Minute \<equiv> 60 * 1000000000"
abbreviation Hour :: duration where "Hour \<equiv> 3600 * 1000000000"

lemma UnixMilli_inverse [simp]: "UnixMilli (time_UnixMilli ms) = ms"
  by (simp add: UnixMilli_def time_UnixMilli_def)

lemma time_UnixMilli_le: "time_UnixMilli (UnixMilli t) \<le> t"
proof -
  have "t div 1000000 * 1000000 \<le> t"
    by (metis add_increasing2 div_mult_mod_eq order.refl pos_mod_sign zero_less_numeral)
  then show ?thesis by (simp add: UnixMilli_def time_UnixMilli_def)
qed

lemma UnixMilli_mono: "s \<le> t \<Longrightarrow> UnixMilli s \<le> UnixMilli t"
  by (simp add: UnixMilli_def zdiv_mono1)

lemma time_UnixMilli_mono [simp]:
  "time_UnixMilli a \<le> time_UnixMilli b \<longleftrightarrow> a \<le> b"
  "time_UnixMilli a < time_UnixMilli b \<longleftrightarrow> a < b"
  by (simp_all add: time_UnixMilli_def)

lemma time_UnixMilli_inj [simp]: "time_UnixMilli a = time_UnixMilli b \<longleftrightarrow> a = b"
  by (simp add: time_UnixMilli_def)

lemma before_UnixMilli: "t < time_UnixMilli b \<longleftrightarrow> UnixMilli t < b"
  unfolding UnixMilli_def time_UnixMilli_def by (auto simp: div_less_iff_less_mult)

section \<open>Decimal numerals\<close>

definition digit_char :: "nat \<Rightarrow> char" where
  "digit_char d = char_of (48 + d)"

fun show_nat :: "nat \<Rightarrow> string" where
  "show_nat n = (if n < 10 then [digit_char n] else show_nat (n div 10) @ [digit_char (n mod 10)])"

declare show_nat.simps [simp del]

definition show_int :: "int \<Rightarrow> string" where
  "show_int i = (if i < 0 then CHR ''-'' # show_nat (nat (- i)) else show_nat (nat i))"

definition is_digit :: "char \<Rightarrow> bool" where
  "is_digit c \<longleftrightarrow> 48 \<le> (of_char c :: nat) \<and> (of_char c :: nat) \<le> 57"

definition digit_val :: "char \<Rightarrow> nat" where
  "digit_val c = of_char c - 48"

fun nat_of_digits :: "nat \<Rightarrow> string \<Rightarrow> nat" where
  "nat_of_digits acc [] = acc"
| "nat_of_digits acc (c # cs) = nat_of_digits (10 * acc + digit_val c) cs"

lemma of_char_digit_char [simp]: "d < 10 \<Longrightarrow> (of_char (digit_char d) :: nat) = 48 + d"
  by (simp add: digit_char_def)

lemma is_digit_digit_char [simp]: "d < 10 \<Longrightarrow> is_digit (digit_char d)"
  by (simp add: is_digit_def)

lemma digit_val_digit_char [simp]: "d < 10 \<Longrightarrow> digit_val (digit_char d) = d"
  by (simp add: digit_val_def)

lemma nat_of_digits_append:
  "nat_of_digits acc (xs @ ys) = nat_of_digits (nat_of_digits acc xs) ys"
  by (induction xs arbitrary: acc) auto

lemma show_nat_digits: "\<forall>c\<in>set (show_nat n). is_digit c"
proof (induction n rule: show_nat.induct)
  case (1 n)
  then show ?case by (subst show_nat.simps) auto
qed

lemma show_nat_nonempty [simp]: "show_nat n \<noteq> []"
  by (subst show_nat.simps) simp

lemma nat_of_digits_show_nat: "nat_of_digits 0 (show_nat n) = n"
proof (induction n rule: show_nat.induct)
  case (1 n)
  show ?case
    by (cases "n < 10")
       (use 1 in \<open>simp_all add: show_nat.simps [of n] nat_of_digits_append\<close>)
qed

lemma show_nat_inj [simp]: "show_nat m = show_nat n \<longleftrightarrow> m = n"
  by (metis nat_of_digits_show_nat)

lemma digit_ne_colon: "is_digit c \<Longrightarrow> c \<noteq> CHR '':''"
  by (auto simp: is_digit_def)

lemma digit_ne_minus: "is_digit c \<Longrightarrow> c \<noteq> CHR ''-''"
  by (auto simp: is_digit_def)

lemma show_int_inj [simp]: "show_int i = show_int j \<longleftrightarrow> i = j"
proof
  have hd: "is_digit (hd (show_nat n))" for n
    using show_nat_digits [of n] by (cases "show_nat n") auto
  assume e: "show_int i = show_int j"
  then have "i < 0 \<longleftrightarrow> j < 0"
    unfolding show_int_def using hd digit_ne_minus
    by (metis (no_types, lifting) list.sel(1))
  with e show "i = j" by (auto simp: show_int_def split: if_splits)
qed simp

text \<open>
  A run of non-delimiter characters followed by the delimiter can be split in one way only.
  The length prefixes of the payload hash and of the audit chain rest on this.
\<close>

lemma split_at_delimiter:
  assumes "\<forall>c\<in>set xs. c \<noteq> d" and "\<forall>c\<in>set ys. c \<noteq> d"
    and "xs @ d # us = ys @ d # vs"
  shows "xs = ys \<and> us = vs"
  using assms
proof (induction xs arbitrary: ys)
  case Nil
  then show ?case by (cases ys) auto
next
  case (Cons x xs)
  then show ?case by (cases ys) auto
qed

section \<open>Length-prefixed framing\<close>

text \<open>\<open>fmt.Fprintf(h, "%d:", len(part)); h.Write(part)\<close> for each part in turn.\<close>

fun frame :: "string list \<Rightarrow> string" where
  "frame [] = []"
| "frame (p # ps) = show_nat (length p) @ CHR '':'' # p @ frame ps"

lemma frame_inj: "frame ps = frame qs \<Longrightarrow> ps = qs"
proof (induction ps arbitrary: qs)
  case Nil
  then show ?case by (cases qs) auto
next
  case (Cons p ps)
  then obtain q qs' where qs: "qs = q # qs'" by (cases qs) auto
  have nc: "\<forall>c\<in>set (show_nat n). c \<noteq> CHR '':''" for n
    using show_nat_digits digit_ne_colon by blast
  have "show_nat (length p) = show_nat (length q) \<and> p @ frame ps = q @ frame qs'"
    by (rule split_at_delimiter [OF nc nc]) (use Cons.prems qs in simp)
  then have "p = q" and "frame ps = frame qs'" by auto
  with Cons.IH qs show ?case by simp
qed

section \<open>Strings\<close>

fun has_prefix :: "string \<Rightarrow> string \<Rightarrow> bool" where
  "has_prefix s [] = True"
| "has_prefix [] (p # ps) = False"
| "has_prefix (c # cs) (p # ps) = (c = p \<and> has_prefix cs ps)"

lemma has_prefix_iff: "has_prefix s p \<longleftrightarrow> (\<exists>r. s = p @ r)"
  by (induction s p rule: has_prefix.induct) auto

text \<open>\<open>strings.Cut(s, sep)\<close> for a one-byte separator.\<close>

fun Cut :: "string \<Rightarrow> char \<Rightarrow> string \<times> string \<times> bool" where
  "Cut [] sep = ([], [], False)"
| "Cut (c # cs) sep = (if c = sep then ([], cs, True)
     else (case Cut cs sep of (a, b, ok) \<Rightarrow> (c # a, b, ok)))"

lemma Cut_found: "\<forall>c\<in>set a. c \<noteq> sep \<Longrightarrow> Cut (a @ sep # b) sep = (a, b, True)"
  by (induction a) auto

lemma Cut_sound: "Cut s sep = (a, b, True) \<Longrightarrow> s = a @ sep # b \<and> sep \<notin> set a"
  by (induction s arbitrary: a b) (auto split: if_splits prod.splits)

text \<open>
  \<open>strings.TrimSpace\<close> removes leading and trailing Unicode white space. In UTF-8 a white-space
  code point is one of the byte sequences below (\<open>unicode.IsSpace\<close>).
\<close>

definition white_space :: "nat list list" where
  "white_space =
    [[9], [10], [11], [12], [13], [32], [194, 133], [194, 160], [225, 154, 128],
     [226, 128, 128], [226, 128, 129], [226, 128, 130], [226, 128, 131], [226, 128, 132],
     [226, 128, 133], [226, 128, 134], [226, 128, 135], [226, 128, 136], [226, 128, 137],
     [226, 128, 138], [226, 128, 168], [226, 128, 169], [226, 128, 175], [226, 129, 159],
     [227, 128, 128]]"

definition space_codes :: "string list" where
  "space_codes = map (map char_of) white_space"

fun drop_prefix :: "string \<Rightarrow> string \<Rightarrow> string option" where
  "drop_prefix [] s = Some s"
| "drop_prefix (p # ps) [] = None"
| "drop_prefix (p # ps) (c # cs) = (if p = c then drop_prefix ps cs else None)"

fun first_drop :: "string list \<Rightarrow> string \<Rightarrow> string option" where
  "first_drop [] s = None"
| "first_drop (p # ps) s = (case drop_prefix p s of Some r \<Rightarrow> Some r | None \<Rightarrow> first_drop ps s)"

lemma drop_prefix_length: "drop_prefix p s = Some r \<Longrightarrow> length s = length p + length r"
  by (induction p s rule: drop_prefix.induct) (auto split: if_splits)

lemma first_drop_length:
  "first_drop ps s = Some r \<Longrightarrow> \<forall>p\<in>set ps. p \<noteq> [] \<Longrightarrow> length r < length s"
proof (induction ps)
  case Nil
  then show ?case by simp
next
  case (Cons p ps)
  then show ?case
    by (cases "drop_prefix p s") (auto dest: drop_prefix_length)
qed

lemma space_codes_nonempty: "\<forall>p\<in>set space_codes. p \<noteq> []"
  by (simp add: space_codes_def white_space_def)

lemma space_codes_rev_nonempty: "\<forall>p\<in>set (map rev space_codes). p \<noteq> []"
  using space_codes_nonempty by auto

function trim_left :: "string list \<Rightarrow> string \<Rightarrow> string" where
  "trim_left codes s = (case first_drop codes s of
     Some r \<Rightarrow> if length r < length s then trim_left codes r else s | None \<Rightarrow> s)"
  by pat_completeness auto
termination
  by (relation "measure (\<lambda>(codes, s). length s)") auto

declare trim_left.simps [simp del]

definition TrimSpace :: "string \<Rightarrow> string" where
  "TrimSpace s = rev (trim_left (map rev space_codes) (rev (trim_left space_codes s)))"

text \<open>No code in \<open>space_codes\<close> matches the front of a trimmed string.\<close>

lemma trim_left_clean:
  "\<forall>p\<in>set codes. p \<noteq> [] \<Longrightarrow> first_drop codes (trim_left codes s) = None"
proof (induction codes s rule: trim_left.induct)
  case (1 codes s)
  show ?case
  proof (cases "first_drop codes s")
    case None
    then show ?thesis by (simp add: trim_left.simps [of codes s])
  next
    case (Some r)
    then have "length r < length s" using 1(2) by (rule first_drop_length)
    with Some 1 show ?thesis by (simp add: trim_left.simps [of codes s])
  qed
qed

lemma trim_left_id: "first_drop codes s = None \<Longrightarrow> trim_left codes s = s"
  by (simp add: trim_left.simps [of codes s])

lemma TrimSpace_id:
  "first_drop space_codes s = None \<Longrightarrow> first_drop (map rev space_codes) (rev s) = None \<Longrightarrow>
    TrimSpace s = s"
  by (simp add: TrimSpace_def trim_left_id)

text \<open>Trimming twice is trimming once.\<close>

lemma drop_prefix_Some: "drop_prefix p s = Some r \<longleftrightarrow> s = p @ r"
  by (induction p s rule: drop_prefix.induct) auto

lemma first_drop_None: "first_drop codes s = None \<longleftrightarrow> (\<forall>p\<in>set codes. \<forall>r. s \<noteq> p @ r)"
proof (induction codes)
  case Nil
  then show ?case by simp
next
  case (Cons p codes)
  have "drop_prefix p s = None \<longleftrightarrow> (\<forall>r. s \<noteq> p @ r)"
    using drop_prefix_Some [of p s] by (cases "drop_prefix p s") auto
  with Cons show ?case by (cases "drop_prefix p s") auto
qed

lemma trim_left_suffix: "\<exists>pre. s = pre @ trim_left codes s"
proof (induction codes s rule: trim_left.induct)
  case (1 codes s)
  show ?case
  proof (cases "first_drop codes s")
    case None
    then show ?thesis by (simp add: trim_left.simps [of codes s])
  next
    case (Some r)
    have "\<exists>p. s = p @ r"
      using Some by (induction codes) (auto simp: drop_prefix_Some split: option.splits)
    then obtain p where p: "s = p @ r" by blast
    show ?thesis
    proof (cases "length r < length s")
      case True
      then obtain pre where "r = pre @ trim_left codes r" using 1 [OF Some] by blast
      moreover have "trim_left codes s = trim_left codes r"
        using Some True by (simp add: trim_left.simps [of codes s])
      ultimately show ?thesis using p by (intro exI [of _ "p @ pre"]) simp
    next
      case False
      with Some show ?thesis by (simp add: trim_left.simps [of codes s])
    qed
  qed
qed

lemma TrimSpace_idem [simp]: "TrimSpace (TrimSpace s) = TrimSpace s"
proof (rule TrimSpace_id)
  let ?l = "trim_left space_codes s" and ?rc = "map rev space_codes"
  have "first_drop space_codes ?l = None"
    using space_codes_nonempty by (rule trim_left_clean)
  moreover obtain pre where "rev ?l = pre @ trim_left ?rc (rev ?l)"
    using trim_left_suffix by blast
  then have "?l = TrimSpace s @ rev pre"
    by (metis TrimSpace_def rev_append rev_rev_ident)
  ultimately show "first_drop space_codes (TrimSpace s) = None"
    unfolding first_drop_None by (metis append_assoc)
  show "first_drop ?rc (rev (TrimSpace s)) = None"
    unfolding TrimSpace_def rev_rev_ident using space_codes_rev_nonempty by (rule trim_left_clean)
qed

text \<open>A string that starts and ends with a visible ASCII character has nothing to trim.\<close>

definition visible :: "char \<Rightarrow> bool" where
  "visible c \<longleftrightarrow> 32 < (of_char c :: nat) \<and> (of_char c :: nat) < 128"

lemma drop_prefix_visible:
  "p \<noteq> [] \<Longrightarrow> \<not> visible (hd p) \<Longrightarrow> visible (hd s) \<Longrightarrow> drop_prefix p s = None"
  by (cases p; cases s) auto

lemma first_drop_visible:
  "\<forall>p\<in>set codes. p \<noteq> [] \<and> \<not> visible (hd p) \<Longrightarrow> visible (hd s) \<Longrightarrow> first_drop codes s = None"
  by (induction codes) (auto simp: drop_prefix_visible)

lemma TrimSpace_visible:
  assumes "s \<noteq> []" and "visible (hd s)" and "visible (last s)"
  shows "TrimSpace s = s"
proof (rule TrimSpace_id)
  show "first_drop space_codes s = None"
    by (rule first_drop_visible [OF _ assms(2)])
       (simp add: space_codes_def white_space_def visible_def)
  have "visible (hd (rev s))" using assms by (simp add: hd_rev)
  then show "first_drop (map rev space_codes) (rev s) = None"
    by (rule first_drop_visible [rotated])
       (simp add: space_codes_def white_space_def visible_def)
qed

lemma TrimSpace_Nil [simp]: "TrimSpace [] = []"
  by (rule TrimSpace_id) (simp_all add: space_codes_def white_space_def)

section \<open>Hexadecimal\<close>

definition hex_digit :: "nat \<Rightarrow> char" where
  "hex_digit d = (if d < 10 then char_of (48 + d) else char_of (87 + d))"

definition hex_encode :: "nat list \<Rightarrow> string" where
  "hex_encode bs = concat (map (\<lambda>b. [hex_digit (b div 16), hex_digit (b mod 16)]) bs)"

lemma hex_digit_inj:
  assumes "a < 16" and "b < 16" and "hex_digit a = hex_digit b"
  shows "a = b"
proof -
  have "(of_char (hex_digit a) :: nat) = of_char (hex_digit b)" using assms by simp
  then show ?thesis using assms(1,2) by (auto simp: hex_digit_def split: if_splits)
qed

lemma hex_encode_inj:
  assumes "\<forall>b\<in>set xs. b < 256" and "\<forall>b\<in>set ys. b < 256" and "hex_encode xs = hex_encode ys"
  shows "xs = ys"
  using assms
proof (induction xs arbitrary: ys)
  case Nil
  then show ?case by (cases ys) (auto simp: hex_encode_def)
next
  case (Cons x xs)
  then obtain y ys' where ys: "ys = y # ys'" by (cases ys) (auto simp: hex_encode_def)
  have "x div 16 = y div 16" and "x mod 16 = y mod 16"
    using Cons.prems ys by (auto simp: hex_encode_def intro!: hex_digit_inj)
  then have "x = y" by (metis div_mult_mod_eq)
  moreover have "xs = ys'" using Cons ys by (auto simp: hex_encode_def)
  ultimately show ?case using ys by simp
qed

lemma length_hex_encode: "length (hex_encode bs) = 2 * length bs"
  by (induction bs) (auto simp: hex_encode_def)

section \<open>Calendar\<close>

text \<open>
  \<open>t.UTC().Format(time.RFC3339)\<close>: the proleptic Gregorian date of the day, then the time of day,
  to the second.
\<close>

definition civil_of_days :: "int \<Rightarrow> int \<times> int \<times> int" where
  "civil_of_days days =
    (let z = days + 719468;
         era = z div 146097;
         doe = z mod 146097;
         yoe = (doe - doe div 1460 + doe div 36524 - doe div 146096) div 365;
         doy = doe - (365 * yoe + yoe div 4 - yoe div 100);
         mp = (5 * doy + 2) div 153;
         d = doy - (153 * mp + 2) div 5 + 1;
         m = (if mp < 10 then mp + 3 else mp - 9);
         y = yoe + era * 400
     in (if m \<le> 2 then y + 1 else y, m, d))"

definition pad_left :: "nat \<Rightarrow> string \<Rightarrow> string" where
  "pad_left w s = replicate (w - length s) CHR ''0'' @ s"

definition append_int :: "nat \<Rightarrow> int \<Rightarrow> string" where
  "append_int w i = (if i < 0 then CHR ''-'' # pad_left w (show_nat (nat (- i)))
                     else pad_left w (show_nat (nat i)))"

definition format_RFC3339 :: "time \<Rightarrow> string" where
  "format_RFC3339 t =
    (let secs = t div 1000000000; days = secs div 86400; sod = secs mod 86400
     in case civil_of_days days of (y, m, d) \<Rightarrow>
       append_int 4 y @ ''-'' @ append_int 2 m @ ''-'' @ append_int 2 d @ ''T''
       @ append_int 2 (sod div 3600) @ '':'' @ append_int 2 (sod div 60 mod 60) @ '':''
       @ append_int 2 (sod mod 60) @ ''Z'')"

end
