(* ===== verification/Json.thy ===== *)
theory Json
  imports Go_Lib
begin

text \<open>
  What the modelled packages use of \<open>encoding/json\<close>: a \<open>Decoder\<close> with \<open>UseNumber\<close> reading one
  value into an \<open>any\<close>, its \<open>More\<close>, and \<open>Marshal\<close> on strings and on values built of
  strings, booleans, slices and maps. The scanner is a machine over single bytes with an explicit
  stack of open containers, as the library's scanner is, so that decoding is a structural
  recursion on the input and always ends.
\<close>

section \<open>Values\<close>

text \<open>
  \<open>JNum\<close> holds the literal text, as \<open>json.Number\<close> does. An object is the sequence of its members
  as they are written; decoding it into a Go map is \<open>last_wins\<close>, as a repeated key replaces the
  earlier entry, and decoding it into a struct assigns the fields in this order.
\<close>

datatype json =
    JNull
  | JBool bool
  | JNum string
  | JStr string
  | JArr "json list"
  | JObj "(string \<times> json) list"

section \<open>UTF-8\<close>

definition byte :: "char \<Rightarrow> nat" where "byte c = of_char c"

definition cont_byte :: "nat \<Rightarrow> bool" where "cont_byte b \<longleftrightarrow> 128 \<le> b \<and> b \<le> 191"

text \<open>
  \<open>utf8.DecodeRune\<close>: the code point at the front of the string and its width; \<open>(65533, 1)\<close> for a
  byte that starts no valid encoding.
\<close>

definition DecodeRune :: "string \<Rightarrow> nat \<times> nat" where
  "DecodeRune s =
    (case map byte (take 4 s) of
       [] \<Rightarrow> (65533, 0)
     | b0 # bs \<Rightarrow>
         if b0 < 128 then (b0, 1)
         else if 194 \<le> b0 \<and> b0 \<le> 223 then
           (case bs of b1 # _ \<Rightarrow>
              if cont_byte b1 then ((b0 - 192) * 64 + (b1 - 128), 2) else (65533, 1)
            | _ \<Rightarrow> (65533, 1))
         else if 224 \<le> b0 \<and> b0 \<le> 239 then
           (case bs of b1 # b2 # _ \<Rightarrow>
              if (if b0 = 224 then 160 \<le> b1 \<and> b1 \<le> 191
                  else if b0 = 237 then 128 \<le> b1 \<and> b1 \<le> 159 else cont_byte b1) \<and> cont_byte b2
              then ((b0 - 224) * 4096 + (b1 - 128) * 64 + (b2 - 128), 3) else (65533, 1)
            | _ \<Rightarrow> (65533, 1))
         else if 240 \<le> b0 \<and> b0 \<le> 244 then
           (case bs of b1 # b2 # b3 # _ \<Rightarrow>
              if (if b0 = 240 then 144 \<le> b1 \<and> b1 \<le> 191
                  else if b0 = 244 then 128 \<le> b1 \<and> b1 \<le> 143 else cont_byte b1)
                 \<and> cont_byte b2 \<and> cont_byte b3
              then ((b0 - 240) * 262144 + (b1 - 128) * 4096 + (b2 - 128) * 64 + (b3 - 128), 4)
              else (65533, 1)
            | _ \<Rightarrow> (65533, 1))
         else (65533, 1))"

definition EncodeRune :: "nat \<Rightarrow> string" where
  "EncodeRune r = map char_of
    (if r < 128 then [r]
     else if r < 2048 then [192 + r div 64, 128 + r mod 64]
     else if r < 65536 then [224 + r div 4096, 128 + r div 64 mod 64, 128 + r mod 64]
     else [240 + r div 262144, 128 + r div 4096 mod 64, 128 + r div 64 mod 64, 128 + r mod 64])"

lemma DecodeRune_width: "s \<noteq> [] \<Longrightarrow> 1 \<le> snd (DecodeRune s)"
  by (cases s) (auto simp: DecodeRune_def split: list.splits)

section \<open>String literals\<close>

definition hex_val :: "char \<Rightarrow> nat option" where
  "hex_val c = (let b = byte c in
     if 48 \<le> b \<and> b \<le> 57 then Some (b - 48)
     else if 97 \<le> b \<and> b \<le> 102 then Some (b - 87)
     else if 65 \<le> b \<and> b \<le> 70 then Some (b - 55)
     else None)"

definition getu4 :: "string \<Rightarrow> (nat \<times> string) option" where
  "getu4 s =
    (case s of
       e # u # a # b # c # d # rest \<Rightarrow>
         if e = CHR 0x5C \<and> u = CHR ''u'' then
           (case (hex_val a, hex_val b, hex_val c, hex_val d) of
              (Some w, Some x, Some y, Some z) \<Rightarrow> Some (w * 4096 + x * 256 + y * 16 + z, rest)
            | _ \<Rightarrow> None)
         else None
     | _ \<Rightarrow> None)"

definition is_surrogate :: "nat \<Rightarrow> bool" where
  "is_surrogate r \<longleftrightarrow> 55296 \<le> r \<and> r < 57344"

definition utf16_DecodeRune :: "nat \<Rightarrow> nat \<Rightarrow> nat" where
  "utf16_DecodeRune r1 r2 =
    (if 55296 \<le> r1 \<and> r1 < 56320 \<and> 56320 \<le> r2 \<and> r2 < 57344
     then (r1 - 55296) * 1024 + (r2 - 56320) + 65536 else 65533)"

definition unescape_char :: "char \<Rightarrow> char option" where
  "unescape_char c =
    (if c = CHR 0x22 \<or> c = CHR 0x5C \<or> c = CHR ''/'' then Some c
     else if c = CHR ''b'' then Some (CHR 0x08)
     else if c = CHR ''f'' then Some (CHR 0x0C)
     else if c = CHR ''n'' then Some (CHR 0x0A)
     else if c = CHR ''r'' then Some (CHR 0x0D)
     else if c = CHR ''t'' then Some (CHR 0x09)
     else None)"

text \<open>\<open>unquote\<close>, on the bytes between the quotes, which the scanner has already checked.\<close>

function unquote :: "string \<Rightarrow> string option" where
  "unquote s =
    (case s of
       [] \<Rightarrow> Some []
     | c # rest \<Rightarrow>
         if c = CHR 0x5C then
           (case getu4 s of
              Some (rr, r1) \<Rightarrow>
                if is_surrogate rr then
                  (case getu4 r1 of
                     Some (rr1, r2) \<Rightarrow>
                       if utf16_DecodeRune rr rr1 \<noteq> 65533
                       then map_option ((@) (EncodeRune (utf16_DecodeRune rr rr1)))
                              (unquote (drop 12 s))
                       else map_option ((@) (EncodeRune 65533)) (unquote (drop 6 s))
                   | None \<Rightarrow> map_option ((@) (EncodeRune 65533)) (unquote (drop 6 s)))
                else map_option ((@) (EncodeRune rr)) (unquote (drop 6 s))
            | None \<Rightarrow>
                (case rest of
                   [] \<Rightarrow> None
                 | e # rest' \<Rightarrow>
                     (case unescape_char e of
                        Some x \<Rightarrow> map_option ((#) x) (unquote rest')
                      | None \<Rightarrow> None)))
         else if c = CHR 0x22 \<or> byte c < 32 then None
         else if byte c < 128 then map_option ((#) c) (unquote rest)
         else
           (case DecodeRune s of (rr, width) \<Rightarrow>
              map_option ((@) (EncodeRune rr)) (unquote (drop (max 1 width) s))))"
  by pat_completeness auto
termination by (relation "measure length") auto

declare unquote.simps [simp del]

text \<open>
  \<open>appendString\<close> with HTML escaping on: what \<open>json.Marshal\<close> writes for a string.
\<close>

definition hex4 :: "nat \<Rightarrow> string" where
  "hex4 r = [hex_digit (r div 4096 mod 16), hex_digit (r div 256 mod 16),
             hex_digit (r div 16 mod 16), hex_digit (r mod 16)]"

definition escape_ascii :: "char \<Rightarrow> string" where
  "escape_ascii c =
    (if c = CHR 0x22 \<or> c = CHR 0x5C then [CHR 0x5C, c]
     else if c = CHR 0x08 then [CHR 0x5C, CHR ''b'']
     else if c = CHR 0x0C then [CHR 0x5C, CHR ''f'']
     else if c = CHR 0x0A then [CHR 0x5C, CHR ''n'']
     else if c = CHR 0x0D then [CHR 0x5C, CHR ''r'']
     else if c = CHR 0x09 then [CHR 0x5C, CHR ''t'']
     else if byte c < 32 \<or> c = CHR ''<'' \<or> c = CHR ''>'' \<or> c = CHR ''&''
       then [CHR 0x5C, CHR ''u''] @ hex4 (byte c)
     else [c])"

function escape_string :: "string \<Rightarrow> string" where
  "escape_string s =
    (case s of
       [] \<Rightarrow> []
     | c # rest \<Rightarrow>
         if byte c < 128 then escape_ascii c @ escape_string rest
         else
           (case DecodeRune s of (rr, width) \<Rightarrow>
              if rr = 65533 \<and> width = 1 then [CHR 0x5C] @ ''ufffd'' @ escape_string rest
              else if rr = 8232 \<or> rr = 8233
                then [CHR 0x5C, CHR ''u''] @ hex4 rr @ escape_string (drop (max 1 width) s)
              else take (max 1 width) s @ escape_string (drop (max 1 width) s)))"
  by pat_completeness auto
termination by (relation "measure length") auto

declare escape_string.simps [simp del]

definition quote_string :: "string \<Rightarrow> string" where
  "quote_string s = [CHR 0x22] @ escape_string s @ [CHR 0x22]"

section \<open>Scanner\<close>

text \<open>
  A frame is an open container: the elements or entries read so far (newest first), and for an
  object the key whose value is being read. The states are the library's \<open>state...\<close> functions.
\<close>

datatype frame = FArr "json list" | FObj "(string \<times> json) list" | FKey "(string \<times> json) list" string

datatype num_state = NNeg | NZero | NInt | NDot | NFrac | NExp | NExpSign | NExpDigits

datatype scan_state =
    BeginValue
  | BeginValueOrEmpty
  | BeginString
  | BeginStringOrEmpty
  | InString string
  | InStringEsc string
  | InStringU nat string
  | InKey string
  | InKeyEsc string
  | InKeyU nat string
  | AfterKey string
  | EndValue
  | InNumber num_state string
  | InLit string json

definition is_space :: "char \<Rightarrow> bool" where
  "is_space c \<longleftrightarrow> c = CHR '' '' \<or> c = CHR 0x09 \<or> c = CHR 0x0D \<or> c = CHR 0x0A"

datatype scan_result =
    SErr
  | SMore "frame list" scan_state
  | SDone json bool  \<comment> \<open>the value, and whether the byte just read belongs to it\<close>

text \<open>A completed value goes into the innermost open container, or is the result.\<close>

fun push_value :: "frame list \<Rightarrow> json \<Rightarrow> scan_result" where
  "push_value [] v = SDone v True"
| "push_value (FArr vs # fs) v = SMore (FArr (v # vs) # fs) EndValue"
| "push_value (FKey es k # fs) v = SMore (FObj ((k, v) # es) # fs) EndValue"
| "push_value (FObj es # fs) v = SErr"

text \<open>\<open>stateEndValue\<close>: after a value inside a container.\<close>

fun end_value :: "frame list \<Rightarrow> char \<Rightarrow> scan_result" where
  "end_value fs c =
    (if is_space c then SMore fs EndValue
     else case fs of
       FArr vs # fs' \<Rightarrow>
         if c = CHR '','' then SMore fs BeginValue
         else if c = CHR '']'' then push_value fs' (JArr (rev vs))
         else SErr
     | FObj es # fs' \<Rightarrow>
         if c = CHR '','' then SMore fs BeginString
         else if c = CHR ''}'' then push_value fs' (JObj (rev es))
         else SErr
     | _ \<Rightarrow> SErr)"

text \<open>A number ends at the first byte that cannot continue it; that byte is scanned again.\<close>

definition end_number :: "frame list \<Rightarrow> string \<Rightarrow> char \<Rightarrow> scan_result" where
  "end_number fs acc c =
    (case push_value fs (JNum (rev acc)) of
       SDone v _ \<Rightarrow> SDone v False
     | SMore fs' _ \<Rightarrow> end_value fs' c
     | SErr \<Rightarrow> SErr)"

definition num_done :: "num_state \<Rightarrow> bool" where
  "num_done n \<longleftrightarrow> n = NZero \<or> n = NInt \<or> n = NFrac \<or> n = NExpDigits"

definition is_e :: "char \<Rightarrow> bool" where "is_e c \<longleftrightarrow> c = CHR ''e'' \<or> c = CHR ''E''"

fun num_next :: "num_state \<Rightarrow> char \<Rightarrow> num_state option" where
  "num_next NNeg c = (if c = CHR ''0'' then Some NZero else if is_digit c then Some NInt else None)"
| "num_next NZero c = (if c = CHR ''.'' then Some NDot else if is_e c then Some NExp else None)"
| "num_next NInt c = (if is_digit c then Some NInt else if c = CHR ''.'' then Some NDot
     else if is_e c then Some NExp else None)"
| "num_next NDot c = (if is_digit c then Some NFrac else None)"
| "num_next NFrac c = (if is_digit c then Some NFrac else if is_e c then Some NExp else None)"
| "num_next NExp c = (if c = CHR ''+'' \<or> c = CHR ''-'' then Some NExpSign
     else if is_digit c then Some NExpDigits else None)"
| "num_next NExpSign c = (if is_digit c then Some NExpDigits else None)"
| "num_next NExpDigits c = (if is_digit c then Some NExpDigits else None)"

definition max_nesting :: nat where "max_nesting = 10000"

definition open_frame :: "frame \<Rightarrow> frame list \<Rightarrow> scan_state \<Rightarrow> scan_result" where
  "open_frame f fs st = (if length fs < max_nesting then SMore (f # fs) st else SErr)"

definition begin_value :: "frame list \<Rightarrow> char \<Rightarrow> scan_result" where
  "begin_value fs c =
    (if is_space c then SMore fs BeginValue
     else if c = CHR ''{'' then open_frame (FObj []) fs BeginStringOrEmpty
     else if c = CHR ''['' then open_frame (FArr []) fs BeginValueOrEmpty
     else if c = CHR 0x22 then SMore fs (InString [])
     else if c = CHR ''-'' then SMore fs (InNumber NNeg [c])
     else if c = CHR ''0'' then SMore fs (InNumber NZero [c])
     else if is_digit c then SMore fs (InNumber NInt [c])
     else if c = CHR ''t'' then SMore fs (InLit ''rue'' (JBool True))
     else if c = CHR ''f'' then SMore fs (InLit ''alse'' (JBool False))
     else if c = CHR ''n'' then SMore fs (InLit ''ull'' JNull)
     else SErr)"

definition escapable :: "char \<Rightarrow> bool" where
  "escapable c \<longleftrightarrow> c \<in> {CHR ''b'', CHR ''f'', CHR ''n'', CHR ''r'', CHR ''t'', CHR 0x5C, CHR ''/'', CHR 0x22}"

fun scan :: "frame list \<Rightarrow> scan_state \<Rightarrow> char \<Rightarrow> scan_result" where
  "scan fs BeginValue c = begin_value fs c"
| "scan fs BeginValueOrEmpty c =
    (if is_space c then SMore fs BeginValueOrEmpty
     else if c = CHR '']'' then end_value fs c
     else begin_value fs c)"
| "scan fs BeginString c =
    (if is_space c then SMore fs BeginString
     else if c = CHR 0x22 then SMore fs (InKey [])
     else SErr)"
| "scan fs BeginStringOrEmpty c =
    (if is_space c then SMore fs BeginStringOrEmpty
     else if c = CHR ''}'' then end_value fs c
     else if c = CHR 0x22 then SMore fs (InKey [])
     else SErr)"
| "scan fs (InString acc) c =
    (if c = CHR 0x22 then
       (case unquote (rev acc) of Some s \<Rightarrow> push_value fs (JStr s) | None \<Rightarrow> SErr)
     else if c = CHR 0x5C then SMore fs (InStringEsc (c # acc))
     else if byte c < 32 then SErr
     else SMore fs (InString (c # acc)))"
| "scan fs (InStringEsc acc) c =
    (if escapable c then SMore fs (InString (c # acc))
     else if c = CHR ''u'' then SMore fs (InStringU 4 (c # acc))
     else SErr)"
| "scan fs (InStringU n acc) c =
    (if hex_val c = None then SErr
     else if n \<le> 1 then SMore fs (InString (c # acc))
     else SMore fs (InStringU (n - 1) (c # acc)))"
| "scan fs (InKey acc) c =
    (if c = CHR 0x22 then
       (case unquote (rev acc) of Some s \<Rightarrow> SMore fs (AfterKey s) | None \<Rightarrow> SErr)
     else if c = CHR 0x5C then SMore fs (InKeyEsc (c # acc))
     else if byte c < 32 then SErr
     else SMore fs (InKey (c # acc)))"
| "scan fs (InKeyEsc acc) c =
    (if escapable c then SMore fs (InKey (c # acc))
     else if c = CHR ''u'' then SMore fs (InKeyU 4 (c # acc))
     else SErr)"
| "scan fs (InKeyU n acc) c =
    (if hex_val c = None then SErr
     else if n \<le> 1 then SMore fs (InKey (c # acc))
     else SMore fs (InKeyU (n - 1) (c # acc)))"
| "scan fs (AfterKey k) c =
    (if is_space c then SMore fs (AfterKey k)
     else if c = CHR '':'' then
       (case fs of FObj es # fs' \<Rightarrow> SMore (FKey es k # fs') BeginValue | _ \<Rightarrow> SErr)
     else SErr)"
| "scan fs EndValue c = end_value fs c"
| "scan fs (InNumber n acc) c =
    (case num_next n c of
       Some n' \<Rightarrow> SMore fs (InNumber n' (c # acc))
     | None \<Rightarrow> if num_done n then end_number fs acc c else SErr)"
| "scan fs (InLit rest v) c =
    (case rest of
       [] \<Rightarrow> SErr
     | r # rs \<Rightarrow> if c = r then (if rs = [] then push_value fs v else SMore fs (InLit rs v)) else SErr)"

text \<open>At the end of the input only a top-level number can still be completed.\<close>

fun at_eof :: "frame list \<Rightarrow> scan_state \<Rightarrow> json option" where
  "at_eof [] (InNumber n acc) = (if num_done n then Some (JNum (rev acc)) else None)"
| "at_eof _ _ = None"

fun decode_from :: "frame list \<Rightarrow> scan_state \<Rightarrow> string \<Rightarrow> (json \<times> string) option" where
  "decode_from fs st [] = map_option (\<lambda>v. (v, [])) (at_eof fs st)"
| "decode_from fs st (c # cs) =
    (case scan fs st c of
       SErr \<Rightarrow> None
     | SDone v True \<Rightarrow> Some (v, cs)
     | SDone v False \<Rightarrow> Some (v, c # cs)
     | SMore fs' st' \<Rightarrow> decode_from fs' st' cs)"

text \<open>
  \<open>dec.Decode(&v)\<close> on a fresh decoder: the first value and the unread input. \<open>dec.More()\<close>
  then looks at the next byte that is not white space.
\<close>

definition Decode :: "string \<Rightarrow> (json \<times> string) option" where
  "Decode s = decode_from [] BeginValue s"

definition More :: "string \<Rightarrow> bool" where
  "More rest = (case dropWhile is_space rest of
     [] \<Rightarrow> False | c # _ \<Rightarrow> c \<noteq> CHR '']'' \<and> c \<noteq> CHR ''}'')"

text \<open>\<open>json.Unmarshal\<close> into an \<open>any\<close>: nothing but white space may follow the value.\<close>

definition Unmarshal :: "string \<Rightarrow> json option" where
  "Unmarshal s =
    (case Decode s of
       Some (v, rest) \<Rightarrow> if dropWhile is_space rest = [] then Some v else None
     | None \<Rightarrow> None)"

section \<open>Marshal\<close>

fun join_comma :: "string list \<Rightarrow> string" where
  "join_comma [] = []"
| "join_comma [x] = x"
| "join_comma (x # xs) = x @ CHR '','' # join_comma xs"

definition key_le :: "string \<times> 'a \<Rightarrow> string \<times> 'a \<Rightarrow> bool" where
  "key_le a b \<longleftrightarrow> fst a \<le> fst b"

text \<open>
  \<open>json.Marshal\<close> of a value: map keys sorted, no white space, strings escaped, numbers as their
  literal text.
\<close>

fun marshal :: "json \<Rightarrow> string" where
  "marshal JNull = ''null''"
| "marshal (JBool b) = (if b then ''true'' else ''false'')"
| "marshal (JNum s) = s"
| "marshal (JStr s) = quote_string s"
| "marshal (JArr vs) = CHR ''['' # join_comma (map marshal vs) @ '']''"
| "marshal (JObj es) =
    CHR ''{'' # join_comma (map (\<lambda>(k, t). quote_string k @ CHR '':'' # t)
       (sort_by key_le (last_wins (map (\<lambda>(k, v). (k, marshal v)) es)))) @ ''}''"

section \<open>Struct fields\<close>

text \<open>
  \<open>encoding/json\<close> matches a member to a struct field by its exact name or else by its folded
  name: upper-cased, with the two non-ASCII letters that fold to ASCII ones (long s and the
  Kelvin sign).
\<close>

definition fold_byte :: "char \<Rightarrow> char" where
  "fold_byte c = (if 97 \<le> byte c \<and> byte c \<le> 122 then char_of (byte c - 32) else c)"

fun foldName :: "string \<Rightarrow> string" where
  "foldName [] = []"
| "foldName (c # cs) =
    (case map byte (take 3 (c # cs)) of
       b0 # b1 # bs \<Rightarrow>
         if b0 = 197 \<and> b1 = 191 then CHR ''S'' # foldName (drop 1 cs)
         else if b0 = 226 \<and> b1 = 132 \<and> bs = [170] then CHR ''K'' # foldName (drop 2 cs)
         else fold_byte c # foldName cs
     | _ \<Rightarrow> fold_byte c # foldName cs)"

section \<open>Lemmas\<close>

lemma key_le_total: "total_on_list key_le A"
  by (auto simp: total_on_list_def key_le_def)

text \<open>The unread input is a suffix of the input.\<close>

lemma decode_from_suffix: "decode_from fs st s = Some (v, rest) \<Longrightarrow> \<exists>pre. s = pre @ rest"
proof (induction s arbitrary: fs st)
  case Nil
  then show ?case by (cases "at_eof fs st") auto
next
  case (Cons c cs)
  show ?case
  proof (cases "scan fs st c")
    case (SMore fs' st')
    with Cons.prems have "decode_from fs' st' cs = Some (v, rest)" by simp
    then obtain pre where "cs = pre @ rest" using Cons.IH by blast
    then show ?thesis by (intro exI [of _ "c # pre"]) simp
  next
    case (SDone w b)
    then show ?thesis using Cons.prems by (cases b) auto
  qed (use Cons.prems in auto)
qed

end
