(* ===== verification/Float64.thy ===== *)
theory Float64
  imports Go_Lib
begin

text \<open>
  What \<open>writeCanonical\<close> uses of package \<open>strconv\<close> on the text of a JSON number:
  \<open>ParseInt(s, 10, 64)\<close>, \<open>ParseFloat(s, 64)\<close> (IEEE 754 binary64, rounding to nearest, ties to
  even) and \<open>FormatFloat(f, 'g', -1, 64)\<close> (the shortest decimal that reads back as the same
  float). A finite float is its sign, its integer significand below \<open>2 ^ 53\<close> and its binary
  exponent between \<open>-1074\<close> and \<open>971\<close>.
\<close>

datatype f64 = F64 (f_neg: bool) (f_mant: int) (f_exp: int)

section \<open>Reading\<close>

function bitlen :: "int \<Rightarrow> int" where
  "bitlen n = (if n \<le> 0 then 0 else 1 + bitlen (n div 2))"
  by pat_completeness auto
termination by (relation "measure nat") auto

function declen :: "int \<Rightarrow> int" where
  "declen n = (if n \<le> 0 then 0 else 1 + declen (n div 10))"
  by pat_completeness auto
termination by (relation "measure nat") auto

declare bitlen.simps [simp del] declen.simps [simp del]

definition pow2 :: "int \<Rightarrow> int" where "pow2 k = 2 ^ nat k"
definition pow10 :: "int \<Rightarrow> int" where "pow10 k = 10 ^ nat k"

text \<open>The significand of \<open>n / d\<close> at binary exponent \<open>e\<close>, rounded half to even.\<close>

definition quot_at :: "int \<Rightarrow> int \<Rightarrow> int \<Rightarrow> int \<times> int \<times> int" where
  "quot_at n d e =
    (let num = (if e < 0 then n * pow2 (- e) else n);
         den = (if e < 0 then d else d * pow2 e)
     in (num div den, num mod den, den))"

definition half_even :: "int \<times> int \<times> int \<Rightarrow> int" where
  "half_even qrd = (case qrd of (q, r, den) \<Rightarrow>
     if 2 * r > den \<or> (2 * r = den \<and> q mod 2 = 1) then q + 1 else q)"

definition round_ratio :: "int \<Rightarrow> int \<Rightarrow> (int \<times> int) option" where
  "round_ratio n d =
    (if n = 0 then Some (0, -1074)
     else
       let e0 = max (-1074) (bitlen n - bitlen d - 53);
           e1 = (if fst (quot_at n d e0) \<ge> 2 ^ 53 then e0 + 1 else e0);
           m = half_even (quot_at n d e1);
           m' = (if m = 2 ^ 53 then 2 ^ 52 else m);
           e' = (if m = 2 ^ 53 then e1 + 1 else e1)
       in if e' > 971 then None else Some (m', e'))"

fun take_digits :: "string \<Rightarrow> string \<times> string" where
  "take_digits [] = ([], [])"
| "take_digits (c # cs) =
    (if is_digit c then (case take_digits cs of (a, b) \<Rightarrow> (c # a, b)) else ([], c # cs))"

fun int_of_digits :: "int \<Rightarrow> string \<Rightarrow> int" where
  "int_of_digits acc [] = acc"
| "int_of_digits acc (c # cs) = int_of_digits (10 * acc + (of_char c - 48)) cs"

definition split_sign :: "string \<Rightarrow> bool \<times> string" where
  "split_sign s = (case s of
     [] \<Rightarrow> (False, s)
   | c # r \<Rightarrow> if c = CHR ''-'' then (True, r) else (False, s))"

definition split_exp :: "string \<Rightarrow> int" where
  "split_exp s =
    (case s of
       [] \<Rightarrow> 0
     | e # r \<Rightarrow>
         (case r of
            [] \<Rightarrow> 0
          | c # ds \<Rightarrow>
              if c = CHR ''+'' then int_of_digits 0 ds
              else if c = CHR ''-'' then - int_of_digits 0 ds
              else int_of_digits 0 r))"

text \<open>
  \<open>ParseFloat\<close> on the text of a JSON number (sign, digits, fraction, exponent); \<open>None\<close> is
  \<open>ErrRange\<close>, which a magnitude that rounds past the largest float gives.
\<close>

definition ParseFloat :: "string \<Rightarrow> f64 option" where
  "ParseFloat s =
    (let (neg, s1) = split_sign s;
         (ip, s2) = take_digits s1;
         (fp, s3) = (case s2 of
             [] \<Rightarrow> ([], s2)
           | c # r \<Rightarrow> if c = CHR ''.'' then take_digits r else ([], s2));
         e10 = split_exp s3 - int (length fp);
         m10 = int_of_digits 0 (ip @ fp);
         n = (if e10 < 0 then m10 else m10 * pow10 e10);
         d = (if e10 < 0 then pow10 (- e10) else 1)
     in map_option (\<lambda>(m, e). F64 neg m e) (round_ratio n d))"

text \<open>\<open>ParseInt(s, 10, 64)\<close>: digits with an optional minus sign, in the signed 64-bit range.\<close>

definition ParseInt64 :: "string \<Rightarrow> int option" where
  "ParseInt64 s =
    (let (neg, ds) = split_sign s;
         v = int_of_digits 0 ds;
         i = (if neg then - v else v)
     in if ds \<noteq> [] \<and> list_all is_digit ds \<and> - (2 ^ 63) \<le> i \<and> i < 2 ^ 63 then Some i else None)"

section \<open>Writing\<close>

definition dec_exponent :: "int \<Rightarrow> int \<Rightarrow> int" where
  "dec_exponent n d = (if n \<ge> d then declen (n div d) else 1 - declen ((d - 1) div n))"

definition ratio_of :: "int \<Rightarrow> int \<Rightarrow> int \<times> int" where
  "ratio_of m e = (if e < 0 then (m, pow2 (- e)) else (m * pow2 e, 1))"

text \<open>
  The \<open>nd\<close>-digit decimal \<open>c * 10 ^ (dp - nd)\<close> that is nearest among those that read back.
  Seventeen digits always read back, so the last equation of \<open>shortest_from\<close> is not reached.
\<close>

definition candidate :: "int \<Rightarrow> int \<Rightarrow> int \<Rightarrow> int \<Rightarrow> int option" where
  "candidate m e dp nd =
    (let (n, d) = ratio_of m e;
         k = nd - dp;
         num = (if k < 0 then n else n * pow10 k);
         den = (if k < 0 then d * pow10 (- k) else d);
         lo = num div den;
         r = num mod den;
         reads = (\<lambda>c. round_ratio (if k < 0 then c * pow10 (- k) else c)
                                  (if k < 0 then 1 else pow10 k) = Some (m, e))
     in if r = 0 then (if reads lo then Some lo else None)
        else if reads lo \<and> (2 * r \<le> den \<or> \<not> reads (lo + 1)) then Some lo
        else if reads (lo + 1) then Some (lo + 1)
        else None)"

fun shortest_from :: "nat \<Rightarrow> int \<Rightarrow> int \<Rightarrow> int \<Rightarrow> int \<Rightarrow> int \<times> int" where
  "shortest_from 0 nd m e dp = (1, nd)"
| "shortest_from (Suc k) nd m e dp =
    (case candidate m e dp nd of
       Some c \<Rightarrow> (c, nd)
     | None \<Rightarrow> shortest_from k (nd + 1) m e dp)"

definition strip_zeros :: "string \<Rightarrow> string" where
  "strip_zeros s = rev (dropWhile (\<lambda>c. c = CHR ''0'') (rev s))"

function show_big :: "int \<Rightarrow> string" where
  "show_big n = (if n < 10 then [char_of (48 + n)] else show_big (n div 10) @ [char_of (48 + n mod 10)])"
  by pat_completeness auto
termination by (relation "measure nat") auto

declare show_big.simps [simp del]

definition fmt_exp :: "int \<Rightarrow> string" where
  "fmt_exp x =
    (let a = \<bar>x\<bar> in
     (if x < 0 then ''-'' else ''+'') @ (if a < 10 then ''0'' else []) @ show_big a)"

text \<open>
  Verb \<open>g\<close> with the shortest precision: the exponent form is used for exponents below \<open>-4\<close> and
  from \<open>6\<close> on, the positional form between.
\<close>

definition fmt_g :: "string \<Rightarrow> int \<Rightarrow> string" where
  "fmt_g ds dp =
    (let nd = int (length ds); x = dp - 1
     in if x < -4 \<or> x \<ge> 6 then
          take 1 ds @ (if nd > 1 then CHR ''.'' # drop 1 ds else []) @ CHR ''e'' # fmt_exp x
        else if dp \<le> 0 then ''0.'' @ replicate (nat (- dp)) (CHR ''0'') @ ds
        else if nd \<le> dp then ds @ replicate (nat (dp - nd)) (CHR ''0'')
        else take (nat dp) ds @ CHR ''.'' # drop (nat dp) ds)"

definition FormatFloat_g :: "f64 \<Rightarrow> string" where
  "FormatFloat_g f =
    (if f_neg f then ''-'' else []) @
    (if f_mant f = 0 then ''0''
     else
       let (n, d) = ratio_of (f_mant f) (f_exp f);
           dp = dec_exponent n d;
           (c, nd) = shortest_from 17 1 (f_mant f) (f_exp f) dp;
           ds = show_big c;
           dp' = dp + (int (length ds) - nd)
       in fmt_g (strip_zeros ds) dp')"

section \<open>Evaluation\<close>

lemma bitlen_0 [simp]: "bitlen 0 = 0"
  by (simp add: bitlen.simps)

lemma bitlen_step: "0 < n \<Longrightarrow> bitlen n = 1 + bitlen (n div 2)"
  by (simp add: bitlen.simps [of n])

lemma declen_0 [simp]: "declen 0 = 0"
  by (simp add: declen.simps)

lemma declen_step: "0 < n \<Longrightarrow> declen n = 1 + declen (n div 10)"
  by (simp add: declen.simps [of n])

end
