(* ===== verification/Sha256.thy ===== *)
theory Sha256
  imports Go_Lib "HOL-Library.Word"
begin

text \<open>
  \<open>crypto/sha256\<close> as FIPS 180-4 defines it, on byte strings. The payload hash
  (\<open>canonical.go\<close>) and the audit chain (\<open>audit.go\<close>) are built on it. No property of
  the development assumes that it has no collisions: where uniqueness matters, the statement
  exhibits the pair of colliding inputs instead.
\<close>

unbundle bit_operations_syntax

type_synonym w32 = "32 word"

definition rotr :: "nat \<Rightarrow> w32 \<Rightarrow> w32" where
  "rotr n x = drop_bit n x OR push_bit (32 - n) x"

definition Ch :: "w32 \<Rightarrow> w32 \<Rightarrow> w32 \<Rightarrow> w32" where
  "Ch x y z = (x AND y) XOR (NOT x AND z)"

definition Maj :: "w32 \<Rightarrow> w32 \<Rightarrow> w32 \<Rightarrow> w32" where
  "Maj x y z = (x AND y) XOR (x AND z) XOR (y AND z)"

definition Sigma0 :: "w32 \<Rightarrow> w32" where "Sigma0 x = rotr 2 x XOR rotr 13 x XOR rotr 22 x"
definition Sigma1 :: "w32 \<Rightarrow> w32" where "Sigma1 x = rotr 6 x XOR rotr 11 x XOR rotr 25 x"
definition sigma0 :: "w32 \<Rightarrow> w32" where "sigma0 x = rotr 7 x XOR rotr 18 x XOR drop_bit 3 x"
definition sigma1 :: "w32 \<Rightarrow> w32" where "sigma1 x = rotr 17 x XOR rotr 19 x XOR drop_bit 10 x"

definition K256 :: "w32 list" where
  "K256 =
   [1116352408, 1899447441, 3049323471, 3921009573, 961987163, 1508970993, 2453635748, 2870763221,
    3624381080, 310598401, 607225278, 1426881987, 1925078388, 2162078206, 2614888103, 3248222580,
    3835390401, 4022224774, 264347078, 604807628, 770255983, 1249150122, 1555081692, 1996064986,
    2554220882, 2821834349, 2952996808, 3210313671, 3336571891, 3584528711, 113926993, 338241895,
    666307205, 773529912, 1294757372, 1396182291, 1695183700, 1986661051, 2177026350, 2456956037,
    2730485921, 2820302411, 3259730800, 3345764771, 3516065817, 3600352804, 4094571909, 275423344,
    430227734, 506948616, 659060556, 883997877, 958139571, 1322822218, 1537002063, 1747873779,
    1955562222, 2024104815, 2227730452, 2361852424, 2428436474, 2756734187, 3204031479, 3329325298]"

definition H256 :: "w32 list" where
  "H256 = [1779033703, 3144134277, 1013904242, 2773480762, 1359893119, 2600822924, 528734635,
           1541459225]"

text \<open>Padding: a one bit, zeros up to 448 bits modulo 512, the bit length in 64 bits.\<close>

definition be_bytes :: "nat \<Rightarrow> nat \<Rightarrow> nat list" where
  "be_bytes k n = map (\<lambda>i. (n div 256 ^ (k - 1 - i)) mod 256) [0..<k]"

definition pad :: "nat list \<Rightarrow> nat list" where
  "pad m = m @ [128] @ replicate ((119 - length m mod 64) mod 64) 0 @ be_bytes 8 (8 * length m)"

definition word_of_bytes :: "nat \<Rightarrow> nat \<Rightarrow> nat \<Rightarrow> nat \<Rightarrow> w32" where
  "word_of_bytes a b c d =
     push_bit 24 (of_nat a) OR push_bit 16 (of_nat b) OR push_bit 8 (of_nat c) OR of_nat d"

definition bytes_of_word :: "w32 \<Rightarrow> nat list" where
  "bytes_of_word w =
     [unat (drop_bit 24 w AND 255), unat (drop_bit 16 w AND 255),
      unat (drop_bit 8 w AND 255), unat (w AND 255)]"

fun words_of :: "nat list \<Rightarrow> w32 list" where
  "words_of (a # b # c # d # rest) = word_of_bytes a b c d # words_of rest"
| "words_of _ = []"

text \<open>
  The schedule is kept newest first: \<open>W(t) = sigma1 W(t-2) + W(t-7) + sigma0 W(t-15) + W(t-16)\<close>.
\<close>

fun schedule :: "nat \<Rightarrow> w32 list \<Rightarrow> w32 list" where
  "schedule 0 ws = rev ws"
| "schedule (Suc n) ws =
     schedule n ((sigma1 (ws ! 1) + ws ! 6 + sigma0 (ws ! 14) + ws ! 15) # ws)"

fun rounds :: "w32 list \<Rightarrow> w32 list \<Rightarrow> w32 list \<Rightarrow> w32 list" where
  "rounds (k # ks) (w # ws) [a, b, c, d, e, f, g, h] =
     (let t1 = h + Sigma1 e + Ch e f g + k + w;
          t2 = Sigma0 a + Maj a b c
      in rounds ks ws [t1 + t2, a, b, c, d + t1, e, f, g])"
| "rounds _ _ st = st"

definition compress :: "w32 list \<Rightarrow> w32 list \<Rightarrow> w32 list" where
  "compress H block = map2 (+) (rounds K256 (schedule 48 (rev block)) H) H"

fun blocks :: "nat \<Rightarrow> w32 list \<Rightarrow> w32 list \<Rightarrow> w32 list" where
  "blocks 0 H ws = H"
| "blocks (Suc n) H ws = blocks n (compress H (take 16 ws)) (drop 16 ws)"

definition sha256_bytes :: "nat list \<Rightarrow> nat list" where
  "sha256_bytes m =
    (let ws = words_of (pad m)
     in concat (map bytes_of_word (blocks (length ws div 16) H256 ws)))"

text \<open>\<open>hex.EncodeToString(h.Sum(nil))\<close> after writing the string to the hash.\<close>

definition sha256_hex :: "string \<Rightarrow> string" where
  "sha256_hex s = hex_encode (sha256_bytes (map of_char s))"

section \<open>Size of the digest\<close>

lemma be_bytes_range: "\<forall>b\<in>set (be_bytes k n). b < 256"
  by (auto simp: be_bytes_def)

lemma length_rounds: "length st = 8 \<Longrightarrow> length (rounds ks ws st) = 8"
  by (induction ks ws st rule: rounds.induct) (auto simp: Let_def)

lemma length_blocks: "length H = 8 \<Longrightarrow> length (blocks n H ws) = 8"
  by (induction n arbitrary: H ws) (auto simp: compress_def length_rounds)

lemma length_concat_const: "(\<And>x. length (f x) = k) \<Longrightarrow> length (concat (map f xs)) = k * length xs"
  by (induction xs) auto

lemma length_sha256_bytes: "length (sha256_bytes m) = 32"
proof -
  have "length (concat (map bytes_of_word xs)) = 4 * length xs" for xs
    by (rule length_concat_const) (simp add: bytes_of_word_def)
  then show ?thesis by (simp add: sha256_bytes_def Let_def length_blocks H256_def)
qed

lemma length_sha256_hex [simp]: "length (sha256_hex s) = 64"
  by (simp add: sha256_hex_def length_hex_encode length_sha256_bytes)

lemma sha256_hex_nonempty [simp]: "sha256_hex s \<noteq> []"
proof
  assume "sha256_hex s = []"
  then show False using length_sha256_hex [of s] by simp
qed

end
