(* ===== verification/Canonical.thy ===== *)
theory Canonical
  imports Json Float64 Sha256
begin

text \<open>
  The canonical form of a JSON payload, the payload hash, and the drift check
  (\<open>internal/operations/canonical.go\<close>). A \<open>json.RawMessage\<close> is its bytes, a string.
\<close>

type_synonym raw_message = string

datatype canon_error = DecodeError | TrailingData | TargetError canon_error | ParamsError canon_error
  | RecomputeNotFound

definition write_number :: "string \<Rightarrow> string" where
  "write_number t =
    (case ParseInt64 t of
       Some i \<Rightarrow> show_int i
     | None \<Rightarrow>
         (case ParseFloat t of
            None \<Rightarrow> t
          | Some f \<Rightarrow> FormatFloat_g f))"

definition write_entry :: "string \<times> string \<Rightarrow> string" where
  "write_entry e = (case e of (k, t) \<Rightarrow> quote_string k @ CHR '':'' # t)"

fun writeCanonical :: "json \<Rightarrow> string" where
  "writeCanonical JNull = ''null''"
| "writeCanonical (JBool b) = (if b then ''true'' else ''false'')"
| "writeCanonical (JNum t) = write_number t"
| "writeCanonical (JStr s) = quote_string s"
| "writeCanonical (JArr vs) = CHR ''['' # join_comma (map writeCanonical vs) @ '']''"
| "writeCanonical (JObj es) =
    CHR ''{'' # join_comma (map write_entry
       (sort_by key_le (last_wins (map (\<lambda>(k, v). (k, writeCanonical v)) es)))) @ ''}''"

definition Canonicalize :: "raw_message \<Rightarrow> canon_error + string" where
  "Canonicalize raw =
    (if TrimSpace raw = [] then Inr ''null''
     else
       (case Decode raw of
          None \<Rightarrow> Inl DecodeError
        | Some (v, rest) \<Rightarrow>
            if More rest then Inl TrailingData
            else Inr (writeCanonical v)))"

definition PayloadHash :: "string \<Rightarrow> string \<Rightarrow> raw_message \<Rightarrow> raw_message \<Rightarrow> canon_error + string" where
  "PayloadHash plugin action target params =
    (case Canonicalize target of
       Inl e \<Rightarrow> Inl (TargetError e)
     | Inr ct \<Rightarrow>
         (case Canonicalize params of
            Inl e \<Rightarrow> Inl (ParamsError e)
          | Inr cp \<Rightarrow> Inr (sha256_hex (frame [plugin, action, ct, cp]))))"

definition CanonicalEqual :: "raw_message \<Rightarrow> raw_message \<Rightarrow> bool" where
  "CanonicalEqual a b =
    (case Canonicalize a of
       Inl _ \<Rightarrow> False
     | Inr ca \<Rightarrow>
         (case Canonicalize b of
            Inl _ \<Rightarrow> False
          | Inr cb \<Rightarrow> ca = cb))"

definition Declared :: "raw_message \<Rightarrow> bool" where
  "Declared raw =
    (case Canonicalize raw of
       Inl _ \<Rightarrow> True
     | Inr c \<Rightarrow> if c = ''null'' \<or> c = ''{}'' \<or> c = ''[]'' then False else True)"

datatype DriftCheck = DriftNotChecked | DriftNone | DriftDetected

fun DriftCheck_String :: "DriftCheck \<Rightarrow> string" where
  "DriftCheck_String DriftNone = ''none''"
| "DriftCheck_String DriftDetected = ''detected''"
| "DriftCheck_String DriftNotChecked = ''not_checked''"

definition CheckDrift :: "raw_message \<Rightarrow> raw_message \<Rightarrow> DriftCheck" where
  "CheckDrift proposed current =
    (if \<not> Declared proposed \<and> \<not> Declared current then DriftNotChecked
     else if \<not> CanonicalEqual proposed current then DriftDetected
     else DriftNone)"

section \<open>Equality and declaration of snapshots\<close>

lemma CanonicalEqual_iff:
  "CanonicalEqual a b \<longleftrightarrow> (\<exists>c. Canonicalize a = Inr c \<and> Canonicalize b = Inr c)"
  by (auto simp: CanonicalEqual_def split: sum.splits)

lemma CanonicalEqual_sym: "CanonicalEqual a b = CanonicalEqual b a"
  by (auto simp: CanonicalEqual_iff)

lemma CanonicalEqual_trans: "CanonicalEqual a b \<Longrightarrow> CanonicalEqual b c \<Longrightarrow> CanonicalEqual a c"
  by (auto simp: CanonicalEqual_iff)

lemma CanonicalEqual_Declared: "CanonicalEqual a b \<Longrightarrow> Declared a = Declared b"
  by (auto simp: CanonicalEqual_iff Declared_def)

lemma not_Declared_canonical:
  "\<not> Declared a \<Longrightarrow> \<exists>c \<in> {''null'', ''{}'', ''[]''}. Canonicalize a = Inr c"
  by (auto simp: Declared_def split: sum.splits if_splits)

text \<open>
  The drift check passes only on evidence. It reports no drift exactly when the two
  snapshots have the same canonical form and carry state; it is skipped exactly when neither
  carries any; in every other case it is drift: a snapshot that cannot be read, a change, and
  state that appeared or disappeared on one side.
\<close>
theorem CheckDrift_cases:
  "(CheckDrift p c = DriftNone \<longleftrightarrow>
      (\<exists>t. Canonicalize p = Inr t \<and> Canonicalize c = Inr t \<and> t \<notin> {''null'', ''{}'', ''[]''}))
   \<and> (CheckDrift p c = DriftNotChecked \<longleftrightarrow>
      (\<exists>s t. Canonicalize p = Inr s \<and> Canonicalize c = Inr t
         \<and> s \<in> {''null'', ''{}'', ''[]''} \<and> t \<in> {''null'', ''{}'', ''[]''}))
   \<and> (CheckDrift p c = DriftDetected \<longleftrightarrow>
      (Declared p \<or> Declared c) \<and> (\<nexists>t. Canonicalize p = Inr t \<and> Canonicalize c = Inr t))"
proof -
  have "CheckDrift p c = DriftDetected \<longleftrightarrow>
      (Declared p \<or> Declared c) \<and> (\<nexists>t. Canonicalize p = Inr t \<and> Canonicalize c = Inr t)"
    by (auto simp: CheckDrift_def CanonicalEqual_iff)
  moreover have "CheckDrift p c = DriftNotChecked \<longleftrightarrow>
      (\<exists>s t. Canonicalize p = Inr s \<and> Canonicalize c = Inr t
         \<and> s \<in> {''null'', ''{}'', ''[]''} \<and> t \<in> {''null'', ''{}'', ''[]''})"
    by (auto simp: CheckDrift_def Declared_def split: sum.splits if_splits)
  moreover have "CheckDrift p c = DriftNone \<longleftrightarrow>
      (\<exists>t. Canonicalize p = Inr t \<and> Canonicalize c = Inr t \<and> t \<notin> {''null'', ''{}'', ''[]''})"
    by (auto simp: CheckDrift_def CanonicalEqual_iff Declared_def split: sum.splits if_splits)
  ultimately show ?thesis by blast
qed

end
