(* ===== verification/Operations.thy ===== *)
theory Operations
  imports Risk Canonical
begin

text \<open>
  The operation record and its vocabulary (\<open>internal/operations/models.go\<close>, \<open>errors.go\<close>,
  \<open>repository.go\<close>). \<open>OperationState\<close> is a Go string type: the ten constants are
  constructors here, any other string is \<open>StateOther\<close>.
\<close>

section \<open>States\<close>

datatype op_state =
    StateDraft | StatePendingApproval | StateApproved | StateExecuting | StateSucceeded
  | StateFailed | StateRejected | StateExpired | StateCancelled | StateIndeterminate
  | StateOther string

fun state_String :: "op_state \<Rightarrow> string" where
  "state_String StateDraft = ''draft''"
| "state_String StatePendingApproval = ''pending_approval''"
| "state_String StateApproved = ''approved''"
| "state_String StateExecuting = ''executing''"
| "state_String StateSucceeded = ''succeeded''"
| "state_String StateFailed = ''failed''"
| "state_String StateRejected = ''rejected''"
| "state_String StateExpired = ''expired''"
| "state_String StateCancelled = ''cancelled''"
| "state_String StateIndeterminate = ''indeterminate''"
| "state_String (StateOther s) = s"

definition known_states :: "op_state list" where
  "known_states = [StateDraft, StatePendingApproval, StateApproved, StateExecuting, StateSucceeded,
     StateFailed, StateRejected, StateExpired, StateCancelled, StateIndeterminate]"

definition state_of_string :: "string \<Rightarrow> op_state" where
  "state_of_string s = (case find (\<lambda>st. state_String st = s) known_states of
     Some st \<Rightarrow> st | None \<Rightarrow> StateOther s)"

fun IsTerminal :: "op_state \<Rightarrow> bool" where
  "IsTerminal StateSucceeded = True"
| "IsTerminal StateFailed = True"
| "IsTerminal StateRejected = True"
| "IsTerminal StateExpired = True"
| "IsTerminal StateCancelled = True"
| "IsTerminal _ = False"

fun state_Valid :: "op_state \<Rightarrow> bool" where
  "state_Valid (StateOther _) = False"
| "state_Valid _ = True"

lemma state_of_string_String: "state_Valid st \<Longrightarrow> state_of_string (state_String st) = st"
  by (cases st) (simp_all add: state_of_string_def known_states_def)

lemma state_String_of_string [simp]: "state_String (state_of_string s) = s"
  by (auto simp: state_of_string_def dest!: find_SomeD split: option.splits)

lemma state_String_inj:
  "state_Valid a \<Longrightarrow> state_Valid b \<Longrightarrow> state_String a = state_String b \<longleftrightarrow> a = b"
  by (metis state_of_string_String)

section \<open>Operations\<close>

record change =
  Field :: string
  From :: json
  To :: json

datatype assurance = AssuranceReviewedChange | AssuranceGatedCall

fun assurance_String :: "assurance \<Rightarrow> string" where
  "assurance_String AssuranceReviewedChange = ''reviewed_change''"
| "assurance_String AssuranceGatedCall = ''gated_call''"

record operation =
  op_ID :: string
  op_Plugin :: string
  op_Action :: string
  op_State :: op_state
  op_Risk :: risk_level
  op_Target :: raw_message
  op_Params :: raw_message
  op_PayloadHash :: string
  op_Before :: raw_message
  op_Desired :: raw_message
  op_Preconditions :: raw_message
  op_Rollback :: raw_message
  op_Changes :: "change list"
  op_Impact :: string
  op_Verifiable :: bool
  op_RequestedBy :: string
  op_RequestedAt :: time
  op_ExpiresAt :: time
  op_ApprovedBy :: string
  op_ApprovedAt :: "time option"
  op_ApprovalExpiresAt :: "time option"
  op_AuthorizedByRule :: string
  op_AttemptCount :: nat
  op_LeaseOwner :: string
  op_LeaseExpiresAt :: "time option"
  op_TerminalAt :: "time option"
  op_OutcomeVerified :: "bool option"
  op_Observed :: raw_message
  op_ErrorCode :: string
  op_ErrorDetail :: string
  op_CorrelationID :: string
  op_IdempotencyKey :: string

text \<open>The zero \<open>Operation\<close>: every field at its Go zero value.\<close>

definition zero_operation :: operation where
  "zero_operation = \<lparr>
     op_ID = [], op_Plugin = [], op_Action = [], op_State = StateOther [], op_Risk = RiskUnset,
     op_Target = [], op_Params = [], op_PayloadHash = [], op_Before = [], op_Desired = [],
     op_Preconditions = [], op_Rollback = [], op_Changes = [], op_Impact = [],
     op_Verifiable = False, op_RequestedBy = [], op_RequestedAt = zero_time,
     op_ExpiresAt = zero_time, op_ApprovedBy = [], op_ApprovedAt = None,
     op_ApprovalExpiresAt = None, op_AuthorizedByRule = [], op_AttemptCount = 0,
     op_LeaseOwner = [], op_LeaseExpiresAt = None, op_TerminalAt = None,
     op_OutcomeVerified = None, op_Observed = [], op_ErrorCode = [], op_ErrorDetail = [],
     op_CorrelationID = [], op_IdempotencyKey = [] \<rparr>"

definition DriftChecked :: "operation \<Rightarrow> bool" where
  "DriftChecked op = Declared (op_Preconditions op)"

definition Assurance :: "operation \<Rightarrow> assurance" where
  "Assurance op =
    (if op_Verifiable op \<and> DriftChecked op then AssuranceReviewedChange else AssuranceGatedCall)"

definition AutoApproved :: "operation \<Rightarrow> bool" where
  "AutoApproved op \<longleftrightarrow> op_AuthorizedByRule op \<noteq> ''''"

definition SystemActor :: string where "SystemActor = ''system''"

definition Recompute :: "operation \<Rightarrow> canon_error + string" where
  "Recompute op = PayloadHash (op_Plugin op) (op_Action op) (op_Target op) (op_Params op)"

section \<open>Errors\<close>

text \<open>
  The error values of the package: the two structured errors with their codes, the sentinels of
  \<open>errors.go\<close> and \<open>repository.go\<close>, the refusal of the authorizer, and what a failing
  statement or a failing canonicalisation returns. \<open>ErrNilDereference\<close> is no error value: it is the
  run-time panic of a nil pointer.
\<close>

datatype op_error =
    TransitionError op_state op_state string
  | GuardError string string
  | ErrNotFound
  | ErrClaimLost
  | ErrStateConflict
  | ErrIdempotencyConflict
  | ErrForbidden string
  | ErrCanonical canon_error
  | ErrRecompute canon_error
  | ErrConstraint string
  | ErrOutboxEvent
  | ErrNoOperation
  | ErrDecode string
  | ErrContext
  | ErrNilDereference

definition CodeInvalidTransition :: string where "CodeInvalidTransition = ''INVALID_TRANSITION''"
definition CodePayloadMismatch :: string where "CodePayloadMismatch = ''PAYLOAD_MISMATCH''"
definition CodePreconditionChanged :: string where "CodePreconditionChanged = ''PRECONDITION_CHANGED''"
definition CodeProposalExpired :: string where "CodeProposalExpired = ''PROPOSAL_EXPIRED''"
definition CodeApprovalExpired :: string where "CodeApprovalExpired = ''APPROVAL_EXPIRED''"
definition CodeNotAuthorized :: string where "CodeNotAuthorized = ''NOT_AUTHORIZED''"
definition CodeUpstreamFailed :: string where "CodeUpstreamFailed = ''UPSTREAM_FAILED''"
definition CodeIndeterminate :: string where "CodeIndeterminate = ''INDETERMINATE''"
definition CodeVerificationFailed :: string where "CodeVerificationFailed = ''VERIFICATION_FAILED''"
definition CodeLeaseExpired :: string where "CodeLeaseExpired = ''LEASE_EXPIRED''"
definition CodeRiskRaised :: string where "CodeRiskRaised = ''RISK_RAISED''"
definition CodeInvalidRisk :: string where "CodeInvalidRisk = ''INVALID_RISK''"

text \<open>The \<open>Code\<close> methods: the stable identifier of a structured error.\<close>

fun error_Code :: "op_error \<Rightarrow> string option" where
  "error_Code (TransitionError _ _ _) = Some CodeInvalidTransition"
| "error_Code (GuardError code _) = Some code"
| "error_Code _ = None"

text \<open>The \<open>Error\<close> methods of the two structured errors.\<close>

definition TransitionError_Error :: "op_state \<Rightarrow> op_state \<Rightarrow> string \<Rightarrow> string" where
  "TransitionError_Error frm to reason =
    (let msg = ''illegal transition '' @ state_String frm @ '' -> '' @ state_String to
     in if reason \<noteq> [] then msg @ '': '' @ reason else msg)"

definition GuardError_Error :: "string \<Rightarrow> string \<Rightarrow> string" where
  "GuardError_Error code detail = (if detail = [] then code else code @ '': '' @ detail)"

section \<open>Requests to the repository\<close>

record audit_entry =
  ae_EventID :: string
  ae_Kind :: string
  ae_OperationID :: string
  ae_Plugin :: string
  ae_Action :: string
  ae_Actor :: string
  ae_FromState :: op_state
  ae_ToState :: op_state
  ae_Risk :: risk_level
  ae_CorrelationID :: string
  ae_Detail :: raw_message

record outbox_event =
  oe_ID :: string
  oe_Subject :: string
  oe_OperationID :: string
  oe_CorrelationID :: string
  oe_Payload :: raw_message

record approval_fields =
  ap_ApprovedBy :: string
  ap_ApprovedAt :: time
  ap_ApprovalExpiresAt :: time
  ap_AuthorizedByRule :: string

record propose_request =
  pr_Operation :: "operation option"
  pr_Audit :: audit_entry
  pr_Event :: outbox_event
  pr_RequestHash :: string
  pr_IdempotencyTTL :: duration

record transition_request =
  tr_OperationID :: string
  tr_From :: op_state
  tr_To :: op_state
  tr_Actor :: string
  tr_Reason :: string
  tr_Audit :: audit_entry
  tr_Event :: outbox_event
  tr_Approval :: "approval_fields option"
  tr_Terminal :: bool
  tr_ErrorCode :: string
  tr_ErrorDetail :: string

record claim_request =
  cr_OperationID :: string
  cr_ExpectedHash :: string
  cr_InstanceID :: string
  cr_LeaseExpiresAt :: time
  cr_AttemptID :: string
  cr_Audit :: audit_entry
  cr_Event :: outbox_event

record settle_request =
  sr_OperationID :: string
  sr_AttemptID :: string
  sr_To :: op_state
  sr_Actor :: string
  sr_Reason :: string
  sr_Verified :: "bool option"
  sr_Observed :: raw_message
  sr_UpstreamRef :: string
  sr_ErrorCode :: string
  sr_ErrorDetail :: string
  sr_Audit :: audit_entry
  sr_Event :: outbox_event

record list_filter =
  lf_Plugin :: string
  lf_States :: "op_state list"
  lf_Limit :: int
  lf_Offset :: int

section \<open>Assurance\<close>

text \<open>
  An operation is a reviewed change only while it holds all three proofs: it is verifiable, its
  preconditions carry state, and so an unchanged target reads as "no drift" and a target whose
  preconditions vanished reads as drift. Who authorised it plays no part.
\<close>
theorem reviewed_change_has_evidence:
  "Assurance op = AssuranceReviewedChange \<longleftrightarrow>
     op_Verifiable op
     \<and> (\<forall>current. CheckDrift (op_Preconditions op) current \<noteq> DriftNotChecked)"
proof -
  have "\<not> Declared []"
    by (simp add: Declared_def Canonicalize_def TrimSpace_def trim_left.simps space_codes_def
        white_space_def)
  then have "(\<forall>current. CheckDrift p current \<noteq> DriftNotChecked) \<longleftrightarrow> Declared p" for p
    by (auto simp: CheckDrift_def)
  then show ?thesis by (simp add: Assurance_def DriftChecked_def)
qed

end
