(* ===== verification/State_Machine.thy ===== *)
theory State_Machine
  imports Operations
begin

text \<open>
  The transition table of operations, its guards and \<open>Validate\<close>
  (\<open>internal/operations/state_machine.go\<close>). A guard returns \<open>None\<close> for a nil error.
\<close>

datatype trigger = TriggerSubmit | TriggerApprove | TriggerReject | TriggerCancel | TriggerExpire
  | TriggerClaim | TriggerSettle | TriggerReconcile

record guard_context =
  gc_Now :: time
  gc_Actor :: string
  gc_RecomputedHash :: string
  gc_PreconditionsMatch :: bool

type_synonym guard_fn = "operation \<Rightarrow> guard_context \<Rightarrow> op_error option"

definition guard :: "string \<Rightarrow> string \<Rightarrow> op_error option" where
  "guard code detail = Some (GuardError code detail)"

definition isSystem :: "string \<Rightarrow> bool" where
  "isSystem actor \<longleftrightarrow> actor = SystemActor
     \<or> (length actor > length SystemActor
        \<and> take (length SystemActor + 1) actor = SystemActor @ '':'')"

section \<open>Guards\<close>

definition guardSubmit :: guard_fn where [guard_simps]:
  "guardSubmit op gc =
    (if op_PayloadHash op = '''' then guard CodePayloadMismatch ''payload hash not computed''
     else if IsZero (op_ExpiresAt op) \<or> \<not> op_ExpiresAt op > gc_Now gc
       then guard CodeProposalExpired ''expiry must be in the future''
     else None)"

definition guardActorIsRequester :: guard_fn where [guard_simps]:
  "guardActorIsRequester op gc =
    (if gc_Actor gc \<noteq> op_RequestedBy op \<and> \<not> isSystem (gc_Actor gc)
       then guard CodeNotAuthorized ''only the requester may cancel''
     else None)"

definition guardNoLeaseHeld :: guard_fn where [guard_simps]:
  "guardNoLeaseHeld op gc =
    (case op_LeaseExpiresAt op of
       None \<Rightarrow> None
     | Some t \<Rightarrow> if t > gc_Now gc
         then guard CodeNotAuthorized ''operation is claimed for execution'' else None)"

definition guardProposalExpired :: guard_fn where [guard_simps]:
  "guardProposalExpired op gc =
    (if gc_Now gc < op_ExpiresAt op
       then guard CodeProposalExpired ''proposal has not expired'' else None)"

definition guardApprovalExpired :: guard_fn where [guard_simps]:
  "guardApprovalExpired op gc =
    (case op_ApprovalExpiresAt op of
       None \<Rightarrow> guard CodeApprovalExpired ''approved operation has no execute-by deadline''
     | Some t \<Rightarrow> if gc_Now gc < t
         then guard CodeApprovalExpired ''approval has not expired'' else None)"

definition guardApprove :: guard_fn where [guard_simps]:
  "guardApprove op gc =
    (if \<not> gc_Now gc < op_ExpiresAt op
       then guard CodeProposalExpired ''proposal expired before approval'' else None)"

definition guardClaim :: guard_fn where [guard_simps]:
  "guardClaim op gc =
    (if op_PayloadHash op = '''' \<or> gc_RecomputedHash gc = ''''
       then guard CodePayloadMismatch ''missing payload hash''
     else if op_PayloadHash op \<noteq> gc_RecomputedHash gc
       then guard CodePayloadMismatch ''stored payload hash does not match recomputed hash''
     else if (case op_ApprovalExpiresAt op of None \<Rightarrow> True | Some t \<Rightarrow> \<not> gc_Now gc < t)
       then guard CodeApprovalExpired ''approval is no longer valid for execution''
     else if \<not> gc_PreconditionsMatch gc
       then guard CodePreconditionChanged ''target state changed since the operation was proposed''
     else None)"

section \<open>The table\<close>

record transition =
  t_from :: op_state
  t_to :: op_state
  t_trigger :: trigger
  t_guard :: "guard_fn option"

definition row :: "op_state \<Rightarrow> op_state \<Rightarrow> trigger \<Rightarrow> guard_fn option \<Rightarrow> transition" where
  "row a b t g = \<lparr>t_from = a, t_to = b, t_trigger = t, t_guard = g\<rparr>"

definition transition_table :: "transition list" where
  "transition_table =
   [row StateDraft StatePendingApproval TriggerSubmit (Some guardSubmit),
    row StateDraft StateCancelled TriggerCancel (Some guardActorIsRequester),
    row StatePendingApproval StateApproved TriggerApprove (Some guardApprove),
    row StatePendingApproval StateRejected TriggerReject None,
    row StatePendingApproval StateCancelled TriggerCancel (Some guardActorIsRequester),
    row StatePendingApproval StateExpired TriggerExpire (Some guardProposalExpired),
    row StateApproved StateExecuting TriggerClaim (Some guardClaim),
    row StateApproved StateCancelled TriggerCancel (Some guardNoLeaseHeld),
    row StateApproved StateExpired TriggerExpire (Some guardApprovalExpired),
    row StateExecuting StateSucceeded TriggerSettle None,
    row StateExecuting StateFailed TriggerSettle None,
    row StateExecuting StateIndeterminate TriggerSettle None,
    row StateIndeterminate StateSucceeded TriggerReconcile None,
    row StateIndeterminate StateFailed TriggerReconcile None]"

definition CanTransition :: "op_state \<Rightarrow> op_state \<Rightarrow> trigger \<Rightarrow> bool" where
  "CanTransition from to trg \<longleftrightarrow>
     list_ex (\<lambda>t. t_from t = from \<and> t_to t = to \<and> t_trigger t = trg) transition_table"

fun Transitions_loop :: "op_state \<Rightarrow> op_state list \<Rightarrow> transition list \<Rightarrow> op_state list" where
  "Transitions_loop from out [] = out"
| "Transitions_loop from out (t # ts) =
    (if t_from t = from \<and> t_to t \<notin> set out then Transitions_loop from (out @ [t_to t]) ts
     else Transitions_loop from out ts)"

definition Transitions :: "op_state \<Rightarrow> op_state list" where
  "Transitions from = Transitions_loop from [] transition_table"

fun Validate_loop :: "operation \<Rightarrow> op_state \<Rightarrow> trigger \<Rightarrow> guard_context \<Rightarrow> transition list
    \<Rightarrow> op_error option" where
  "Validate_loop op to trg gc [] = Some (TransitionError (op_State op) to ''no such trigger'')"
| "Validate_loop op to trg gc (t # ts) =
    (if t_from t \<noteq> op_State op \<or> t_to t \<noteq> to \<or> t_trigger t \<noteq> trg
       then Validate_loop op to trg gc ts
     else (case t_guard t of None \<Rightarrow> None | Some g \<Rightarrow> g op gc))"

definition Validate :: "operation option \<Rightarrow> op_state \<Rightarrow> trigger \<Rightarrow> guard_context \<Rightarrow> op_error option" where
  "Validate opt to trg gc =
    (case opt of
       None \<Rightarrow> Some (TransitionError (StateOther []) to ''nil operation'')
     | Some op \<Rightarrow>
         if \<not> state_Valid to then Some (TransitionError (op_State op) to ''unknown target state'')
         else if IsTerminal (op_State op)
           then Some (TransitionError (op_State op) to ''source state is terminal'')
         else Validate_loop op to trg gc transition_table)"

fun subjectFor :: "op_state \<Rightarrow> string" where
  "subjectFor StatePendingApproval = ''mcp.operation.proposed''"
| "subjectFor StateApproved = ''mcp.operation.approved''"
| "subjectFor StateRejected = ''mcp.operation.rejected''"
| "subjectFor StateCancelled = ''mcp.operation.cancelled''"
| "subjectFor StateExpired = ''mcp.operation.expired''"
| "subjectFor StateExecuting = ''mcp.operation.executing''"
| "subjectFor StateSucceeded = ''mcp.operation.succeeded''"
| "subjectFor StateFailed = ''mcp.operation.failed''"
| "subjectFor StateIndeterminate = ''mcp.operation.indeterminate''"
| "subjectFor _ = ''''"

section \<open>Lemmas\<close>

lemma row_sel [simp]:
  "t_from (row a b t g) = a" "t_to (row a b t g) = b" "t_trigger (row a b t g) = t"
  "t_guard (row a b t g) = g"
  by (simp_all add: row_def)

lemma CanTransition_cases:
  "CanTransition a b trg \<longleftrightarrow>
   (a, b, trg) \<in>
    {(StateDraft, StatePendingApproval, TriggerSubmit), (StateDraft, StateCancelled, TriggerCancel),
     (StatePendingApproval, StateApproved, TriggerApprove),
     (StatePendingApproval, StateRejected, TriggerReject),
     (StatePendingApproval, StateCancelled, TriggerCancel),
     (StatePendingApproval, StateExpired, TriggerExpire),
     (StateApproved, StateExecuting, TriggerClaim), (StateApproved, StateCancelled, TriggerCancel),
     (StateApproved, StateExpired, TriggerExpire), (StateExecuting, StateSucceeded, TriggerSettle),
     (StateExecuting, StateFailed, TriggerSettle), (StateExecuting, StateIndeterminate, TriggerSettle),
     (StateIndeterminate, StateSucceeded, TriggerReconcile),
     (StateIndeterminate, StateFailed, TriggerReconcile)}"
  unfolding CanTransition_def transition_table_def
  by (cases a) (simp_all, (cases b; simp; blast)+)

text \<open>Progress of a state towards its end; every row of the table increases it.\<close>

fun state_rank :: "op_state \<Rightarrow> nat" where
  "state_rank StateDraft = 0"
| "state_rank StatePendingApproval = 1"
| "state_rank StateApproved = 2"
| "state_rank StateExecuting = 3"
| "state_rank StateIndeterminate = 4"
| "state_rank _ = 5"

lemma state_rank_le: "state_rank a \<le> 5"
  by (cases a) auto

lemma CanTransition_rank: "CanTransition a b trg \<Longrightarrow> state_rank a < state_rank b"
  by (auto simp: CanTransition_cases)

lemma CanTransition_not_terminal: "CanTransition a b trg \<Longrightarrow> \<not> IsTerminal a"
  by (auto simp: CanTransition_cases)

lemma CanTransition_Valid: "CanTransition a b trg \<Longrightarrow> state_Valid b"
  by (auto simp: CanTransition_cases)

lemma Validate_loop_table:
  "Validate_loop op to trg gc transition_table = None \<Longrightarrow> CanTransition (op_State op) to trg"
  by (auto simp: CanTransition_cases transition_table_def split: if_splits)

lemma Validate_None: "Validate (Some op) to trg gc = None \<Longrightarrow> CanTransition (op_State op) to trg"
  by (auto simp: Validate_def intro: Validate_loop_table split: if_splits)

lemma Validate_loop_miss:
  "\<not> list_ex (\<lambda>t. t_from t = op_State op \<and> t_to t = to \<and> t_trigger t = trg) ts \<Longrightarrow>
     Validate_loop op to trg gc ts = Some (TransitionError (op_State op) to ''no such trigger'')"
  by (induction ts) auto

lemma guard_error_kind:
  "g \<in> {guardSubmit, guardActorIsRequester, guardNoLeaseHeld, guardProposalExpired,
      guardApprovalExpired, guardApprove, guardClaim} \<Longrightarrow> g op gc = Some e \<Longrightarrow>
    \<exists>c d. e = GuardError c d"
  by (auto simp: guard_simps guard_def split: if_splits option.splits)

lemma Validate_loop_hit:
  "list_ex (\<lambda>t. t_from t = op_State op \<and> t_to t = to \<and> t_trigger t = trg) ts \<Longrightarrow>
   (\<And>t g op gc e. t \<in> set ts \<Longrightarrow> t_guard t = Some g \<Longrightarrow> g op gc = Some e \<Longrightarrow> \<exists>c d. e = GuardError c d) \<Longrightarrow>
   Validate_loop op to trg gc ts = Some e \<Longrightarrow> \<exists>c d. e = GuardError c d"
proof (induction ts)
  case Nil
  then show ?case by simp
next
  case (Cons t ts)
  show ?case
  proof (cases "t_from t = op_State op \<and> t_to t = to \<and> t_trigger t = trg")
    case True
    with Cons.prems(3) show ?thesis
      by (auto split: option.splits intro: Cons.prems(2) [of t])
  next
    case False
    show ?thesis
      by (rule Cons.IH) (use Cons.prems False in \<open>auto intro: Cons.prems(2)\<close>)
  qed
qed

lemma table_guards:
  assumes "t \<in> set transition_table" and "t_guard t = Some g" and "g op gc = Some e"
  shows "\<exists>c d. e = GuardError c d"
proof -
  have "g \<in> {guardSubmit, guardActorIsRequester, guardNoLeaseHeld, guardProposalExpired,
      guardApprovalExpired, guardApprove, guardClaim}"
    using assms(1,2) unfolding transition_table_def by auto
  then show ?thesis using assms(3) by (rule guard_error_kind)
qed

lemma Validate_error_kind:
  assumes "Validate (Some op) to trg gc = Some e"
  shows "(CanTransition (op_State op) to trg \<longrightarrow> (\<exists>c d. e = GuardError c d))
    \<and> (\<not> CanTransition (op_State op) to trg \<longrightarrow> (\<exists>r. e = TransitionError (op_State op) to r))"
proof (intro conjI impI)
  assume can: "CanTransition (op_State op) to trg"
  then have "Validate_loop op to trg gc transition_table = Some e"
    using assms CanTransition_Valid CanTransition_not_terminal
    by (auto simp: Validate_def split: if_splits)
  with can show "\<exists>c d. e = GuardError c d"
    unfolding CanTransition_def by (blast intro: Validate_loop_hit table_guards)
next
  assume "\<not> CanTransition (op_State op) to trg"
  then have "Validate_loop op to trg gc transition_table
      = Some (TransitionError (op_State op) to ''no such trigger'')"
    unfolding CanTransition_def by (rule Validate_loop_miss)
  with assms show "\<exists>r. e = TransitionError (op_State op) to r"
    by (auto simp: Validate_def split: if_splits)
qed

lemma Validate_approve:
  "Validate (Some op) StateApproved TriggerApprove gc = None \<longleftrightarrow>
     op_State op = StatePendingApproval \<and> gc_Now gc < op_ExpiresAt op"
  by (cases "op_State op")
     (simp_all add: Validate_def transition_table_def guard_simps guard_def)

lemma Validate_reject:
  "Validate (Some op) StateRejected TriggerReject gc = None \<longleftrightarrow> op_State op = StatePendingApproval"
  by (cases "op_State op") (simp_all add: Validate_def transition_table_def)

lemma Validate_claim:
  "Validate (Some op) StateExecuting TriggerClaim gc = None \<longleftrightarrow>
     op_State op = StateApproved \<and> op_PayloadHash op \<noteq> ''''
     \<and> op_PayloadHash op = gc_RecomputedHash gc
     \<and> (\<exists>t. op_ApprovalExpiresAt op = Some t \<and> gc_Now gc < t)
     \<and> gc_PreconditionsMatch gc"
  by (cases "op_State op")
     (auto simp: Validate_def transition_table_def guard_simps guard_def split: option.splits)

lemma Validate_submit:
  "Validate (Some op) StatePendingApproval TriggerSubmit gc = None \<longleftrightarrow>
     op_State op = StateDraft \<and> op_PayloadHash op \<noteq> '''' \<and> op_ExpiresAt op \<noteq> zero_time
     \<and> gc_Now gc < op_ExpiresAt op"
  by (cases "op_State op")
     (auto simp: Validate_def transition_table_def guard_simps guard_def IsZero_def)

lemma Validate_expire_pending:
  "op_State op = StatePendingApproval \<Longrightarrow>
     Validate (Some op) StateExpired TriggerExpire gc = None \<longleftrightarrow> op_ExpiresAt op \<le> gc_Now gc"
  by (auto simp: Validate_def transition_table_def guard_simps guard_def)

lemma Validate_expire_approved:
  "op_State op = StateApproved \<Longrightarrow>
     Validate (Some op) StateExpired TriggerExpire gc = None \<longleftrightarrow>
       (\<exists>t. op_ApprovalExpiresAt op = Some t \<and> t \<le> gc_Now gc)"
  by (auto simp: Validate_def transition_table_def guard_simps guard_def split: option.splits)

lemma Validate_cancel:
  "Validate (Some op) StateCancelled TriggerCancel gc = None \<longleftrightarrow>
     (op_State op \<in> {StateDraft, StatePendingApproval}
        \<and> (gc_Actor gc = op_RequestedBy op \<or> isSystem (gc_Actor gc)))
     \<or> (op_State op = StateApproved
        \<and> (\<forall>t. op_LeaseExpiresAt op = Some t \<longrightarrow> t \<le> gc_Now gc))"
  by (cases "op_State op")
     (auto simp: Validate_def transition_table_def guard_simps guard_def split: option.splits)

text \<open>A run of the table, ignoring guards.\<close>

inductive table_path :: "op_state \<Rightarrow> op_state list \<Rightarrow> bool" where
  path_nil: "table_path a []"
| path_step: "CanTransition a b trg \<Longrightarrow> table_path b p \<Longrightarrow> table_path a (b # p)"

inductive_cases table_path_ConsE: "table_path a (b # p)"

lemma table_path_bound: "table_path a p \<Longrightarrow> length p + state_rank a \<le> 5"
proof (induction rule: table_path.induct)
  case (path_nil a)
  show ?case by (simp add: state_rank_le)
next
  case (path_step a b trg p)
  then show ?case using CanTransition_rank [of a b trg] by simp
qed

text \<open>
  C37. An operation comes to rest. Whatever the guards say, no run of the table from any state is
  longer than five transitions, a terminal state admits none, and a state that admits none is
  terminal or is not one of the ten states.
\<close>
theorem lifecycle_terminates:
  "(\<forall>a p. table_path a p \<longrightarrow> length p \<le> 5)
   \<and> (\<forall>a. IsTerminal a \<longrightarrow> Transitions a = [])
   \<and> (\<forall>a. Transitions a = [] \<longrightarrow> IsTerminal a \<or> \<not> state_Valid a)"
proof (intro conjI allI impI)
  fix a p assume "table_path a p"
  then show "length p \<le> 5" using table_path_bound by fastforce
next
  fix a assume "IsTerminal a"
  then show "Transitions a = []"
    by (cases a) (simp_all add: Transitions_def transition_table_def)
next
  fix a assume "Transitions a = []"
  then show "IsTerminal a \<or> \<not> state_Valid a"
    by (cases a) (simp_all add: Transitions_def transition_table_def)
qed

theorem lifecycle_terminates_witness:
  "length [StatePendingApproval, StateApproved, StateExecuting, StateIndeterminate, StateFailed] \<le> 5
   \<and> table_path StateDraft
       [StatePendingApproval, StateApproved, StateExecuting, StateIndeterminate, StateFailed]
   \<and> Transitions StateFailed = []"
proof -
  have p: "table_path StateDraft
       [StatePendingApproval, StateApproved, StateExecuting, StateIndeterminate, StateFailed]"
    by (rule path_step [where trg = TriggerSubmit], simp add: CanTransition_cases,
        rule path_step [where trg = TriggerApprove], simp add: CanTransition_cases,
        rule path_step [where trg = TriggerClaim], simp add: CanTransition_cases,
        rule path_step [where trg = TriggerSettle], simp add: CanTransition_cases,
        rule path_step [where trg = TriggerReconcile], simp add: CanTransition_cases,
        rule path_nil)
  have t: "IsTerminal StateFailed" by simp
  from p t show ?thesis using lifecycle_terminates by blast
qed

text \<open>
  \<open>Validate\<close> accepts only rows of the table, and its refusals say which kind they are: a
  \<open>TransitionError\<close> exactly when the table has no such row, a \<open>GuardError\<close> exactly when it has and
  the guard refuses. A terminal source, an unknown target and a nil operation are refused
  whatever the trigger.
\<close>
theorem Validate_refusals:
  "(Validate (Some op) to trg gc = None \<longrightarrow>
      CanTransition (op_State op) to trg \<and> \<not> IsTerminal (op_State op) \<and> state_Valid to)
   \<and> (\<forall>e. Validate (Some op) to trg gc = Some e \<longrightarrow>
        (CanTransition (op_State op) to trg \<longleftrightarrow> (\<exists>c d. e = GuardError c d))
        \<and> (\<not> CanTransition (op_State op) to trg \<longleftrightarrow> (\<exists>r. e = TransitionError (op_State op) to r)))
   \<and> Validate None to trg gc \<noteq> None"
proof -
  have "(CanTransition (op_State op) to trg \<longleftrightarrow> (\<exists>c d. e = GuardError c d))
      \<and> (\<not> CanTransition (op_State op) to trg \<longleftrightarrow> (\<exists>r. e = TransitionError (op_State op) to r))"
    if "Validate (Some op) to trg gc = Some e" for e
    using Validate_error_kind [OF that] by auto
  then show ?thesis
    using Validate_None CanTransition_not_terminal CanTransition_Valid
    by (simp add: Validate_def [of None]) blast
qed

definition sample_pending :: operation where
  "sample_pending = zero_operation\<lparr>op_ID := ''op_1'', op_State := StatePendingApproval,
     op_RequestedBy := ''user:alice'', op_PayloadHash := ''h'', op_ExpiresAt := 100\<rparr>"

definition sample_gc :: guard_context where
  "sample_gc = \<lparr>gc_Now = 5, gc_Actor = ''user:bob'', gc_RecomputedHash = ''h'',
     gc_PreconditionsMatch = True\<rparr>"

theorem Validate_refusals_witness:
  "CanTransition StatePendingApproval StateApproved TriggerApprove
   \<and> Validate (Some sample_pending) StateApproved TriggerApprove sample_gc = None"
proof -
  have v: "Validate (Some sample_pending) StateApproved TriggerApprove sample_gc = None"
    by (simp add: Validate_approve sample_pending_def sample_gc_def zero_operation_def)
  have s: "op_State sample_pending = StatePendingApproval" by (simp add: sample_pending_def)
  show ?thesis
    using Validate_refusals [of sample_pending StateApproved TriggerApprove sample_gc] v s by auto
qed

text \<open>
  Deadlines split time with no gap and no overlap. At every moment a pending proposal can be
  approved or has expired, never both; and an approved operation whose hash and preconditions
  still match can be claimed or has expired, never both.
\<close>
theorem deadline_dichotomy:
  "(op_State op = StatePendingApproval \<longrightarrow>
     (Validate (Some op) StateApproved TriggerApprove gc = None) \<noteq>
     (Validate (Some op) StateExpired TriggerExpire gc = None))
   \<and> (op_State op = StateApproved \<and> op_ApprovalExpiresAt op \<noteq> None \<and> op_PayloadHash op \<noteq> ''''
        \<and> gc_RecomputedHash gc = op_PayloadHash op \<and> gc_PreconditionsMatch gc \<longrightarrow>
     (Validate (Some op) StateExecuting TriggerClaim gc = None) \<noteq>
     (Validate (Some op) StateExpired TriggerExpire gc = None))"
  by (auto simp: Validate_approve Validate_expire_pending Validate_claim Validate_expire_approved)

theorem deadline_dichotomy_witness:
  "(Validate (Some sample_pending) StateApproved TriggerApprove sample_gc = None) \<noteq>
     (Validate (Some sample_pending) StateExpired TriggerExpire sample_gc = None)
   \<and> (Validate (Some (sample_pending\<lparr>op_State := StateApproved, op_ApprovalExpiresAt := Some 9\<rparr>))
        StateExecuting TriggerClaim sample_gc = None) \<noteq>
     (Validate (Some (sample_pending\<lparr>op_State := StateApproved, op_ApprovalExpiresAt := Some 9\<rparr>))
        StateExpired TriggerExpire sample_gc = None)"
  using deadline_dichotomy [of sample_pending sample_gc]
    deadline_dichotomy [of "sample_pending\<lparr>op_State := StateApproved, op_ApprovalExpiresAt := Some 9\<rparr>"
      sample_gc]
  by (simp add: sample_pending_def sample_gc_def zero_operation_def)

end
