(* ===== verification/Database.thy ===== *)
theory Database
  imports State_Machine
begin

text \<open>
  The tables the approval workflow is stored in, the statements on them, and the transaction every
  write goes through (\<open>internal/storage/sqlite/migrations\<close> 0001, 0004, 0005, 0010, 0012 and
  \<open>tx.go\<close>). A table is its rows in insertion order. NULL is \<open>None\<close>, a time is in milliseconds.
  SQLite's \<open>json_valid\<close> is the argument \<open>jv\<close>. Only the constraints and triggers that a statement
  of the modelled code can meet are checked.
\<close>

section \<open>Rows\<close>

record op_row =
  c_id :: string
  c_plugin :: string
  c_action :: string
  c_state :: string
  c_risk :: string
  c_target_json :: string
  c_params_json :: string
  c_payload_hash :: string
  c_before_json :: "string option"
  c_desired_json :: "string option"
  c_precondition_json :: "string option"
  c_rollback_json :: "string option"
  c_changes_json :: "string option"
  c_impact :: string
  c_requested_by :: string
  c_requested_at :: millis
  c_expires_at :: millis
  c_approved_by :: "string option"
  c_approved_at :: "millis option"
  c_approval_expires_at :: "millis option"
  c_attempt_count :: nat
  c_lease_owner :: "string option"
  c_lease_expires_at :: "millis option"
  c_terminal_at :: "millis option"
  c_outcome_verified :: "bool option"
  c_observed_json :: "string option"
  c_error_code :: "string option"
  c_error_detail :: "string option"
  c_correlation_id :: string
  c_idempotency_key :: string
  c_verifiable :: bool
  c_authorized_by_rule :: "string option"

record transition_row =
  tn_seq :: int
  tn_operation_id :: string
  tn_from_state :: "string option"
  tn_to_state :: string
  tn_actor :: string
  tn_reason :: "string option"
  tn_at :: millis
  tn_correlation_id :: string

record audit_row =
  au_seq :: int
  au_event_id :: string
  au_at :: millis
  au_kind :: string
  au_operation_id :: "string option"
  au_plugin :: "string option"
  au_action :: "string option"
  au_actor :: string
  au_from_state :: "string option"
  au_to_state :: "string option"
  au_risk :: "string option"
  au_correlation_id :: string
  au_detail_json :: string
  au_prev_hash :: string
  au_entry_hash :: string

record attempt_row =
  at_id :: string
  at_operation_id :: string
  at_attempt_no :: nat
  at_instance_id :: string
  at_started_at :: millis
  at_finished_at :: "millis option"
  at_outcome :: "string option"
  at_upstream_ref :: "string option"
  at_verified :: "bool option"
  at_observed_json :: "string option"
  at_error_code :: "string option"
  at_error_detail :: "string option"

record outbox_row =
  ob_seq :: int
  ob_event_id :: string
  ob_subject :: string
  ob_operation_id :: "string option"
  ob_correlation_id :: string
  ob_payload_json :: string
  ob_created_at :: millis
  ob_published_at :: "millis option"
  ob_attempts :: nat
  ob_next_attempt_at :: millis
  ob_last_error :: "string option"

record idem_row =
  im_scope :: string
  im_key :: string
  im_request_hash :: string
  im_operation_id :: string
  im_created_at :: millis
  im_expires_at :: millis

text \<open>The \<open>sq_\<close> fields are the AUTOINCREMENT counters: the largest number ever given out.\<close>

record database =
  db_operations :: "op_row list"
  db_transitions :: "transition_row list"
  db_audit :: "audit_row list"
  db_attempts :: "attempt_row list"
  db_outbox :: "outbox_row list"
  db_idem :: "idem_row list"
  db_prune_gate :: "millis list"
  sq_transitions :: int
  sq_audit :: int
  sq_outbox :: int

definition empty_db :: database where
  "empty_db = \<lparr>db_operations = [], db_transitions = [], db_audit = [], db_attempts = [],
     db_outbox = [], db_idem = [], db_prune_gate = [], sq_transitions = 0, sq_audit = 0,
     sq_outbox = 0\<rparr>"

section \<open>Values\<close>

definition nullStr :: "string \<Rightarrow> string option" where
  "nullStr s = (if s = '''' then None else Some s)"

definition nullJSON :: "raw_message \<Rightarrow> string option" where
  "nullJSON r = (if length r = 0 then None else Some r)"

definition rawOrNil :: "string option \<Rightarrow> raw_message" where
  "rawOrNil s = (case s of None \<Rightarrow> [] | Some t \<Rightarrow> if t = [] then [] else t)"

definition timeOrNil :: "millis option \<Rightarrow> time option" where
  "timeOrNil i = (case i of None \<Rightarrow> None | Some ms \<Rightarrow> Some (time_UnixMilli ms))"

definition coalesce :: "string option \<Rightarrow> string" where
  "coalesce s = (case s of None \<Rightarrow> '''' | Some t \<Rightarrow> t)"

section \<open>Errors of statements\<close>

datatype sql_error = UniqueFailed string | CheckFailed string | ForeignKeyFailed | Aborted string

fun sql_text :: "sql_error \<Rightarrow> string" where
  "sql_text (UniqueFailed cols) = ''UNIQUE constraint failed: '' @ cols"
| "sql_text (CheckFailed c) = ''CHECK constraint failed: '' @ c"
| "sql_text ForeignKeyFailed = ''FOREIGN KEY constraint failed''"
| "sql_text (Aborted msg) = msg"

fun str_contains :: "string \<Rightarrow> string \<Rightarrow> bool" where
  "str_contains [] t = (t = [])"
| "str_contains (c # cs) t = (has_prefix (c # cs) t \<or> str_contains cs t)"

definition isUniqueViolation :: "sql_error \<Rightarrow> string \<Rightarrow> bool" where
  "isUniqueViolation e columns \<longleftrightarrow>
     str_contains (sql_text e) ''UNIQUE constraint failed'' \<and> str_contains (sql_text e) columns"

definition idempotencyColumns :: string where
  "idempotencyColumns = ''operations.plugin, operations.action, operations.idempotency_key''"

definition and_then :: "'e + 'a \<Rightarrow> ('a \<Rightarrow> 'e + 'b) \<Rightarrow> 'e + 'b" where
  "and_then r f = (case r of Inl e \<Rightarrow> Inl e | Inr x \<Rightarrow> f x)"

definition wrap :: "sql_error + 'a \<Rightarrow> op_error + 'a" where
  "wrap r = (case r of Inl e \<Rightarrow> Inl (ErrConstraint (sql_text e)) | Inr x \<Rightarrow> Inr x)"

lemma and_then_simps [simp]: "and_then (Inl e) f = Inl e" "and_then (Inr x) f = f x"
  by (simp_all add: and_then_def)

lemma wrap_simps [simp]: "wrap (Inr x) = Inr x" "wrap r = Inr y \<longleftrightarrow> r = Inr y"
  by (simp_all add: wrap_def split: sum.splits)

lemma and_then_Inr: "and_then r f = Inr y \<longleftrightarrow> (\<exists>x. r = Inr x \<and> f x = Inr y)"
  by (cases r) auto

section \<open>The operations table\<close>

definition stored_states :: "string list" where
  "stored_states = [''draft'', ''pending_approval'', ''approved'', ''executing'', ''succeeded'',
     ''failed'', ''indeterminate'', ''rejected'', ''expired'', ''cancelled'']"

definition live_states :: "string list" where
  "live_states = [''draft'', ''pending_approval'', ''approved'', ''executing'', ''indeterminate'']"

definition row_check :: "(string \<Rightarrow> bool) \<Rightarrow> op_row \<Rightarrow> sql_error option" where
  "row_check jv r =
    (if c_state r \<notin> set stored_states then Some (CheckFailed ''state'')
     else if c_risk r \<notin> {''low'', ''medium'', ''high'', ''critical''} then Some (CheckFailed ''risk'')
     else if \<not> jv (c_target_json r) then Some (CheckFailed ''target_json'')
     else if \<not> jv (c_params_json r) then Some (CheckFailed ''params_json'')
     else if \<not> (c_state r \<noteq> ''approved'' \<or> c_approval_expires_at r \<noteq> None)
       then Some (CheckFailed ''approval_expires_at'')
     else None)"

text \<open>The entry of a row in the partial unique index \<open>ux_operations_idem\<close>, if it has one.\<close>

definition live_key :: "op_row \<Rightarrow> (string \<times> string \<times> string) option" where
  "live_key r =
    (if c_state r \<in> set live_states then Some (c_plugin r, c_action r, c_idempotency_key r) else None)"

fun unique_keys :: "'k option list \<Rightarrow> bool" where
  "unique_keys [] = True"
| "unique_keys (k # ks) = ((k = None \<or> k \<notin> set ks) \<and> unique_keys ks)"

definition insert_operation :: "(string \<Rightarrow> bool) \<Rightarrow> op_row \<Rightarrow> database \<Rightarrow> sql_error + database" where
  "insert_operation jv r db =
    (case row_check jv r of
       Some e \<Rightarrow> Inl e
     | None \<Rightarrow>
         if c_id r \<in> c_id ` set (db_operations db) then Inl (UniqueFailed ''operations.id'')
         else if live_key r \<noteq> None \<and> live_key r \<in> live_key ` set (db_operations db)
           then Inl (UniqueFailed idempotencyColumns)
         else Inr (db\<lparr>db_operations := db_operations db @ [r]\<rparr>))"

text \<open>The SET list of an UPDATE, one assignment per column.\<close>

datatype assignment =
    SetState string
  | SetApprovedBy string
  | SetApprovedAt millis
  | SetApprovalExpiresAt millis
  | SetAuthorizedByRule "string option"
  | SetTerminalAt millis
  | SetErrorCode "string option"
  | SetErrorDetail "string option"
  | SetLeaseOwner "string option"
  | SetLeaseExpiresAt "millis option"
  | IncAttemptCount
  | SetOutcomeVerified "bool option"
  | SetObserved "string option"
  | SetTarget string
  | SetParams string
  | SetPayloadHash string
  | SetVerifiable bool

fun assign :: "assignment \<Rightarrow> op_row \<Rightarrow> op_row" where
  "assign (SetState s) r = r\<lparr>c_state := s\<rparr>"
| "assign (SetApprovedBy s) r = r\<lparr>c_approved_by := Some s\<rparr>"
| "assign (SetApprovedAt t) r = r\<lparr>c_approved_at := Some t\<rparr>"
| "assign (SetApprovalExpiresAt t) r = r\<lparr>c_approval_expires_at := Some t\<rparr>"
| "assign (SetAuthorizedByRule s) r = r\<lparr>c_authorized_by_rule := s\<rparr>"
| "assign (SetTerminalAt t) r = r\<lparr>c_terminal_at := Some t\<rparr>"
| "assign (SetErrorCode s) r = r\<lparr>c_error_code := s\<rparr>"
| "assign (SetErrorDetail s) r = r\<lparr>c_error_detail := s\<rparr>"
| "assign (SetLeaseOwner s) r = r\<lparr>c_lease_owner := s\<rparr>"
| "assign (SetLeaseExpiresAt t) r = r\<lparr>c_lease_expires_at := t\<rparr>"
| "assign IncAttemptCount r = r\<lparr>c_attempt_count := c_attempt_count r + 1\<rparr>"
| "assign (SetOutcomeVerified b) r = r\<lparr>c_outcome_verified := b\<rparr>"
| "assign (SetObserved s) r = r\<lparr>c_observed_json := s\<rparr>"
| "assign (SetTarget s) r = r\<lparr>c_target_json := s\<rparr>"
| "assign (SetParams s) r = r\<lparr>c_params_json := s\<rparr>"
| "assign (SetPayloadHash s) r = r\<lparr>c_payload_hash := s\<rparr>"
| "assign (SetVerifiable b) r = r\<lparr>c_verifiable := b\<rparr>"

definition assign_all :: "assignment list \<Rightarrow> op_row \<Rightarrow> op_row" where
  "assign_all sets r = fold assign sets r"

fun sets_payload :: "assignment \<Rightarrow> bool" where
  "sets_payload (SetTarget _) = True"
| "sets_payload (SetParams _) = True"
| "sets_payload (SetPayloadHash _) = True"
| "sets_payload _ = False"

fun sets_verifiable :: "assignment \<Rightarrow> bool" where
  "sets_verifiable (SetVerifiable _) = True"
| "sets_verifiable _ = False"

fun sets_rule :: "assignment \<Rightarrow> bool" where
  "sets_rule (SetAuthorizedByRule _) = True"
| "sets_rule _ = False"

text \<open>The three BEFORE UPDATE triggers, on the old and the new row.\<close>

definition update_trigger :: "assignment list \<Rightarrow> op_row \<Rightarrow> op_row \<Rightarrow> sql_error option" where
  "update_trigger sets old new =
    (if list_ex sets_payload sets \<and> c_state old \<noteq> ''draft''
       then Some (Aborted ''operation payload is immutable after submission'')
     else if list_ex sets_verifiable sets \<and> c_state old \<noteq> ''draft''
       then Some (Aborted ''operation verifiability is immutable after submission'')
     else if list_ex sets_rule sets \<and> c_authorized_by_rule new \<noteq> c_authorized_by_rule old
        \<and> \<not> (c_authorized_by_rule old = None \<and> c_state old = ''pending_approval''
              \<and> c_state new = ''approved'')
       then Some (Aborted ''the rule that authorised an operation may only be set by the approval itself'')
     else None)"

definition row_refused :: "(string \<Rightarrow> bool) \<Rightarrow> assignment list \<Rightarrow> op_row \<Rightarrow> sql_error option" where
  "row_refused jv sets r =
    (case update_trigger sets r (assign_all sets r) of
       Some e \<Rightarrow> Some e
     | None \<Rightarrow> row_check jv (assign_all sets r))"

fun first_refusal :: "(string \<Rightarrow> bool) \<Rightarrow> assignment list \<Rightarrow> op_row list \<Rightarrow> sql_error option" where
  "first_refusal jv sets [] = None"
| "first_refusal jv sets (r # rs) =
    (case row_refused jv sets r of Some e \<Rightarrow> Some e | None \<Rightarrow> first_refusal jv sets rs)"

text \<open>\<open>UPDATE operations SET ... WHERE\<close>: the changed tables and the number of rows matched.\<close>

definition update_operations ::
  "(string \<Rightarrow> bool) \<Rightarrow> assignment list \<Rightarrow> (op_row \<Rightarrow> bool) \<Rightarrow> database \<Rightarrow> sql_error + database \<times> nat" where
  "update_operations jv sets cond db =
    (case first_refusal jv sets (filter cond (db_operations db)) of
       Some e \<Rightarrow> Inl e
     | None \<Rightarrow>
         (let rows = update_where cond (assign_all sets) (db_operations db)
          in if \<not> unique_keys (map live_key rows) then Inl (UniqueFailed idempotencyColumns)
             else Inr (db\<lparr>db_operations := rows\<rparr>, count_where cond (db_operations db))))"

datatype guarded_error = NoRowsAffected | GuardMatched nat | StatementFailed sql_error

definition execGuarded ::
  "(string \<Rightarrow> bool) \<Rightarrow> assignment list \<Rightarrow> (op_row \<Rightarrow> bool) \<Rightarrow> database \<Rightarrow> guarded_error + database" where
  "execGuarded jv sets cond db =
    (case update_operations jv sets cond db of
       Inl e \<Rightarrow> Inl (StatementFailed e)
     | Inr (db', n) \<Rightarrow>
         if n = 1 then Inr db' else if n = 0 then Inl NoRowsAffected else Inl (GuardMatched n))"

text \<open>The callers report no matching row as \<open>err\<close> and pass any other error on.\<close>

definition guarded_as :: "op_error \<Rightarrow> guarded_error + 'a \<Rightarrow> op_error + 'a" where
  "guarded_as err r =
    (case r of
       Inr x \<Rightarrow> Inr x
     | Inl NoRowsAffected \<Rightarrow> Inl err
     | Inl (GuardMatched n) \<Rightarrow> Inl (ErrConstraint ''guarded update matched several rows'')
     | Inl (StatementFailed e) \<Rightarrow> Inl (ErrConstraint (sql_text e)))"

section \<open>Transactions\<close>

text \<open>
  \<open>WriteTx\<close>: the callback's changes are kept when it returns nil and rolled back when it returns an
  error. The writer pool has one connection, so transactions do not interleave.
\<close>

definition WriteTx :: "(database \<Rightarrow> op_error + database) \<Rightarrow> database \<Rightarrow> op_error option \<times> database" where
  "WriteTx fn db = (case fn db of Inl e \<Rightarrow> (Some e, db) | Inr db' \<Rightarrow> (None, db'))"

definition recordTransition ::
  "millis \<Rightarrow> string \<Rightarrow> string \<Rightarrow> string \<Rightarrow> string \<Rightarrow> string \<Rightarrow> string \<Rightarrow> database \<Rightarrow> op_error + database" where
  "recordTransition now opID from to actor reason correlationID db =
    (if opID \<notin> c_id ` set (db_operations db) then Inl (ErrConstraint (sql_text ForeignKeyFailed))
     else Inr (db\<lparr>
       db_transitions := db_transitions db @ [\<lparr>tn_seq = sq_transitions db + 1, tn_operation_id = opID,
         tn_from_state = nullStr from, tn_to_state = to, tn_actor = actor, tn_reason = nullStr reason,
         tn_at = now, tn_correlation_id = correlationID\<rparr>],
       sq_transitions := sq_transitions db + 1\<rparr>))"

definition enqueue :: "(string \<Rightarrow> bool) \<Rightarrow> millis \<Rightarrow> outbox_event \<Rightarrow> database \<Rightarrow> op_error + database" where
  "enqueue jv now e db =
    (if oe_ID e = '''' \<or> oe_Subject e = '''' then Inl ErrOutboxEvent
     else
       (let payload = (if length (oe_Payload e) = 0 then ''{}'' else oe_Payload e)
        in if \<not> jv payload then Inl (ErrConstraint (sql_text (CheckFailed ''payload_json'')))
           else if oe_ID e \<in> ob_event_id ` set (db_outbox db)
             then Inl (ErrConstraint (sql_text (UniqueFailed ''outbox_events.event_id'')))
           else Inr (db\<lparr>
             db_outbox := db_outbox db @ [\<lparr>ob_seq = sq_outbox db + 1, ob_event_id = oe_ID e,
               ob_subject = oe_Subject e, ob_operation_id = nullStr (oe_OperationID e),
               ob_correlation_id = oe_CorrelationID e, ob_payload_json = payload,
               ob_created_at = now, ob_published_at = None, ob_attempts = 0,
               ob_next_attempt_at = 0, ob_last_error = None\<rparr>],
             sq_outbox := sq_outbox db + 1\<rparr>)))"

end
