(* ===== verification/Audit_Trail.thy ===== *)
theory Audit_Trail
  imports Database
begin

text \<open>
  The hash-chained audit trail (\<open>internal/storage/sqlite/audit.go\<close>): appending inside a
  transaction, reading, verifying the chain and pruning it.
\<close>

definition genesisHash :: string where
  "genesisHash = replicate 64 CHR ''0''"

definition chain_parts :: "string \<Rightarrow> millis \<Rightarrow> audit_entry \<Rightarrow> raw_message \<Rightarrow> string list" where
  "chain_parts prev at e detail =
    [prev, show_int at, ae_EventID e, ae_Kind e, ae_OperationID e, ae_Plugin e, ae_Action e,
     ae_Actor e, state_String (ae_FromState e), state_String (ae_ToState e), risk_String (ae_Risk e),
     ae_CorrelationID e, detail]"

definition chainHash :: "string \<Rightarrow> millis \<Rightarrow> audit_entry \<Rightarrow> raw_message \<Rightarrow> string" where
  "chainHash prev at e detail = sha256_hex (frame (chain_parts prev at e detail))"

text \<open>\<open>ORDER BY seq\<close>.\<close>

definition audit_by_seq :: "audit_row list \<Rightarrow> audit_row list" where
  "audit_by_seq rows = sort_by (\<lambda>a b. au_seq a \<le> au_seq b) rows"

definition audit_head :: "audit_row list \<Rightarrow> string" where
  "audit_head rows = (case rev (audit_by_seq rows) of [] \<Rightarrow> genesisHash | r # _ \<Rightarrow> au_entry_hash r)"

definition audit_row_of :: "millis \<Rightarrow> audit_entry \<Rightarrow> int \<Rightarrow> string \<Rightarrow> audit_row" where
  "audit_row_of now e seq prev =
    (let detail = (if length (ae_Detail e) = 0 then ''{}'' else ae_Detail e)
     in \<lparr>au_seq = seq, au_event_id = ae_EventID e, au_at = now, au_kind = ae_Kind e,
         au_operation_id = nullStr (ae_OperationID e), au_plugin = nullStr (ae_Plugin e),
         au_action = nullStr (ae_Action e), au_actor = ae_Actor e,
         au_from_state = nullStr (state_String (ae_FromState e)),
         au_to_state = nullStr (state_String (ae_ToState e)),
         au_risk = nullStr (risk_String (ae_Risk e)), au_correlation_id = ae_CorrelationID e,
         au_detail_json = detail, au_prev_hash = prev,
         au_entry_hash = chainHash prev now e detail\<rparr>)"

definition insert_audit :: "(string \<Rightarrow> bool) \<Rightarrow> audit_row \<Rightarrow> database \<Rightarrow> sql_error + database" where
  "insert_audit jv r db =
    (if \<not> jv (au_detail_json r) then Inl (CheckFailed ''detail_json'')
     else if au_event_id r \<in> au_event_id ` set (db_audit db)
       then Inl (UniqueFailed ''audit_events.event_id'')
     else if (case au_operation_id r of None \<Rightarrow> False | Some i \<Rightarrow> i \<notin> c_id ` set (db_operations db))
       then Inl ForeignKeyFailed
     else Inr (db\<lparr>db_audit := db_audit db @ [r], sq_audit := sq_audit db + 1\<rparr>))"

definition appendAudit :: "(string \<Rightarrow> bool) \<Rightarrow> millis \<Rightarrow> audit_entry \<Rightarrow> database \<Rightarrow> op_error + database" where
  "appendAudit jv now e db =
    (let prev = audit_head (db_audit db)
     in wrap (insert_audit jv (audit_row_of now e (sq_audit db + 1) prev) db))"

record admin_act =
  aa_Kind :: string
  aa_Actor :: string
  aa_Subject :: string
  aa_Action :: string
  aa_Detail :: json

text \<open>The fresh event identifier \<open>newEventID()\<close> draws is the argument \<open>eid\<close>.\<close>

definition AppendAudit :: "(string \<Rightarrow> bool) \<Rightarrow> millis \<Rightarrow> string \<Rightarrow> admin_act \<Rightarrow> database \<Rightarrow> op_error + database"
  where
  "AppendAudit jv now eid a db =
    appendAudit jv now
      \<lparr>ae_EventID = eid, ae_Kind = aa_Kind a, ae_OperationID = [], ae_Plugin = aa_Subject a,
       ae_Action = aa_Action a, ae_Actor = aa_Actor a, ae_FromState = StateOther [],
       ae_ToState = StateOther [], ae_Risk = RiskUnset, ae_CorrelationID = [],
       ae_Detail = marshal (aa_Detail a)\<rparr> db"

section \<open>Reading\<close>

record audit_record =
  re_Seq :: int
  re_EventID :: string
  re_At :: time
  re_Entry :: audit_entry
  re_PrevHash :: string
  re_EntryHash :: string

definition scanAuditRow :: "audit_row \<Rightarrow> audit_record" where
  "scanAuditRow r =
    \<lparr>re_Seq = au_seq r, re_EventID = au_event_id r, re_At = time_UnixMilli (au_at r),
     re_Entry = \<lparr>ae_EventID = au_event_id r, ae_Kind = au_kind r,
       ae_OperationID = coalesce (au_operation_id r), ae_Plugin = coalesce (au_plugin r),
       ae_Action = coalesce (au_action r), ae_Actor = au_actor r,
       ae_FromState = state_of_string (coalesce (au_from_state r)),
       ae_ToState = state_of_string (coalesce (au_to_state r)),
       ae_Risk = risk_of_string (coalesce (au_risk r)), ae_CorrelationID = au_correlation_id r,
       ae_Detail = au_detail_json r\<rparr>,
     re_PrevHash = au_prev_hash r, re_EntryHash = au_entry_hash r\<rparr>"

definition ByOperation :: "string \<Rightarrow> database \<Rightarrow> audit_record list" where
  "ByOperation opID db =
    map scanAuditRow (filter (\<lambda>r. au_operation_id r = Some opID) (audit_by_seq (db_audit db)))"

definition Recent :: "int \<Rightarrow> database \<Rightarrow> audit_record list" where
  "Recent limit db =
    (let n = (if limit \<le> 0 \<or> limit > 1000 then 100 else limit)
     in map scanAuditRow (take (nat n) (rev (audit_by_seq (db_audit db)))))"

fun verify_loop :: "string \<Rightarrow> audit_record list \<Rightarrow> int" where
  "verify_loop prev [] = 0"
| "verify_loop prev (r # rs) =
    (let prev' = (if prev = '''' then re_PrevHash r else prev)
     in if re_PrevHash r \<noteq> prev' then re_Seq r
        else if chainHash prev' (UnixMilli (re_At r)) (re_Entry r) (ae_Detail (re_Entry r)) \<noteq> re_EntryHash r
          then re_Seq r
        else verify_loop (re_EntryHash r) rs)"

definition VerifyChain :: "database \<Rightarrow> int" where
  "VerifyChain db = verify_loop '''' (map scanAuditRow (audit_by_seq (db_audit db)))"

section \<open>Pruning\<close>

text \<open>The DELETE trigger of migration 0004: only while the gate row is present.\<close>

definition delete_audit :: "(audit_row \<Rightarrow> bool) \<Rightarrow> database \<Rightarrow> sql_error + database" where
  "delete_audit p db =
    (if list_ex p (db_audit db) \<and> db_prune_gate db = []
       then Inl (Aborted ''audit_events is append-only'')
     else Inr (db\<lparr>db_audit := filter (\<lambda>r. \<not> p r) (db_audit db)\<rparr>))"

definition open_gate :: "millis \<Rightarrow> database \<Rightarrow> sql_error + database" where
  "open_gate now db =
    (if db_prune_gate db \<noteq> [] then Inl (UniqueFailed ''audit_prune_gate.id'')
     else Inr (db\<lparr>db_prune_gate := [now]\<rparr>))"

definition close_gate :: "database \<Rightarrow> database" where
  "close_gate db = db\<lparr>db_prune_gate := []\<rparr>"

definition prune_detail :: "nat \<Rightarrow> time \<Rightarrow> json" where
  "prune_detail removed cutoff =
    JObj [(''removed_entries'', JNum (show_nat removed)), (''older_than'', JStr (format_RFC3339 cutoff))]"

definition Prune :: "(string \<Rightarrow> bool) \<Rightarrow> string \<Rightarrow> string \<Rightarrow> time \<Rightarrow> time \<Rightarrow> database
    \<Rightarrow> (op_error + nat) \<times> database" where
  "Prune jv eid actor cutoff now db =
    (let old = (\<lambda>r. au_at r < UnixMilli cutoff);
         removed = count_where old (db_audit db);
         (err, db') = WriteTx (\<lambda>db.
           if removed = 0 then Inr db
           else and_then (wrap (open_gate (UnixMilli now) db)) (\<lambda>db.
             and_then (wrap (delete_audit old db)) (\<lambda>db.
               appendAudit jv (UnixMilli now)
                 \<lparr>ae_EventID = eid, ae_Kind = ''audit.pruned'', ae_OperationID = [], ae_Plugin = [],
                  ae_Action = ''prune'', ae_Actor = actor, ae_FromState = StateOther [],
                  ae_ToState = StateOther [], ae_Risk = RiskUnset, ae_CorrelationID = [],
                  ae_Detail = marshal (prune_detail removed cutoff)\<rparr> (close_gate db)))) db
     in (case err of Some e \<Rightarrow> Inl e | None \<Rightarrow> Inr removed, db'))"

section \<open>The chain\<close>

text \<open>Each row's own hash, and a list of rows each linked to the one before it.\<close>

definition row_hash :: "audit_row \<Rightarrow> string" where
  "row_hash r = chainHash (au_prev_hash r) (au_at r) (re_Entry (scanAuditRow r)) (au_detail_json r)"

fun linked :: "string \<Rightarrow> audit_row list \<Rightarrow> bool" where
  "linked prev [] = True"
| "linked prev (r # rs) = (au_prev_hash r = prev \<and> au_entry_hash r = row_hash r
     \<and> linked (au_entry_hash r) rs)"

definition audit_ok :: "database \<Rightarrow> bool" where
  "audit_ok db \<longleftrightarrow>
     sorted_wrt (\<lambda>a b. au_seq a < au_seq b) (db_audit db)
     \<and> (\<forall>r\<in>set (db_audit db). 0 < au_seq r \<and> au_seq r \<le> sq_audit db)
     \<and> 0 \<le> sq_audit db
     \<and> (\<exists>anchor. anchor \<noteq> '''' \<and> linked anchor (db_audit db))"

lemma chainHash_nonempty [simp]: "chainHash p t e d \<noteq> ''''"
  by (metis chainHash_def length_sha256_hex list.size(3) zero_neq_numeral)

lemma coalesce_nullStr [simp]: "coalesce (nullStr s) = s"
  by (simp add: coalesce_def nullStr_def)

lemma chain_parts_scan:
  "chain_parts prev at (re_Entry (scanAuditRow r)) d =
    [prev, show_int at, au_event_id r, au_kind r, coalesce (au_operation_id r), coalesce (au_plugin r),
     coalesce (au_action r), au_actor r, coalesce (au_from_state r), coalesce (au_to_state r),
     coalesce (au_risk r), au_correlation_id r, d]"
  by (simp add: chain_parts_def scanAuditRow_def)

lemma row_hash_of_entry: "row_hash (audit_row_of now e seq prev) = au_entry_hash (audit_row_of now e seq prev)"
proof -
  let ?r = "audit_row_of now e seq prev"
  have "chain_parts (au_prev_hash ?r) (au_at ?r) (re_Entry (scanAuditRow ?r)) (au_detail_json ?r)
      = chain_parts prev now e (au_detail_json ?r)"
    by (simp add: chain_parts_scan) (simp add: chain_parts_def audit_row_of_def Let_def)
  then show ?thesis
    unfolding row_hash_def chainHash_def by (simp add: audit_row_of_def Let_def chainHash_def)
qed

lemma audit_by_seq_id:
  assumes "sorted_wrt (\<lambda>a b. au_seq a < au_seq b) rows"
  shows "audit_by_seq rows = rows"
  unfolding audit_by_seq_def
proof (rule sorted_wrt_mset_unique [where le = "\<lambda>a b. au_seq a \<le> au_seq b"])
  have tot: "total_on_list (\<lambda>a b. au_seq a \<le> au_seq b) (set rows)"
    by (auto simp: total_on_list_def)
  show "sorted_wrt (\<lambda>a b. au_seq a \<le> au_seq b) (sort_by (\<lambda>a b. au_seq a \<le> au_seq b) rows)"
    by (rule sorted_sort_by [OF tot])
  show "sorted_wrt (\<lambda>a b. au_seq a \<le> au_seq b) rows"
    using assms by (rule sorted_wrt_mono_rel [rotated]) simp
  fix x y
  assume xy: "x \<in> set (sort_by (\<lambda>a b. au_seq a \<le> au_seq b) rows)"
    "y \<in> set (sort_by (\<lambda>a b. au_seq a \<le> au_seq b) rows)" "au_seq x \<le> au_seq y" "au_seq y \<le> au_seq x"
  have "distinct (map au_seq rows)"
    using assms by (metis sorted_wrt_map strict_sorted_iff)
  with xy show "x = y" by (simp add: distinct_map inj_on_def)
qed simp

lemma verify_loop_linked:
  "prev \<noteq> '''' \<Longrightarrow> \<forall>r\<in>set rows. au_seq r \<noteq> 0 \<Longrightarrow>
   verify_loop prev (map scanAuditRow rows) = 0 \<longleftrightarrow> linked prev rows"
proof (induction rows arbitrary: prev)
  case Nil
  then show ?case by simp
next
  case (Cons r rows)
  have sel: "re_PrevHash (scanAuditRow r) = au_prev_hash r" "re_EntryHash (scanAuditRow r) = au_entry_hash r"
    "re_Seq (scanAuditRow r) = au_seq r" "UnixMilli (re_At (scanAuditRow r)) = au_at r"
    "ae_Detail (re_Entry (scanAuditRow r)) = au_detail_json r"
    by (simp_all add: scanAuditRow_def)
  show ?case
  proof (cases "au_prev_hash r = prev \<and> au_entry_hash r = row_hash r")
    case True
    then have "au_entry_hash r \<noteq> ''''" by (simp add: row_hash_def)
    then have ih: "verify_loop (au_entry_hash r) (map scanAuditRow rows) = 0 \<longleftrightarrow> linked (au_entry_hash r) rows"
      using Cons.prems by (intro Cons.IH) auto
    have "chainHash prev (au_at r) (re_Entry (scanAuditRow r)) (au_detail_json r) = au_entry_hash r"
      using True by (simp add: row_hash_def)
    with True ih Cons.prems(1) show ?thesis by (simp add: sel Let_def)
  next
    case False
    with Cons.prems show ?thesis by (auto simp: sel Let_def row_hash_def)
  qed
qed

lemma VerifyChain_linked:
  assumes "\<forall>r\<in>set (db_audit db). au_seq r \<noteq> 0"
  shows "VerifyChain db = 0 \<longleftrightarrow> (\<exists>anchor. linked anchor (audit_by_seq (db_audit db)))"
proof (cases "audit_by_seq (db_audit db)")
  case Nil
  then show ?thesis by (simp add: VerifyChain_def)
next
  case (Cons r rows)
  have pos: "au_seq r \<noteq> 0" "\<forall>r\<in>set rows. au_seq r \<noteq> 0"
    using assms Cons by (metis audit_by_seq_def list.set_intros set_sort_by)+
  have eq: "chainHash (au_prev_hash r) (UnixMilli (re_At (scanAuditRow r))) (re_Entry (scanAuditRow r))
      (ae_Detail (re_Entry (scanAuditRow r))) = row_hash r"
    by (simp add: row_hash_def) (simp add: scanAuditRow_def)
  have sel: "re_PrevHash (scanAuditRow r) = au_prev_hash r" "re_EntryHash (scanAuditRow r) = au_entry_hash r"
    "re_Seq (scanAuditRow r) = au_seq r"
    by (simp_all add: scanAuditRow_def)
  have "row_hash r \<noteq> ''''" by (simp add: row_hash_def)
  then have "verify_loop (row_hash r) (map scanAuditRow rows) = 0 \<longleftrightarrow> linked (row_hash r) rows"
    using pos(2) by (rule verify_loop_linked)
  then show ?thesis using pos(1) by (auto simp: VerifyChain_def Cons eq sel Let_def)
qed

lemma linked_append:
  "linked anchor (xs @ ys) \<longleftrightarrow>
     linked anchor xs \<and> linked (if xs = [] then anchor else au_entry_hash (last xs)) ys"
  by (induction xs arbitrary: anchor) auto

lemma linked_prev_nonempty: "anchor \<noteq> '''' \<Longrightarrow> linked anchor rows \<Longrightarrow> r \<in> set rows \<Longrightarrow> au_prev_hash r \<noteq> ''''"
proof (induction rows arbitrary: anchor)
  case Nil
  then show ?case by simp
next
  case (Cons x rows)
  have "au_entry_hash x \<noteq> ''''" using Cons.prems by (simp add: row_hash_def)
  with Cons show ?case by auto
qed

lemma audit_ok_VerifyChain: "audit_ok db \<Longrightarrow> VerifyChain db = 0"
  by (subst VerifyChain_linked) (auto simp: audit_ok_def audit_by_seq_id)

lemma audit_head_last:
  "sorted_wrt (\<lambda>a b. au_seq a < au_seq b) rows \<Longrightarrow>
    audit_head rows = (if rows = [] then genesisHash else au_entry_hash (last rows))"
  by (cases rows rule: rev_cases) (simp_all add: audit_head_def audit_by_seq_id)

lemma audit_ok_append:
  assumes ok: "audit_ok db"
  shows "audit_ok (db\<lparr>db_audit := db_audit db @ [audit_row_of now e (sq_audit db + 1) (audit_head (db_audit db))],
    sq_audit := sq_audit db + 1\<rparr>)"
proof -
  let ?r = "audit_row_of now e (sq_audit db + 1) (audit_head (db_audit db))"
  have seq: "au_seq ?r = sq_audit db + 1" and prev: "au_prev_hash ?r = audit_head (db_audit db)"
    by (simp_all add: audit_row_of_def Let_def)
  have srt: "sorted_wrt (\<lambda>a b. au_seq a < au_seq b) (db_audit db)"
    and le: "\<forall>r\<in>set (db_audit db). 0 < au_seq r \<and> au_seq r \<le> sq_audit db" "0 \<le> sq_audit db"
    using ok by (auto simp: audit_ok_def)
  obtain anchor where a: "anchor \<noteq> ''''" "linked anchor (db_audit db)"
    using ok by (auto simp: audit_ok_def)
  define anchor' where "anchor' = (if db_audit db = [] then genesisHash else anchor)"
  have "anchor' \<noteq> ''''" using a by (simp add: anchor'_def genesisHash_def)
  moreover have "linked anchor' (db_audit db @ [?r])"
    using a(2) prev row_hash_of_entry audit_head_last [OF srt]
    by (auto simp: linked_append anchor'_def)
  moreover have "sorted_wrt (\<lambda>a b. au_seq a < au_seq b) (db_audit db @ [?r])"
    using srt le seq by (force simp: sorted_wrt_append)
  ultimately show ?thesis using le seq by (force simp: audit_ok_def)
qed

lemma appendAudit_Inr:
  "appendAudit jv now e db = Inr db' \<longleftrightarrow>
     (let r = audit_row_of now e (sq_audit db + 1) (audit_head (db_audit db))
      in jv (au_detail_json r) \<and> ae_EventID e \<notin> au_event_id ` set (db_audit db)
         \<and> (ae_OperationID e = '''' \<or> ae_OperationID e \<in> c_id ` set (db_operations db))
         \<and> db' = db\<lparr>db_audit := db_audit db @ [r], sq_audit := sq_audit db + 1\<rparr>)"
  by (auto simp: appendAudit_def insert_audit_def audit_row_of_def Let_def nullStr_def split: if_splits)

lemma appendAudit_ok: "audit_ok db \<Longrightarrow> appendAudit jv now e db = Inr db' \<Longrightarrow> audit_ok db'"
  using audit_ok_append [of db now e] by (simp add: appendAudit_Inr Let_def)

section \<open>Tamper evidence\<close>

definition row_frame :: "audit_row \<Rightarrow> string" where
  "row_frame r = frame (chain_parts (au_prev_hash r) (au_at r) (re_Entry (scanAuditRow r)) (au_detail_json r))"

definition content :: "audit_row \<Rightarrow> audit_record" where
  "content r = (scanAuditRow r)\<lparr>re_Seq := 0\<rparr>"

lemma row_hash_frame: "row_hash r = sha256_hex (row_frame r)"
  by (simp add: row_hash_def chainHash_def row_frame_def)

lemma content_of_frame:
  assumes "row_frame r = row_frame s" and "au_entry_hash r = au_entry_hash s"
  shows "content r = content s \<and> au_prev_hash r = au_prev_hash s"
  using frame_inj [OF assms(1) [unfolded row_frame_def]] assms(2)
  unfolding chain_parts_scan by (simp add: content_def scanAuditRow_def)

lemma linked_determined:
  assumes "linked a xs" and "linked b ys" and "length xs = length ys"
    and "xs \<noteq> [] \<Longrightarrow> au_entry_hash (last xs) = au_entry_hash (last ys)"
  shows "map content xs = map content ys
    \<or> (\<exists>i<length xs. row_frame (xs ! i) \<noteq> row_frame (ys ! i)
         \<and> sha256_hex (row_frame (xs ! i)) = sha256_hex (row_frame (ys ! i)))"
  using assms
proof (induction xs arbitrary: ys rule: rev_induct)
  case Nil
  then show ?case by simp
next
  case (snoc x xs)
  then obtain y ys' where ys: "ys = ys' @ [y]" by (cases ys rule: rev_cases) auto
  have hash: "au_entry_hash x = au_entry_hash y" using snoc.prems(4) ys by simp
  have own: "au_entry_hash x = row_hash x" "au_entry_hash y = row_hash y"
    using snoc.prems(1,2) ys by (simp_all add: linked_append)
  have len: "length xs = length ys'" using snoc.prems(3) ys by simp
  show ?case
  proof (cases "row_frame x = row_frame y")
    case False
    with hash own ys len show ?thesis
      by (intro disjI2 exI [of _ "length xs"]) (simp add: row_hash_frame nth_append)
  next
    case True
    then have same: "content x = content y" "au_prev_hash x = au_prev_hash y"
      using content_of_frame [OF True hash] by simp_all
    have "xs \<noteq> [] \<Longrightarrow> au_entry_hash (last xs) = au_entry_hash (last ys')"
      using snoc.prems(1,2) ys same len by (auto simp: linked_append split: if_splits)
    then have "map content xs = map content ys'
        \<or> (\<exists>i<length xs. row_frame (xs ! i) \<noteq> row_frame (ys' ! i)
             \<and> sha256_hex (row_frame (xs ! i)) = sha256_hex (row_frame (ys' ! i)))"
      using snoc.prems(1,2) ys len by (intro snoc.IH) (auto simp: linked_append)
    then show ?thesis
    proof
      assume "map content xs = map content ys'"
      then show ?thesis using same ys by simp
    next
      assume "\<exists>i<length xs. row_frame (xs ! i) \<noteq> row_frame (ys' ! i)
             \<and> sha256_hex (row_frame (xs ! i)) = sha256_hex (row_frame (ys' ! i))"
      then obtain i where "i < length xs" "row_frame (xs ! i) \<noteq> row_frame (ys' ! i)"
          "sha256_hex (row_frame (xs ! i)) = sha256_hex (row_frame (ys' ! i))"
        by blast
      then show ?thesis using ys len by (intro disjI2 exI [of _ i]) (simp add: nth_append)
    qed
  qed
qed

text \<open>
  C10. The trail is evidence. Take the trail as it was and another content of the table with as many rows
  and the same last entry hash, no row of either numbered 0: the database numbers rows from 1, and 0 is the
  answer the check gives for an intact trail, so a forged row of that number is reported as none
  (\<open>forged_row_zero_reads_intact\<close>). If both verify, every row reads the same in both (its time, its event,
  its actor, its states, its detail and its links), or else two of the byte strings hashed, at the same
  place in the two tables, are an explicit SHA-256 collision.
\<close>
theorem audit_tamper_evident:
  assumes "VerifyChain db = 0" and "VerifyChain db' = 0"
    and "\<forall>r\<in>set (db_audit db). au_seq r \<noteq> 0" and "\<forall>r\<in>set (db_audit db'). au_seq r \<noteq> 0"
    and "length (db_audit db) = length (db_audit db')"
    and "audit_head (db_audit db) = audit_head (db_audit db')"
  shows "map content (audit_by_seq (db_audit db)) = map content (audit_by_seq (db_audit db'))
    \<or> (\<exists>i<length (db_audit db).
         row_frame (audit_by_seq (db_audit db) ! i) \<noteq> row_frame (audit_by_seq (db_audit db') ! i)
         \<and> sha256_hex (row_frame (audit_by_seq (db_audit db) ! i))
           = sha256_hex (row_frame (audit_by_seq (db_audit db') ! i)))"
proof -
  let ?xs = "audit_by_seq (db_audit db)" and ?ys = "audit_by_seq (db_audit db')"
  have len: "length ?xs = length (db_audit db)" "length ?xs = length ?ys"
    using assms(5) by (simp_all add: audit_by_seq_def)
  obtain a b where "linked a ?xs" "linked b ?ys"
    using assms(1-4) VerifyChain_linked by blast
  moreover have "au_entry_hash (last ?xs) = au_entry_hash (last ?ys)" if "?xs \<noteq> []"
    using assms(6) that len
    by (cases ?xs rule: rev_cases; cases ?ys rule: rev_cases) (auto simp: audit_head_def)
  ultimately have "map content ?xs = map content ?ys
      \<or> (\<exists>i<length ?xs. row_frame (?xs ! i) \<noteq> row_frame (?ys ! i)
           \<and> sha256_hex (row_frame (?xs ! i)) = sha256_hex (row_frame (?ys ! i)))"
    by (intro linked_determined [OF _ _ len(2)])
  then show ?thesis unfolding len(1) .
qed

definition sample_entry :: audit_entry where
  "sample_entry = \<lparr>ae_EventID = ''evt_1'', ae_Kind = ''operation.approved'', ae_OperationID = [],
     ae_Plugin = ''dns'', ae_Action = ''set'', ae_Actor = ''user:alice'',
     ae_FromState = StatePendingApproval, ae_ToState = StateApproved, ae_Risk = RiskLow,
     ae_CorrelationID = [], ae_Detail = []\<rparr>"

definition sample_trail :: "int \<Rightarrow> database" where
  "sample_trail k = empty_db\<lparr>db_audit := [audit_row_of 5 sample_entry k genesisHash], sq_audit := k\<rparr>"

lemma sample_trail_verifies: "0 < k \<Longrightarrow> VerifyChain (sample_trail k) = 0"
  using row_hash_of_entry [of 5 sample_entry k genesisHash]
  by (subst VerifyChain_linked)
     (auto simp: sample_trail_def audit_by_seq_def audit_row_of_def Let_def)

theorem audit_tamper_evident_witness:
  "map content (audit_by_seq (db_audit (sample_trail 1))) = map content (audit_by_seq (db_audit (sample_trail 4)))
   \<or> (\<exists>i<length (db_audit (sample_trail 1)).
         row_frame (audit_by_seq (db_audit (sample_trail 1)) ! i)
           \<noteq> row_frame (audit_by_seq (db_audit (sample_trail 4)) ! i)
         \<and> sha256_hex (row_frame (audit_by_seq (db_audit (sample_trail 1)) ! i))
           = sha256_hex (row_frame (audit_by_seq (db_audit (sample_trail 4)) ! i)))"
  by (rule audit_tamper_evident [OF sample_trail_verifies sample_trail_verifies])
     (simp_all add: sample_trail_def audit_head_def audit_by_seq_def audit_row_of_def Let_def)

section \<open>Two ways the check falls short\<close>

text \<open>
  The check reports the sequence number of the first broken row, and zero for an intact trail.
  A forged row that carries the sequence number zero is therefore read as an intact trail, and
  so is everything after it.
\<close>
theorem forged_row_zero_reads_intact:
  assumes "audit_by_seq (db_audit db) = r # rows" and "au_seq r = 0" and "au_entry_hash r \<noteq> row_hash r"
  shows "VerifyChain db = 0"
proof -
  have "chainHash (au_prev_hash r) (au_at r) (re_Entry (scanAuditRow r)) (au_detail_json r) = row_hash r"
    by (simp add: row_hash_def)
  then show ?thesis
    using assms by (simp add: VerifyChain_def Let_def) (simp add: scanAuditRow_def)
qed

definition forged_row :: audit_row where
  "forged_row = \<lparr>au_seq = 0, au_event_id = ''evt_x'', au_at = 7, au_kind = ''operation.approved'',
     au_operation_id = Some ''op_1'', au_plugin = None, au_action = None, au_actor = ''user:nobody'',
     au_from_state = None, au_to_state = Some ''approved'', au_risk = None, au_correlation_id = [],
     au_detail_json = ''{}'', au_prev_hash = genesisHash, au_entry_hash = ''forged''\<rparr>"

theorem forged_row_zero_reads_intact_witness:
  "VerifyChain (empty_db\<lparr>db_audit := [forged_row]\<rparr>) = 0"
proof (rule forged_row_zero_reads_intact)
  show "audit_by_seq (db_audit (empty_db\<lparr>db_audit := [forged_row]\<rparr>)) = [forged_row]"
    by (simp add: audit_by_seq_def)
  show "au_entry_hash forged_row \<noteq> row_hash forged_row"
  proof
    assume "au_entry_hash forged_row = row_hash forged_row"
    then have "length (au_entry_hash forged_row) = 64" by (simp add: row_hash_frame)
    then show False by (simp add: forged_row_def)
  qed
qed (simp add: forged_row_def)

section \<open>Pruning\<close>

lemma linked_suffix: "linked anchor (xs @ ys) \<Longrightarrow> \<exists>anchor'. linked anchor' ys \<and> (anchor \<noteq> '''' \<longrightarrow> anchor' \<noteq> '''')"
proof (induction xs arbitrary: anchor)
  case Nil
  then show ?case by auto
next
  case (Cons x xs)
  have "au_entry_hash x \<noteq> ''''" using Cons.prems by (simp add: row_hash_def)
  moreover have "linked (au_entry_hash x) (xs @ ys)"
    using Cons.prems unfolding append_Cons linked.simps by blast
  ultimately show ?case using Cons.IH [of "au_entry_hash x"] by blast
qed

lemma filter_as_suffix:
  assumes "sorted_wrt (\<lambda>a b. key a \<le> (key b :: int)) xs"
  shows "\<exists>pre. xs = pre @ filter (\<lambda>x. \<not> key x < c) xs"
  using assms
proof (induction xs)
  case Nil
  then show ?case by simp
next
  case (Cons x xs)
  show ?case
  proof (cases "key x < c")
    case True
    obtain pre where "xs = pre @ filter (\<lambda>x. \<not> key x < c) xs" using Cons by auto
    with True show ?thesis by (intro exI [of _ "x # pre"]) simp
  next
    case False
    then have "filter (\<lambda>x. \<not> key x < c) (x # xs) = x # xs"
      using Cons.prems by (auto simp: filter_id_conv)
    then show ?thesis by (intro exI [of _ "[]"]) simp
  qed
qed

lemma audit_ok_filter:
  assumes "audit_ok db" and "sorted_wrt (\<lambda>a b. au_at a \<le> au_at b) (db_audit db)"
  shows "audit_ok (db\<lparr>db_audit := filter (\<lambda>r. \<not> au_at r < c) (db_audit db)\<rparr>)"
proof -
  obtain anchor where a: "anchor \<noteq> ''''" "linked anchor (db_audit db)"
    using assms(1) by (auto simp: audit_ok_def)
  obtain pre where pre: "db_audit db = pre @ filter (\<lambda>r. \<not> au_at r < c) (db_audit db)"
    using filter_as_suffix [OF assms(2)] by blast
  then have "linked anchor (pre @ filter (\<lambda>r. \<not> au_at r < c) (db_audit db))" using a(2) by simp
  then obtain anchor' where "anchor' \<noteq> ''''" "linked anchor' (filter (\<lambda>r. \<not> au_at r < c) (db_audit db))"
    using linked_suffix a(1) by blast
  then show ?thesis using assms(1) by (auto simp: audit_ok_def intro: sorted_wrt_filter)
qed

lemma audit_ok_other [simp]:
  "audit_ok (db\<lparr>db_prune_gate := g\<rparr>) = audit_ok db"
  by (simp add: audit_ok_def)

definition prune_row :: "string \<Rightarrow> string \<Rightarrow> time \<Rightarrow> time \<Rightarrow> database \<Rightarrow> audit_row" where
  "prune_row eid actor cutoff now db =
    (let kept = filter (\<lambda>r. \<not> au_at r < UnixMilli cutoff) (db_audit db);
         removed = count_where (\<lambda>r. au_at r < UnixMilli cutoff) (db_audit db)
     in audit_row_of (UnixMilli now)
       \<lparr>ae_EventID = eid, ae_Kind = ''audit.pruned'', ae_OperationID = [], ae_Plugin = [],
        ae_Action = ''prune'', ae_Actor = actor, ae_FromState = StateOther [],
        ae_ToState = StateOther [], ae_Risk = RiskUnset, ae_CorrelationID = [],
        ae_Detail = marshal (prune_detail removed cutoff)\<rparr> (sq_audit db + 1) (audit_head kept))"

lemma Prune_cases:
  assumes "Prune jv eid actor cutoff now db = (res, db')"
  shows "(\<exists>e. res = Inl e \<and> db' = db)
    \<or> (res = Inr 0 \<and> db' = db \<and> count_where (\<lambda>r. au_at r < UnixMilli cutoff) (db_audit db) = 0)
    \<or> (\<exists>n>0. res = Inr n \<and> n = count_where (\<lambda>r. au_at r < UnixMilli cutoff) (db_audit db)
        \<and> db' = db\<lparr>db_prune_gate := [], db_audit := filter (\<lambda>r. \<not> au_at r < UnixMilli cutoff) (db_audit db)
             @ [prune_row eid actor cutoff now db], sq_audit := sq_audit db + 1\<rparr>)"
  using assms
  by (auto simp: Prune_def WriteTx_def Let_def and_then_def open_gate_def delete_audit_def close_gate_def
      prune_row_def appendAudit_Inr split: if_splits sum.splits)

text \<open>
  A prune leaves a trail that still verifies and that says what was removed, as long as the
  clock did not run backwards: if the entries are in time order, the pruned trail verifies, holds
  every entry that is not older than the cutoff and one new entry for the prune itself, and the
  count returned is the number removed. A prune that fails removes nothing.
\<close>
theorem prune_keeps_evidence:
  assumes "audit_ok db" and "sorted_wrt (\<lambda>a b. au_at a \<le> au_at b) (db_audit db)"
    and "Prune jv eid actor cutoff now db = (res, db')"
  shows "VerifyChain db' = 0
    \<and> (case res of
         Inl _ \<Rightarrow> db' = db
       | Inr n \<Rightarrow> n = length (filter (\<lambda>r. au_at r < UnixMilli cutoff) (db_audit db))
           \<and> db_audit db' = filter (\<lambda>r. \<not> au_at r < UnixMilli cutoff) (db_audit db)
               @ (if n = 0 then [] else [prune_row eid actor cutoff now db]))"
proof -
  let ?kept = "filter (\<lambda>r. \<not> au_at r < UnixMilli cutoff) (db_audit db)"
  have "audit_ok (db\<lparr>db_prune_gate := [], db_audit := ?kept @ [prune_row eid actor cutoff now db],
      sq_audit := sq_audit db + 1\<rparr>)"
  proof -
    have "audit_ok (db\<lparr>db_audit := ?kept, db_prune_gate := []\<rparr>)"
      using audit_ok_filter [OF assms(1,2)] by simp
    from audit_ok_append [OF this] show ?thesis by (simp add: prune_row_def Let_def)
  qed
  moreover have "count_where p xs = length (filter p xs)" for p and xs :: "audit_row list"
    by (simp add: count_where_def)
  moreover have "length (filter p xs) = 0 \<Longrightarrow> filter (\<lambda>r. \<not> p r) xs = xs" for p and xs :: "audit_row list"
    by (simp add: filter_empty_conv filter_id_conv)
  ultimately show ?thesis
    using Prune_cases [OF assms(3)] assms(1) audit_ok_VerifyChain by auto
qed

theorem prune_keeps_evidence_witness:
  "VerifyChain (snd (Prune (\<lambda>_. True) ''evt_2'' ''user:root'' 9000000 20000000 (sample_trail 1))) = 0"
proof -
  have ok: "audit_ok (sample_trail 1)"
    using row_hash_of_entry [of 5 sample_entry 1 genesisHash]
    by (auto simp: audit_ok_def sample_trail_def audit_row_of_def Let_def genesisHash_def empty_db_def)
  obtain res db' where p: "Prune (\<lambda>_. True) ''evt_2'' ''user:root'' 9000000 20000000 (sample_trail 1) = (res, db')"
    by fastforce
  have "VerifyChain db' = 0"
    by (rule prune_keeps_evidence [OF ok _ p, THEN conjunct1]) (simp add: sample_trail_def)
  with p show ?thesis by simp
qed

text \<open>
  When the clock did run backwards, the prune cuts the middle out of the trail and what remains
  does not verify: of three entries whose middle one is stamped earlier, pruning between the
  stamps removes the middle one alone, and the check reports the third unless the first two
  entries have the same hash.
\<close>
theorem prune_out_of_order_breaks:
  assumes "db_audit db = [r1, r2, r3]" and "audit_ok db"
    and "au_at r2 < UnixMilli cutoff" and "UnixMilli cutoff \<le> au_at r1" and "UnixMilli cutoff \<le> au_at r3"
    and "Prune jv eid actor cutoff now db = (Inr n, db')"
  shows "n = 1 \<and> (VerifyChain db' = au_seq r3 \<or> au_entry_hash r1 = au_entry_hash r2)"
proof -
  let ?p = "prune_row eid actor cutoff now db"
  have n: "n = 1" and rows: "db_audit db' = [r1, r3, ?p]"
    using Prune_cases [OF assms(6)] assms(1,3-5) by (auto simp: count_where_def)
  have seqs: "au_seq r1 < au_seq r3" "au_seq r3 < au_seq ?p" "au_seq r1 \<noteq> 0"
    using assms(1,2) by (auto simp: audit_ok_def prune_row_def audit_row_of_def Let_def)
  then have order: "audit_by_seq (db_audit db') = [r1, r3, ?p]"
    unfolding rows by (intro audit_by_seq_id) auto
  have own: "au_entry_hash r1 = row_hash r1" "au_prev_hash r2 = au_entry_hash r1"
      "au_prev_hash r3 = au_entry_hash r2"
    using assms(1,2) by (auto simp: audit_ok_def)
  have h1: "chainHash (au_prev_hash r1) (au_at r1) (re_Entry (scanAuditRow r1)) (au_detail_json r1) = au_entry_hash r1"
    using own(1) by (simp add: row_hash_def)
  have "au_entry_hash r1 \<noteq> ''''" using own(1) by (simp add: row_hash_def)
  moreover have sel: "re_PrevHash (scanAuditRow r) = au_prev_hash r" "re_EntryHash (scanAuditRow r) = au_entry_hash r"
    "re_Seq (scanAuditRow r) = au_seq r" "UnixMilli (re_At (scanAuditRow r)) = au_at r"
    "ae_Detail (re_Entry (scanAuditRow r)) = au_detail_json r" for r
    by (simp_all add: scanAuditRow_def)
  ultimately have "VerifyChain db' = au_seq r3" if "au_entry_hash r1 \<noteq> au_entry_hash r2"
    using that own(3) h1 by (simp add: VerifyChain_def order Let_def)
  then show ?thesis using n by blast
qed

definition add_sample :: "millis \<Rightarrow> string \<Rightarrow> database \<Rightarrow> database" where
  "add_sample now eid db = db\<lparr>db_audit := db_audit db @
     [audit_row_of now (sample_entry\<lparr>ae_EventID := eid\<rparr>) (sq_audit db + 1) (audit_head (db_audit db))],
     sq_audit := sq_audit db + 1\<rparr>"

definition skewed_trail :: database where
  "skewed_trail = add_sample 10 ''evt_3'' (add_sample 5 ''evt_2'' (add_sample 10 ''evt_1'' empty_db))"

theorem prune_out_of_order_breaks_witness:
  "(let db' = snd (Prune (\<lambda>_. True) ''evt_4'' ''user:root'' 7000000 20000000 skewed_trail)
    in VerifyChain db' = 3
       \<or> au_entry_hash (db_audit skewed_trail ! 0) = au_entry_hash (db_audit skewed_trail ! 1))"
proof -
  let ?r = "\<lambda>i. db_audit skewed_trail ! i"
  have ok: "audit_ok skewed_trail"
    unfolding skewed_trail_def add_sample_def
    by (intro audit_ok_append) (simp add: audit_ok_def empty_db_def genesisHash_def exI [of _ "''x''"])
  have rows: "db_audit skewed_trail = [?r 0, ?r 1, ?r 2]" and at: "au_at (?r 0) = 10" "au_at (?r 1) = 5"
      "au_at (?r 2) = 10" "au_seq (?r 2) = 3"
    and fresh: "\<forall>x\<in>set (db_audit skewed_trail). au_event_id x \<noteq> ''evt_4''"
    and gate: "db_prune_gate skewed_trail = []"
    by (simp_all add: skewed_trail_def add_sample_def empty_db_def audit_row_of_def Let_def sample_entry_def)
  obtain res db' where p: "Prune (\<lambda>_. True) ''evt_4'' ''user:root'' 7000000 20000000 skewed_trail = (res, db')"
    by fastforce
  have "\<exists>n. res = Inr n"
    using p fresh gate
    by (auto simp: Prune_def WriteTx_def Let_def and_then_def open_gate_def delete_audit_def close_gate_def
        appendAudit_def insert_audit_def audit_row_of_def wrap_def nullStr_def UnixMilli_def count_where_def
        split: if_splits sum.splits)
  then obtain n where n: "Prune (\<lambda>_. True) ''evt_4'' ''user:root'' 7000000 20000000 skewed_trail = (Inr n, db')"
    using p by blast
  have "n = 1 \<and> (VerifyChain db' = au_seq (?r 2) \<or> au_entry_hash (?r 0) = au_entry_hash (?r 1))"
    by (rule prune_out_of_order_breaks [OF rows ok _ _ _ n])
       (use at in \<open>simp_all add: UnixMilli_def\<close>)
  then show ?thesis using n at by (simp add: Let_def)
qed

end
