(* ===== verification/Store.thy ===== *)
theory Store
  imports Audit_Trail
begin

text \<open>
  The SQLite repository of operations (\<open>internal/storage/sqlite/operations.go\<close>): the four
  transactions of the workflow and the reads. Each function takes the tables and returns the
  result with the tables after it. \<open>clk i\<close> is the clock at the i-th call of \<open>s.now()\<close> in the text of
  the function. A read after a commit sees the tables the commit left.
\<close>

section \<open>Scanning\<close>

text \<open>
  \<open>json.Unmarshal\<close> into \<open>[]Change\<close>. A number read into an \<open>any\<close> is the float64 its literal
  denotes, and stays that literal here; one out of range is an error.
\<close>

fun floats_ok :: "json \<Rightarrow> bool" where
  "floats_ok (JNum t) = (ParseFloat t \<noteq> None)"
| "floats_ok (JArr vs) = list_all floats_ok vs"
| "floats_ok (JObj es) = list_all (\<lambda>(k, v). floats_ok v) es"
| "floats_ok _ = True"

definition change_field :: "string \<Rightarrow> string option" where
  "change_field k = find (\<lambda>f. foldName f = foldName k) [''field'', ''from'', ''to'']"

fun change_fields :: "change \<Rightarrow> (string \<times> json) list \<Rightarrow> change option" where
  "change_fields c [] = Some c"
| "change_fields c ((k, v) # es) =
    (case change_field k of
       None \<Rightarrow> change_fields c es
     | Some f \<Rightarrow>
         if f = ''field'' then
           (case v of JStr s \<Rightarrow> change_fields (c\<lparr>Field := s\<rparr>) es
            | JNull \<Rightarrow> change_fields c es
            | _ \<Rightarrow> None)
         else if \<not> floats_ok v then None
         else if f = ''from'' then change_fields (c\<lparr>From := v\<rparr>) es
         else change_fields (c\<lparr>To := v\<rparr>) es)"

definition change_of :: "json \<Rightarrow> change option" where
  "change_of v =
    (let zero = \<lparr>Field = [], From = JNull, To = JNull\<rparr>
     in case v of JNull \<Rightarrow> Some zero | JObj es \<Rightarrow> change_fields zero es | _ \<Rightarrow> None)"

fun all_some :: "'a option list \<Rightarrow> 'a list option" where
  "all_some [] = Some []"
| "all_some (x # xs) =
    (case x of None \<Rightarrow> None
     | Some y \<Rightarrow> (case all_some xs of None \<Rightarrow> None | Some ys \<Rightarrow> Some (y # ys)))"

definition unmarshalChanges :: "string \<Rightarrow> change list option" where
  "unmarshalChanges s =
    (case Unmarshal s of
       Some JNull \<Rightarrow> Some []
     | Some (JArr vs) \<Rightarrow> all_some (map change_of vs)
     | _ \<Rightarrow> None)"

definition marshal_change :: "change \<Rightarrow> string" where
  "marshal_change c =
    CHR ''{'' # quote_string ''field'' @ CHR '':'' # quote_string (Field c) @ CHR '','' # quote_string ''from''
      @ CHR '':'' # marshal (From c) @ CHR '','' # quote_string ''to'' @ CHR '':'' # marshal (To c) @ ''}''"

definition marshalChanges :: "change list \<Rightarrow> raw_message" where
  "marshalChanges cs =
    (if length cs = 0 then [] else CHR ''['' # join_comma (map marshal_change cs) @ '']'')"

definition scanOperation :: "op_row \<Rightarrow> op_error + operation" where
  "scanOperation r =
    (let op = \<lparr>
       op_ID = c_id r, op_Plugin = c_plugin r, op_Action = c_action r,
       op_State = state_of_string (c_state r), op_Risk = risk_of_string (c_risk r),
       op_Target = c_target_json r, op_Params = c_params_json r, op_PayloadHash = c_payload_hash r,
       op_Before = rawOrNil (c_before_json r), op_Desired = rawOrNil (c_desired_json r),
       op_Preconditions = rawOrNil (c_precondition_json r), op_Rollback = rawOrNil (c_rollback_json r),
       op_Changes = [], op_Impact = c_impact r, op_Verifiable = c_verifiable r,
       op_RequestedBy = c_requested_by r, op_RequestedAt = time_UnixMilli (c_requested_at r),
       op_ExpiresAt = time_UnixMilli (c_expires_at r), op_ApprovedBy = coalesce (c_approved_by r),
       op_ApprovedAt = timeOrNil (c_approved_at r),
       op_ApprovalExpiresAt = timeOrNil (c_approval_expires_at r),
       op_AuthorizedByRule = coalesce (c_authorized_by_rule r), op_AttemptCount = c_attempt_count r,
       op_LeaseOwner = coalesce (c_lease_owner r), op_LeaseExpiresAt = timeOrNil (c_lease_expires_at r),
       op_TerminalAt = timeOrNil (c_terminal_at r), op_OutcomeVerified = c_outcome_verified r,
       op_Observed = rawOrNil (c_observed_json r), op_ErrorCode = coalesce (c_error_code r),
       op_ErrorDetail = coalesce (c_error_detail r), op_CorrelationID = c_correlation_id r,
       op_IdempotencyKey = c_idempotency_key r\<rparr>
     in case c_changes_json r of
          None \<Rightarrow> Inr op
        | Some s \<Rightarrow>
            if s = '''' then Inr op
            else (case unmarshalChanges s of
                None \<Rightarrow> Inl (ErrDecode (c_id r))
              | Some cs \<Rightarrow> Inr (op\<lparr>op_Changes := cs\<rparr>)))"

fun scanOperations :: "op_row list \<Rightarrow> op_error + operation list" where
  "scanOperations [] = Inr []"
| "scanOperations (r # rs) =
    and_then (scanOperation r) (\<lambda>op. and_then (scanOperations rs) (\<lambda>ops. Inr (op # ops)))"

section \<open>Reads\<close>

definition find_op :: "string \<Rightarrow> database \<Rightarrow> op_row option" where
  "find_op i db = find (\<lambda>r. c_id r = i) (db_operations db)"

definition Get :: "string \<Rightarrow> database \<Rightarrow> op_error + operation" where
  "Get i db = (case find_op i db of None \<Rightarrow> Inl ErrNotFound | Some r \<Rightarrow> scanOperation r)"

text \<open>\<open>ORDER BY requested_at DESC, id DESC\<close>.\<close>

definition newest_first :: "op_row \<Rightarrow> op_row \<Rightarrow> bool" where
  "newest_first a b =
    (if c_requested_at a \<noteq> c_requested_at b then c_requested_at b < c_requested_at a
     else c_id b \<le> c_id a)"

definition oldest_first :: "op_row \<Rightarrow> op_row \<Rightarrow> bool" where
  "oldest_first a b \<longleftrightarrow> c_requested_at a \<le> c_requested_at b"

definition List_rows :: "list_filter \<Rightarrow> database \<Rightarrow> op_row list" where
  "List_rows f db =
    (let cond = (\<lambda>r. (lf_Plugin f \<noteq> '''' \<longrightarrow> c_plugin r = lf_Plugin f)
           \<and> (length (lf_States f) > 0 \<longrightarrow> c_state r \<in> set (map state_String (lf_States f))));
         limit = (if lf_Limit f \<le> 0 \<or> lf_Limit f > 500 then 100 else lf_Limit f)
     in take (nat limit) (drop (nat (max 0 (lf_Offset f)))
          (sort_by newest_first (filter cond (db_operations db)))))"

definition List_ops :: "list_filter \<Rightarrow> database \<Rightarrow> op_error + operation list" where
  "List_ops f db = scanOperations (List_rows f db)"

definition Claimable_rows :: "time \<Rightarrow> int \<Rightarrow> database \<Rightarrow> op_row list" where
  "Claimable_rows now limit db =
    (let n = (if limit \<le> 0 then 50 else limit)
     in take (nat n) (sort_by oldest_first
          (filter (\<lambda>r. c_state r = ''approved''
             \<and> (case c_approval_expires_at r of None \<Rightarrow> False | Some t \<Rightarrow> t > UnixMilli now))
            (db_operations db))))"

definition Claimable :: "(nat \<Rightarrow> time) \<Rightarrow> int \<Rightarrow> database \<Rightarrow> op_error + operation list" where
  "Claimable clk limit db = scanOperations (Claimable_rows (clk 0) limit db)"

definition due_at :: "millis \<Rightarrow> op_row \<Rightarrow> bool" where
  "due_at ms r \<longleftrightarrow>
     (c_state r = ''pending_approval'' \<and> c_expires_at r \<le> ms)
     \<or> (c_state r = ''approved'' \<and> (case c_approval_expires_at r of None \<Rightarrow> False | Some t \<Rightarrow> t \<le> ms))
     \<or> (c_state r = ''executing'' \<and> (case c_lease_expires_at r of None \<Rightarrow> False | Some t \<Rightarrow> t \<le> ms))"

definition DueForExpiry :: "time \<Rightarrow> int \<Rightarrow> database \<Rightarrow> op_error + operation list" where
  "DueForExpiry now limit db =
    (let n = (if limit \<le> 0 then 100 else limit)
     in scanOperations (take (nat n) (sort_by oldest_first
          (filter (due_at (UnixMilli now)) (db_operations db)))))"

definition byIdempotencyKey :: "time \<Rightarrow> string \<Rightarrow> string \<Rightarrow> string \<Rightarrow> database
    \<Rightarrow> op_error + operation option" where
  "byIdempotencyKey now scope key requestHash db =
    (if key = '''' then Inr None
     else case find (\<lambda>m. im_scope m = scope \<and> im_key m = key) (db_idem db) of
       None \<Rightarrow> Inr None
     | Some m \<Rightarrow>
         if UnixMilli now > im_expires_at m then Inr None
         else if im_request_hash m \<noteq> requestHash then Inl ErrIdempotencyConflict
         else and_then (Get (im_operation_id m) db) (\<lambda>op. Inr (Some op)))"

record state_count =
  sc_Plugin :: string
  sc_Action :: string
  sc_State :: string
  sc_Count :: nat
  sc_AuthorizedByRule :: nat

definition StateCounts :: "database \<Rightarrow> state_count list" where
  "StateCounts db =
    map (\<lambda>(p, a, s).
        let rows = filter (\<lambda>r. c_plugin r = p \<and> c_action r = a \<and> c_state r = s) (db_operations db)
        in \<lparr>sc_Plugin = p, sc_Action = a, sc_State = s, sc_Count = length rows,
            sc_AuthorizedByRule = length (filter
              (\<lambda>r. case c_authorized_by_rule r of None \<Rightarrow> False | Some x \<Rightarrow> x \<noteq> '''') rows)\<rparr>)
      (remdups (map (\<lambda>r. (c_plugin r, c_action r, c_state r)) (db_operations db)))"

section \<open>Propose\<close>

definition row_of_operation :: "operation \<Rightarrow> op_row" where
  "row_of_operation op = \<lparr>
     c_id = op_ID op, c_plugin = op_Plugin op, c_action = op_Action op,
     c_state = state_String (op_State op), c_risk = risk_String (op_Risk op),
     c_target_json = op_Target op, c_params_json = op_Params op, c_payload_hash = op_PayloadHash op,
     c_before_json = nullJSON (op_Before op), c_desired_json = nullJSON (op_Desired op),
     c_precondition_json = nullJSON (op_Preconditions op), c_rollback_json = nullJSON (op_Rollback op),
     c_changes_json = nullJSON (marshalChanges (op_Changes op)), c_impact = op_Impact op,
     c_requested_by = op_RequestedBy op, c_requested_at = UnixMilli (op_RequestedAt op),
     c_expires_at = UnixMilli (op_ExpiresAt op), c_approved_by = None, c_approved_at = None,
     c_approval_expires_at = None, c_attempt_count = 0, c_lease_owner = None,
     c_lease_expires_at = None, c_terminal_at = None, c_outcome_verified = None,
     c_observed_json = None, c_error_code = None, c_error_detail = None,
     c_correlation_id = op_CorrelationID op, c_idempotency_key = op_IdempotencyKey op,
     c_verifiable = op_Verifiable op, c_authorized_by_rule = None\<rparr>"

text \<open>The upsert on \<open>(scope, key)\<close> and the number of rows it changed.\<close>

definition upsert_idem :: "idem_row \<Rightarrow> millis \<Rightarrow> database \<Rightarrow> database \<times> nat" where
  "upsert_idem m now db =
    (let same = (\<lambda>x. im_scope x = im_scope m \<and> im_key x = im_key m)
     in if list_ex same (db_idem db)
        then (let take_over = (\<lambda>x. same x \<and> im_expires_at x \<le> now)
              in (db\<lparr>db_idem := update_where take_over (\<lambda>x. m) (db_idem db)\<rparr>,
                  count_where take_over (db_idem db)))
        else (db\<lparr>db_idem := db_idem db @ [m]\<rparr>, 1))"

definition propose_tx :: "(string \<Rightarrow> bool) \<Rightarrow> millis \<Rightarrow> time \<Rightarrow> operation \<Rightarrow> propose_request
    \<Rightarrow> database \<Rightarrow> op_error + database" where
  "propose_tx jv now t_ttl op req db =
    (case insert_operation jv (row_of_operation op) db of
       Inl e \<Rightarrow>
         if isUniqueViolation e idempotencyColumns then Inl ErrIdempotencyConflict
         else Inl (ErrConstraint (sql_text e))
     | Inr db1 \<Rightarrow>
         (let ttl = (if pr_IdempotencyTTL req \<le> 0 then 24 * Hour else pr_IdempotencyTTL req);
              (db2, affected) = upsert_idem
                \<lparr>im_scope = op_Plugin op, im_key = op_IdempotencyKey op,
                 im_request_hash = pr_RequestHash req, im_operation_id = op_ID op,
                 im_created_at = now, im_expires_at = UnixMilli (t_ttl + ttl)\<rparr> now db1
          in if affected = 0 then Inl ErrIdempotencyConflict
             else and_then (recordTransition now (op_ID op) '''' (state_String (op_State op))
                              (op_RequestedBy op) ''proposed'' (op_CorrelationID op) db2)
               (\<lambda>db3. and_then (appendAudit jv now (pr_Audit req) db3)
               (\<lambda>db4. enqueue jv now (pr_Event req) db4))))"

definition Propose :: "(string \<Rightarrow> bool) \<Rightarrow> (nat \<Rightarrow> time) \<Rightarrow> propose_request \<Rightarrow> database
    \<Rightarrow> (op_error + operation) \<times> database" where
  "Propose jv clk req db =
    (case pr_Operation req of
       None \<Rightarrow> (Inl ErrNoOperation, db)
     | Some op \<Rightarrow>
         (case byIdempotencyKey (clk 0) (op_Plugin op) (op_IdempotencyKey op) (pr_RequestHash req) db of
            Inl e \<Rightarrow> (Inl e, db)
          | Inr (Some existing) \<Rightarrow> (Inr existing, db)
          | Inr None \<Rightarrow>
              (case WriteTx (propose_tx jv (UnixMilli (clk 1)) (clk 2) op req) db of
                 (Some e, db') \<Rightarrow> (Inl e, db')
               | (None, db') \<Rightarrow> (Get (op_ID op) db', db'))))"

text \<open>
  Others may commit between the look at the key, the transaction and the read after it. With the key looked
  up in the tables \<open>seen\<close>, the transaction on \<open>db\<close>, and the read on what \<open>later\<close> makes of the tables it
  left, a proposal is \<open>Propose_amid\<close>; \<open>Propose\<close> is the case that nothing comes between. The tables it
  leaves are in any case those of one such call or of none (\<open>proposal_amid_is_a_call\<close>).
\<close>

definition Propose_amid :: "(string \<Rightarrow> bool) \<Rightarrow> (nat \<Rightarrow> time) \<Rightarrow> propose_request \<Rightarrow> database
    \<Rightarrow> (database \<Rightarrow> database) \<Rightarrow> database \<Rightarrow> (op_error + operation) \<times> database" where
  "Propose_amid jv clk req seen later db =
    (case pr_Operation req of
       None \<Rightarrow> (Inl ErrNoOperation, db)
     | Some op \<Rightarrow>
         (case byIdempotencyKey (clk 0) (op_Plugin op) (op_IdempotencyKey op) (pr_RequestHash req) seen of
            Inl e \<Rightarrow> (Inl e, db)
          | Inr (Some existing) \<Rightarrow> (Inr existing, db)
          | Inr None \<Rightarrow>
              (case WriteTx (propose_tx jv (UnixMilli (clk 1)) (clk 2) op req) db of
                 (Some e, db') \<Rightarrow> (Inl e, db')
               | (None, db') \<Rightarrow> (Get (op_ID op) (later db'), db'))))"

lemma Propose_is_amid: "Propose jv clk req db = Propose_amid jv clk req db id db"
  unfolding Propose_def Propose_amid_def id_apply ..

section \<open>Transition\<close>

definition transition_sets :: "millis \<Rightarrow> transition_request \<Rightarrow> assignment list" where
  "transition_sets now req =
    [SetState (state_String (tr_To req))]
    @ (case tr_Approval req of
         None \<Rightarrow> []
       | Some a \<Rightarrow> [SetApprovedBy (ap_ApprovedBy a), SetApprovedAt (UnixMilli (ap_ApprovedAt a)),
           SetApprovalExpiresAt (UnixMilli (ap_ApprovalExpiresAt a)),
           SetAuthorizedByRule (nullStr (ap_AuthorizedByRule a))])
    @ (if tr_Terminal req then [SetTerminalAt now] else [])
    @ (if tr_ErrorCode req \<noteq> '''' then
         [SetErrorCode (Some (tr_ErrorCode req)), SetErrorDetail (nullStr (tr_ErrorDetail req))] else [])"

definition transition_tx :: "(string \<Rightarrow> bool) \<Rightarrow> millis \<Rightarrow> transition_request \<Rightarrow> database
    \<Rightarrow> op_error + database" where
  "transition_tx jv now req db =
    and_then (guarded_as ErrStateConflict (execGuarded jv (transition_sets now req)
      (\<lambda>r. c_id r = tr_OperationID req \<and> c_state r = state_String (tr_From req)) db)) (\<lambda>db1.
    and_then (recordTransition now (tr_OperationID req) (state_String (tr_From req))
      (state_String (tr_To req)) (tr_Actor req) (tr_Reason req) (ae_CorrelationID (tr_Audit req)) db1) (\<lambda>db2.
    and_then (appendAudit jv now (tr_Audit req) db2) (\<lambda>db3.
    enqueue jv now (tr_Event req) db3)))"

definition Transition :: "(string \<Rightarrow> bool) \<Rightarrow> (nat \<Rightarrow> time) \<Rightarrow> transition_request \<Rightarrow> database
    \<Rightarrow> (op_error + operation) \<times> database" where
  "Transition jv clk req db =
    (case WriteTx (transition_tx jv (UnixMilli (clk 0)) req) db of
       (Some e, db') \<Rightarrow> (Inl e, db')
     | (None, db') \<Rightarrow> (Get (tr_OperationID req) db', db'))"

section \<open>Claim\<close>

definition insert_attempt :: "attempt_row \<Rightarrow> database \<Rightarrow> sql_error + database" where
  "insert_attempt a db =
    (if at_id a \<in> at_id ` set (db_attempts db) then Inl (UniqueFailed ''execution_attempts.id'')
     else if (at_operation_id a, at_attempt_no a)
          \<in> (\<lambda>x. (at_operation_id x, at_attempt_no x)) ` set (db_attempts db)
       then Inl (UniqueFailed ''execution_attempts.operation_id, execution_attempts.attempt_no'')
     else if at_operation_id a \<notin> c_id ` set (db_operations db) then Inl ForeignKeyFailed
     else Inr (db\<lparr>db_attempts := db_attempts db @ [a]\<rparr>))"

definition claimable_row :: "millis \<Rightarrow> claim_request \<Rightarrow> op_row \<Rightarrow> bool" where
  "claimable_row now req r \<longleftrightarrow>
     c_id r = cr_OperationID req \<and> c_state r = ''approved'' \<and> c_payload_hash r = cr_ExpectedHash req
     \<and> (case c_approval_expires_at r of None \<Rightarrow> False | Some t \<Rightarrow> t > now)"

definition claim_tx :: "(string \<Rightarrow> bool) \<Rightarrow> millis \<Rightarrow> claim_request \<Rightarrow> database \<Rightarrow> op_error + database" where
  "claim_tx jv now req db =
    and_then (guarded_as ErrClaimLost (execGuarded jv
      [SetState ''executing'', SetLeaseOwner (Some (cr_InstanceID req)),
       SetLeaseExpiresAt (Some (UnixMilli (cr_LeaseExpiresAt req))), IncAttemptCount]
      (claimable_row now req) db)) (\<lambda>db1.
    (case find_op (cr_OperationID req) db1 of
       None \<Rightarrow> Inl ErrNotFound
     | Some r \<Rightarrow>
         and_then (wrap (insert_attempt
           \<lparr>at_id = cr_AttemptID req, at_operation_id = cr_OperationID req,
            at_attempt_no = c_attempt_count r, at_instance_id = cr_InstanceID req, at_started_at = now,
            at_finished_at = None, at_outcome = None, at_upstream_ref = None, at_verified = None,
            at_observed_json = None, at_error_code = None, at_error_detail = None\<rparr> db1)) (\<lambda>db2.
         and_then (recordTransition now (cr_OperationID req) (state_String StateApproved)
           (state_String StateExecuting) (cr_InstanceID req) ''claimed''
           (ae_CorrelationID (cr_Audit req)) db2) (\<lambda>db3.
         and_then (appendAudit jv now (cr_Audit req) db3) (\<lambda>db4.
         enqueue jv now (cr_Event req) db4)))))"

definition Claim :: "(string \<Rightarrow> bool) \<Rightarrow> (nat \<Rightarrow> time) \<Rightarrow> claim_request \<Rightarrow> database
    \<Rightarrow> (op_error + operation) \<times> database" where
  "Claim jv clk req db =
    (case WriteTx (claim_tx jv (UnixMilli (clk 0)) req) db of
       (Some e, db') \<Rightarrow> (Inl e, db')
     | (None, db') \<Rightarrow> (Get (cr_OperationID req) db', db'))"

section \<open>Settle\<close>

definition settle_sets :: "millis \<Rightarrow> settle_request \<Rightarrow> assignment list" where
  "settle_sets now req =
    [SetState (state_String (sr_To req)), SetLeaseOwner None, SetLeaseExpiresAt None,
     SetOutcomeVerified (sr_Verified req), SetObserved (nullJSON (sr_Observed req)),
     SetErrorCode (nullStr (sr_ErrorCode req)), SetErrorDetail (nullStr (sr_ErrorDetail req))]
    @ (if IsTerminal (sr_To req) then [SetTerminalAt now] else [])"

definition finish_attempt :: "millis \<Rightarrow> settle_request \<Rightarrow> database \<Rightarrow> database" where
  "finish_attempt now req db =
    (if sr_AttemptID req = '''' then db
     else db\<lparr>db_attempts := update_where (\<lambda>a. at_id a = sr_AttemptID req)
       (\<lambda>a. a\<lparr>at_finished_at := Some now, at_outcome := Some (state_String (sr_To req)),
          at_upstream_ref := nullStr (sr_UpstreamRef req), at_verified := sr_Verified req,
          at_observed_json := nullJSON (sr_Observed req), at_error_code := nullStr (sr_ErrorCode req),
          at_error_detail := nullStr (sr_ErrorDetail req)\<rparr>) (db_attempts db)\<rparr>)"

definition settle_tx :: "(string \<Rightarrow> bool) \<Rightarrow> millis \<Rightarrow> settle_request \<Rightarrow> database \<Rightarrow> op_error + database" where
  "settle_tx jv now req db =
    (case find_op (sr_OperationID req) db of
       None \<Rightarrow> Inl ErrNotFound
     | Some old \<Rightarrow>
         (let from = state_of_string (c_state old)
          in and_then (guarded_as ErrStateConflict (execGuarded jv (settle_sets now req)
            (\<lambda>r. c_id r = sr_OperationID req \<and> c_state r = state_String from) db)) (\<lambda>db1.
          and_then (recordTransition now (sr_OperationID req) (state_String from)
            (state_String (sr_To req)) (sr_Actor req) (sr_Reason req)
            (ae_CorrelationID (sr_Audit req)) (finish_attempt now req db1)) (\<lambda>db2.
          and_then (appendAudit jv now (sr_Audit req) db2) (\<lambda>db3.
          enqueue jv now (sr_Event req) db3)))))"

definition Settle :: "(string \<Rightarrow> bool) \<Rightarrow> (nat \<Rightarrow> time) \<Rightarrow> settle_request \<Rightarrow> database
    \<Rightarrow> (op_error + operation) \<times> database" where
  "Settle jv clk req db =
    (case WriteTx (settle_tx jv (UnixMilli (clk 0)) req) db of
       (Some e, db') \<Rightarrow> (Inl e, db')
     | (None, db') \<Rightarrow> (Get (sr_OperationID req) db', db'))"

end
