(* ===== verification/Store_Facts.thy ===== *)
theory Store_Facts
  imports Store
begin

text \<open>
  What each transaction of the repository does to the tables: the effect of a guarded update, the
  three rows every state change writes, the invariant of the tables, and the properties that
  follow.
\<close>

section \<open>Rows by identifier\<close>

definition op_ids :: "database \<Rightarrow> string list" where
  "op_ids db = map c_id (db_operations db)"

lemma find_op_in: "find_op i db = Some r \<Longrightarrow> r \<in> set (db_operations db) \<and> c_id r = i"
  unfolding find_op_def by (rule find_SomeD)

lemma find_op_unique: "distinct (op_ids db) \<Longrightarrow> r \<in> set (db_operations db) \<Longrightarrow> find_op (c_id r) db = Some r"
  unfolding find_op_def op_ids_def by (rule find_key_unique)

lemma find_op_None: "find_op i db = None \<longleftrightarrow> i \<notin> set (op_ids db)"
  by (auto simp: find_op_def op_ids_def find_None_all)

lemma find_op_Some_id: "find_op i db = Some r \<Longrightarrow> i \<in> set (op_ids db)"
  using find_op_None [of i db] by auto

lemma assign_id [simp]: "c_id (assign a r) = c_id r"
  by (cases a) auto

lemma assign_all_keeps:
  "(\<And>a r. a \<in> set sets \<Longrightarrow> f (assign a r) = f r) \<Longrightarrow> f (assign_all sets r) = f r"
proof (induction sets arbitrary: r)
  case Nil
  then show ?case by (simp add: assign_all_def)
next
  case (Cons a sets)
  have "f (assign_all sets (assign a r)) = f (assign a r)" by (rule Cons.IH) (use Cons.prems in auto)
  with Cons.prems show ?case by (simp add: assign_all_def)
qed

lemma assign_all_id [simp]: "c_id (assign_all sets r) = c_id r"
  by (rule assign_all_keeps) simp

lemma update_where_cong:
  "(\<And>r. r \<in> set rs \<Longrightarrow> p r = q r) \<Longrightarrow> update_where p f rs = update_where q f rs"
  by (simp add: update_where_def)

text \<open>
  A guarded update by identifier succeeds on exactly one row: the one with that identifier,
  if it passes the rest of the condition, the triggers, the checks and the index.
\<close>

definition update_op :: "string \<Rightarrow> (op_row \<Rightarrow> op_row) \<Rightarrow> database \<Rightarrow> database" where
  "update_op i f db = db\<lparr>db_operations := update_where (\<lambda>r. c_id r = i) f (db_operations db)\<rparr>"

lemma update_op_sel [simp]:
  "db_transitions (update_op i f db) = db_transitions db" "db_audit (update_op i f db) = db_audit db"
  "db_attempts (update_op i f db) = db_attempts db" "db_outbox (update_op i f db) = db_outbox db"
  "db_idem (update_op i f db) = db_idem db" "sq_transitions (update_op i f db) = sq_transitions db"
  "sq_audit (update_op i f db) = sq_audit db" "sq_outbox (update_op i f db) = sq_outbox db"
  "db_prune_gate (update_op i f db) = db_prune_gate db"
  by (simp_all add: update_op_def)

lemma op_ids_update_op: "(\<And>r. c_id (f r) = c_id r) \<Longrightarrow> op_ids (update_op i f db) = op_ids db"
  by (simp add: op_ids_def update_op_def map_key_update_where)

lemma find_update_op:
  "(\<And>r. c_id (f r) = c_id r) \<Longrightarrow>
     find_op j (update_op i f db) = map_option (\<lambda>r. if j = i then f r else r) (find_op j db)"
proof -
  assume f: "\<And>r. c_id (f r) = c_id r"
  have "find_op j (update_op i f db) = map_option (\<lambda>r. if c_id r = i then f r else r) (find_op j db)"
    unfolding find_op_def update_op_def by (simp add: find_update_where f)
  then show ?thesis using find_op_in [of j db] by (cases "find_op j db") auto
qed

lemma execGuarded_Inr:
  assumes d: "distinct (op_ids db)"
  shows "execGuarded jv sets (\<lambda>r. c_id r = i \<and> q r) db = Inr db' \<longleftrightarrow>
    (\<exists>old. find_op i db = Some old \<and> q old \<and> row_refused jv sets old = None
       \<and> db' = update_op i (assign_all sets) db
       \<and> unique_keys (map live_key (db_operations db')))"
proof -
  let ?p = "\<lambda>r. c_id r = i \<and> q r"
  have cnt: "count_where ?p (db_operations db)
      = (case find_op i db of Some r \<Rightarrow> (if q r then 1 else 0) | None \<Rightarrow> 0)"
    unfolding find_op_def by (rule count_where_key) (use d in \<open>simp add: op_ids_def\<close>)
  show ?thesis
  proof (cases "\<exists>old. find_op i db = Some old \<and> q old")
    case False
    then have zero: "count_where ?p (db_operations db) = 0" using cnt by (auto split: option.splits)
    then have "execGuarded jv sets ?p db = Inl NoRowsAffected
        \<or> execGuarded jv sets ?p db = Inl (StatementFailed (UniqueFailed idempotencyColumns))"
      by (simp add: execGuarded_def update_operations_def Let_def count_where_def)
    with False show ?thesis by auto
  next
    case True
    then obtain old where old: "find_op i db = Some old" "q old" by blast
    then have one: "count_where ?p (db_operations db) = 1" using cnt by simp
    have only: "r = old" if "r \<in> set (db_operations db)" "c_id r = i" for r
      using find_op_unique [OF d that(1)] that(2) old(1) by simp
    have mem: "old \<in> set (db_operations db)" "c_id old = i" using find_op_in [OF old(1)] by auto
    have all: "r = old" if "r \<in> set (filter ?p (db_operations db))" for r
      using that only by simp
    have "length (filter ?p (db_operations db)) = 1" using one by (simp add: count_where_def)
    then obtain x where "filter ?p (db_operations db) = [x]" by (auto simp: length_Suc_conv)
    with all [of x] have fl: "filter ?p (db_operations db) = [old]" by simp
    have up: "update_where ?p (assign_all sets) (db_operations db)
        = update_where (\<lambda>r. c_id r = i) (assign_all sets) (db_operations db)"
    proof (rule update_where_cong)
      fix r assume r: "r \<in> set (db_operations db)"
      show "?p r = (c_id r = i)"
      proof (cases "c_id r = i")
        case True
        then have "r = old" by (rule only [OF r])
        with True old(2) show ?thesis by simp
      qed simp
    qed
    show ?thesis
      using old one
      by (auto simp: execGuarded_def update_operations_def fl up Let_def update_op_def split: option.splits)
  qed
qed

lemma guarded_as_Inr: "guarded_as err r = Inr x \<longleftrightarrow> r = Inr x"
  by (auto simp: guarded_as_def split: sum.splits guarded_error.splits)

section \<open>The three rows of a state change\<close>

definition transition_row_of :: "millis \<Rightarrow> string \<Rightarrow> string \<Rightarrow> string \<Rightarrow> string \<Rightarrow> string \<Rightarrow> string \<Rightarrow> int
    \<Rightarrow> transition_row" where
  "transition_row_of now i from to actor reason corr seq =
    \<lparr>tn_seq = seq, tn_operation_id = i, tn_from_state = nullStr from, tn_to_state = to, tn_actor = actor,
     tn_reason = nullStr reason, tn_at = now, tn_correlation_id = corr\<rparr>"

definition outbox_row_of :: "millis \<Rightarrow> outbox_event \<Rightarrow> int \<Rightarrow> outbox_row" where
  "outbox_row_of now e seq =
    \<lparr>ob_seq = seq, ob_event_id = oe_ID e, ob_subject = oe_Subject e,
     ob_operation_id = nullStr (oe_OperationID e), ob_correlation_id = oe_CorrelationID e,
     ob_payload_json = (if length (oe_Payload e) = 0 then ''{}'' else oe_Payload e),
     ob_created_at = now, ob_published_at = None, ob_attempts = 0, ob_next_attempt_at = 0,
     ob_last_error = None\<rparr>"

definition record_rows :: "millis \<Rightarrow> transition_row \<Rightarrow> audit_entry \<Rightarrow> outbox_event \<Rightarrow> database \<Rightarrow> database" where
  "record_rows now t a e db = db\<lparr>
     db_transitions := db_transitions db @ [t], sq_transitions := sq_transitions db + 1,
     db_audit := db_audit db @ [audit_row_of now a (sq_audit db + 1) (audit_head (db_audit db))],
     sq_audit := sq_audit db + 1,
     db_outbox := db_outbox db @ [outbox_row_of now e (sq_outbox db + 1)],
     sq_outbox := sq_outbox db + 1\<rparr>"

lemma enqueue_Inr:
  "enqueue jv now e db = Inr db' \<longleftrightarrow>
     oe_ID e \<noteq> '''' \<and> oe_Subject e \<noteq> '''' \<and> jv (ob_payload_json (outbox_row_of now e 0))
     \<and> oe_ID e \<notin> ob_event_id ` set (db_outbox db)
     \<and> db' = db\<lparr>db_outbox := db_outbox db @ [outbox_row_of now e (sq_outbox db + 1)],
               sq_outbox := sq_outbox db + 1\<rparr>"
  by (auto simp: enqueue_def outbox_row_of_def Let_def)

definition rows_accepted :: "(string \<Rightarrow> bool) \<Rightarrow> string \<Rightarrow> audit_entry \<Rightarrow> outbox_event \<Rightarrow> database \<Rightarrow> bool" where
  "rows_accepted jv i a e db \<longleftrightarrow>
     i \<in> set (op_ids db)
     \<and> jv (if length (ae_Detail a) = 0 then ''{}'' else ae_Detail a)
     \<and> ae_EventID a \<notin> au_event_id ` set (db_audit db)
     \<and> (ae_OperationID a = '''' \<or> ae_OperationID a \<in> set (op_ids db))
     \<and> oe_ID e \<noteq> '''' \<and> oe_Subject e \<noteq> '''' \<and> jv (ob_payload_json (outbox_row_of 0 e 0))
     \<and> oe_ID e \<notin> ob_event_id ` set (db_outbox db)"

lemma record_tail_Inr:
  "and_then (recordTransition now i from to actor reason corr db) (\<lambda>d.
     and_then (appendAudit jv now a d) (\<lambda>d. enqueue jv now e d)) = Inr db' \<longleftrightarrow>
   rows_accepted jv i a e db
   \<and> db' = record_rows now (transition_row_of now i from to actor reason corr (sq_transitions db + 1)) a e db"
  by (auto simp: and_then_Inr recordTransition_def appendAudit_Inr enqueue_Inr rows_accepted_def
      record_rows_def transition_row_of_def outbox_row_of_def op_ids_def Let_def
      audit_row_of_def split: if_splits)

lemma record_rows_sel [simp]:
  "db_operations (record_rows now t a e db) = db_operations db"
  "db_attempts (record_rows now t a e db) = db_attempts db"
  "db_idem (record_rows now t a e db) = db_idem db"
  "db_transitions (record_rows now t a e db) = db_transitions db @ [t]"
  "find_op i (record_rows now t a e db) = find_op i db"
  "op_ids (record_rows now t a e db) = op_ids db"
  by (simp_all add: record_rows_def find_op_def op_ids_def)

section \<open>Effects of the transactions\<close>

lemma WriteTx_cases:
  "WriteTx fn db = (err, db') \<Longrightarrow>
     (\<exists>e. err = Some e \<and> fn db = Inl e \<and> db' = db) \<or> (err = None \<and> fn db = Inr db')"
  by (auto simp: WriteTx_def split: sum.splits)

lemma transition_tx_Inr:
  assumes "distinct (op_ids db)"
  shows "transition_tx jv now req db = Inr db' \<longleftrightarrow>
    (\<exists>old db1. find_op (tr_OperationID req) db = Some old
       \<and> c_state old = state_String (tr_From req)
       \<and> row_refused jv (transition_sets now req) old = None
       \<and> db1 = update_op (tr_OperationID req) (assign_all (transition_sets now req)) db
       \<and> unique_keys (map live_key (db_operations db1))
       \<and> rows_accepted jv (tr_OperationID req) (tr_Audit req) (tr_Event req) db1
       \<and> db' = record_rows now (transition_row_of now (tr_OperationID req) (state_String (tr_From req))
            (state_String (tr_To req)) (tr_Actor req) (tr_Reason req) (ae_CorrelationID (tr_Audit req))
            (sq_transitions db + 1)) (tr_Audit req) (tr_Event req) db1)"
  unfolding transition_tx_def and_then_Inr [of "guarded_as _ _"] guarded_as_Inr
    execGuarded_Inr [OF assms] record_tail_Inr
  by auto

lemma claim_tx_Inr:
  assumes "distinct (op_ids db)"
  shows "claim_tx jv now req db = Inr db' \<longleftrightarrow>
    (\<exists>old db1 db2.
       find_op (cr_OperationID req) db = Some old \<and> claimable_row now req old
       \<and> row_refused jv [SetState ''executing'', SetLeaseOwner (Some (cr_InstanceID req)),
            SetLeaseExpiresAt (Some (UnixMilli (cr_LeaseExpiresAt req))), IncAttemptCount] old = None
       \<and> db1 = update_op (cr_OperationID req) (assign_all [SetState ''executing'',
            SetLeaseOwner (Some (cr_InstanceID req)),
            SetLeaseExpiresAt (Some (UnixMilli (cr_LeaseExpiresAt req))), IncAttemptCount]) db
       \<and> unique_keys (map live_key (db_operations db1))
       \<and> insert_attempt
           \<lparr>at_id = cr_AttemptID req, at_operation_id = cr_OperationID req,
            at_attempt_no = c_attempt_count old + 1, at_instance_id = cr_InstanceID req, at_started_at = now,
            at_finished_at = None, at_outcome = None, at_upstream_ref = None, at_verified = None,
            at_observed_json = None, at_error_code = None, at_error_detail = None\<rparr> db1 = Inr db2
       \<and> rows_accepted jv (cr_OperationID req) (cr_Audit req) (cr_Event req) db2
       \<and> db' = record_rows now (transition_row_of now (cr_OperationID req) ''approved'' ''executing''
            (cr_InstanceID req) ''claimed'' (ae_CorrelationID (cr_Audit req)) (sq_transitions db2 + 1))
            (cr_Audit req) (cr_Event req) db2)"
proof -
  let ?sets = "[SetState ''executing'', SetLeaseOwner (Some (cr_InstanceID req)),
            SetLeaseExpiresAt (Some (UnixMilli (cr_LeaseExpiresAt req))), IncAttemptCount]"
  let ?q = "\<lambda>r. c_state r = ''approved'' \<and> c_payload_hash r = cr_ExpectedHash req
     \<and> (case c_approval_expires_at r of None \<Rightarrow> False | Some t \<Rightarrow> t > now)"
  have cond: "claimable_row now req = (\<lambda>r. c_id r = cr_OperationID req \<and> ?q r)"
    by (auto simp: claimable_row_def fun_eq_iff)
  have found: "find_op (cr_OperationID req) db = Some old \<Longrightarrow>
      find_op (cr_OperationID req) (update_op (cr_OperationID req) (assign_all ?sets) db)
        = Some (assign_all ?sets old)" for old
    by (simp add: find_update_op)
  have cnt: "c_attempt_count (assign_all ?sets old) = c_attempt_count old + 1" for old
    by (simp add: assign_all_def)
  show ?thesis
    unfolding claim_tx_def cond and_then_Inr [of "guarded_as _ _"] guarded_as_Inr
      execGuarded_Inr [OF assms]
    using find_op_in [of "cr_OperationID req" db]
    by (auto simp: found cnt and_then_Inr [of "wrap _"] record_tail_Inr)
qed

lemma settle_tx_Inr:
  assumes "distinct (op_ids db)"
  shows "settle_tx jv now req db = Inr db' \<longleftrightarrow>
    (\<exists>old db1.
       find_op (sr_OperationID req) db = Some old
       \<and> row_refused jv (settle_sets now req) old = None
       \<and> db1 = finish_attempt now req (update_op (sr_OperationID req) (assign_all (settle_sets now req)) db)
       \<and> unique_keys (map live_key (db_operations db1))
       \<and> rows_accepted jv (sr_OperationID req) (sr_Audit req) (sr_Event req) db1
       \<and> db' = record_rows now (transition_row_of now (sr_OperationID req) (c_state old)
            (state_String (sr_To req)) (sr_Actor req) (sr_Reason req) (ae_CorrelationID (sr_Audit req))
            (sq_transitions db1 + 1)) (sr_Audit req) (sr_Event req) db1)"
proof -
  have ops: "db_operations (finish_attempt now req d) = db_operations d" for d
    by (simp add: finish_attempt_def)
  show ?thesis
    unfolding settle_tx_def
    by (auto simp: and_then_Inr [of "guarded_as _ _"] guarded_as_Inr Let_def ops
        execGuarded_Inr [OF assms] record_tail_Inr split: option.splits)
qed

definition idem_of :: "millis \<Rightarrow> time \<Rightarrow> operation \<Rightarrow> propose_request \<Rightarrow> idem_row" where
  "idem_of now t_ttl op req =
    \<lparr>im_scope = op_Plugin op, im_key = op_IdempotencyKey op, im_request_hash = pr_RequestHash req,
     im_operation_id = op_ID op, im_created_at = now,
     im_expires_at = UnixMilli (t_ttl + (if pr_IdempotencyTTL req \<le> 0 then 24 * Hour else pr_IdempotencyTTL req))\<rparr>"

lemma upsert_idem_sel [simp]:
  "db_operations (fst (upsert_idem m now db)) = db_operations db"
  "db_transitions (fst (upsert_idem m now db)) = db_transitions db"
  "db_audit (fst (upsert_idem m now db)) = db_audit db"
  "db_outbox (fst (upsert_idem m now db)) = db_outbox db"
  "db_attempts (fst (upsert_idem m now db)) = db_attempts db"
  "sq_transitions (fst (upsert_idem m now db)) = sq_transitions db"
  "sq_audit (fst (upsert_idem m now db)) = sq_audit db"
  "sq_outbox (fst (upsert_idem m now db)) = sq_outbox db"
  by (simp_all add: upsert_idem_def Let_def)

lemma propose_tx_Inr:
  "propose_tx jv now t_ttl op req db = Inr db' \<longleftrightarrow>
    (\<exists>db1.
       row_check jv (row_of_operation op) = None \<and> op_ID op \<notin> set (op_ids db)
       \<and> (live_key (row_of_operation op) = None
          \<or> live_key (row_of_operation op) \<notin> live_key ` set (db_operations db))
       \<and> db1 = fst (upsert_idem (idem_of now t_ttl op req) now
            (db\<lparr>db_operations := db_operations db @ [row_of_operation op]\<rparr>))
       \<and> snd (upsert_idem (idem_of now t_ttl op req) now
            (db\<lparr>db_operations := db_operations db @ [row_of_operation op]\<rparr>)) \<noteq> 0
       \<and> rows_accepted jv (op_ID op) (pr_Audit req) (pr_Event req) db1
       \<and> db' = record_rows now (transition_row_of now (op_ID op) '''' (state_String (op_State op))
            (op_RequestedBy op) ''proposed'' (op_CorrelationID op) (sq_transitions db1 + 1))
            (pr_Audit req) (pr_Event req) db1)"
proof -
  have ins: "insert_operation jv (row_of_operation op) db = Inr db1 \<longleftrightarrow>
      row_check jv (row_of_operation op) = None \<and> op_ID op \<notin> set (op_ids db)
       \<and> (live_key (row_of_operation op) = None
          \<or> live_key (row_of_operation op) \<notin> live_key ` set (db_operations db))
       \<and> db1 = db\<lparr>db_operations := db_operations db @ [row_of_operation op]\<rparr>" for db1
    by (auto simp: insert_operation_def op_ids_def row_of_operation_def split: option.splits if_splits)
  have step: "propose_tx jv now t_ttl op req db = Inr db' \<longleftrightarrow>
     (\<exists>db1 db2 n. insert_operation jv (row_of_operation op) db = Inr db1
        \<and> upsert_idem (idem_of now t_ttl op req) now db1 = (db2, n) \<and> n \<noteq> 0
        \<and> and_then (recordTransition now (op_ID op) '''' (state_String (op_State op))
              (op_RequestedBy op) ''proposed'' (op_CorrelationID op) db2)
            (\<lambda>db3. and_then (appendAudit jv now (pr_Audit req) db3)
            (\<lambda>db4. enqueue jv now (pr_Event req) db4)) = Inr db')"
    by (auto simp: propose_tx_def idem_of_def Let_def split: sum.splits prod.splits if_splits)
  show ?thesis
    unfolding step ins record_tail_Inr
    by (metis (no_types, lifting) fst_conv prod.collapse snd_conv)
qed

text \<open>After an upsert that changed a row, the row for the key is the one written.\<close>

lemma upsert_idem_keys:
  assumes "distinct (map (\<lambda>m. (im_scope m, im_key m)) (db_idem db))"
  shows "distinct (map (\<lambda>m. (im_scope m, im_key m)) (db_idem (fst (upsert_idem m now db))))"
proof (cases "list_ex (\<lambda>x. im_scope x = im_scope m \<and> im_key x = im_key m) (db_idem db)")
  case True
  have "map (\<lambda>m. (im_scope m, im_key m)) (update_where
      (\<lambda>x. (im_scope x = im_scope m \<and> im_key x = im_key m) \<and> im_expires_at x \<le> now) (\<lambda>x. m) (db_idem db))
    = map (\<lambda>m. (im_scope m, im_key m)) (db_idem db)"
    by (simp add: update_where_def)
  with True assms show ?thesis by (simp add: upsert_idem_def Let_def)
next
  case False
  with assms show ?thesis by (auto simp: upsert_idem_def Let_def list_ex_iff)
qed

lemma upsert_idem_find:
  assumes "distinct (map (\<lambda>m. (im_scope m, im_key m)) (db_idem db))" and "snd (upsert_idem m now db) \<noteq> 0"
  shows "find (\<lambda>x. im_scope x = im_scope m \<and> im_key x = im_key m) (db_idem (fst (upsert_idem m now db))) = Some m"
proof -
  have mem: "m \<in> set (db_idem (fst (upsert_idem m now db)))"
  proof (cases "list_ex (\<lambda>x. im_scope x = im_scope m \<and> im_key x = im_key m) (db_idem db)")
    case True
    then have "count_where (\<lambda>x. (im_scope x = im_scope m \<and> im_key x = im_key m) \<and> im_expires_at x \<le> now)
        (db_idem db) \<noteq> 0"
      using assms(2) by (simp add: upsert_idem_def Let_def)
    then obtain x where "x \<in> set (db_idem db)" "im_scope x = im_scope m" "im_key x = im_key m"
        "im_expires_at x \<le> now"
      by (auto simp: count_where_def filter_empty_conv)
    with True show ?thesis by (auto simp: upsert_idem_def Let_def set_update_where intro!: bexI [of _ x])
  next
    case False
    then show ?thesis by (simp add: upsert_idem_def Let_def)
  qed
  show ?thesis
    using find_key_unique [OF upsert_idem_keys [OF assms(1)] mem] by simp
qed

section \<open>The invariant of the tables\<close>

definition history :: "database \<Rightarrow> string \<Rightarrow> transition_row list" where
  "history db i = filter (\<lambda>t. tn_operation_id t = i) (db_transitions db)"

text \<open>Replaying recorded transitions: where they lead, if each starts where the one before ended.\<close>

fun replay :: "string option \<Rightarrow> transition_row list \<Rightarrow> string option option" where
  "replay s [] = Some s"
| "replay s (t # ts) = (if tn_from_state t = s then replay (Some (tn_to_state t)) ts else None)"

lemma replay_snoc:
  "replay s ts = Some s' \<Longrightarrow> tn_from_state t = s' \<Longrightarrow> replay s (ts @ [t]) = Some (Some (tn_to_state t))"
  by (induction ts arbitrary: s) (auto split: if_splits)

definition store_ok :: "(string \<Rightarrow> bool) \<Rightarrow> database \<Rightarrow> bool" where
  "store_ok jv db \<longleftrightarrow>
     distinct (op_ids db)
     \<and> (\<forall>r\<in>set (db_operations db). row_check jv r = None)
     \<and> unique_keys (map live_key (db_operations db))
     \<and> audit_ok db
     \<and> tn_operation_id ` set (db_transitions db) \<subseteq> set (op_ids db)
     \<and> (\<forall>r\<in>set (db_operations db). replay None (history db (c_id r)) = Some (Some (c_state r)))
     \<and> length (db_audit db) = length (db_transitions db)
     \<and> length (db_outbox db) = length (db_transitions db)
     \<and> distinct (map (\<lambda>m. (im_scope m, im_key m)) (db_idem db))"

lemma store_ok_empty: "store_ok jv empty_db"
  by (simp add: store_ok_def empty_db_def op_ids_def audit_ok_def genesisHash_def exI [of _ "''x''"])

lemma row_check_state: "row_check jv r = None \<Longrightarrow> c_state r \<in> set stored_states"
  by (simp add: row_check_def split: if_splits)

lemma row_check_nonempty: "row_check jv r = None \<Longrightarrow> nullStr (c_state r) = Some (c_state r)"
  using row_check_state [of jv r] by (auto simp: nullStr_def stored_states_def)

lemma audit_ok_cong:
  "db_audit db = db_audit db' \<Longrightarrow> sq_audit db = sq_audit db' \<Longrightarrow> audit_ok db = audit_ok db'"
  by (simp add: audit_ok_def)

lemma audit_ok_record: "audit_ok db \<Longrightarrow> audit_ok (record_rows now t a e db)"
  using audit_ok_append [of db now a] by (simp add: record_rows_def audit_ok_def)

lemma history_record:
  "history (record_rows now t a e db) j = history db j @ (if tn_operation_id t = j then [t] else [])"
  by (simp add: history_def)

text \<open>Changing one row's state and recording it keeps the invariant.\<close>

lemma store_ok_change:
  assumes ok: "store_ok jv db" and old: "find_op i db = Some old"
    and f: "\<And>r. c_id (f r) = c_id r" and chk: "row_check jv (f old) = None"
    and uniq: "unique_keys (map live_key (db_operations (update_op i f db)))"
    and same: "db_operations db1 = db_operations (update_op i f db)" "db_transitions db1 = db_transitions db"
      "db_audit db1 = db_audit db" "sq_audit db1 = sq_audit db" "db_outbox db1 = db_outbox db"
      "db_idem db1 = db_idem db"
    and t: "tn_operation_id t = i" "tn_from_state t = Some (c_state old)" "tn_to_state t = c_state (f old)"
  shows "store_ok jv (record_rows now t a e db1)"
proof -
  have mem: "old \<in> set (db_operations db)" "c_id old = i" using find_op_in [OF old] by auto
  have only: "r = old" if "r \<in> set (db_operations db)" "c_id r = i" for r
    using find_op_unique [of db r] that ok old by (simp add: store_ok_def)
  have rows: "r' \<in> set (db_operations db1) \<Longrightarrow>
      (r' = f old \<and> c_id r' = i) \<or> (r' \<in> set (db_operations db) \<and> c_id r' \<noteq> i)" for r'
  proof -
    assume "r' \<in> set (db_operations db1)"
    then obtain r where r: "r \<in> set (db_operations db)" "r' = (if c_id r = i then f r else r)"
      unfolding same(1) update_op_def by (auto simp: set_update_where)
    show ?thesis
    proof (cases "c_id r = i")
      case True
      then have "r = old" by (rule only [OF r(1)])
      with True r(2) f mem(2) show ?thesis by simp
    next
      case False
      with r show ?thesis by simp
    qed
  qed
  have ids: "op_ids db1 = op_ids db"
    using op_ids_update_op [of f i db] f same(1) by (simp add: op_ids_def)
  have hist: "history db1 j = history db j" for j by (simp add: history_def same)
  have "replay None (history (record_rows now t a e db1) (c_id r')) = Some (Some (c_state r'))"
    if r': "r' \<in> set (db_operations db1)" for r'
  proof (cases "c_id r' = i")
    case True
    then have "r' = f old" using rows [OF r'] by auto
    moreover have "replay None (history db i) = Some (Some (c_state old))"
      using ok mem by (auto simp: store_ok_def)
    ultimately show ?thesis using True t by (simp add: history_record hist replay_snoc)
  next
    case False
    then have "r' \<in> set (db_operations db)" using rows [OF r'] by auto
    with False ok t show ?thesis by (simp add: history_record hist store_ok_def)
  qed
  moreover have "row_check jv r' = None" if "r' \<in> set (db_operations db1)" for r'
    using rows [OF that] chk ok by (auto simp: store_ok_def)
  moreover have "audit_ok (record_rows now t a e db1)"
    using ok audit_ok_cong [of db1 db] same by (intro audit_ok_record) (simp add: store_ok_def)
  moreover have "i \<in> set (op_ids db)" using find_op_Some_id [OF old] .
  ultimately show ?thesis
    using ok uniq t ids by (auto simp: store_ok_def same) (simp_all add: record_rows_def same)
qed

lemma assign_all_state:
  "c_state (assign_all (SetState s # sets) r) = s"
  if "\<And>a. a \<in> set sets \<Longrightarrow> \<forall>s. a \<noteq> SetState s"
proof -
  have "c_state (assign_all sets r') = c_state r'" for r'
  proof (rule assign_all_keeps)
    fix a r assume "a \<in> set sets"
    with that have "\<forall>s. a \<noteq> SetState s" by blast
    then show "c_state (assign a r) = c_state r" by (cases a) auto
  qed
  then show ?thesis by (simp add: assign_all_def)
qed

lemma transition_state [simp]: "c_state (assign_all (transition_sets now req) r) = state_String (tr_To req)"
  unfolding transition_sets_def append_Cons append_Nil
  by (rule assign_all_state) (auto split: option.splits if_splits)

lemma settle_state [simp]: "c_state (assign_all (settle_sets now req) r) = state_String (sr_To req)"
  unfolding settle_sets_def append_Cons append_Nil
  by (rule assign_all_state) (auto split: if_splits)

lemma row_refused_check: "row_refused jv sets r = None \<Longrightarrow> row_check jv (assign_all sets r) = None"
  by (simp add: row_refused_def split: option.splits)

lemma unique_keys_snoc: "unique_keys (ks @ [k]) \<longleftrightarrow> unique_keys ks \<and> (k = None \<or> k \<notin> set ks)"
  by (induction ks) auto

lemma store_ok_distinct: "store_ok jv db \<Longrightarrow> distinct (op_ids db)"
  by (simp add: store_ok_def)

lemma old_state_row:
  "store_ok jv db \<Longrightarrow> find_op i db = Some old \<Longrightarrow> nullStr (c_state old) = Some (c_state old)"
  by (rule row_check_nonempty [of jv]) (auto simp: store_ok_def dest!: find_op_in)

lemma store_ok_transition_tx:
  assumes ok: "store_ok jv db" and tx: "transition_tx jv now req db = Inr db'"
  shows "store_ok jv db'"
proof -
  obtain old where old: "find_op (tr_OperationID req) db = Some old"
      "c_state old = state_String (tr_From req)" "row_refused jv (transition_sets now req) old = None"
      "unique_keys (map live_key (db_operations (update_op (tr_OperationID req)
         (assign_all (transition_sets now req)) db)))"
    and db': "db' = record_rows now (transition_row_of now (tr_OperationID req) (state_String (tr_From req))
            (state_String (tr_To req)) (tr_Actor req) (tr_Reason req) (ae_CorrelationID (tr_Audit req))
            (sq_transitions db + 1)) (tr_Audit req) (tr_Event req)
            (update_op (tr_OperationID req) (assign_all (transition_sets now req)) db)"
    using tx unfolding transition_tx_Inr [OF store_ok_distinct [OF ok]] by blast
  show ?thesis
    unfolding db'
    by (rule store_ok_change [OF ok old(1) _ row_refused_check [OF old(3)] old(4)])
       (use old(2) old_state_row [OF ok old(1)] in \<open>simp_all add: transition_row_of_def\<close>)
qed

lemma store_ok_claim_tx:
  assumes ok: "store_ok jv db" and tx: "claim_tx jv now req db = Inr db'"
  shows "store_ok jv db'"
proof -
  let ?sets = "[SetState ''executing'', SetLeaseOwner (Some (cr_InstanceID req)),
            SetLeaseExpiresAt (Some (UnixMilli (cr_LeaseExpiresAt req))), IncAttemptCount]"
  let ?db1 = "update_op (cr_OperationID req) (assign_all ?sets) db"
  obtain old db2 a where old: "find_op (cr_OperationID req) db = Some old" "claimable_row now req old"
      "row_refused jv ?sets old = None" "unique_keys (map live_key (db_operations ?db1))"
    and ins: "insert_attempt a ?db1 = Inr db2"
    and db': "db' = record_rows now (transition_row_of now (cr_OperationID req) ''approved'' ''executing''
            (cr_InstanceID req) ''claimed'' (ae_CorrelationID (cr_Audit req)) (sq_transitions db2 + 1))
            (cr_Audit req) (cr_Event req) db2"
    using tx unfolding claim_tx_Inr [OF store_ok_distinct [OF ok]] by blast
  have db2: "db2 = ?db1\<lparr>db_attempts := db_attempts ?db1 @ [a]\<rparr>"
    using ins by (simp add: insert_attempt_def split: if_splits)
  have st: "c_state old = ''approved''" "c_state (assign_all ?sets old) = ''executing''"
    using old(2) by (simp_all add: claimable_row_def assign_all_def)
  show ?thesis
    unfolding db'
    by (rule store_ok_change [OF ok old(1) _ row_refused_check [OF old(3)] old(4)])
       (use st in \<open>simp_all add: db2 transition_row_of_def nullStr_def\<close>)
qed

lemma store_ok_settle_tx:
  assumes ok: "store_ok jv db" and tx: "settle_tx jv now req db = Inr db'"
  shows "store_ok jv db'"
proof -
  let ?db1 = "finish_attempt now req (update_op (sr_OperationID req) (assign_all (settle_sets now req)) db)"
  have sel: "db_operations (finish_attempt now req d) = db_operations d"
      "db_transitions (finish_attempt now req d) = db_transitions d"
      "db_audit (finish_attempt now req d) = db_audit d" "sq_audit (finish_attempt now req d) = sq_audit d"
      "db_outbox (finish_attempt now req d) = db_outbox d" "db_idem (finish_attempt now req d) = db_idem d"
      for d
    by (simp_all add: finish_attempt_def)
  obtain old where old: "find_op (sr_OperationID req) db = Some old"
      "row_refused jv (settle_sets now req) old = None"
      "unique_keys (map live_key (db_operations ?db1))"
    and db': "db' = record_rows now (transition_row_of now (sr_OperationID req) (c_state old)
            (state_String (sr_To req)) (sr_Actor req) (sr_Reason req) (ae_CorrelationID (sr_Audit req))
            (sq_transitions ?db1 + 1)) (sr_Audit req) (sr_Event req) ?db1"
    using tx unfolding settle_tx_Inr [OF store_ok_distinct [OF ok]] by blast
  show ?thesis
    unfolding db'
    by (rule store_ok_change [OF ok old(1) _ row_refused_check [OF old(2)] old(3) [unfolded sel]])
       (use old_state_row [OF ok old(1)] in \<open>simp_all add: sel transition_row_of_def\<close>)
qed

lemma store_ok_propose_tx:
  assumes ok: "store_ok jv db" and tx: "propose_tx jv now t_ttl op req db = Inr db'"
  shows "store_ok jv db'"
proof -
  let ?r = "row_of_operation op"
  let ?db1 = "fst (upsert_idem (idem_of now t_ttl op req) now (db\<lparr>db_operations := db_operations db @ [?r]\<rparr>))"
  have new: "row_check jv ?r = None" "op_ID op \<notin> set (op_ids db)"
      "live_key ?r = None \<or> live_key ?r \<notin> live_key ` set (db_operations db)"
    and db': "db' = record_rows now (transition_row_of now (op_ID op) '''' (state_String (op_State op))
            (op_RequestedBy op) ''proposed'' (op_CorrelationID op) (sq_transitions ?db1 + 1))
            (pr_Audit req) (pr_Event req) ?db1"
    using tx unfolding propose_tx_Inr by blast+
  have r: "c_id ?r = op_ID op" "c_state ?r = state_String (op_State op)"
    by (simp_all add: row_of_operation_def)
  have hist: "history db (op_ID op) = []"
    using ok new(2) by (auto simp: history_def store_ok_def filter_empty_conv)
  have ids: "op_ids ?db1 = op_ids db @ [op_ID op]" by (simp add: op_ids_def r)
  have h1: "history ?db1 j = history db j" for j by (simp add: history_def)
  have fresh: "x \<in> set (db_operations db) \<Longrightarrow> c_id x \<noteq> op_ID op" for x
    using new(2) by (metis imageI list.set_map op_ids_def)
  have "audit_ok db'"
    unfolding db' using ok audit_ok_cong [of ?db1 db] by (intro audit_ok_record) (simp add: store_ok_def)
  moreover have "replay None (history db' (c_id x)) = Some (Some (c_state x))"
    if "x \<in> set (db_operations db')" for x
  proof -
    have hx: "history db' j = history db j @ (if op_ID op = j then [transition_row_of now (op_ID op) ''''
        (state_String (op_State op)) (op_RequestedBy op) ''proposed'' (op_CorrelationID op)
        (sq_transitions ?db1 + 1)] else [])" for j
      unfolding db' history_record h1 by (simp add: transition_row_of_def)
    have "x \<in> set (db_operations db) \<or> x = ?r" using that by (auto simp add: db')
    then show ?thesis
    proof
      assume x: "x \<in> set (db_operations db)"
      then have "history db' (c_id x) = history db (c_id x)" using fresh [OF x] by (simp add: hx)
      with ok x show ?thesis by (simp add: store_ok_def)
    next
      assume "x = ?r"
      then show ?thesis using hist by (simp add: hx r) (simp add: transition_row_of_def nullStr_def)
    qed
  qed
  moreover have "unique_keys (map live_key (db_operations db'))"
    using ok new(3) by (auto simp: db' unique_keys_snoc store_ok_def)
  moreover have "distinct (map (\<lambda>m. (im_scope m, im_key m)) (db_idem db'))"
    unfolding db' record_rows_sel by (rule upsert_idem_keys) (use ok in \<open>simp add: store_ok_def\<close>)
  ultimately show ?thesis
    using ok new(1,2) ids
    by (auto simp: store_ok_def db' transition_row_of_def) (simp_all add: record_rows_def)
qed

section \<open>Sequences of calls\<close>

datatype repo_call = DoPropose propose_request | DoTransition transition_request
  | DoClaim claim_request | DoSettle settle_request

fun exec_call :: "(string \<Rightarrow> bool) \<Rightarrow> (nat \<Rightarrow> time) \<Rightarrow> repo_call \<Rightarrow> database
    \<Rightarrow> (op_error + operation) \<times> database" where
  "exec_call jv clk (DoPropose req) db = Propose jv clk req db"
| "exec_call jv clk (DoTransition req) db = Transition jv clk req db"
| "exec_call jv clk (DoClaim req) db = Claim jv clk req db"
| "exec_call jv clk (DoSettle req) db = Settle jv clk req db"

text \<open>The transaction of a call, for the operation it names.\<close>

fun call_tx :: "(string \<Rightarrow> bool) \<Rightarrow> (nat \<Rightarrow> time) \<Rightarrow> repo_call \<Rightarrow> database \<Rightarrow> op_error + database" where
  "call_tx jv clk (DoPropose req) db =
    (case pr_Operation req of None \<Rightarrow> Inl ErrNoOperation
     | Some op \<Rightarrow> propose_tx jv (UnixMilli (clk 1)) (clk 2) op req db)"
| "call_tx jv clk (DoTransition req) db = transition_tx jv (UnixMilli (clk 0)) req db"
| "call_tx jv clk (DoClaim req) db = claim_tx jv (UnixMilli (clk 0)) req db"
| "call_tx jv clk (DoSettle req) db = settle_tx jv (UnixMilli (clk 0)) req db"

fun run_calls :: "(string \<Rightarrow> bool) \<Rightarrow> ((nat \<Rightarrow> time) \<times> repo_call) list \<Rightarrow> database \<Rightarrow> database" where
  "run_calls jv [] db = db"
| "run_calls jv ((clk, c) # cs) db = run_calls jv cs (snd (exec_call jv clk c db))"

lemma exec_call_cases:
  assumes "exec_call jv clk c db = (res, db')"
  shows "db' = db \<or> call_tx jv clk c db = Inr db'"
  using assms
  by (cases c)
     (auto simp: Propose_def Transition_def Claim_def Settle_def WriteTx_def
       split: option.splits sum.splits prod.splits)

lemma store_ok_call_tx: "store_ok jv db \<Longrightarrow> call_tx jv clk c db = Inr db' \<Longrightarrow> store_ok jv db'"
  by (cases c)
     (auto split: option.splits intro: store_ok_propose_tx store_ok_transition_tx store_ok_claim_tx
       store_ok_settle_tx)

lemma store_ok_exec: "store_ok jv db \<Longrightarrow> store_ok jv (snd (exec_call jv clk c db))"
  using exec_call_cases [of jv clk c db] store_ok_call_tx
  by (cases "exec_call jv clk c db") auto

lemma store_ok_run: "store_ok jv db \<Longrightarrow> store_ok jv (run_calls jv cs db)"
  by (induction cs arbitrary: db) (auto simp: store_ok_exec)

text \<open>
  C8. Every state of the tables accounts for itself. After any sequence of proposals, transitions,
  claims and settlements, whatever they ask for and whatever the clock says: no two rows share an
  identifier and no two live operations an intent; each operation's recorded transitions start from
  nothing, follow one another, and end in its state; the audit chain verifies; and there are as many
  audit entries and events as transitions.
\<close>
theorem tables_account_for_themselves:
  "let db = run_calls jv cs empty_db in
     distinct (op_ids db)
     \<and> unique_keys (map live_key (db_operations db))
     \<and> list_all (\<lambda>r. replay None (history db (c_id r)) = Some (Some (c_state r))) (db_operations db)
     \<and> VerifyChain db = 0
     \<and> length (db_audit db) = length (db_transitions db)
     \<and> length (db_outbox db) = length (db_transitions db)"
proof -
  have "store_ok jv (run_calls jv cs empty_db)" by (rule store_ok_run [OF store_ok_empty])
  then show ?thesis using audit_ok_VerifyChain by (simp add: store_ok_def Let_def list_all_iff)
qed

end
