(* ===== verification/Store_Props.thy ===== *)
theory Store_Props
  imports Store_Facts
begin

text \<open>
  The promises of the repository (\<open>internal/storage/sqlite/operations.go\<close>): one record of every
  change, a payload that is frozen once it is stored, one operation per repeated intent. (That a claim
  has one winner for good rests on the life cycle and is in \<open>Workflow\<close>.)
\<close>

section \<open>One call\<close>

lemma Propose_amid_unchanged:
  assumes "pr_Operation req = Some op"
    and "snd (WriteTx (propose_tx jv (UnixMilli (clk 1)) (clk 2) op req) db) = db"
  shows "snd (Propose_amid jv clk req seen later db) = db"
  using assms by (auto simp: Propose_amid_def split: sum.splits option.splits prod.splits)

text \<open>A proposal others commit around leaves what one call leaves, at a clock of its own, or none.\<close>

lemma byIdempotencyKey_late: "\<exists>t. byIdempotencyKey t scope key hash db = Inr None"
proof (cases "find (\<lambda>m. im_scope m = scope \<and> im_key m = key) (db_idem db)")
  case (Some m)
  then show ?thesis
    by (intro exI [of _ "time_UnixMilli (im_expires_at m + 1)"]) (simp add: byIdempotencyKey_def)
qed (simp add: byIdempotencyKey_def)

lemma proposal_amid_is_a_call:
  obtains "snd (Propose_amid jv clk req seen later db) = db"
    | clk' where "snd (Propose_amid jv clk req seen later db) = snd (Propose jv clk' req db)"
proof (cases "pr_Operation req")
  case (Some op)
  obtain t where t: "byIdempotencyKey t (op_Plugin op) (op_IdempotencyKey op) (pr_RequestHash req) db = Inr None"
    using byIdempotencyKey_late by blast
  have "snd (Propose_amid jv clk req seen later db) = db
      \<or> snd (Propose_amid jv clk req seen later db) = snd (Propose jv (clk(0 := t)) req db)"
    using Some t by (auto simp: Propose_amid_def Propose_def split: sum.splits option.splits prod.splits)
  then show ?thesis using that by blast
qed (use that(1) in \<open>simp add: Propose_amid_def\<close>)

lemma effect_of_change:
  assumes "\<And>r. c_id (f r) = c_id r" and "db_operations db1 = db_operations (update_op i f db)"
  shows "find_op j (record_rows now t a e db1) = map_option (\<lambda>r. if j = i then f r else r) (find_op j db)"
proof -
  have "find_op j (record_rows now t a e db1) = find_op j (update_op i f db)"
    by (simp add: find_op_def assms(2))
  also have "\<dots> = map_option (\<lambda>r. if j = i then f r else r) (find_op j db)"
    by (rule find_update_op) (rule assms(1))
  finally show ?thesis .
qed

lemma record_rows_audit:
  "db_audit (record_rows now t a e db)
     = db_audit db @ [audit_row_of now a (sq_audit db + 1) (audit_head (db_audit db))]"
  "db_outbox (record_rows now t a e db) = db_outbox db @ [outbox_row_of now e (sq_outbox db + 1)]"
  by (simp_all add: record_rows_def)

lemma row_at [simp]:
  "au_at (audit_row_of now a n p) = now" "ob_created_at (outbox_row_of now e n) = now"
  "tn_at (transition_row_of now i f t ac re co n) = now"
  "tn_operation_id (transition_row_of now i f t ac re co n) = i"
  "tn_to_state (transition_row_of now i f t ac re co n) = t"
  "tn_from_state (transition_row_of now i f t ac re co n) = nullStr f"
  by (simp_all add: audit_row_of_def outbox_row_of_def transition_row_of_def Let_def)

text \<open>The parts of a call: the operation it names, what it writes, and its guard.\<close>

fun is_propose :: "repo_call \<Rightarrow> bool" where
  "is_propose (DoPropose _) = True"
| "is_propose _ = False"

fun call_op :: "repo_call \<Rightarrow> string" where
  "call_op (DoPropose req) = (case pr_Operation req of None \<Rightarrow> '''' | Some op \<Rightarrow> op_ID op)"
| "call_op (DoTransition req) = tr_OperationID req"
| "call_op (DoClaim req) = cr_OperationID req"
| "call_op (DoSettle req) = sr_OperationID req"

fun call_audit :: "repo_call \<Rightarrow> audit_entry" where
  "call_audit (DoPropose req) = pr_Audit req"
| "call_audit (DoTransition req) = tr_Audit req"
| "call_audit (DoClaim req) = cr_Audit req"
| "call_audit (DoSettle req) = sr_Audit req"

fun call_event :: "repo_call \<Rightarrow> outbox_event" where
  "call_event (DoPropose req) = pr_Event req"
| "call_event (DoTransition req) = tr_Event req"
| "call_event (DoClaim req) = cr_Event req"
| "call_event (DoSettle req) = sr_Event req"

fun call_target :: "repo_call \<Rightarrow> string" where
  "call_target (DoPropose req) = (case pr_Operation req of None \<Rightarrow> '''' | Some op \<Rightarrow> state_String (op_State op))"
| "call_target (DoTransition req) = state_String (tr_To req)"
| "call_target (DoClaim req) = ''executing''"
| "call_target (DoSettle req) = state_String (sr_To req)"

definition claim_sets :: "claim_request \<Rightarrow> assignment list" where
  "claim_sets req = [SetState ''executing'', SetLeaseOwner (Some (cr_InstanceID req)),
     SetLeaseExpiresAt (Some (UnixMilli (cr_LeaseExpiresAt req))), IncAttemptCount]"

fun call_sets :: "(nat \<Rightarrow> time) \<Rightarrow> repo_call \<Rightarrow> assignment list" where
  "call_sets clk (DoPropose req) = []"
| "call_sets clk (DoTransition req) = transition_sets (UnixMilli (clk 0)) req"
| "call_sets clk (DoClaim req) = claim_sets req"
| "call_sets clk (DoSettle req) = settle_sets (UnixMilli (clk 0)) req"

fun call_guard :: "(nat \<Rightarrow> time) \<Rightarrow> repo_call \<Rightarrow> op_row \<Rightarrow> bool" where
  "call_guard clk (DoPropose req) r = False"
| "call_guard clk (DoTransition req) r = (c_state r = state_String (tr_From req))"
| "call_guard clk (DoClaim req) r = claimable_row (UnixMilli (clk 0)) req r"
| "call_guard clk (DoSettle req) r = True"

lemma claim_state [simp]: "c_state (assign_all (claim_sets req) r) = ''executing''"
  by (simp add: claim_sets_def assign_all_def)

lemma call_sets_state: "\<not> is_propose c \<Longrightarrow> c_state (assign_all (call_sets clk c) r) = call_target c"
  by (cases c) simp_all

text \<open>A committed call either updated the one row it names or, a proposal, appended one.\<close>

lemma call_tx_effect:
  assumes ok: "store_ok jv db" and tx: "call_tx jv clk c db = Inr db'"
  shows "(\<not> is_propose c \<and> (\<exists>old. find_op (call_op c) db = Some old \<and> call_guard clk c old
        \<and> row_refused jv (call_sets clk c) old = None)
        \<and> (\<forall>j. find_op j db' = map_option (\<lambda>r. if j = call_op c then assign_all (call_sets clk c) r else r)
              (find_op j db)))
    \<or> (\<exists>req op. c = DoPropose req \<and> pr_Operation req = Some op \<and> op_ID op \<notin> set (op_ids db)
        \<and> db_operations db' = db_operations db @ [row_of_operation op])"
proof (cases c)
  case (DoPropose req)
  with tx show ?thesis by (auto simp: propose_tx_Inr split: option.splits)
next
  case (DoTransition req)
  let ?sets = "transition_sets (UnixMilli (clk 0)) req"
  from tx DoTransition obtain old t where old: "find_op (tr_OperationID req) db = Some old"
      "c_state old = state_String (tr_From req)" "row_refused jv ?sets old = None"
    and db': "db' = record_rows (UnixMilli (clk 0)) t (tr_Audit req) (tr_Event req)
        (update_op (tr_OperationID req) (assign_all ?sets) db)"
    by (auto simp: transition_tx_Inr [OF store_ok_distinct [OF ok]])
  have "find_op j db' = map_option (\<lambda>r. if j = tr_OperationID req then assign_all ?sets r else r)
      (find_op j db)" for j
    unfolding db' by (rule effect_of_change) simp_all
  with old show ?thesis unfolding DoTransition call_sets.simps call_op.simps by simp
next
  case (DoClaim req)
  let ?sets = "claim_sets req"
  from tx DoClaim obtain old db2 a t where old: "find_op (cr_OperationID req) db = Some old"
      "claimable_row (UnixMilli (clk 0)) req old" "row_refused jv ?sets old = None"
    and ins: "insert_attempt a (update_op (cr_OperationID req) (assign_all ?sets) db) = Inr db2"
    and db': "db' = record_rows (UnixMilli (clk 0)) t (cr_Audit req) (cr_Event req) db2"
    by (auto simp: claim_tx_Inr [OF store_ok_distinct [OF ok]] claim_sets_def)
  have ops: "db_operations db2 = db_operations (update_op (cr_OperationID req) (assign_all ?sets) db)"
    using ins by (auto simp: insert_attempt_def split: if_splits)
  have "find_op j db' = map_option (\<lambda>r. if j = cr_OperationID req then assign_all ?sets r else r)
      (find_op j db)" for j
    unfolding db' by (rule effect_of_change [OF _ ops]) simp
  with old show ?thesis unfolding DoClaim call_sets.simps call_op.simps by simp
next
  case (DoSettle req)
  let ?sets = "settle_sets (UnixMilli (clk 0)) req"
  from tx DoSettle obtain old t where old: "find_op (sr_OperationID req) db = Some old"
      "row_refused jv ?sets old = None"
    and db': "db' = record_rows (UnixMilli (clk 0)) t (sr_Audit req) (sr_Event req)
        (finish_attempt (UnixMilli (clk 0)) req (update_op (sr_OperationID req) (assign_all ?sets) db))"
    by (auto simp: settle_tx_Inr [OF store_ok_distinct [OF ok]])
  have "find_op j db' = map_option (\<lambda>r. if j = sr_OperationID req then assign_all ?sets r else r)
      (find_op j db)" for j
    unfolding db' by (rule effect_of_change) (simp_all add: finish_attempt_def)
  with old show ?thesis unfolding DoSettle call_sets.simps call_op.simps by simp
qed

text \<open>And it appended one transition, one audit entry and one event, all stamped alike.\<close>

lemma content_row: "content (audit_row_of n a k p) = content (audit_row_of n a 0 p)"
  by (simp add: content_def scanAuditRow_def audit_row_of_def Let_def)

lemma outbox_row_sel [simp]:
  "ob_event_id (outbox_row_of n e k) = oe_ID e" "ob_subject (outbox_row_of n e k) = oe_Subject e"
  by (simp_all add: outbox_row_of_def)

definition recorded :: "repo_call \<Rightarrow> database \<Rightarrow> database \<Rightarrow> bool" where
  "recorded c db db' \<longleftrightarrow> (\<exists>t a e. db_transitions db' = db_transitions db @ [t]
     \<and> db_audit db' = db_audit db @ [a] \<and> db_outbox db' = db_outbox db @ [e]
     \<and> au_at a = tn_at t \<and> ob_created_at e = tn_at t
     \<and> tn_operation_id t = call_op c \<and> tn_to_state t = call_target c
     \<and> tn_from_state t = map_option c_state (find_op (call_op c) db)
     \<and> content a = content (audit_row_of (tn_at t) (call_audit c) 0 (audit_head (db_audit db)))
     \<and> ob_event_id e = oe_ID (call_event c) \<and> ob_subject e = oe_Subject (call_event c))"

lemma recordedI:
  assumes "db' = record_rows now (transition_row_of now (call_op c) frm (call_target c) ac re co n)
      (call_audit c) (call_event c) d"
    and "db_transitions d = db_transitions db" "db_audit d = db_audit db" "db_outbox d = db_outbox db"
    and "nullStr frm = map_option c_state (find_op (call_op c) db)"
  shows "recorded c db db'"
proof -
  let ?t = "transition_row_of now (call_op c) frm (call_target c) ac re co n"
  let ?a = "audit_row_of now (call_audit c) (sq_audit d + 1) (audit_head (db_audit db))"
  let ?e = "outbox_row_of now (call_event c) (sq_outbox d + 1)"
  have rows: "db_transitions db' = db_transitions db @ [?t]" "db_audit db' = db_audit db @ [?a]"
      "db_outbox db' = db_outbox db @ [?e]"
    unfolding assms(1) by (simp_all add: record_rows_def assms(2-4))
  show ?thesis
    unfolding recorded_def rows
    by (rule exI [of _ ?t], rule exI [of _ ?a], rule exI [of _ ?e])
       (simp add: assms(5) content_row [of _ _ "sq_audit d + 1"])
qed

lemma call_tx_records:
  assumes ok: "store_ok jv db" and tx: "call_tx jv clk c db = Inr db'"
  shows "recorded c db db'"
proof -
  note dist = store_ok_distinct [OF ok]
  show ?thesis
  proof (cases c)
    case (DoPropose req)
    then obtain op where op: "pr_Operation req = Some op" using tx by (auto split: option.splits)
    with tx DoPropose have new: "op_ID op \<notin> set (op_ids db)" by (simp add: propose_tx_Inr)
    then have none: "find_op (op_ID op) db = None" by (simp add: find_op_None)
    from tx DoPropose op obtain db1 where
      db': "db' = record_rows (UnixMilli (clk 1)) (transition_row_of (UnixMilli (clk 1)) (op_ID op) ''''
          (state_String (op_State op)) (op_RequestedBy op) ''proposed'' (op_CorrelationID op)
          (sq_transitions db1 + 1)) (pr_Audit req) (pr_Event req) db1"
      and db1: "db1 = fst (upsert_idem (idem_of (UnixMilli (clk 1)) (clk 2) op req) (UnixMilli (clk 1))
          (db\<lparr>db_operations := db_operations db @ [row_of_operation op]\<rparr>))"
      by (auto simp: propose_tx_Inr)
    show ?thesis
      by (rule recordedI [where frm = "''''" and d = db1])
         (use DoPropose op none in \<open>simp_all add: db' db1 nullStr_def\<close>)
  next
    case (DoTransition req)
    then obtain old where old: "find_op (tr_OperationID req) db = Some old"
        "c_state old = state_String (tr_From req)"
      and db': "db' = record_rows (UnixMilli (clk 0)) (transition_row_of (UnixMilli (clk 0))
          (tr_OperationID req) (state_String (tr_From req)) (state_String (tr_To req)) (tr_Actor req)
          (tr_Reason req) (ae_CorrelationID (tr_Audit req)) (sq_transitions db + 1)) (tr_Audit req) (tr_Event req)
          (update_op (tr_OperationID req) (assign_all (transition_sets (UnixMilli (clk 0)) req)) db)"
      using tx by (auto simp: transition_tx_Inr [OF dist])
    show ?thesis
      by (rule recordedI [where frm = "state_String (tr_From req)"
            and d = "update_op (tr_OperationID req) (assign_all (transition_sets (UnixMilli (clk 0)) req)) db"])
         (use DoTransition old old_state_row [OF ok old(1)] in \<open>simp_all add: db'\<close>)
  next
    case (DoClaim req)
    then obtain old db2 a where old: "find_op (cr_OperationID req) db = Some old"
        "claimable_row (UnixMilli (clk 0)) req old"
      and ins: "insert_attempt a (update_op (cr_OperationID req) (assign_all (claim_sets req)) db) = Inr db2"
      and db': "db' = record_rows (UnixMilli (clk 0)) (transition_row_of (UnixMilli (clk 0))
          (cr_OperationID req) ''approved'' ''executing'' (cr_InstanceID req) ''claimed''
          (ae_CorrelationID (cr_Audit req)) (sq_transitions db2 + 1)) (cr_Audit req) (cr_Event req) db2"
      using tx by (auto simp: claim_tx_Inr [OF dist] claim_sets_def)
    have "db_transitions db2 = db_transitions db" "db_audit db2 = db_audit db" "db_outbox db2 = db_outbox db"
      using ins by (auto simp: insert_attempt_def split: if_splits)
    then show ?thesis
      by (intro recordedI [where frm = "''approved''" and d = db2])
         (use DoClaim old in \<open>simp_all add: db' claimable_row_def nullStr_def\<close>)
  next
    case (DoSettle req)
    let ?db1 = "finish_attempt (UnixMilli (clk 0)) req
        (update_op (sr_OperationID req) (assign_all (settle_sets (UnixMilli (clk 0)) req)) db)"
    from DoSettle obtain old where old: "find_op (sr_OperationID req) db = Some old"
      and db': "db' = record_rows (UnixMilli (clk 0)) (transition_row_of (UnixMilli (clk 0))
          (sr_OperationID req) (c_state old) (state_String (sr_To req)) (sr_Actor req)
          (sr_Reason req) (ae_CorrelationID (sr_Audit req)) (sq_transitions ?db1 + 1)) (sr_Audit req)
          (sr_Event req) ?db1"
      using tx by (auto simp: settle_tx_Inr [OF dist])
    show ?thesis
      by (rule recordedI [where frm = "c_state old" and d = ?db1])
         (use DoSettle old old_state_row [OF ok old(1)] in \<open>simp_all add: db' finish_attempt_def\<close>)
  qed
qed

section \<open>What every call leaves\<close>

lemma exec_call_effect:
  assumes "store_ok jv db"
  shows "snd (exec_call jv clk c db) = db \<or> call_tx jv clk c db = Inr (snd (exec_call jv clk c db))"
  using exec_call_cases [of jv clk c db] by (metis prod.collapse)

lemma call_tx_others:
  assumes ok: "store_ok jv db" and tx: "call_tx jv clk c db = Inr db'" and j: "j \<noteq> call_op c"
  shows "find_op j db' = find_op j db"
  using call_tx_effect [OF ok tx]
proof
  assume "\<exists>req op. c = DoPropose req \<and> pr_Operation req = Some op \<and> op_ID op \<notin> set (op_ids db)
      \<and> db_operations db' = db_operations db @ [row_of_operation op]"
  then obtain req op where p: "c = DoPropose req" "pr_Operation req = Some op"
      "db_operations db' = db_operations db @ [row_of_operation op]"
    by blast
  have "c_id (row_of_operation op) \<noteq> j" using j p by (simp add: row_of_operation_def)
  then show ?thesis using p(3) by (simp add: find_op_def find_append_new split: option.split)
next
  assume "\<not> is_propose c \<and> (\<exists>old. find_op (call_op c) db = Some old \<and> call_guard clk c old
      \<and> row_refused jv (call_sets clk c) old = None)
    \<and> (\<forall>j. find_op j db' = map_option (\<lambda>r. if j = call_op c then assign_all (call_sets clk c) r else r)
            (find_op j db))"
  then have "find_op j db' = map_option (\<lambda>r. if j = call_op c then assign_all (call_sets clk c) r else r)
      (find_op j db)"
    by blast
  then show ?thesis using j by (simp add: option.map_ident)
qed

text \<open>
  C34. Nothing changes unrecorded. A repository call, in whatever state earlier calls left the tables,
  either leaves them as they were or records itself: one transition from the state the row had to the
  state asked for, one entry at the end of the audit chain with the content asked for, one event for
  the bus, all three with one time stamp; and no row changes but the one the call names.
\<close>
theorem state_changes_are_recorded:
  "let db = run_calls jv cs empty_db; db' = snd (exec_call jv clk c db) in
     db' = db
     \<or> (recorded c db db'
        \<and> (\<forall>j. find_op j db' = (if j = call_op c then find_op j db' else find_op j db)))"
proof -
  have ok: "store_ok jv (run_calls jv cs empty_db)" by (rule store_ok_run [OF store_ok_empty])
  show ?thesis
    unfolding Let_def
    using exec_call_effect [OF ok, of clk c] call_tx_records [OF ok] call_tx_others [OF ok]
    by (metis (no_types, lifting))
qed

section \<open>The frozen payload\<close>

text \<open>The columns an approver was shown, and those nobody may rewrite: the row with the rest blanked.\<close>

definition frozen :: "op_row \<Rightarrow> op_row" where
  "frozen r = r\<lparr>c_state := '''', c_approved_by := None, c_approved_at := None,
     c_approval_expires_at := None, c_attempt_count := 0, c_lease_owner := None,
     c_lease_expires_at := None, c_terminal_at := None, c_outcome_verified := None,
     c_observed_json := None, c_error_code := None, c_error_detail := None,
     c_authorized_by_rule := None\<rparr>"

definition keeps :: "op_row \<Rightarrow> op_row \<Rightarrow> bool" where
  "keeps r r' \<longleftrightarrow> frozen r' = frozen r \<and> c_attempt_count r \<le> c_attempt_count r'
     \<and> (c_authorized_by_rule r = None \<or> c_authorized_by_rule r' = c_authorized_by_rule r)"

lemma keeps_refl: "keeps r r"
  by (simp add: keeps_def)

lemma keeps_trans: "keeps a b \<Longrightarrow> keeps b c \<Longrightarrow> keeps a c"
  by (auto simp: keeps_def)

fun freezes :: "assignment \<Rightarrow> bool" where
  "freezes (SetTarget _) = False"
| "freezes (SetParams _) = False"
| "freezes (SetPayloadHash _) = False"
| "freezes (SetVerifiable _) = False"
| "freezes _ = True"

lemma assign_freezes: "freezes a \<Longrightarrow> frozen (assign a r) = frozen r \<and> c_attempt_count r \<le> c_attempt_count (assign a r)"
  by (cases a) (simp_all add: frozen_def)

lemma assign_all_freezes:
  "list_all freezes as \<Longrightarrow> frozen (assign_all as r) = frozen r \<and> c_attempt_count r \<le> c_attempt_count (assign_all as r)"
proof (induction as arbitrary: r)
  case (Cons a as)
  then show ?case
    using assign_freezes [of a r] Cons.IH [of "assign a r"] by (auto simp: assign_all_def intro: order_trans)
qed (simp add: assign_all_def)

lemma call_sets_freeze: "list_all freezes (call_sets clk c)"
  by (cases c) (simp_all add: transition_sets_def claim_sets_def settle_sets_def Let_def split: option.splits)

lemma assign_all_rule:
  "\<not> list_ex sets_rule as \<Longrightarrow> c_authorized_by_rule (assign_all as r) = c_authorized_by_rule r"
proof (induction as arbitrary: r)
  case (Cons a as)
  then have "c_authorized_by_rule (assign a r) = c_authorized_by_rule r" by (cases a) simp_all
  with Cons show ?case by (simp add: assign_all_def)
qed (simp add: assign_all_def)

lemma row_accepted_keeps:
  assumes "row_refused jv (call_sets clk c) old = None"
  shows "keeps old (assign_all (call_sets clk c) old)"
proof -
  have "c_authorized_by_rule old = None
      \<or> c_authorized_by_rule (assign_all (call_sets clk c) old) = c_authorized_by_rule old"
    using assms assign_all_rule [of "call_sets clk c" old]
    by (auto simp: row_refused_def update_trigger_def split: option.splits if_splits)
  then show ?thesis using assign_all_freezes [OF call_sets_freeze] by (simp add: keeps_def)
qed

lemma exec_keeps:
  assumes ok: "store_ok jv db" and r: "find_op i db = Some r"
  shows "\<exists>r'. find_op i (snd (exec_call jv clk c db)) = Some r' \<and> keeps r r'"
proof (cases "snd (exec_call jv clk c db) = db")
  case True
  then show ?thesis using r keeps_refl by auto
next
  case False
  then have tx: "call_tx jv clk c db = Inr (snd (exec_call jv clk c db))"
    using exec_call_effect [OF ok] by blast
  show ?thesis
  proof (cases "i = call_op c")
    case True
    have "i \<in> set (op_ids db)" using r by (rule find_op_Some_id)
    then have "\<not> (\<exists>req op. c = DoPropose req \<and> pr_Operation req = Some op \<and> op_ID op \<notin> set (op_ids db))"
      using True by auto
    then show ?thesis
      using call_tx_effect [OF ok tx] r True row_accepted_keeps by fastforce
  next
    case other: False
    show ?thesis using call_tx_others [OF ok tx other] r keeps_refl by auto
  qed
qed

lemma run_keeps:
  "store_ok jv db \<Longrightarrow> find_op i db = Some r \<Longrightarrow> \<exists>r'. find_op i (run_calls jv cs db) = Some r' \<and> keeps r r'"
proof (induction cs arbitrary: db r)
  case Nil
  then show ?case using keeps_refl by auto
next
  case (Cons x cs)
  obtain clk c where x: "x = (clk, c)" by fastforce
  obtain r1 where r1: "find_op i (snd (exec_call jv clk c db)) = Some r1" "keeps r r1"
    using exec_keeps [OF Cons.prems] by blast
  show ?case
    using Cons.IH [OF store_ok_exec [OF Cons.prems(1)] r1(1)] r1(2) keeps_trans by (simp add: x) blast
qed

text \<open>
  C9. What was approved is what is executed. Whatever calls follow, no row is ever deleted, and every
  column a person was shown (plugin, action, target, parameters, hash, preconditions, changes, risk,
  requester, deadlines, verifiability) reads as it did when it was stored; attempts are only counted
  up; and the rule an operation was authorised by, once recorded, stays.
\<close>
theorem payload_is_frozen:
  "let db = run_calls jv before empty_db in
     list_all (\<lambda>r. case find_op (c_id r) (run_calls jv after db) of
                     None \<Rightarrow> False
                   | Some r' \<Rightarrow> keeps r r')
       (db_operations db)"
proof -
  let ?db = "run_calls jv before empty_db"
  have ok: "store_ok jv ?db" by (rule store_ok_run [OF store_ok_empty])
  have "case find_op (c_id r) (run_calls jv after ?db) of None \<Rightarrow> False | Some r' \<Rightarrow> keeps r r'"
    if "r \<in> set (db_operations ?db)" for r
    using run_keeps [OF ok find_op_unique [OF store_ok_distinct [OF ok] that], of after] by auto
  then show ?thesis by (simp add: Let_def list_all_iff)
qed

section \<open>Claims and settlements\<close>

lemma claim_refused:
  assumes ok: "store_ok jv db" and r: "find_op (cr_OperationID req) db = Some r" "c_state r \<noteq> ''approved''"
  shows "Claim jv clk req db = (Inl ErrClaimLost, db)"
proof -
  let ?p = "claimable_row (UnixMilli (clk 0)) req"
  have "\<not> ?p x" if "x \<in> set (db_operations db)" for x
    using find_op_unique [OF store_ok_distinct [OF ok] that] r by (auto simp: claimable_row_def)
  then have "filter ?p (db_operations db) = []" by (simp add: filter_empty_conv)
  then have "execGuarded jv sets ?p db = Inl NoRowsAffected" for sets
    using ok by (simp add: execGuarded_def update_operations_def count_where_def update_where_none
        store_ok_def)
  then show ?thesis
    by (simp add: Claim_def WriteTx_def claim_tx_def guarded_as_def and_then_def)
qed

lemma claim_effect:
  assumes ok: "store_ok jv db" and moved: "snd (Claim jv clk req db) \<noteq> db"
  shows "\<exists>old r'. find_op (cr_OperationID req) db = Some old \<and> claimable_row (UnixMilli (clk 0)) req old
    \<and> find_op (cr_OperationID req) (snd (Claim jv clk req db)) = Some r' \<and> c_state r' = ''executing''
    \<and> c_lease_owner r' = Some (cr_InstanceID req) \<and> c_attempt_count r' = c_attempt_count old + 1
    \<and> keeps old r'"
proof -
  have tx: "call_tx jv clk (DoClaim req) db = Inr (snd (Claim jv clk req db))"
    using exec_call_effect [OF ok, of clk "DoClaim req"] moved by simp
  obtain old where old: "find_op (cr_OperationID req) db = Some old"
      "claimable_row (UnixMilli (clk 0)) req old" "row_refused jv (call_sets clk (DoClaim req)) old = None"
      "find_op (cr_OperationID req) (snd (Claim jv clk req db))
        = Some (assign_all (call_sets clk (DoClaim req)) old)"
    using call_tx_effect [OF ok tx] by auto
  show ?thesis
    using old row_accepted_keeps [OF old(3)] by (auto simp: claim_sets_def assign_all_def)
qed

lemma tail_error:
  "and_then (recordTransition now i f t ac re co db) (\<lambda>d.
     and_then (appendAudit jv now a d) (\<lambda>d. enqueue jv now e d)) = Inl x \<Longrightarrow> x \<noteq> ErrStateConflict"
  by (auto simp: and_then_def recordTransition_def appendAudit_def wrap_def enqueue_def Let_def
      split: sum.splits if_splits)

lemma Get_error: "Get i db \<noteq> Inl ErrStateConflict"
  by (auto simp: Get_def scanOperation_def Let_def split: option.splits if_splits)

lemma settle_tx_error:
  assumes ok: "store_ok jv db" and err: "settle_tx jv now req db = Inl x"
  shows "x \<noteq> ErrStateConflict"
proof (cases "find_op (sr_OperationID req) db")
  case None
  with err show ?thesis by (auto simp: settle_tx_def)
next
  case (Some old)
  let ?p = "\<lambda>r. c_id r = sr_OperationID req \<and> c_state r = state_String (state_of_string (c_state old))"
  have mem: "old \<in> set (db_operations db)" "c_id old = sr_OperationID req" using find_op_in [OF Some] by auto
  have "old \<in> set (filter ?p (db_operations db))" using mem by simp
  then have "count_where ?p (db_operations db) \<noteq> 0"
    unfolding count_where_def by (metis length_0_conv empty_iff empty_set)
  then have "execGuarded jv (settle_sets now req) ?p db \<noteq> Inl NoRowsAffected"
    by (auto simp: execGuarded_def update_operations_def Let_def split: option.splits)
  then have "guarded_as ErrStateConflict (execGuarded jv (settle_sets now req) ?p db) \<noteq> Inl ErrStateConflict"
    by (auto simp: guarded_as_def split: sum.splits guarded_error.splits)
  then show ?thesis
    using err Some tail_error
    by (auto simp: settle_tx_def Let_def and_then_def [of "guarded_as _ _"] split: sum.splits)
qed

text \<open>
  A settlement cannot lose. Unlike a transition or a claim it is guarded on the state it has just
  read, not on the state its caller saw: whatever happened since the caller looked, the conflict the
  guard exists to report is never reported.
\<close>
theorem settle_never_conflicts:
  "fst (Settle jv clk req (run_calls jv cs empty_db)) \<noteq> Inl ErrStateConflict"
proof -
  have ok: "store_ok jv (run_calls jv cs empty_db)" by (rule store_ok_run [OF store_ok_empty])
  show ?thesis
    using settle_tx_error [OF ok, of _ _ ErrStateConflict] Get_error
    by (auto simp: Settle_def WriteTx_def split: sum.splits)
qed

section \<open>Repeated intents\<close>

lemma idem_unchanged:
  assumes ok: "store_ok jv db" and np: "\<not> is_propose c"
  shows "db_idem (snd (exec_call jv clk c db)) = db_idem db"
proof -
  note dist = store_ok_distinct [OF ok]
  have "db_idem db' = db_idem db" if "call_tx jv clk c db = Inr db'" for db'
    using that np
    by (cases c)
       (auto simp: transition_tx_Inr [OF dist] claim_tx_Inr [OF dist] settle_tx_Inr [OF dist]
         record_rows_def update_op_def finish_attempt_def insert_attempt_def split: if_splits)
  then show ?thesis using exec_call_effect [OF ok, of clk c] by auto
qed

text \<open>The record of a key that has not expired: no proposal takes it over, and those of other keys pass by it.\<close>

definition idem_record :: "string \<Rightarrow> string \<Rightarrow> database \<Rightarrow> idem_row option" where
  "idem_record s k db = find (\<lambda>m. im_scope m = s \<and> im_key m = k) (db_idem db)"

lemma find_update_other:
  "\<not> P m \<Longrightarrow> (\<And>x. q x \<Longrightarrow> \<not> P x) \<Longrightarrow> find P (update_where q (\<lambda>x. m) xs) = find P xs"
  by (induction xs) (auto simp: update_where_def)

lemma upsert_other:
  assumes "\<not> (im_scope m = s \<and> im_key m = k)"
  shows "idem_record s k (fst (upsert_idem m now db)) = idem_record s k db"
proof -
  have "find (\<lambda>x. im_scope x = s \<and> im_key x = k) (update_where
      (\<lambda>x. (im_scope x = im_scope m \<and> im_key x = im_key m) \<and> im_expires_at x \<le> now) (\<lambda>x. m) (db_idem db))
    = find (\<lambda>x. im_scope x = s \<and> im_key x = k) (db_idem db)"
    by (rule find_update_other) (use assms in auto)
  moreover have "find P (xs @ [m]) = find P xs" if "\<not> P m" for P and xs :: "idem_row list"
    using that by (induction xs) auto
  ultimately show ?thesis using assms by (simp add: idem_record_def upsert_idem_def Let_def)
qed

lemma upsert_live:
  assumes d: "distinct (map (\<lambda>m. (im_scope m, im_key m)) (db_idem db))"
    and r: "idem_record (im_scope m) (im_key m) db = Some r" and n: "now < im_expires_at r"
  shows "snd (upsert_idem m now db) = 0"
proof -
  let ?same = "\<lambda>x. im_scope x = im_scope m \<and> im_key x = im_key m"
  have f: "find ?same (db_idem db) = Some r" using r by (simp add: idem_record_def)
  then have r': "r \<in> set (db_idem db)" "?same r" by (auto simp: find_Some_iff)
  have "x = r" if "x \<in> set (db_idem db)" "?same x" for x
    using d that r' by (auto simp: distinct_map inj_on_def)
  then have "count_where (\<lambda>x. ?same x \<and> im_expires_at x \<le> now) (db_idem db) = 0"
    using n by (fastforce simp: count_where_def filter_empty_conv)
  moreover have "list_ex ?same (db_idem db)" using r' by (auto simp: list_ex_iff)
  ultimately show ?thesis by (simp add: upsert_idem_def Let_def)
qed

lemma live_key_refused:
  assumes ok: "store_ok jv db" and r: "idem_record (op_Plugin op) (op_IdempotencyKey op) db = Some r"
    and n: "now < im_expires_at r"
  shows "snd (WriteTx (propose_tx jv now t op req) db) = db"
proof -
  let ?d = "db\<lparr>db_operations := db_operations db @ [row_of_operation op]\<rparr>"
  have "snd (upsert_idem (idem_of now t op req) now ?d) = 0"
    by (rule upsert_live [where r = r]) (use ok r n in \<open>simp_all add: store_ok_def idem_record_def idem_of_def\<close>)
  then have "propose_tx jv now t op req db \<noteq> Inr db'" for db' by (simp add: propose_tx_Inr)
  then show ?thesis by (cases "propose_tx jv now t op req db") (auto simp: WriteTx_def)
qed

definition proposed_before :: "millis \<Rightarrow> (nat \<Rightarrow> time) \<times> repo_call \<Rightarrow> bool" where
  "proposed_before t x \<longleftrightarrow> (case x of (clk, c) \<Rightarrow> \<not> is_propose c \<or> UnixMilli (clk 1) < t)"

lemma record_kept:
  assumes ok: "store_ok jv db" and r: "idem_record s k db = Some r" and p: "proposed_before (im_expires_at r) (clk, c)"
  shows "idem_record s k (snd (exec_call jv clk c db)) = Some r"
proof (cases "is_propose c")
  case False
  then show ?thesis using r idem_unchanged [OF ok] by (simp add: idem_record_def)
next
  case True
  then obtain req where c: "c = DoPropose req" by (cases c) simp_all
  let ?db' = "snd (Propose jv clk req db)"
  show ?thesis
  proof (cases "?db' = db")
    case False
    obtain op where op: "pr_Operation req = Some op" using False by (cases "pr_Operation req") (auto simp: Propose_def)
    have "propose_tx jv (UnixMilli (clk 1)) (clk 2) op req db = Inr ?db'"
      using exec_call_effect [OF ok, of clk "DoPropose req"] False op by simp
    then obtain t d where d: "d = db\<lparr>db_operations := db_operations db @ [row_of_operation op]\<rparr>"
        "snd (upsert_idem (idem_of (UnixMilli (clk 1)) (clk 2) op req) (UnixMilli (clk 1)) d) \<noteq> 0"
        "?db' = record_rows (UnixMilli (clk 1)) t (pr_Audit req) (pr_Event req)
          (fst (upsert_idem (idem_of (UnixMilli (clk 1)) (clk 2) op req) (UnixMilli (clk 1)) d))"
      unfolding propose_tx_Inr by blast
    have rd: "idem_record s k d = Some r" and dist: "distinct (map (\<lambda>m. (im_scope m, im_key m)) (db_idem d))"
      using r ok by (simp_all add: d(1) idem_record_def store_ok_def)
    have late: "UnixMilli (clk 1) < im_expires_at r" using p True by (simp add: proposed_before_def)
    have "\<not> (im_scope (idem_of (UnixMilli (clk 1)) (clk 2) op req) = s
        \<and> im_key (idem_of (UnixMilli (clk 1)) (clk 2) op req) = k)"
      using upsert_live [OF dist _ late] rd d(2) by auto
    from upsert_other [OF this] rd show ?thesis by (simp add: c d(3) idem_record_def record_rows_def)
  qed (use c r in simp)
qed

lemma record_kept_run:
  "store_ok jv db \<Longrightarrow> idem_record s k db = Some r \<Longrightarrow> list_all (proposed_before (im_expires_at r)) cs
     \<Longrightarrow> idem_record s k (run_calls jv cs db) = Some r"
proof (induction cs arbitrary: db)
  case (Cons x cs)
  obtain clk c where x: "x = (clk, c)" by fastforce
  show ?case
    using Cons.IH [OF store_ok_exec [OF Cons.prems(1)] record_kept [OF Cons.prems(1,2)]] Cons.prems(3) by (simp add: x)
qed simp

lemma propose_idem_row:
  assumes ok: "store_ok jv db" and op: "pr_Operation req = Some op" and moved: "snd (Propose jv clk req db) \<noteq> db"
  shows "find (\<lambda>m. im_scope m = op_Plugin op \<and> im_key m = op_IdempotencyKey op)
      (db_idem (snd (Propose jv clk req db))) = Some (idem_of (UnixMilli (clk 1)) (clk 2) op req)"
proof -
  let ?m = "idem_of (UnixMilli (clk 1)) (clk 2) op req"
  let ?d = "db\<lparr>db_operations := db_operations db @ [row_of_operation op]\<rparr>"
  have m: "im_scope (idem_of n u op req) = op_Plugin op" "im_key (idem_of n u op req) = op_IdempotencyKey op"
    for n u by (simp_all add: idem_of_def)
  have tx: "propose_tx jv (UnixMilli (clk 1)) (clk 2) op req db = Inr (snd (Propose jv clk req db))"
    using exec_call_effect [OF ok, of clk "DoPropose req"] moved op by simp
  then obtain t where n: "snd (upsert_idem ?m (UnixMilli (clk 1)) ?d) \<noteq> 0"
    and db': "snd (Propose jv clk req db) = record_rows (UnixMilli (clk 1)) t (pr_Audit req) (pr_Event req)
        (fst (upsert_idem ?m (UnixMilli (clk 1)) ?d))"
    unfolding propose_tx_Inr by blast
  have "distinct (map (\<lambda>m. (im_scope m, im_key m)) (db_idem ?d))" using ok by (simp add: store_ok_def)
  from upsert_idem_find [OF this n] show ?thesis by (simp add: db' m record_rows_def)
qed

lemma same_key:
  assumes row: "idem_record (op_Plugin op) (op_IdempotencyKey op) db = Some r" and ok: "store_ok jv db"
    and key: "op_IdempotencyKey op \<noteq> ''''"
    and again: "pr_Operation again = Some op'" "op_Plugin op' = op_Plugin op"
      "op_IdempotencyKey op' = op_IdempotencyKey op"
    and early: "UnixMilli (clk 0) \<le> im_expires_at r"
  shows "Propose jv clk again db
    = (if pr_RequestHash again = im_request_hash r then Get (im_operation_id r) db else Inl ErrIdempotencyConflict, db)"
  using again key early row
  by (auto simp: Propose_def byIdempotencyKey_def idem_record_def and_then_def split: sum.splits)

text \<open>
  C39. One operation per intent. After a proposal was stored under an idempotency key, and whatever calls
  came since, proposals under this and other keys among them, while the record lives: a further proposal
  of the same plugin under the same key changes nothing. Asked with the same request hash it answers with
  the operation already stored, as it now stands, and with another hash it is refused as a conflict. It
  cannot make a second operation either by looking the key up in an older state of the database: whatever
  tables it looked at, with its transaction on the tables now it changes nothing before the record's expiry.
\<close>
theorem repeated_intent_is_one_operation:
  assumes "pr_Operation req = Some op" and "op_IdempotencyKey op \<noteq> ''''"
    and "snd (Propose jv clk req (run_calls jv before empty_db)) \<noteq> run_calls jv before empty_db"
    and "expiry = UnixMilli (clk 2 + (if pr_IdempotencyTTL req \<le> 0 then 24 * Hour else pr_IdempotencyTTL req))"
    and "list_all (proposed_before expiry) between"
    and "pr_Operation again = Some op'" "op_Plugin op' = op_Plugin op"
      "op_IdempotencyKey op' = op_IdempotencyKey op"
    and "UnixMilli (clk' 0) \<le> expiry"
  shows "let now = run_calls jv between (snd (Propose jv clk req (run_calls jv before empty_db))) in
     Propose jv clk' again now
       = (if pr_RequestHash again = pr_RequestHash req then Get (op_ID op) now
          else Inl ErrIdempotencyConflict, now)
     \<and> (UnixMilli (clk' 1) < expiry \<longrightarrow> snd (Propose_amid jv clk' again seen later now) = now)"
proof -
  let ?db = "run_calls jv before empty_db" and ?r = "idem_of (UnixMilli (clk 1)) (clk 2) op req"
  have r: "im_request_hash ?r = pr_RequestHash req" "im_operation_id ?r = op_ID op" "im_expires_at ?r = expiry"
    using assms(4) by (simp_all add: idem_of_def)
  have ok: "store_ok jv ?db" by (rule store_ok_run [OF store_ok_empty])
  have ok1: "store_ok jv (snd (Propose jv clk req ?db))" using store_ok_exec [OF ok, of clk "DoPropose req"] by simp
  have "idem_record (op_Plugin op) (op_IdempotencyKey op) (snd (Propose jv clk req ?db)) = Some ?r"
    using propose_idem_row [OF ok assms(1,3)] by (simp add: idem_record_def)
  then have row: "idem_record (op_Plugin op) (op_IdempotencyKey op)
      (run_calls jv between (snd (Propose jv clk req ?db))) = Some ?r"
    by (rule record_kept_run [OF ok1]) (use assms(5) r in simp)
  note ok2 = store_ok_run [OF ok1, of between]
  show ?thesis
    unfolding Let_def
    using same_key [OF row ok2 assms(2,6-8)] live_key_refused [OF ok2, of op' ?r] row assms(6-9) r
    by (simp add: Propose_amid_unchanged)
qed

definition sample_proposal :: operation where
  "sample_proposal = zero_operation\<lparr>op_ID := ''op_1'', op_Plugin := ''dns'', op_Action := ''set'',
     op_State := StatePendingApproval, op_Risk := RiskLow, op_Target := ''{}'', op_Params := ''{}'',
     op_PayloadHash := ''h'', op_RequestedBy := ''user:alice'', op_IdempotencyKey := ''k'',
     op_RequestedAt := 0, op_ExpiresAt := 60 * Second\<rparr>"

definition sample_audit :: "string \<Rightarrow> audit_entry" where
  "sample_audit i = \<lparr>ae_EventID = i, ae_Kind = ''operation.proposed'', ae_OperationID = ''op_1'', ae_Plugin = ''dns'',
     ae_Action = ''set'', ae_Actor = ''user:alice'', ae_FromState = StateOther '''',
     ae_ToState = StatePendingApproval, ae_Risk = RiskLow, ae_CorrelationID = '''', ae_Detail = ''''\<rparr>"

definition sample_event :: "string \<Rightarrow> outbox_event" where
  "sample_event i = \<lparr>oe_ID = i, oe_Subject = ''operations.proposed'', oe_OperationID = ''op_1'', oe_CorrelationID = '''',
     oe_Payload = ''''\<rparr>"

definition sample_request :: propose_request where
  "sample_request = \<lparr>pr_Operation = Some sample_proposal, pr_Audit = sample_audit ''e1'',
     pr_Event = sample_event ''e1'', pr_RequestHash = ''h'', pr_IdempotencyTTL = 0\<rparr>"

lemma sample_request_stored:
  "snd (Propose (\<lambda>s. True) (\<lambda>i. 0) sample_request empty_db) \<noteq> empty_db"
proof -
  let ?d = "fst (upsert_idem (idem_of 0 0 sample_proposal sample_request) 0
      (empty_db\<lparr>db_operations := [row_of_operation sample_proposal]\<rparr>))"
  have "\<exists>db'. propose_tx (\<lambda>s. True) 0 0 sample_proposal sample_request empty_db = Inr db'"
    unfolding propose_tx_Inr
    by (simp add: row_check_def row_of_operation_def sample_proposal_def zero_operation_def stored_states_def
        op_ids_def empty_db_def upsert_idem_def rows_accepted_def sample_request_def sample_audit_def
        sample_event_def)
  then obtain db' where db': "propose_tx (\<lambda>s. True) 0 0 sample_proposal sample_request empty_db = Inr db'"
    by blast
  then have "length (db_transitions db') = Suc 0"
    by (auto simp: propose_tx_Inr record_rows_def empty_db_def)
  then have "db' \<noteq> empty_db" by (auto simp: empty_db_def)
  then show ?thesis
    using db' by (simp add: Propose_def sample_request_def byIdempotencyKey_def WriteTx_def UnixMilli_def empty_db_def
        sample_proposal_def)
qed

theorem repeated_intent_is_one_operation_witness:
  "let now = run_calls (\<lambda>s. True) [(\<lambda>i. 3, DoPropose (sample_request\<lparr>pr_Operation := Some (sample_proposal
           \<lparr>op_ID := ''op_9'', op_IdempotencyKey := ''k9''\<rparr>)\<rparr>))]
         (snd (Propose (\<lambda>s. True) (\<lambda>i. 0) sample_request empty_db)) in
     snd (Propose (\<lambda>s. True) (\<lambda>i. 5) sample_request now) = now
     \<and> Propose (\<lambda>s. True) (\<lambda>i. 5) (sample_request\<lparr>pr_RequestHash := ''other''\<rparr>) now
       = (Inl ErrIdempotencyConflict, now)
     \<and> snd (Propose_amid (\<lambda>s. True) (\<lambda>i. 5) sample_request empty_db id now) = now"
proof -
  have key: "pr_Operation sample_request = Some sample_proposal" "op_IdempotencyKey sample_proposal \<noteq> ''''"
      "pr_RequestHash sample_request = ''h''"
    by (simp_all add: sample_request_def sample_proposal_def)
  define other where "other = [(\<lambda>i :: nat. 3 :: time, DoPropose (sample_request\<lparr>pr_Operation := Some (sample_proposal
           \<lparr>op_ID := ''op_9'', op_IdempotencyKey := ''k9''\<rparr>)\<rparr>))]"
  have exp: "86400000 = UnixMilli (0 + (if pr_IdempotencyTTL sample_request \<le> 0 then 24 * Hour
      else pr_IdempotencyTTL sample_request))"
    by (simp add: sample_request_def UnixMilli_def)
  have early: "UnixMilli 5 = 0" by (simp add: UnixMilli_def)
  have others: "list_all (proposed_before 86400000) other"
    by (simp add: other_def proposed_before_def UnixMilli_def)
  show ?thesis
    unfolding other_def [symmetric]
    using repeated_intent_is_one_operation [of sample_request sample_proposal "\<lambda>s. True" "\<lambda>i. 0" "[]" 86400000 other
        sample_request sample_proposal "\<lambda>i. 5"]
      repeated_intent_is_one_operation [of sample_request sample_proposal "\<lambda>s. True" "\<lambda>i. 0" "[]" 86400000 other
        "sample_request\<lparr>pr_RequestHash := ''other''\<rparr>" sample_proposal "\<lambda>i. 5"]
      key early exp others sample_request_stored
    by (simp add: Let_def)
qed

end
