(* ===== verification/Rules.thy ===== *)
theory Rules
  imports Operations
begin

text \<open>
  Standing approval rules (\<open>internal/operations/autoapprove.go\<close>): decoding and validating a rule
  set, and deciding whether a proposal is put to a person. A \<open>*AutoApprovalRule\<close> in a decision is
  an option. An error and the reason of a refusal are constructors carrying what the message
  quotes; the reason of an approval, which the audit trail stores, is its text.
\<close>

section \<open>Rules\<close>

definition RuleAny :: string where "RuleAny = ''*''"
definition PolicyActor :: string where "PolicyActor = SystemActor @ '':policy''"
definition maxRules :: nat where "maxRules = 200"
definition DefaultAuthority :: string where "DefaultAuthority = ''policy:default''"

definition lower_alnum :: "char \<Rightarrow> bool" where
  "lower_alnum c = (let n = byte c in (97 \<le> n \<and> n \<le> 122) \<or> (48 \<le> n \<and> n \<le> 57))"

definition alnum :: "char \<Rightarrow> bool" where
  "alnum c \<longleftrightarrow> lower_alnum c \<or> (65 \<le> byte c \<and> byte c \<le> 90)"

text \<open>\<open>^[a-z0-9][a-z0-9_-]{0,63}$\<close> and \<open>^[A-Za-z0-9][A-Za-z0-9._:@/-]{0,127}$\<close>.\<close>

definition ruleIDPattern :: "string \<Rightarrow> bool" where
  "ruleIDPattern s = (case s of [] \<Rightarrow> False
     | c # cs \<Rightarrow> lower_alnum c \<and> length cs \<le> 63
         \<and> list_all (\<lambda>d. lower_alnum d \<or> d \<in> set ''_-'') cs)"

definition scopePattern :: "string \<Rightarrow> bool" where
  "scopePattern s = (case s of [] \<Rightarrow> False
     | c # cs \<Rightarrow> alnum c \<and> length cs \<le> 127
         \<and> list_all (\<lambda>d. alnum d \<or> d \<in> set ''._:@/-'') cs)"

record rule =
  ru_ID :: string
  ru_Plugin :: string
  ru_Action :: string
  ru_Principal :: string
  ru_MaxRisk :: risk_level
  ru_Note :: string

definition Scope :: "rule \<Rightarrow> string" where
  "Scope r = ru_Plugin r @ ''/'' @ ru_Action r @ '' for '' @ ru_Principal r"

definition specificity :: "rule \<Rightarrow> nat" where
  "specificity r =
    (if ru_Plugin r \<noteq> RuleAny then 4 else 0) + (if ru_Action r \<noteq> RuleAny then 2 else 0)
    + (if ru_Principal r \<noteq> RuleAny then 1 else 0)"

definition selectorMatches :: "string \<Rightarrow> string \<Rightarrow> bool" where
  "selectorMatches selector value \<longleftrightarrow> selector = RuleAny \<or> selector = value"

record approval_question =
  q_Plugin :: string
  q_Action :: string
  q_Principal :: string
  q_Risk :: risk_level
  q_Reversible :: bool

definition rule_matches :: "rule \<Rightarrow> approval_question \<Rightarrow> bool" where
  "rule_matches r req \<longleftrightarrow>
     selectorMatches (ru_Plugin r) (q_Plugin req)
     \<and> selectorMatches (ru_Action r) (q_Action req)
     \<and> selectorMatches (ru_Principal r) (q_Principal req)"

definition authorisesNothing :: "rule \<Rightarrow> bool" where
  "authorisesNothing r \<longleftrightarrow> \<not> risk_Valid (ru_MaxRisk r) \<or> ru_MaxRisk r = RiskCritical"

definition moreSpecific :: "rule \<Rightarrow> rule \<Rightarrow> bool" where
  "moreSpecific a b =
    (if specificity a \<noteq> specificity b then specificity a > specificity b
     else if risk_rank (ru_MaxRisk a) \<noteq> risk_rank (ru_MaxRisk b)
       then risk_rank (ru_MaxRisk a) < risk_rank (ru_MaxRisk b)
     else ru_ID a < ru_ID b)"

section \<open>Windows and decisions\<close>

text \<open>The \<open>Bypass\<close> record of \<open>bypass.go\<close>; a decision names the window that authorised it.\<close>

record bypass =
  by_ID :: string
  by_Plugin :: string
  by_Ceiling :: risk_level
  by_ExpiresAt :: time
  by_Reason :: string
  by_CreatedBy :: string
  by_CreatedAt :: time

datatype reason =
    NoWayBack
  | UnrecognisedRisk risk_level
  | RuleExcludes rule
  | NoRuleCovers
  | DefaultTooLow risk_level risk_level
  | RuleTooLow rule risk_level
  | Approves string

record approval_decision =
  AutoApprove :: bool
  d_Rule :: "rule option"
  d_Why :: reason
  d_Bypass :: "bypass option"

record approval_policy =
  ap_Rules :: "rule list"
  ap_Unmatched :: risk_level

definition BypassAuthority :: "string \<Rightarrow> string" where
  "BypassAuthority bid = ''bypass:'' @ bid"

definition Excluded :: "approval_decision \<Rightarrow> bool" where
  "Excluded d = (case d_Rule d of None \<Rightarrow> False | Some r \<Rightarrow> authorisesNothing r)"

definition RuleID :: "approval_decision \<Rightarrow> string" where
  "RuleID d = (case d_Rule d of None \<Rightarrow> '''' | Some r \<Rightarrow> ru_ID r)"

definition Authority :: "approval_decision \<Rightarrow> string" where
  "Authority d =
    (case d_Bypass d of
       Some b \<Rightarrow> BypassAuthority (by_ID b)
     | None \<Rightarrow> (case d_Rule d of Some r \<Rightarrow> ru_ID r | None \<Rightarrow> DefaultAuthority))"

section \<open>Evaluation\<close>

definition better_of :: "rule \<Rightarrow> rule option \<Rightarrow> rule option" where
  "better_of cand best =
    (case best of None \<Rightarrow> Some cand
     | Some b \<Rightarrow> if moreSpecific cand b then Some cand else best)"

fun match_loop :: "approval_question \<Rightarrow> rule option \<Rightarrow> rule option \<Rightarrow> rule list
    \<Rightarrow> rule option \<times> rule option" where
  "match_loop req excluded grant [] = (excluded, grant)"
| "match_loop req excluded grant (cand # rs) =
    (if \<not> rule_matches cand req then match_loop req excluded grant rs
     else if authorisesNothing cand then match_loop req (better_of cand excluded) grant rs
     else match_loop req excluded (better_of cand grant) rs)"

definition match_rules :: "approval_policy \<Rightarrow> approval_question \<Rightarrow> rule option \<times> rule option" where
  "match_rules p req = match_loop req None None (ap_Rules p)"

definition declined :: "rule option \<Rightarrow> reason \<Rightarrow> approval_decision" where
  "declined r why = \<lparr>AutoApprove = False, d_Rule = r, d_Why = why, d_Bypass = None\<rparr>"

definition approved_by_rule :: "rule option \<Rightarrow> string \<Rightarrow> approval_decision" where
  "approved_by_rule r why = \<lparr>AutoApprove = True, d_Rule = r, d_Why = Approves why, d_Bypass = None\<rparr>"

definition Evaluate :: "approval_policy \<Rightarrow> approval_question \<Rightarrow> approval_decision" where
  "Evaluate p req =
    (if \<not> q_Reversible req then declined None NoWayBack
     else if \<not> risk_Valid (q_Risk req) then declined None (UnrecognisedRisk (q_Risk req))
     else case match_rules p req of (excluded, grant) \<Rightarrow>
       (case excluded of
          Some r \<Rightarrow> declined (Some r) (RuleExcludes r)
        | None \<Rightarrow>
            (case grant of
               None \<Rightarrow>
                 if \<not> risk_Valid (ap_Unmatched p) \<or> ap_Unmatched p = RiskCritical
                   then declined None NoRuleCovers
                 else if \<not> risk_AtLeast (ap_Unmatched p) (q_Risk req)
                   then declined None (DefaultTooLow (ap_Unmatched p) (q_Risk req))
                 else approved_by_rule None
                   (''no rule covers this change, and this host authorises '' @ risk_String (q_Risk req)
                    @ '' changes up to '' @ risk_String (ap_Unmatched p) @ '' by default'')
             | Some g \<Rightarrow>
                 if \<not> risk_AtLeast (ru_MaxRisk g) (q_Risk req)
                   then declined (Some g) (RuleTooLow g (q_Risk req))
                 else approved_by_rule (Some g)
                   (''rule '' @ ru_ID g @ '' ('' @ Scope g @ '') authorises '' @ risk_String (q_Risk req)
                    @ '' changes up to '' @ risk_String (ru_MaxRisk g)))))"

section \<open>Validation of a rule set\<close>

datatype rule_error =
    TooManyRules nat
  | DuplicateID string
  | DuplicateScope string string rule
  | BadRuleID string
  | BadSelector rule string string
  | CriticalCeiling string
  | BadCeiling string risk_level
  | NoteTooLong string
  | NoteControl string
  | NoteFormatting string
  | NoteNotUTF8 string
  | RuleIsNull
  | FieldIsNull string
  | EmptySelector string
  | RuleSyntax

definition normaliseSelector :: "string \<Rightarrow> string" where
  "normaliseSelector v = (let v' = TrimSpace v in if v' = '''' then RuleAny else v')"

text \<open>\<open>unicode.IsControl\<close>, and the Unicode category \<open>Cf\<close>.\<close>

definition IsControl :: "nat \<Rightarrow> bool" where
  "IsControl r \<longleftrightarrow> r < 32 \<or> (127 \<le> r \<and> r < 160)"

definition category_Cf :: "(nat \<times> nat) list" where
  "category_Cf =
    [(173, 173), (1536, 1541), (1564, 1564), (1757, 1757), (1807, 1807), (2192, 2193), (2274, 2274),
     (6158, 6158), (8203, 8207), (8234, 8238), (8288, 8292), (8294, 8303), (65279, 65279),
     (65529, 65531), (69821, 69821), (69837, 69837), (78896, 78911), (113824, 113827),
     (119155, 119162), (917505, 917505), (917536, 917631)]"

definition Is_Cf :: "nat \<Rightarrow> bool" where
  "Is_Cf r = list_ex (\<lambda>(lo, hi). lo \<le> r \<and> r \<le> hi) category_Cf"

text \<open>\<open>printable\<close>: \<open>None\<close> is a nil error; the loop decodes the string rune by rune.\<close>

function printable :: "string \<Rightarrow> string \<Rightarrow> rule_error option" where
  "printable rid s =
    (case s of [] \<Rightarrow> None
     | c # cs \<Rightarrow>
         (case DecodeRune s of (r, width) \<Rightarrow>
            if IsControl r then Some (NoteControl rid)
            else if Is_Cf r then Some (NoteFormatting rid)
            else if r = 65533 then Some (NoteNotUTF8 rid)
            else printable rid (drop (max 1 width) s)))"
  by pat_completeness auto
termination by (relation "measure (\<lambda>(rid, s). length s)") auto

declare printable.simps [simp del]

definition bad_selector :: "rule \<Rightarrow> string \<Rightarrow> string \<Rightarrow> rule_error option" where
  "bad_selector r label value =
    (if value = RuleAny then None
     else if \<not> scopePattern value then Some (BadSelector r label value) else None)"

text \<open>The three selectors are checked in the order of a Go map; here in the order they are written.\<close>

definition validateRule :: "rule \<Rightarrow> rule_error option" where
  "validateRule r =
    (if \<not> ruleIDPattern (ru_ID r) then Some (BadRuleID (ru_ID r))
     else case bad_selector r ''plugin'' (ru_Plugin r) of Some e \<Rightarrow> Some e
     | None \<Rightarrow>
     (case bad_selector r ''action'' (ru_Action r) of Some e \<Rightarrow> Some e
     | None \<Rightarrow>
     (case bad_selector r ''principal'' (ru_Principal r) of Some e \<Rightarrow> Some e
     | None \<Rightarrow>
       if ru_MaxRisk r = RiskCritical then Some (CriticalCeiling (ru_ID r))
       else if ru_MaxRisk r \<noteq> RiskUnset \<and> \<not> risk_Valid (ru_MaxRisk r)
         then Some (BadCeiling (ru_ID r) (ru_MaxRisk r))
       else if length (ru_Note r) > 256 then Some (NoteTooLong (ru_ID r))
       else printable (ru_ID r) (ru_Note r))))"

definition trim_rule :: "rule \<Rightarrow> rule" where
  "trim_rule r =
    \<lparr>ru_ID = TrimSpace (ru_ID r),
     ru_Plugin = normaliseSelector (ru_Plugin r),
     ru_Action = normaliseSelector (ru_Action r),
     ru_Principal = normaliseSelector (ru_Principal r),
     ru_MaxRisk = risk_of_string (TrimSpace (risk_String (ru_MaxRisk r))),
     ru_Note = TrimSpace (ru_Note r)\<rparr>"

definition scope_key :: "rule \<Rightarrow> string" where
  "scope_key r = ru_Plugin r @ CHR 0x00 # ru_Action r @ CHR 0x00 # ru_Principal r"

text \<open>\<open>ids\<close> and \<open>scopes\<close> are the two maps of the loop, \<open>out\<close> the rules accepted so far.\<close>

fun normalise_loop :: "string list \<Rightarrow> (string \<times> string) list \<Rightarrow> rule list \<Rightarrow> rule list
    \<Rightarrow> rule_error + rule list" where
  "normalise_loop ids scopes out [] = Inr out"
| "normalise_loop ids scopes out (r0 # rs) =
    (let r = trim_rule r0
     in case validateRule r of
          Some e \<Rightarrow> Inl e
        | None \<Rightarrow>
            if ru_ID r \<in> set ids then Inl (DuplicateID (ru_ID r))
            else (case map_of scopes (scope_key r) of
                Some other \<Rightarrow> Inl (DuplicateScope other (ru_ID r) r)
              | None \<Rightarrow>
                  normalise_loop (ru_ID r # ids) ((scope_key r, ru_ID r) # scopes) (out @ [r]) rs))"

text \<open>The comparison function of the sort, as \<open>cmp a b \<le> 0\<close>.\<close>

definition rule_le :: "rule \<Rightarrow> rule \<Rightarrow> bool" where
  "rule_le a b =
    (if specificity a \<noteq> specificity b then specificity b < specificity a else ru_ID a \<le> ru_ID b)"

definition NormaliseRules :: "rule list \<Rightarrow> rule_error + rule list" where
  "NormaliseRules rules =
    (if length rules > maxRules then Inl (TooManyRules (length rules))
     else case normalise_loop [] [] [] rules of
       Inl e \<Rightarrow> Inl e
     | Inr out \<Rightarrow> Inr (sort_by rule_le out))"

definition RuleCeilings :: "risk_level list" where
  "RuleCeilings = [RiskLow, RiskMedium, RiskHigh]"

section \<open>Decoding a stored rule set\<close>

definition rule_fields :: "string list" where
  "rule_fields = [''id'', ''plugin'', ''action'', ''principal'', ''max_risk'', ''note'']"

definition rule_field :: "string \<Rightarrow> string option" where
  "rule_field k =
    (if k \<in> set rule_fields then Some k else find (\<lambda>f. foldName f = foldName k) rule_fields)"

definition zero_rule :: rule where
  "zero_rule = \<lparr>ru_ID = [], ru_Plugin = [], ru_Action = [], ru_Principal = [],
     ru_MaxRisk = RiskUnset, ru_Note = []\<rparr>"

definition set_field :: "string \<Rightarrow> string \<Rightarrow> rule \<Rightarrow> rule" where
  "set_field f v r =
    (if f = ''id'' then r\<lparr>ru_ID := v\<rparr>
     else if f = ''plugin'' then r\<lparr>ru_Plugin := v\<rparr>
     else if f = ''action'' then r\<lparr>ru_Action := v\<rparr>
     else if f = ''principal'' then r\<lparr>ru_Principal := v\<rparr>
     else if f = ''max_risk'' then r\<lparr>ru_MaxRisk := risk_of_string v\<rparr>
     else r\<lparr>ru_Note := v\<rparr>)"

text \<open>
  \<open>dec.Decode(&w)\<close> with \<open>DisallowUnknownFields\<close>, on the members of the object: a null leaves the
  field alone; an unknown name and a value that is not a string are errors.
\<close>

fun decode_fields :: "rule \<Rightarrow> (string \<times> json) list \<Rightarrow> rule option" where
  "decode_fields w [] = Some w"
| "decode_fields w ((k, v) # es) =
    (case rule_field k of
       None \<Rightarrow> None
     | Some f \<Rightarrow>
         (case v of JStr s \<Rightarrow> decode_fields (set_field f s w) es
          | JNull \<Rightarrow> decode_fields w es
          | _ \<Rightarrow> None))"

definition empty_selector :: "(string \<times> json) list \<Rightarrow> rule \<Rightarrow> string option" where
  "empty_selector present w =
    map_option fst (find (\<lambda>(name, value). map_of present name \<noteq> None \<and> TrimSpace value = '''')
      [(''plugin'', ru_Plugin w), (''action'', ru_Action w), (''principal'', ru_Principal w)])"

definition UnmarshalJSON_rule :: "json \<Rightarrow> rule_error + rule" where
  "UnmarshalJSON_rule v =
    (if v = JNull then Inl RuleIsNull
     else case v of
       JObj es \<Rightarrow>
         (let present = last_wins es
          in case find (\<lambda>(k, x). x = JNull) present of
               Some (k, _) \<Rightarrow> Inl (FieldIsNull k)
             | None \<Rightarrow>
                 (case decode_fields zero_rule es of
                    None \<Rightarrow> Inl RuleSyntax
                  | Some w \<Rightarrow>
                      (case empty_selector present w of
                         Some name \<Rightarrow> Inl (EmptySelector name)
                       | None \<Rightarrow> Inr w)))
     | _ \<Rightarrow> Inl RuleSyntax)"

fun decode_list :: "json list \<Rightarrow> rule_error + rule list" where
  "decode_list [] = Inr []"
| "decode_list (v # vs) =
    (case UnmarshalJSON_rule v of
       Inl e \<Rightarrow> Inl e
     | Inr r \<Rightarrow> (case decode_list vs of Inl e \<Rightarrow> Inl e | Inr rs \<Rightarrow> Inr (r # rs)))"

text \<open>\<open>dec.Decode(&rules)\<close>: what follows the first value is not read; null is the nil slice.\<close>

definition DecodeRules :: "raw_message \<Rightarrow> rule_error + rule list" where
  "DecodeRules raw =
    (if TrimSpace raw = [] then Inr []
     else case Decode raw of
       None \<Rightarrow> Inl RuleSyntax
     | Some (v, _) \<Rightarrow>
         (case v of
            JNull \<Rightarrow> NormaliseRules []
          | JArr vs \<Rightarrow>
              (case decode_list vs of Inl e \<Rightarrow> Inl e | Inr rs \<Rightarrow> NormaliseRules rs)
          | _ \<Rightarrow> Inl RuleSyntax))"

section \<open>Lemmas on evaluation\<close>

interpretation specific: strict_choice moreSpecific
proof
  show "\<not> moreSpecific x x" for x by (simp add: moreSpecific_def)
  show "moreSpecific x z" if "moreSpecific x y" "moreSpecific y z" for x y z
    using that by (auto simp: moreSpecific_def split: if_splits intro: less_trans)
  show "\<not> moreSpecific x z" if "\<not> moreSpecific x y" "\<not> moreSpecific y z" for x y z
    using that by (auto simp: moreSpecific_def not_less split: if_splits intro: order_trans)
qed

lemma moreSpecific_total: "ru_ID a \<noteq> ru_ID b \<Longrightarrow> moreSpecific a b \<or> moreSpecific b a"
  by (auto simp: moreSpecific_def)

definition exclusions :: "approval_policy \<Rightarrow> approval_question \<Rightarrow> rule list" where
  "exclusions p req = filter (\<lambda>r. rule_matches r req \<and> authorisesNothing r) (ap_Rules p)"

definition covering :: "approval_policy \<Rightarrow> approval_question \<Rightarrow> rule list" where
  "covering p req = filter (\<lambda>r. rule_matches r req \<and> \<not> authorisesNothing r) (ap_Rules p)"

lemma match_rules_select:
  "match_rules p req =
    (select_best moreSpecific None (exclusions p req), select_best moreSpecific None (covering p req))"
proof -
  have "match_loop req e g rs =
      (select_best moreSpecific e (filter (\<lambda>r. rule_matches r req \<and> authorisesNothing r) rs),
       select_best moreSpecific g (filter (\<lambda>r. rule_matches r req \<and> \<not> authorisesNothing r) rs))" for e g rs
    by (induction rs arbitrary: e g) (auto simp: better_of_def split: option.splits)
  then show ?thesis by (simp add: match_rules_def exclusions_def covering_def)
qed

lemma decision_sel [simp]:
  "AutoApprove (declined r why) = False" "d_Rule (declined r why) = r" "d_Bypass (declined r why) = None"
  "AutoApprove (approved_by_rule r s)" "d_Rule (approved_by_rule r s) = r"
  "d_Bypass (approved_by_rule r s) = None"
  by (simp_all add: declined_def approved_by_rule_def)

text \<open>What the rules and the default authorise, said of the rule set alone.\<close>

definition rules_authorise :: "approval_policy \<Rightarrow> approval_question \<Rightarrow> bool" where
  "rules_authorise p req =
    (case select_best moreSpecific None (covering p req) of
       Some g \<Rightarrow> risk_AtLeast (ru_MaxRisk g) (q_Risk req)
     | None \<Rightarrow> risk_Valid (ap_Unmatched p) \<and> ap_Unmatched p \<noteq> RiskCritical
         \<and> risk_AtLeast (ap_Unmatched p) (q_Risk req))"

lemma Evaluate_AutoApprove:
  "AutoApprove (Evaluate p req) \<longleftrightarrow>
     q_Reversible req \<and> risk_Valid (q_Risk req) \<and> exclusions p req = [] \<and> rules_authorise p req"
  by (auto simp: Evaluate_def match_rules_select rules_authorise_def specific.select_None_iff
      split: option.splits)

lemma Evaluate_Excluded:
  "q_Reversible req \<Longrightarrow> risk_Valid (q_Risk req) \<Longrightarrow>
     Excluded (Evaluate p req) \<longleftrightarrow> exclusions p req \<noteq> []"
proof -
  assume a: "q_Reversible req" "risk_Valid (q_Risk req)"
  have ex: "authorisesNothing r" if "select_best moreSpecific None (exclusions p req) = Some r" for r
    using specific.select_mem [OF that] by (auto simp: exclusions_def)
  have gr: "\<not> authorisesNothing r" if "select_best moreSpecific None (covering p req) = Some r" for r
    using specific.select_mem [OF that] by (auto simp: covering_def)
  show ?thesis
    using a specific.select_None_iff [of "exclusions p req"]
    by (auto simp: Evaluate_def match_rules_select Excluded_def dest: ex gr split: option.splits)
qed

lemma rules_authorise_not_critical:
  assumes "rules_authorise p req" and "risk_Valid (q_Risk req)"
  shows "q_Risk req \<in> {RiskLow, RiskMedium, RiskHigh}"
proof -
  have low: "risk_rank r \<le> 3" if "risk_Valid r" "r \<noteq> RiskCritical" for r
    using that by (cases r) (auto simp: risk_Valid_cases)
  obtain c where c: "risk_Valid c" "c \<noteq> RiskCritical" "risk_AtLeast c (q_Risk req)"
  proof (cases "select_best moreSpecific None (covering p req)")
    case None
    with assms(1) show ?thesis by (intro that [of "ap_Unmatched p"]) (auto simp: rules_authorise_def)
  next
    case (Some g)
    then have "\<not> authorisesNothing g" using specific.select_mem [OF Some] by (auto simp: covering_def)
    with Some assms(1) show ?thesis
      by (intro that [of "ru_MaxRisk g"]) (auto simp: rules_authorise_def authorisesNothing_def)
  qed
  then have "risk_rank (q_Risk req) \<le> 3" using low [of c] by (simp add: risk_AtLeast_def)
  then show ?thesis using assms(2) by (auto simp: risk_Valid_cases)
qed

text \<open>
  C36. Which rule decides is a fact of the configuration, not of how it happens to be stored: two
  rule sets with the same rules in any order, no two of them sharing an identifier, give the same
  decision, the same deciding rule and the same recorded reason on every proposal.
\<close>
theorem Evaluate_order_independent:
  assumes "set (ap_Rules p) = set (ap_Rules p')" and "ap_Unmatched p = ap_Unmatched p'"
    and "inj_on ru_ID (set (ap_Rules p))"
  shows "Evaluate p req = Evaluate p' req"
proof -
  have tie: "moreSpecific x y \<or> moreSpecific y x"
    if "x \<in> set (ap_Rules p)" "y \<in> set (ap_Rules p)" "x \<noteq> y" for x y
    using that assms(3) moreSpecific_total by (metis inj_on_def)
  have "select_best moreSpecific None (exclusions p req) = select_best moreSpecific None (exclusions p' req)"
    by (rule specific.select_order_free) (use assms(1) tie in \<open>auto simp: exclusions_def\<close>)
  moreover have "select_best moreSpecific None (covering p req) = select_best moreSpecific None (covering p' req)"
    by (rule specific.select_order_free) (use assms(1) tie in \<open>auto simp: covering_def\<close>)
  ultimately show ?thesis
    unfolding Evaluate_def match_rules_select by (simp only: assms(2) prod.case)
qed

definition sample_rules :: "rule list" where
  "sample_rules =
    [\<lparr>ru_ID = ''low-writes'', ru_Plugin = ''cnmaestro'', ru_Action = RuleAny, ru_Principal = RuleAny,
      ru_MaxRisk = RiskMedium, ru_Note = []\<rparr>,
     \<lparr>ru_ID = ''no-reboot'', ru_Plugin = RuleAny, ru_Action = ''device.reboot'', ru_Principal = RuleAny,
      ru_MaxRisk = RiskUnset, ru_Note = []\<rparr>]"

definition sample_policy :: approval_policy where
  "sample_policy = \<lparr>ap_Rules = sample_rules, ap_Unmatched = RiskLow\<rparr>"

definition sample_question :: approval_question where
  "sample_question = \<lparr>q_Plugin = ''cnmaestro'', q_Action = ''device.reboot'',
     q_Principal = ''user:alice'', q_Risk = RiskLow, q_Reversible = True\<rparr>"

theorem Evaluate_order_independent_witness:
  "Evaluate sample_policy sample_question
   = Evaluate (sample_policy\<lparr>ap_Rules := rev sample_rules\<rparr>) sample_question"
  by (rule Evaluate_order_independent) (simp_all add: sample_policy_def sample_rules_def insert_commute)

section \<open>The stored rule set\<close>

lemma trim_rule_idem [simp]: "trim_rule (trim_rule r) = trim_rule r"
proof -
  have "TrimSpace RuleAny = RuleAny"
    unfolding RuleAny_def by (rule TrimSpace_visible) (simp_all add: visible_def)
  then have "normaliseSelector (normaliseSelector v) = normaliseSelector v" for v
    by (simp add: normaliseSelector_def Let_def RuleAny_def)
  then show ?thesis by (simp add: trim_rule_def)
qed

lemma normalise_loop_Inr:
  "normalise_loop ids scopes out rs = Inr res \<longleftrightarrow>
     res = out @ map trim_rule rs
     \<and> (\<forall>r\<in>set rs. validateRule (trim_rule r) = None \<and> ru_ID (trim_rule r) \<notin> set ids
          \<and> scope_key (trim_rule r) \<notin> fst ` set scopes)
     \<and> distinct (map (ru_ID \<circ> trim_rule) rs) \<and> distinct (map (scope_key \<circ> trim_rule) rs)"
proof (induction rs arbitrary: ids scopes out)
  case Nil
  then show ?case by auto
next
  case (Cons r rs)
  have scope: "map_of scopes k = None \<longleftrightarrow> k \<notin> fst ` set scopes" for k
    by (rule map_of_eq_None_iff)
  show ?case
    by (cases "validateRule (trim_rule r)";
        cases "map_of scopes (scope_key (trim_rule r))";
        use scope [of "scope_key (trim_rule r)"] in \<open>auto simp: Let_def Cons.IH intro: rev_image_eqI\<close>)
qed

lemma rule_le_total: "total_on_list rule_le A"
  by (auto simp: total_on_list_def rule_le_def split: if_splits)

lemma rule_le_antisym:
  "inj_on ru_ID A \<Longrightarrow> a \<in> A \<Longrightarrow> b \<in> A \<Longrightarrow> rule_le a b \<Longrightarrow> rule_le b a \<Longrightarrow> a = b"
  by (auto simp: rule_le_def inj_on_def split: if_splits)

definition canonical_rules :: "rule list \<Rightarrow> bool" where
  "canonical_rules rs \<longleftrightarrow> length rs \<le> maxRules
     \<and> (\<forall>r\<in>set rs. trim_rule r = r \<and> validateRule r = None)
     \<and> distinct (map ru_ID rs) \<and> distinct (map scope_key rs) \<and> sorted_wrt rule_le rs"

lemma distinct_map_sort_by [simp]: "distinct (map f (sort_by le xs)) = distinct (map f xs)"
  by (metis mset_eq_imp_distinct_iff mset_map mset_sort_by)

lemma NormaliseRules_canonical:
  assumes "NormaliseRules rules = Inr out"
  shows "canonical_rules out \<and> mset out = mset (map trim_rule rules)"
proof -
  obtain l where l: "normalise_loop [] [] [] rules = Inr l" "out = sort_by rule_le l"
    and len: "length rules \<le> maxRules"
    using assms by (auto simp: NormaliseRules_def split: if_splits sum.splits)
  then show ?thesis
    by (auto simp: normalise_loop_Inr canonical_rules_def sorted_sort_by rule_le_total comp_def)
qed

lemma sort_canonical:
  assumes "canonical_rules rs"
  shows "sort_by rule_le rs = rs"
proof (rule sort_by_unique [OF rule_le_total])
  have inj: "inj_on ru_ID (set rs)" using assms by (simp add: canonical_rules_def distinct_map)
  then show "x = y" if "x \<in> set rs" "y \<in> set rs" "rule_le x y" "rule_le y x" for x y
    using rule_le_antisym that by blast
qed (use assms in \<open>auto simp: canonical_rules_def\<close>)

text \<open>
  What the host stores as a rule set. The accepted form holds every rule given, trimmed, and
  nothing else; each passes validation, no two share an identifier or a scope, most specific comes
  first; and validating the stored form again accepts it unchanged, whatever order it is read in.
\<close>
theorem stored_rules_canonical:
  assumes "NormaliseRules rules = Inr out" and "mset again = mset out"
  shows "set out = trim_rule ` set rules \<and> length out = length rules
    \<and> (\<forall>r\<in>set out. validateRule r = None)
    \<and> distinct (map ru_ID out) \<and> distinct (map scope_key out) \<and> sorted_wrt rule_le out
    \<and> NormaliseRules again = Inr out"
proof -
  have c: "canonical_rules out" and m: "mset out = mset (map trim_rule rules)"
    using NormaliseRules_canonical [OF assms(1)] by auto
  have trimmed: "map trim_rule again = again"
    using c assms(2) unfolding canonical_rules_def by (metis map_idI mset_eq_setD)
  have perm: "mset (map f again) = mset (map f out)" for f :: "rule \<Rightarrow> string"
    using assms(2) by simp
  have "normalise_loop [] [] [] again = Inr again"
    using c trimmed assms(2) perm [THEN mset_eq_imp_distinct_iff]
    unfolding normalise_loop_Inr canonical_rules_def
    by (auto simp: list.map_comp [symmetric] simp del: list.map_comp dest: mset_eq_setD)
  moreover have "sort_by rule_le again = sort_by rule_le out"
  proof (rule sort_by_perm [OF rule_le_total assms(2)])
    have "inj_on ru_ID (set again)"
      using c mset_eq_setD [OF assms(2)] by (simp add: canonical_rules_def distinct_map)
    then show "x = y" if "x \<in> set again" "y \<in> set again" "rule_le x y" "rule_le y x" for x y
      using rule_le_antisym that by blast
  qed
  moreover have "sort_by rule_le out = out" and "length out \<le> maxRules"
    using sort_canonical [OF c] c by (simp_all add: canonical_rules_def)
  moreover have "length again = length out" using assms(2) by (rule mset_eq_length)
  ultimately have "NormaliseRules again = Inr out" by (simp add: NormaliseRules_def)
  moreover have "set out = trim_rule ` set rules" and "length out = length rules"
    using mset_eq_setD [OF m] mset_eq_length [OF m] by simp_all
  ultimately show ?thesis using c by (simp add: canonical_rules_def)
qed

lemma sample_rules_trim: "trim_rule r = r" if "r \<in> set sample_rules"
proof -
  have t: "TrimSpace ''low-writes'' = ''low-writes''" "TrimSpace ''cnmaestro'' = ''cnmaestro''"
    "TrimSpace ''*'' = ''*''" "TrimSpace ''medium'' = ''medium''" "TrimSpace ''no-reboot'' = ''no-reboot''"
    "TrimSpace ''device.reboot'' = ''device.reboot''"
    by (rule TrimSpace_visible; simp add: visible_def)+
  show ?thesis using that
    by (auto simp: sample_rules_def trim_rule_def normaliseSelector_def RuleAny_def t risk_of_string_def)
qed

lemma sample_rules_canonical: "canonical_rules sample_rules"
proof -
  have "\<forall>r\<in>set sample_rules. validateRule r = None"
    by (simp add: sample_rules_def validateRule_def bad_selector_def RuleAny_def ruleIDPattern_def
        scopePattern_def alnum_def lower_alnum_def byte_def Let_def printable.simps risk_Valid_cases)
  then show ?thesis
    by (simp add: canonical_rules_def sample_rules_trim)
       (simp add: sample_rules_def maxRules_def scope_key_def RuleAny_def rule_le_def specificity_def)
qed

theorem stored_rules_canonical_witness:
  "NormaliseRules (rev sample_rules) = Inr sample_rules"
proof -
  have c: "canonical_rules sample_rules" by (rule sample_rules_canonical)
  have m: "map (f \<circ> trim_rule) sample_rules = map f sample_rules" for f :: "rule \<Rightarrow> string"
    using sample_rules_trim by simp
  have "normalise_loop [] [] [] sample_rules = Inr sample_rules"
    using c unfolding normalise_loop_Inr canonical_rules_def m by (simp add: map_idI)
  then have "NormaliseRules sample_rules = Inr sample_rules"
    using sort_canonical [OF c] c by (simp add: NormaliseRules_def canonical_rules_def)
  then show ?thesis using stored_rules_canonical [of sample_rules sample_rules "rev sample_rules"] by simp
qed

section \<open>Strict decoding\<close>

lemma decode_fields_known:
  "decode_fields w es = Some r \<Longrightarrow> (k, v) \<in> set es \<Longrightarrow>
     rule_field k \<noteq> None \<and> (v = JNull \<or> (\<exists>s. v = JStr s))"
  by (induction es arbitrary: w) (auto split: option.splits json.splits)

text \<open>
  A typo cannot widen a rule. Every member of a decoded rule is one of the six fields, under a
  name that differs from the field's at most in case, and holds a string; and a selector that is
  written under its own name and decoded is not blank, so that "anything" is said by \<open>*\<close> or by
  leaving the selector out.
\<close>
theorem decoded_rule_is_strict:
  assumes "UnmarshalJSON_rule (JObj es) = Inr r"
  shows "(\<forall>(k, v)\<in>set es. \<exists>f\<in>set rule_fields. foldName k = foldName f)
    \<and> (\<forall>k v. (k, v) \<in> set es \<longrightarrow> v \<noteq> JNull \<or> (\<exists>w. (k, w) \<in> set es \<and> w \<noteq> JNull))
    \<and> (''plugin'' \<in> fst ` set es \<longrightarrow> TrimSpace (ru_Plugin r) \<noteq> '''')
    \<and> (''action'' \<in> fst ` set es \<longrightarrow> TrimSpace (ru_Action r) \<noteq> '''')
    \<and> (''principal'' \<in> fst ` set es \<longrightarrow> TrimSpace (ru_Principal r) \<noteq> '''')"
proof -
  let ?present = "last_wins es"
  have dec: "decode_fields zero_rule es = Some r"
    and nonnull: "find (\<lambda>(k, x). x = JNull) ?present = None"
    and sel: "empty_selector ?present r = None"
    using assms by (auto simp: UnmarshalJSON_rule_def Let_def split: option.splits prod.splits)
  have keys: "map_of ?present k \<noteq> None \<longleftrightarrow> k \<in> fst ` set es" for k
    by (simp add: map_of_last_wins map_of_eq_None_iff)
  have folded: "\<exists>f\<in>set rule_fields. foldName k = foldName f" if kv: "(k, v) \<in> set es" for k v
  proof -
    obtain f where "rule_field k = Some f" using decode_fields_known [OF dec kv] by blast
    then show ?thesis
      unfolding rule_field_def by (auto split: if_splits dest!: find_SomeD intro: bexI [of _ f])
  qed
  have "\<exists>w. (k, w) \<in> set es \<and> w \<noteq> JNull" if "(k, v) \<in> set es" for k v
  proof -
    have "k \<in> fst ` set es" using that by force
    then obtain w where w: "map_of ?present k = Some w" using keys [of k] by blast
    then have "(k, w) \<in> set es" by (metis map_of_SomeD map_of_last_wins set_rev)
    moreover have "w \<noteq> JNull"
      using map_of_SomeD [OF w] nonnull by (auto simp: find_None_iff)
    ultimately show ?thesis by blast
  qed
  moreover have "\<forall>(n, value) \<in> {(''plugin'', ru_Plugin r), (''action'', ru_Action r),
      (''principal'', ru_Principal r)}. n \<in> fst ` set es \<longrightarrow> TrimSpace value \<noteq> ''''"
    using sel unfolding empty_selector_def option.map_disc_iff find_None_all
    by (simp only: keys list.set ball_simps insert_iff prod.case) blast
  ultimately show ?thesis using folded by auto
qed

theorem decoded_rule_is_strict_witness:
  "TrimSpace (ru_Plugin \<lparr>ru_ID = ''x'', ru_Plugin = ''dns'', ru_Action = [], ru_Principal = [],
     ru_MaxRisk = RiskLow, ru_Note = []\<rparr>) \<noteq> ''''"
proof -
  have t: "TrimSpace ''dns'' = ''dns''" by (rule TrimSpace_visible) (simp_all add: visible_def)
  have "UnmarshalJSON_rule (JObj [(''id'', JStr ''x''), (''plugin'', JStr ''dns''), (''max_risk'', JStr ''low'')])
    = Inr \<lparr>ru_ID = ''x'', ru_Plugin = ''dns'', ru_Action = [], ru_Principal = [],
       ru_MaxRisk = RiskLow, ru_Note = []\<rparr>"
    by (simp add: UnmarshalJSON_rule_def last_wins_def rule_field_def rule_fields_def zero_rule_def
        set_field_def empty_selector_def t risk_of_string_def)
  from decoded_rule_is_strict [OF this] show ?thesis by simp
qed

text \<open>
  The exact spelling matters to the blank-selector check and not to the decoder: a selector
  left empty under an upper-case name passes the check, sets the field, and is stored as a rule
  that covers every plugin.
\<close>
theorem upper_case_blank_selector_widens:
  "(case UnmarshalJSON_rule (JObj [(''id'', JStr ''x''), (''Plugin'', JStr ''''), (''max_risk'', JStr ''low'')]) of
      Inr r \<Rightarrow> map_sum id (map ru_Plugin) (NormaliseRules [r])
    | Inl e \<Rightarrow> Inl e) = Inr [RuleAny]
   \<and> UnmarshalJSON_rule (JObj [(''id'', JStr ''x''), (''plugin'', JStr ''''), (''max_risk'', JStr ''low'')])
      = Inl (EmptySelector ''plugin'')"
proof -
  have t: "TrimSpace ''x'' = ''x''" "TrimSpace ''low'' = ''low''"
    by (rule TrimSpace_visible; simp add: visible_def)+
  have f: "rule_field ''Plugin'' = Some ''plugin''" "rule_field ''plugin'' = Some ''plugin''"
    "rule_field ''id'' = Some ''id''" "rule_field ''max_risk'' = Some ''max_risk''"
    by code_simp+
  show ?thesis
    by (simp add: UnmarshalJSON_rule_def last_wins_def f zero_rule_def set_field_def
        empty_selector_def t risk_of_string_def NormaliseRules_def maxRules_def
        trim_rule_def normaliseSelector_def RuleAny_def validateRule_def bad_selector_def ruleIDPattern_def
        lower_alnum_def byte_def Let_def printable.simps risk_Valid_cases)
qed

end
