(* ===== verification/Permissions.thy ===== *)
theory Permissions
  imports Go_Lib
begin

text \<open>
  Host permissions, plugin grants and built-in roles (\<open>internal/auth/permissions.go\<close>,
  \<open>roles.go\<close>). \<open>Area\<close> and \<open>Level\<close> are Go string types: their constants are constructors and
  any other string is \<open>AreaOther\<close> or \<open>LevelOther\<close>; the empty level, which reading an absent
  map entry gives, is \<open>LevelUnset\<close>. \<open>Permission\<close> stays a string, as \<open>Split\<close> takes it apart.
\<close>

section \<open>Areas and levels\<close>

datatype area = AreaApprovals | AreaPolicies | AreaPlugins | AreaTunnels | AreaSettings
  | AreaAccess | AreaHistory | AreaSystem | AreaOther string

definition Areas :: "area list" where
  "Areas = [AreaApprovals, AreaPolicies, AreaPlugins, AreaTunnels,
            AreaSettings, AreaAccess, AreaHistory, AreaSystem]"

fun area_String :: "area \<Rightarrow> string" where
  "area_String AreaApprovals = ''approvals''"
| "area_String AreaPolicies = ''policies''"
| "area_String AreaPlugins = ''plugins''"
| "area_String AreaTunnels = ''tunnels''"
| "area_String AreaSettings = ''settings''"
| "area_String AreaAccess = ''access''"
| "area_String AreaHistory = ''history''"
| "area_String AreaSystem = ''system''"
| "area_String (AreaOther s) = s"

definition area_of_string :: "string \<Rightarrow> area" where
  "area_of_string s = (case find (\<lambda>a. area_String a = s) Areas of
     Some a \<Rightarrow> a | None \<Rightarrow> AreaOther s)"

definition area_Valid :: "area \<Rightarrow> bool" where
  "area_Valid a \<longleftrightarrow> a \<in> set Areas"

datatype level = LevelUnset | LevelNone | LevelRead | LevelWrite | LevelDecide | LevelOther string

fun level_String :: "level \<Rightarrow> string" where
  "level_String LevelUnset = ''''"
| "level_String LevelNone = ''none''"
| "level_String LevelRead = ''read''"
| "level_String LevelWrite = ''write''"
| "level_String LevelDecide = ''decide''"
| "level_String (LevelOther s) = s"

definition level_of_string :: "string \<Rightarrow> level" where
  "level_of_string s =
    (case find (\<lambda>l. level_String l = s) [LevelUnset, LevelNone, LevelRead, LevelWrite, LevelDecide] of
       Some l \<Rightarrow> l | None \<Rightarrow> LevelOther s)"

definition Levels :: "area \<Rightarrow> level list" where
  "Levels a = (if a = AreaApprovals then [LevelRead, LevelDecide] else [LevelRead, LevelWrite])"

fun level_rank :: "level \<Rightarrow> nat" where
  "level_rank LevelRead = 1"
| "level_rank LevelWrite = 2"
| "level_rank LevelDecide = 2"
| "level_rank _ = 0"

definition Includes :: "level \<Rightarrow> level \<Rightarrow> bool" where
  "Includes l other =
    (if other = LevelNone then True
     else level_rank l \<ge> level_rank other \<and> level_rank other > 0)"

definition level_Valid :: "level \<Rightarrow> bool" where
  "level_Valid l \<longleftrightarrow> l = LevelRead \<or> l = LevelWrite \<or> l = LevelDecide"

interpretation level: ranked level_rank LevelNone
  by unfold_locales simp

section \<open>Permissions\<close>

type_synonym permission = string

definition Perm :: "area \<Rightarrow> level \<Rightarrow> permission" where
  "Perm a l = area_String a @ '':'' @ level_String l"

definition PermApprovalsDecide :: permission where "PermApprovalsDecide = ''approvals:decide''"
definition PermPluginsWrite :: permission where "PermPluginsWrite = ''plugins:write''"
definition PermSignedIn :: permission where "PermSignedIn = ''''"

definition Split :: "permission \<Rightarrow> (area \<times> level) option" where
  "Split p =
    (case Cut p CHR '':'' of (ar, lv, ok) \<Rightarrow>
       if \<not> ok then None
       else let a = area_of_string ar; l = level_of_string lv
            in if \<not> area_Valid a \<or> \<not> level_Valid l \<or> l \<notin> set (Levels a) then None
               else Some (a, l))"

definition permission_Valid :: "permission \<Rightarrow> bool" where
  "permission_Valid p = (if p = PermSignedIn then True else Split p \<noteq> None)"

type_synonym permissions = "(area \<times> level) list"

definition level_at :: "permissions \<Rightarrow> area \<Rightarrow> level" where
  "level_at ps a = (case map_of ps a of Some l \<Rightarrow> l | None \<Rightarrow> LevelUnset)"

definition Holds :: "permissions \<Rightarrow> permission \<Rightarrow> bool" where
  "Holds ps p =
    (if p = PermSignedIn then True
     else case Split p of
       None \<Rightarrow> False
     | Some (a, l) \<Rightarrow> Includes (level_at ps a) l)"

definition List_permissions :: "permissions \<Rightarrow> permission list" where
  "List_permissions ps =
    concat (map (\<lambda>a. map (Perm a) (filter (\<lambda>l. Includes (level_at ps a) l) (Levels a))) Areas)"

fun Merge_loop :: "permissions \<Rightarrow> permissions \<Rightarrow> permissions" where
  "Merge_loop out [] = out"
| "Merge_loop out ((a, l) # ps) =
    Merge_loop (if level_rank l > level_rank (level_at out a) then put a l out else out) ps"

definition Merge :: "permissions \<Rightarrow> permissions \<Rightarrow> permissions" where
  "Merge ps other = Merge_loop ps other"

definition entry_ok :: "area \<times> level \<Rightarrow> bool" where
  "entry_ok e = (case e of (a, l) \<Rightarrow> area_Valid a \<and> level_Valid l \<and> l \<in> set (Levels a))"

definition Normalize_permissions :: "permissions \<Rightarrow> permissions" where
  "Normalize_permissions ps = filter entry_ok ps"

datatype auth_error = NotAnArea string | CannotBeHeld area string | GrantNoPlugin
  | GrantLevel string string | NilPrincipal | PrincipalNoID | PrincipalNoGrants string

fun Validate_permissions :: "permissions \<Rightarrow> auth_error option" where
  "Validate_permissions [] = None"
| "Validate_permissions ((a, l) # ps) =
    (if \<not> area_Valid a then Some (NotAnArea (area_String a))
     else if l = LevelNone then Validate_permissions ps
     else if \<not> level_Valid l \<or> l \<notin> set (Levels a) then Some (CannotBeHeld a (level_String l))
     else Validate_permissions ps)"

definition Equal_permissions :: "permissions \<Rightarrow> permissions \<Rightarrow> bool" where
  "Equal_permissions ps other =
    (let a = Normalize_permissions ps; b = Normalize_permissions other
     in if length a \<noteq> length b then False
        else list_all (\<lambda>(ar, lv). level_at b ar = lv) a)"

section \<open>Grants\<close>

definition Wildcard :: string where "Wildcard = ''*''"

record grant =
  g_Plugin :: string
  g_Level :: level

type_synonym grants = "grant list"

definition Reaches :: "grants \<Rightarrow> string \<Rightarrow> level \<Rightarrow> bool" where
  "Reaches gs plugin l =
    (if plugin = '''' \<or> plugin = Wildcard then False
     else list_ex (\<lambda>g. (g_Plugin g = Wildcard \<or> g_Plugin g = plugin) \<and> Includes (g_Level g) l) gs)"

fun LevelFor_loop :: "string \<Rightarrow> level \<Rightarrow> grants \<Rightarrow> level" where
  "LevelFor_loop plugin held [] = held"
| "LevelFor_loop plugin held (g # gs) =
    LevelFor_loop plugin
      (if (g_Plugin g = Wildcard \<or> g_Plugin g = plugin) \<and> level_rank (g_Level g) > level_rank held
       then g_Level g else held) gs"

definition LevelFor :: "grants \<Rightarrow> string \<Rightarrow> level" where
  "LevelFor gs plugin = LevelFor_loop plugin LevelNone gs"

fun Plugins_loop :: "string list \<Rightarrow> grants \<Rightarrow> string list option" where
  "Plugins_loop names [] = Some names"
| "Plugins_loop names (g # gs) =
    (if g_Plugin g = Wildcard then None
     else Plugins_loop (if g_Plugin g \<in> set names then names else names @ [g_Plugin g]) gs)"

definition Plugins :: "grants \<Rightarrow> string list" where
  "Plugins gs = (case Plugins_loop [] gs of
     None \<Rightarrow> [Wildcard] | Some names \<Rightarrow> sort_by (\<le>) names)"

definition best_level :: "(string \<times> level) list \<Rightarrow> string \<Rightarrow> level" where
  "best_level best name = (case map_of best name of Some l \<Rightarrow> l | None \<Rightarrow> LevelUnset)"

fun best_loop :: "(string \<times> level) list \<Rightarrow> grants \<Rightarrow> (string \<times> level) list" where
  "best_loop best [] = best"
| "best_loop best (g # gs) =
    (let name = TrimSpace (g_Plugin g)
     in if name = '''' \<or> (g_Level g \<noteq> LevelRead \<and> g_Level g \<noteq> LevelWrite)
        then best_loop best gs
        else if level_rank (g_Level g) > level_rank (best_level best name)
          then best_loop (put name (g_Level g) best) gs
        else best_loop best gs)"

text \<open>The wildcard first, then by name.\<close>

definition grant_le :: "grant \<Rightarrow> grant \<Rightarrow> bool" where
  "grant_le a b =
    (if (g_Plugin a = Wildcard) \<noteq> (g_Plugin b = Wildcard) then g_Plugin a = Wildcard
     else g_Plugin a \<le> g_Plugin b)"

definition mk_grant :: "string \<times> level \<Rightarrow> grant" where
  "mk_grant e = \<lparr>g_Plugin = fst e, g_Level = snd e\<rparr>"

definition Normalize_grants :: "grants \<Rightarrow> grants" where
  "Normalize_grants gs =
    (let best = best_loop [] gs;
         wild = best_level best Wildcard;
         out = map mk_grant (filter (\<lambda>(name, l). \<not> (name \<noteq> Wildcard \<and> Includes wild l)) best)
     in sort_by grant_le out)"

fun Validate_grants :: "grants \<Rightarrow> auth_error option" where
  "Validate_grants [] = None"
| "Validate_grants (g # gs) =
    (if TrimSpace (g_Plugin g) = '''' then Some GrantNoPlugin
     else if g_Level g \<noteq> LevelRead \<and> g_Level g \<noteq> LevelWrite
       then Some (GrantLevel (g_Plugin g) (level_String (g_Level g)))
     else Validate_grants gs)"

definition UnionGrants :: "grants list \<Rightarrow> grants" where
  "UnionGrants gss = Normalize_grants (concat gss)"

definition Equal_grants :: "grants \<Rightarrow> grants \<Rightarrow> bool" where
  "Equal_grants gs other \<longleftrightarrow> Normalize_grants gs = Normalize_grants other"

definition GrantsAt :: "string list \<Rightarrow> level \<Rightarrow> grants" where
  "GrantsAt plugins l = Normalize_grants (map (\<lambda>p. \<lparr>g_Plugin = p, g_Level = l\<rparr>) plugins)"

section \<open>Roles\<close>

record role =
  r_ID :: string
  r_Name :: string
  r_Description :: string
  r_Builtin :: bool
  r_Permissions :: permissions

definition RoleReader :: string where "RoleReader = ''role_reader''"
definition RoleOperator :: string where "RoleOperator = ''role_operator''"
definition RoleAdministrator :: string where "RoleAdministrator = ''role_administrator''"

definition everythingRead :: permissions where
  "everythingRead = filter (\<lambda>(a, l). a \<noteq> AreaAccess) (map (\<lambda>a. (a, LevelRead)) Areas)"

definition BuiltinRoles :: "role list" where
  "BuiltinRoles =
    (let operator = Merge everythingRead [(AreaApprovals, LevelDecide)];
         everything = map (\<lambda>a. (a, last (Levels a))) Areas
     in [\<lparr>r_ID = RoleReader, r_Name = ''Reader'',
          r_Description = ''Reads everything except who has access, and changes nothing.'',
          r_Builtin = True, r_Permissions = everythingRead\<rparr>,
         \<lparr>r_ID = RoleOperator, r_Name = ''Operator'',
          r_Description = ''Reads everything, decides on proposed changes, and administers nothing.'',
          r_Builtin = True, r_Permissions = operator\<rparr>,
         \<lparr>r_ID = RoleAdministrator, r_Name = ''Administrator'',
          r_Description = ''Everything, including who has access to this host.'',
          r_Builtin = True, r_Permissions = everything\<rparr>])"

definition BuiltinRole :: "string \<Rightarrow> role option" where
  "BuiltinRole rid = find (\<lambda>r. r_ID r = rid) BuiltinRoles"

definition IsBuiltinRole :: "string \<Rightarrow> bool" where
  "IsBuiltinRole rid \<longleftrightarrow> BuiltinRole rid \<noteq> None"

definition LegacyRoleID :: "string \<Rightarrow> string option" where
  "LegacyRoleID name =
    (if name = ''user'' \<or> name = ''operator'' \<or> name = RoleOperator then Some RoleOperator
     else if name = ''admin'' \<or> name = ''administrator'' \<or> name = RoleAdministrator
       then Some RoleAdministrator
     else if name = ''reader'' \<or> name = RoleReader then Some RoleReader
     else None)"

section \<open>Lemmas on permissions\<close>

lemma area_of_string_String: "area_Valid a \<Longrightarrow> area_of_string (area_String a) = a"
  by (cases a) (auto simp: area_of_string_def Areas_def area_Valid_def)

lemma level_of_string_String: "level_Valid l \<Longrightarrow> level_of_string (level_String l) = l"
  by (cases l) (auto simp: level_of_string_def level_Valid_def)

lemma area_String_of_string [simp]: "area_String (area_of_string s) = s"
  by (auto simp: area_of_string_def dest!: find_SomeD split: option.splits)

lemma level_String_of_string [simp]: "level_String (level_of_string s) = s"
  by (auto simp: level_of_string_def dest!: find_SomeD split: option.splits)

lemma area_no_colon: "area_Valid a \<Longrightarrow> \<forall>c\<in>set (area_String a). c \<noteq> CHR '':''"
  by (auto simp: area_Valid_def Areas_def)

lemma Split_Perm: "entry_ok (a, l) \<Longrightarrow> Split (Perm a l) = Some (a, l)"
  using Cut_found [OF area_no_colon [of a], of "level_String l"]
  by (simp add: Split_def Perm_def entry_ok_def area_of_string_String level_of_string_String)

lemma Split_Some: "Split p = Some (a, l) \<Longrightarrow> p = Perm a l \<and> entry_ok (a, l)"
  by (auto simp: Split_def Perm_def entry_ok_def Let_def dest: Cut_sound split: prod.splits if_splits)

lemma Perm_nonempty: "Perm a l \<noteq> PermSignedIn"
  by (simp add: Perm_def PermSignedIn_def)

lemma Holds_Perm: "entry_ok (a, l) \<Longrightarrow> Holds ps (Perm a l) = Includes (level_at ps a) l"
  by (simp add: Holds_def Perm_nonempty Split_Perm)

lemma Includes_rank: "level_rank other > 0 \<Longrightarrow> Includes l other \<longleftrightarrow> level_rank other \<le> level_rank l"
  by (auto simp: Includes_def)

lemma entry_ok_rank: "entry_ok (a, l) \<Longrightarrow> level_rank l > 0"
  by (auto simp: entry_ok_def level_Valid_def)

lemma level_at_put: "level_at (put a l ps) b = (if b = a then l else level_at ps b)"
  by (simp add: level_at_def)

lemma Merge_loop_rank:
  "distinct (map fst ps) \<Longrightarrow>
   level_rank (level_at (Merge_loop out ps) a)
     = max (level_rank (level_at out a)) (level_rank (level_at ps a))"
proof (induction ps arbitrary: out)
  case Nil
  then show ?case by (simp add: level_at_def)
next
  case (Cons e ps)
  obtain b l where e: "e = (b, l)" by fastforce
  have "level_at ps a = LevelUnset" if "a = b"
    using Cons.prems e that by (simp add: level_at_def map_of_eq_None_iff [THEN iffD2])
  then show ?case
    using Cons e by (auto simp: level_at_put level_at_def [of "(b, l) # ps"] max_def)
      (auto simp: level_at_def)
qed

lemma Merge_rank:
  "distinct (map fst other) \<Longrightarrow>
   level_rank (level_at (Merge ps other) a)
     = max (level_rank (level_at ps a)) (level_rank (level_at other a))"
  by (simp add: Merge_def Merge_loop_rank)

lemma Merge_distinct: "distinct (map fst ps) \<Longrightarrow> distinct (map fst (Merge ps other))"
proof -
  have "distinct (map fst out) \<Longrightarrow> distinct (map fst (Merge_loop out ps))" for out ps
    by (induction ps arbitrary: out) auto
  then show "distinct (map fst ps) \<Longrightarrow> distinct (map fst (Merge ps other))" by (simp add: Merge_def)
qed

lemma Holds_Merge:
  assumes "distinct (map fst other)"
  shows "Holds (Merge ps other) p \<longleftrightarrow> Holds ps p \<or> Holds other p"
proof (cases "p = PermSignedIn")
  case True
  then show ?thesis by (simp add: Holds_def)
next
  case False
  show ?thesis
  proof (cases "Split p")
    case None
    with False show ?thesis by (simp add: Holds_def)
  next
    case (Some al)
    obtain a l where al: "al = (a, l)" by fastforce
    have "level_rank l > 0" using Split_Some Some al entry_ok_rank by blast
    with False Some al assms show ?thesis by (simp add: Holds_def Includes_rank Merge_rank le_max_iff_disj)
  qed
qed

text \<open>
  Merging two roles gives exactly the union of what they allow. A permission is held by the
  merged set when and only when one of the two sets holds it: a group's role adds to a member's
  and takes nothing away, and two roles together allow nothing that neither allows.
\<close>
theorem merge_is_union:
  assumes "distinct (map fst other)"
  shows "Holds (Merge ps other) p \<longleftrightarrow> Holds ps p \<or> Holds other p"
  using assms by (rule Holds_Merge)

theorem merge_is_union_witness:
  "Holds (Merge [(AreaPlugins, LevelRead)] [(AreaPlugins, LevelWrite)]) PermPluginsWrite
   \<longleftrightarrow> Holds [(AreaPlugins, LevelRead)] PermPluginsWrite
     \<or> Holds [(AreaPlugins, LevelWrite)] PermPluginsWrite"
  by (rule merge_is_union) simp

lemma List_permissions_mem:
  "p \<in> set (List_permissions ps) \<longleftrightarrow> (\<exists>a l. p = Perm a l \<and> entry_ok (a, l) \<and> Includes (level_at ps a) l)"
proof -
  have ok: "entry_ok (a, l) \<longleftrightarrow> a \<in> set Areas \<and> l \<in> set (Levels a)" for a l
    by (auto simp: entry_ok_def area_Valid_def level_Valid_def Levels_def split: if_splits)
  show ?thesis by (auto simp: List_permissions_def ok)
qed

lemma List_permissions_Holds:
  "p \<in> set (List_permissions ps) \<longleftrightarrow> p \<noteq> PermSignedIn \<and> Holds ps p"
proof
  assume "p \<in> set (List_permissions ps)"
  then show "p \<noteq> PermSignedIn \<and> Holds ps p"
    by (auto simp: List_permissions_mem Holds_Perm Perm_nonempty)
next
  assume h: "p \<noteq> PermSignedIn \<and> Holds ps p"
  then obtain a l where "Split p = Some (a, l)" and "Includes (level_at ps a) l"
    by (auto simp: Holds_def split: option.splits)
  then show "p \<in> set (List_permissions ps)"
    using Split_Some [of p a l] unfolding List_permissions_mem by blast
qed

text \<open>
  The list the dashboard draws its controls from agrees with the check: it names exactly the
  well-formed permissions that \<open>Holds\<close> grants, and the empty permission of a signed-in account,
  which names no area, is granted and never listed.
\<close>
theorem listed_iff_held:
  "p \<in> set (List_permissions ps) \<longleftrightarrow> p \<noteq> PermSignedIn \<and> Holds ps p"
  by (rule List_permissions_Holds)

section \<open>Lemmas on grants\<close>

definition storable :: "grant \<Rightarrow> bool" where
  "storable g \<longleftrightarrow> TrimSpace (g_Plugin g) \<noteq> '''' \<and> (g_Level g = LevelRead \<or> g_Level g = LevelWrite)"

definition trim_grant :: "grant \<Rightarrow> grant" where
  "trim_grant g = g\<lparr>g_Plugin := TrimSpace (g_Plugin g)\<rparr>"

lemma Validate_grants_None: "Validate_grants gs = None \<longleftrightarrow> (\<forall>g\<in>set gs. storable g)"
  by (induction gs) (auto simp: storable_def)

lemma storable_rank: "storable g \<Longrightarrow> level_rank (g_Level g) > 0"
  by (auto simp: storable_def)

lemma best_level_put: "best_level (put n l best) m = (if m = n then l else best_level best m)"
  by (simp add: best_level_def)

text \<open>What the entry for a name reaches, in terms of the grants folded in.\<close>

lemma best_loop_Cons:
  "best_loop best (g # gs) =
    best_loop (if storable g \<and> level_rank (g_Level g)
                   > level_rank (best_level best (TrimSpace (g_Plugin g)))
               then put (TrimSpace (g_Plugin g)) (g_Level g) best else best) gs"
  by (auto simp: storable_def Let_def)

lemma best_loop_rank:
  "k > 0 \<Longrightarrow> k \<le> level_rank (best_level (best_loop best gs) n) \<longleftrightarrow>
     k \<le> level_rank (best_level best n)
     \<or> (\<exists>g\<in>set gs. storable g \<and> TrimSpace (g_Plugin g) = n \<and> k \<le> level_rank (g_Level g))"
proof (induction gs arbitrary: best)
  case Nil
  then show ?case by simp
next
  case (Cons g gs)
  then show ?case
    by (auto simp: best_loop_Cons best_level_put simp del: best_loop.simps)
qed

definition entries_ok :: "(string \<times> level) list \<Rightarrow> bool" where
  "entries_ok best \<longleftrightarrow> distinct (map fst best)
     \<and> (\<forall>e\<in>set best. fst e \<noteq> '''' \<and> snd e \<in> {LevelRead, LevelWrite})"

lemma entries_ok_put:
  "entries_ok best \<Longrightarrow> n \<noteq> '''' \<Longrightarrow> l \<in> {LevelRead, LevelWrite} \<Longrightarrow> entries_ok (put n l best)"
  using set_put_subset [of n l best] by (auto simp: entries_ok_def dest!: subsetD)

lemma entries_ok_best_loop: "entries_ok best \<Longrightarrow> entries_ok (best_loop best gs)"
proof (induction gs arbitrary: best)
  case Nil
  then show ?case by simp
next
  case (Cons g gs)
  then show ?case
    by (auto simp: best_loop_Cons storable_def simp del: best_loop.simps intro: entries_ok_put)
qed

lemma best_level_entry: "entries_ok best \<Longrightarrow> (n, l) \<in> set best \<Longrightarrow> best_level best n = l"
  by (simp add: best_level_def entries_ok_def)

lemma best_level_pos:
  assumes "entries_ok best"
  shows "level_rank (best_level best n) > 0 \<longleftrightarrow> (n, best_level best n) \<in> set best"
  using assms
  by (auto simp: best_level_def entries_ok_def dest!: map_of_SomeD split: option.splits)

lemma level_rank_eq:
  "l \<in> {LevelRead, LevelWrite} \<Longrightarrow> m \<in> {LevelRead, LevelWrite} \<Longrightarrow> level_rank l = level_rank m \<Longrightarrow> l = m"
  by auto


text \<open>
  The kept entries of a normal form: the wildcard, and each name held above the wildcard's level.
\<close>

definition best_of :: "grants \<Rightarrow> (string \<times> level) list" where
  "best_of gs = best_loop [] gs"

definition kept :: "grants \<Rightarrow> (string \<times> level) set" where
  "kept gs = {(n, l) \<in> set (best_of gs). n = Wildcard \<or> \<not> Includes (best_level (best_of gs) Wildcard) l}"

lemma best_of_ok [simp]: "entries_ok (best_of gs)"
  unfolding best_of_def by (rule entries_ok_best_loop) (simp add: entries_ok_def)

lemma best_of_rank:
  "k > 0 \<Longrightarrow> k \<le> level_rank (best_level (best_of gs) n) \<longleftrightarrow>
     (\<exists>g\<in>set gs. storable g \<and> TrimSpace (g_Plugin g) = n \<and> k \<le> level_rank (g_Level g))"
  by (simp add: best_of_def best_loop_rank) (simp add: best_level_def)

lemma set_Normalize: "set (Normalize_grants gs) = mk_grant ` kept gs"
  by (auto simp: Normalize_grants_def kept_def best_of_def Let_def)

lemma kept_levels: "(n, l) \<in> kept gs \<Longrightarrow> l \<in> {LevelRead, LevelWrite} \<and> n \<noteq> ''''"
  using best_of_ok [of gs] by (auto simp: kept_def entries_ok_def)

text \<open>Reach at a level of positive rank, as a comparison of ranks.\<close>

definition reach_rank :: "grants \<Rightarrow> string \<Rightarrow> nat" where
  "reach_rank gs p = max (level_rank (best_level (best_of gs) Wildcard))
                         (level_rank (best_level (best_of gs) p))"

lemma kept_reach:
  assumes "k > 0"
  shows "(\<exists>e\<in>kept gs. (fst e = Wildcard \<or> fst e = p) \<and> k \<le> level_rank (snd e)) \<longleftrightarrow> k \<le> reach_rank gs p"
    (is "?L = ?R")
proof
  assume ?L
  then obtain n l where m: "(n, l) \<in> set (best_of gs)" "n = Wildcard \<or> n = p" "k \<le> level_rank l"
    by (auto simp: kept_def)
  then have "best_level (best_of gs) n = l" by (simp add: best_level_entry)
  with m show ?R by (auto simp: reach_rank_def le_max_iff_disj)
next
  assume r: ?R
  let ?w = "best_level (best_of gs) Wildcard" and ?b = "best_level (best_of gs) p"
  show ?L
  proof (cases "k \<le> level_rank ?w")
    case True
    with assms have "(Wildcard, ?w) \<in> kept gs"
      using best_level_pos [OF best_of_ok, of gs Wildcard] by (simp add: kept_def)
    then show ?thesis by (rule bexI [rotated]) (use True in simp)
  next
    case False
    with r have k: "k \<le> level_rank ?b" by (simp add: reach_rank_def le_max_iff_disj)
    with assms False have "(p, ?b) \<in> kept gs"
      using best_level_pos [OF best_of_ok, of gs p] by (auto simp: kept_def Includes_def split: if_splits)
    then show ?thesis by (rule bexI [rotated]) (use k in simp)
  qed
qed

lemma Includes_as_rank:
  "l \<in> {LevelRead, LevelWrite} \<Longrightarrow>
    Includes l m \<longleftrightarrow> (if m = LevelNone then True else level_rank m > 0 \<and> level_rank m \<le> level_rank l)"
  by (auto simp: Includes_def)

lemma Reaches_Normalize:
  assumes "p \<noteq> ''''" and "p \<noteq> Wildcard"
  shows "Reaches (Normalize_grants gs) p m \<longleftrightarrow>
    (if m = LevelNone then 1 \<le> reach_rank gs p
     else level_rank m > 0 \<and> level_rank m \<le> reach_rank gs p)"
proof -
  have ex: "Reaches (Normalize_grants gs) p m \<longleftrightarrow>
      (\<exists>e\<in>kept gs. (fst e = Wildcard \<or> fst e = p) \<and> Includes (snd e) m)"
    using assms by (simp add: Reaches_def list_ex_iff set_Normalize mk_grant_def)
  have pos: "e \<in> kept gs \<Longrightarrow> 1 \<le> level_rank (snd e)" for e
    using kept_levels [of "fst e" "snd e" gs] by auto
  have one: "(\<exists>e\<in>kept gs. fst e = Wildcard \<or> fst e = p) \<longleftrightarrow>
      (\<exists>e\<in>kept gs. (fst e = Wildcard \<or> fst e = p) \<and> 1 \<le> level_rank (snd e))"
    by (rule bex_cong [OF refl]) (use pos in simp)
  show ?thesis
  proof (cases "m = LevelNone")
    case True
    then show ?thesis using ex one kept_reach [of 1 gs p] by (auto simp: Includes_def)
  next
    case False
    then have "(\<exists>e\<in>kept gs. (fst e = Wildcard \<or> fst e = p) \<and> Includes (snd e) m) \<longleftrightarrow>
        level_rank m > 0 \<and> (\<exists>e\<in>kept gs. (fst e = Wildcard \<or> fst e = p) \<and> level_rank m \<le> level_rank (snd e))"
      by (auto simp: Includes_def)
    with ex False show ?thesis using kept_reach [of "level_rank m" gs p] by auto
  qed
qed

lemma Reaches_trimmed:
  assumes "\<forall>g\<in>set gs. storable g" and "p \<noteq> ''''" and "p \<noteq> Wildcard"
  shows "Reaches (map trim_grant gs) p m \<longleftrightarrow>
    (if m = LevelNone then 1 \<le> reach_rank gs p
     else level_rank m > 0 \<and> level_rank m \<le> reach_rank gs p)"
proof -
  have rr: "k \<le> reach_rank gs p \<longleftrightarrow>
      (\<exists>g\<in>set gs. (TrimSpace (g_Plugin g) = Wildcard \<or> TrimSpace (g_Plugin g) = p)
         \<and> k \<le> level_rank (g_Level g))" if "k > 0" for k
    using that assms(1) by (auto simp: reach_rank_def le_max_iff_disj best_of_rank)
  have ex: "Reaches (map trim_grant gs) p m \<longleftrightarrow>
      (\<exists>g\<in>set gs. (TrimSpace (g_Plugin g) = Wildcard \<or> TrimSpace (g_Plugin g) = p)
         \<and> Includes (g_Level g) m)"
    using assms(2,3) by (auto simp: Reaches_def list_ex_iff trim_grant_def)
  have one: "g \<in> set gs \<Longrightarrow> 1 \<le> level_rank (g_Level g)" for g
    using assms(1) storable_rank by fastforce
  show ?thesis
    using ex rr [of 1] rr [of "level_rank m"] one by (auto simp: Includes_def)
qed

lemma Normalize_reach:
  assumes "Validate_grants gs = None"
  shows "Reaches (Normalize_grants gs) p m = Reaches (map trim_grant gs) p m"
proof (cases "p = '''' \<or> p = Wildcard")
  case True
  then show ?thesis by (auto simp: Reaches_def)
next
  case False
  with assms show ?thesis
    by (simp add: Reaches_Normalize Reaches_trimmed Validate_grants_None)
qed

text \<open>
  Storing a grant list changes nothing about what it reaches. For every list the validator
  accepts, the normal form that is stored (blanks trimmed, one entry per plugin, entries under
  the wildcard dropped, sorted) reaches a plugin at a level exactly when the list as given does.
\<close>
theorem normalize_preserves_reach:
  assumes "Validate_grants gs = None"
  shows "Reaches (Normalize_grants gs) p m = Reaches (map trim_grant gs) p m"
  using assms by (rule Normalize_reach)

theorem normalize_preserves_reach_witness:
  "Reaches (Normalize_grants [\<lparr>g_Plugin = ''*'', g_Level = LevelRead\<rparr>, \<lparr>g_Plugin = ''graylog'', g_Level = LevelWrite\<rparr>])
     ''graylog'' LevelWrite
   = Reaches (map trim_grant [\<lparr>g_Plugin = ''*'', g_Level = LevelRead\<rparr>, \<lparr>g_Plugin = ''graylog'', g_Level = LevelWrite\<rparr>])
     ''graylog'' LevelWrite"
proof (rule normalize_preserves_reach)
  have "TrimSpace ''*'' = ''*''" and "TrimSpace ''graylog'' = ''graylog''"
    by (rule TrimSpace_visible; simp add: visible_def)+
  then show "Validate_grants [\<lparr>g_Plugin = ''*'', g_Level = LevelRead\<rparr>,
      \<lparr>g_Plugin = ''graylog'', g_Level = LevelWrite\<rparr>] = None"
    by simp
qed

section \<open>The normal form is canonical\<close>

lemma grant_le_total: "total_on_list grant_le A"
  unfolding total_on_list_def grant_le_def by (auto split: if_splits)

lemma Normalize_sorted: "sorted_wrt grant_le (Normalize_grants gs)"
  unfolding Normalize_grants_def Let_def by (rule sorted_sort_by [OF grant_le_total])

lemma Normalize_distinct: "distinct (map g_Plugin (Normalize_grants gs))"
proof -
  have d: "distinct (map g_Plugin (map mk_grant (filter P (best_of gs))))" for P
  proof -
    have "map g_Plugin (map mk_grant es) = map fst es" for es
      by (induction es) (auto simp: mk_grant_def)
    then show ?thesis
      using best_of_ok [of gs] unfolding entries_ok_def by (metis distinct_map_filter)
  qed
  have "mset (map g_Plugin (sort_by grant_le xs)) = mset (map g_Plugin xs)" for xs
    by (metis mset_map mset_sort_by)
  then have "distinct (map g_Plugin (sort_by grant_le xs)) = distinct (map g_Plugin xs)" for xs
    by (rule mset_eq_imp_distinct_iff)
  then show ?thesis using d by (simp add: Normalize_grants_def Let_def best_of_def)
qed

lemma Normalize_eq:
  assumes "kept gs = kept hs"
  shows "Normalize_grants gs = Normalize_grants hs"
proof (rule sorted_wrt_mset_unique [where le = grant_le])
  have "set (Normalize_grants gs) = set (Normalize_grants hs)" using assms by (simp add: set_Normalize)
  then show "mset (Normalize_grants gs) = mset (Normalize_grants hs)"
    using Normalize_distinct by (metis distinct_map set_eq_iff_mset_eq_distinct)
next
  fix x y
  assume "x \<in> set (Normalize_grants gs)" and "y \<in> set (Normalize_grants gs)"
    and "grant_le x y" and "grant_le y x"
  then show "x = y"
    using Normalize_distinct [of gs] by (auto simp: grant_le_def distinct_map inj_on_def split: if_splits)
qed (rule Normalize_sorted)+

lemma fresh_plugin: "\<exists>f. f \<noteq> '''' \<and> f \<noteq> Wildcard \<and> f \<notin> set ns \<and> f \<notin> set ms"
proof -
  have "infinite (UNIV :: string set)" by (rule infinite_UNIV_listI)
  then have "\<exists>f::string. f \<notin> {'''', Wildcard} \<union> set ns \<union> set ms"
    by (rule ex_new_if_finite) simp
  then show ?thesis by auto
qed

lemma kept_iff:
  "(n, l) \<in> kept gs \<longleftrightarrow> l = best_level (best_of gs) n \<and> level_rank l > 0
     \<and> (n = Wildcard \<or> level_rank (best_level (best_of gs) Wildcard) < level_rank l)"
proof -
  have "(n, l) \<in> set (best_of gs) \<longleftrightarrow> l = best_level (best_of gs) n \<and> level_rank l > 0"
    using best_level_pos [OF best_of_ok, of gs n] best_level_entry [OF best_of_ok, of n l gs]
    by (metis best_of_ok empty_iff entries_ok_def insert_iff level_rank.simps(1,2) snd_conv
        zero_less_one zero_less_numeral)
  then show ?thesis by (auto simp: kept_def Includes_def)
qed

lemma best_level_of_rank:
  "level_rank (best_level (best_of gs) n) = level_rank (best_level (best_of hs) n) \<Longrightarrow>
   level_rank (best_level (best_of gs) n) > 0 \<Longrightarrow>
   best_level (best_of gs) n = best_level (best_of hs) n"
proof (rule level_rank_eq)
  assume "level_rank (best_level (best_of gs) n) = level_rank (best_level (best_of hs) n)"
    and "level_rank (best_level (best_of gs) n) > 0"
  then have "(n, best_level (best_of gs) n) \<in> set (best_of gs)"
    and "(n, best_level (best_of hs) n) \<in> set (best_of hs)"
    using best_level_pos [OF best_of_ok, of gs n] best_level_pos [OF best_of_ok, of hs n] by simp_all
  then show "best_level (best_of gs) n \<in> {LevelRead, LevelWrite}"
    and "best_level (best_of hs) n \<in> {LevelRead, LevelWrite}"
    using best_of_ok unfolding entries_ok_def by fastforce+
qed

lemma kept_of_reach:
  assumes "\<And>p. p \<noteq> '''' \<Longrightarrow> p \<noteq> Wildcard \<Longrightarrow> reach_rank gs p = reach_rank hs p"
  shows "kept gs \<subseteq> kept hs"
proof -
  let ?g = "\<lambda>n. level_rank (best_level (best_of gs) n)"
  let ?h = "\<lambda>n. level_rank (best_level (best_of hs) n)"
  obtain f where f: "f \<noteq> ''''" "f \<noteq> Wildcard" "f \<notin> set (map fst (best_of gs))"
      "f \<notin> set (map fst (best_of hs))"
    using fresh_plugin by blast
  have zero: "n \<notin> set (map fst b) \<Longrightarrow> level_rank (best_level b n) = 0" for n b
    by (simp add: best_level_def map_of_eq_None_iff [THEN iffD2])
  have wild: "?g Wildcard = ?h Wildcard"
    using assms [OF f(1,2)] zero [OF f(3)] zero [OF f(4)] by (simp add: reach_rank_def)
  show ?thesis
  proof
    fix e assume "e \<in> kept gs"
    then obtain n l where e: "e = (n, l)" "(n, l) \<in> kept gs" by (cases e) auto
    then have n: "n \<noteq> ''''" using kept_levels by blast
    from e have l: "l = best_level (best_of gs) n" "?g n > 0" "n = Wildcard \<or> ?g Wildcard < ?g n"
      by (auto simp: kept_iff)
    have same: "?g n = ?h n"
    proof (cases "n = Wildcard")
      case True
      with wild show ?thesis by simp
    next
      case False
      then have gt: "?g Wildcard < ?g n" using l(3) by simp
      have "max (?g Wildcard) (?g n) = max (?g Wildcard) (?h n)"
        using assms [OF n False] unfolding reach_rank_def wild .
      with gt show ?thesis by linarith
    qed
    have lev: "best_level (best_of gs) n = best_level (best_of hs) n"
      by (rule best_level_of_rank [OF same l(2)])
    have "(n, l) \<in> kept hs"
      unfolding kept_iff using l same wild lev by simp
    then show "e \<in> kept hs" using e(1) by simp
  qed
qed

text \<open>
  The normal form is a canonical form of reach: two grant lists compare equal exactly when
  they reach the same plugins at the same levels, however they are written. \<open>Equal\<close> is what decides
  whether a tunnel is restarted, so it neither misses a change of access nor reacts to none.
\<close>
theorem equal_iff_same_reach:
  assumes "Validate_grants gs = None" and "Validate_grants hs = None"
  shows "Equal_grants gs hs \<longleftrightarrow>
    (\<forall>p m. Reaches (map trim_grant gs) p m = Reaches (map trim_grant hs) p m)"
proof
  assume "Equal_grants gs hs"
  then show "\<forall>p m. Reaches (map trim_grant gs) p m = Reaches (map trim_grant hs) p m"
    using assms Normalize_reach unfolding Equal_grants_def by metis
next
  assume r: "\<forall>p m. Reaches (map trim_grant gs) p m = Reaches (map trim_grant hs) p m"
  have "reach_rank gs p = reach_rank hs p" if p: "p \<noteq> ''''" "p \<noteq> Wildcard" for p
  proof -
    have b: "reach_rank g p \<le> 2" for g
      by (cases "best_level (best_of g) Wildcard"; cases "best_level (best_of g) p")
         (auto simp: reach_rank_def)
    have "1 \<le> reach_rank gs p \<longleftrightarrow> 1 \<le> reach_rank hs p"
      using r [rule_format, of p LevelRead] p assms by (simp add: Reaches_trimmed Validate_grants_None)
    moreover have "2 \<le> reach_rank gs p \<longleftrightarrow> 2 \<le> reach_rank hs p"
      using r [rule_format, of p LevelWrite] p assms by (simp add: Reaches_trimmed Validate_grants_None)
    ultimately show ?thesis using b [of gs] b [of hs] by linarith
  qed
  note same = this
  have "kept gs \<subseteq> kept hs" by (rule kept_of_reach) (rule same)
  moreover have "kept hs \<subseteq> kept gs" by (rule kept_of_reach) (rule same [symmetric])
  ultimately have "kept gs = kept hs" by (rule subset_antisym)
  then show "Equal_grants gs hs" unfolding Equal_grants_def by (rule Normalize_eq)
qed

theorem equal_iff_same_reach_witness:
  "Equal_grants [\<lparr>g_Plugin = ''a'', g_Level = LevelRead\<rparr>] [\<lparr>g_Plugin = ''a'', g_Level = LevelRead\<rparr>]
   \<longleftrightarrow> (\<forall>p m. Reaches (map trim_grant [\<lparr>g_Plugin = ''a'', g_Level = LevelRead\<rparr>]) p m
        = Reaches (map trim_grant [\<lparr>g_Plugin = ''a'', g_Level = LevelRead\<rparr>]) p m)"
proof (rule equal_iff_same_reach)
  have "TrimSpace ''a'' = ''a''"
    by (rule TrimSpace_visible; simp add: visible_def)
  then show "Validate_grants [\<lparr>g_Plugin = ''a'', g_Level = LevelRead\<rparr>] = None"
    and "Validate_grants [\<lparr>g_Plugin = ''a'', g_Level = LevelRead\<rparr>] = None" by simp_all
qed

section \<open>Built-in roles\<close>

lemma BuiltinRole_permissions:
  "map_option r_Permissions (BuiltinRole RoleReader) = Some everythingRead"
  "map_option r_Permissions (BuiltinRole RoleOperator)
     = Some (Merge everythingRead [(AreaApprovals, LevelDecide)])"
  "map_option r_Permissions (BuiltinRole RoleAdministrator)
     = Some (map (\<lambda>a. (a, last (Levels a))) Areas)"
  by (simp_all add: BuiltinRole_def BuiltinRoles_def RoleReader_def RoleOperator_def
      RoleAdministrator_def Let_def)

lemma level_at_full:
  "a \<in> set as \<Longrightarrow> level_at (map (\<lambda>a. (a, f a)) as) a = f a"
  unfolding level_at_def by (induction as) auto

lemma Holds_everything:
  "Holds (map (\<lambda>a. (a, last (Levels a))) Areas) p \<longleftrightarrow> permission_Valid p"
proof -
  have top: "entry_ok (a, l) \<Longrightarrow> Includes (last (Levels a)) l" for a l
    by (auto simp: entry_ok_def Levels_def Includes_def split: if_splits)
  show ?thesis
    using level_at_full [of _ Areas "\<lambda>a. last (Levels a)"] Split_Some top
    by (auto simp: Holds_def permission_Valid_def entry_ok_def area_Valid_def split: option.splits)
qed

lemma Holds_listed: "Holds ps p \<longleftrightarrow> p = PermSignedIn \<or> p \<in> set (List_permissions ps)"
  using List_permissions_Holds by (auto simp: Holds_def)

text \<open>
  What the built-in roles mean. The administrator holds exactly the well-formed permissions.
  The reader holds the read permission of every area but access, and the operator holds those and
  the deciding of approvals: neither may change anything or see who has access.
\<close>
theorem builtin_roles_meaning:
  "(\<exists>r. BuiltinRole RoleAdministrator = Some r
      \<and> (\<forall>p. Holds (r_Permissions r) p \<longleftrightarrow> permission_Valid p))
   \<and> (\<exists>r. BuiltinRole RoleOperator = Some r
      \<and> (\<forall>p. Holds (r_Permissions r) p \<longleftrightarrow> p \<in> {PermSignedIn, ''approvals:read'',
            PermApprovalsDecide, ''policies:read'', ''plugins:read'', ''tunnels:read'',
            ''settings:read'', ''history:read'', ''system:read''}))
   \<and> (\<exists>r. BuiltinRole RoleReader = Some r
      \<and> (\<forall>p. Holds (r_Permissions r) p \<longleftrightarrow> p \<in> {PermSignedIn, ''approvals:read'',
            ''policies:read'', ''plugins:read'', ''tunnels:read'', ''settings:read'',
            ''history:read'', ''system:read''}))"
proof -
  have op: "List_permissions (Merge everythingRead [(AreaApprovals, LevelDecide)]) =
      [''approvals:read'', ''approvals:decide'', ''policies:read'', ''plugins:read'',
       ''tunnels:read'', ''settings:read'', ''history:read'', ''system:read'']"
    by code_simp
  have rd: "List_permissions everythingRead =
      [''approvals:read'', ''policies:read'', ''plugins:read'', ''tunnels:read'',
       ''settings:read'', ''history:read'', ''system:read'']"
    by code_simp
  obtain a q r where b: "BuiltinRole RoleAdministrator = Some a" "BuiltinRole RoleOperator = Some q"
      "BuiltinRole RoleReader = Some r"
      and p: "r_Permissions a = map (\<lambda>a. (a, last (Levels a))) Areas"
        "r_Permissions q = Merge everythingRead [(AreaApprovals, LevelDecide)]"
        "r_Permissions r = everythingRead"
    using BuiltinRole_permissions by (auto simp only: map_option_eq_Some)
  have "Holds (r_Permissions a) x \<longleftrightarrow> permission_Valid x" for x
    unfolding p by (rule Holds_everything)
  moreover have "Holds (r_Permissions q) x \<longleftrightarrow> x \<in> {PermSignedIn, ''approvals:read'',
      PermApprovalsDecide, ''policies:read'', ''plugins:read'', ''tunnels:read'',
      ''settings:read'', ''history:read'', ''system:read''}" for x
    unfolding p Holds_listed op PermApprovalsDecide_def by (simp only: insert_iff list.set empty_iff) 
  moreover have "Holds (r_Permissions r) x \<longleftrightarrow> x \<in> {PermSignedIn, ''approvals:read'',
      ''policies:read'', ''plugins:read'', ''tunnels:read'', ''settings:read'',
      ''history:read'', ''system:read''}" for x
    unfolding p Holds_listed rd by (simp only: insert_iff list.set empty_iff)
  ultimately show ?thesis using b by blast
qed

end
