(* ===== verification/Principal.thy ===== *)
theory Principal
  imports Permissions
begin

text \<open>
  The verified caller and the access decisions made on it (\<open>internal/auth/principal.go\<close>,
  \<open>authorization.go\<close>). A \<open>*Principal\<close> is an option, \<open>None\<close> for nil. The text of a refusal is
  a constructor carrying what the message quotes.
\<close>

datatype capability = CapUnset | CapRead | CapPropose | CapApprove | CapAdmin | CapOther string

fun capability_String :: "capability \<Rightarrow> string" where
  "capability_String CapUnset = ''''"
| "capability_String CapRead = ''read''"
| "capability_String CapPropose = ''propose''"
| "capability_String CapApprove = ''approve''"
| "capability_String CapAdmin = ''admin''"
| "capability_String (CapOther s) = s"

fun capability_Valid :: "capability \<Rightarrow> bool" where
  "capability_Valid CapRead = True"
| "capability_Valid CapPropose = True"
| "capability_Valid CapApprove = True"
| "capability_Valid CapAdmin = True"
| "capability_Valid _ = False"

record principal =
  p_ID :: string
  p_DisplayName :: string
  p_RoleID :: string
  p_RoleName :: string
  p_Permissions :: permissions
  p_Grants :: grants
  p_TokenID :: string
  p_Pending :: bool

definition Can :: "principal option \<Rightarrow> permission \<Rightarrow> bool" where [auth_simps]:
  "Can po perm = (case po of
     None \<Rightarrow> False
   | Some p \<Rightarrow> if p_Pending p then False else Holds (p_Permissions p) perm)"

definition Principal_Reaches :: "principal option \<Rightarrow> string \<Rightarrow> level \<Rightarrow> bool" where [auth_simps]:
  "Principal_Reaches po plugin l = (case po of
     None \<Rightarrow> False
   | Some p \<Rightarrow> if p_Pending p then False else Reaches (p_Grants p) plugin l)"

definition CanAccessPlugin :: "principal option \<Rightarrow> string \<Rightarrow> bool" where [auth_simps]:
  "CanAccessPlugin po name = Principal_Reaches po name LevelRead"

definition PermissionList :: "principal option \<Rightarrow> permission list" where [auth_simps]:
  "PermissionList po = (case po of
     None \<Rightarrow> []
   | Some p \<Rightarrow> if p_Pending p then [] else List_permissions (p_Permissions p))"

datatype principal_error = NoPrincipal | NoID | BadPermissions string auth_error
  | NoGrants string | BadGrants string auth_error

definition Validate_principal :: "principal option \<Rightarrow> principal_error option" where
  "Validate_principal po = (case po of
     None \<Rightarrow> Some NoPrincipal
   | Some p \<Rightarrow>
       if TrimSpace (p_ID p) = '''' then Some NoID
       else case Validate_permissions (p_Permissions p) of
         Some e \<Rightarrow> Some (BadPermissions (p_ID p) e)
       | None \<Rightarrow>
           if length (p_Grants p) = 0 then Some (NoGrants (p_ID p))
           else case Validate_grants (p_Grants p) of
             Some e \<Rightarrow> Some (BadGrants (p_ID p) e)
           | None \<Rightarrow> None)"

definition principal_String :: "principal option \<Rightarrow> string" where
  "principal_String po = (case po of
     None \<Rightarrow> ''anonymous''
   | Some p \<Rightarrow>
       let rl = (if p_RoleName p = '''' then p_RoleID p else p_RoleName p)
       in p_ID p @ ''('' @ rl @ '')'')"

definition Anonymous :: "principal option" where
  "Anonymous = Some \<lparr>p_ID = ''anonymous'', p_DisplayName = [], p_RoleID = [], p_RoleName = [],
     p_Permissions = [], p_Grants = [], p_TokenID = [], p_Pending = False\<rparr>"

definition Equal_principal :: "principal \<Rightarrow> principal \<Rightarrow> bool" where
  "Equal_principal p other =
    (if p_ID p \<noteq> p_ID other \<or> p_RoleID p \<noteq> p_RoleID other
        \<or> p_TokenID p \<noteq> p_TokenID other \<or> p_Pending p \<noteq> p_Pending other then False
     else Equal_permissions (p_Permissions p) (p_Permissions other)
       \<and> Equal_grants (p_Grants p) (p_Grants other))"

section \<open>Decisions\<close>

datatype deny_reason = NotGranted string string | HeldAtRead string string | MayNotDecide string
  | MayNotAdminister string | UnknownCapability string | NoReason

record decision =
  Allowed :: bool
  d_Code :: string
  d_Reason :: deny_reason

definition CodeAuthNotAuthorized :: string where "CodeAuthNotAuthorized = ''NOT_AUTHORIZED''"

definition Allow :: decision where
  "Allow = \<lparr>Allowed = True, d_Code = [], d_Reason = NoReason\<rparr>"

definition Deny :: "string \<Rightarrow> deny_reason \<Rightarrow> decision" where
  "Deny code reason = \<lparr>Allowed = False, d_Code = code, d_Reason = reason\<rparr>"

text \<open>\<open>Decision.Error\<close>: nil, or \<open>ErrForbidden\<close> carrying the code and not the reason.\<close>

definition Decision_Error :: "decision \<Rightarrow> string option" where
  "Decision_Error d = (if Allowed d then None else Some (d_Code d))"

definition AuthorizeEndpoint :: "principal option \<Rightarrow> string \<Rightarrow> decision" where [auth_simps]:
  "AuthorizeEndpoint po plugin =
    (if \<not> Principal_Reaches po plugin LevelRead
     then Deny CodeAuthNotAuthorized (NotGranted (principal_String po) plugin)
     else Allow)"

definition AuthorizeTool :: "principal option \<Rightarrow> string \<Rightarrow> capability \<Rightarrow> decision" where [auth_simps]:
  "AuthorizeTool po plugin required =
    (let d = AuthorizeEndpoint po plugin
     in if \<not> Allowed d then d
        else if required = CapRead \<or> required = CapUnset then Allow
        else if required = CapPropose then
          (if \<not> Principal_Reaches po plugin LevelWrite
           then Deny CodeAuthNotAuthorized (HeldAtRead (principal_String po) plugin) else Allow)
        else if required = CapApprove then
          (if \<not> Can po PermApprovalsDecide
           then Deny CodeAuthNotAuthorized (MayNotDecide (principal_String po)) else Allow)
        else if required = CapAdmin then
          (if \<not> Can po PermPluginsWrite
           then Deny CodeAuthNotAuthorized (MayNotAdminister (principal_String po)) else Allow)
        else Deny CodeAuthNotAuthorized (UnknownCapability (capability_String required)))"

fun VisiblePlugins_loop :: "principal option \<Rightarrow> string list \<Rightarrow> string list \<Rightarrow> string list" where
  "VisiblePlugins_loop po out [] = out"
| "VisiblePlugins_loop po out (name # names) =
    VisiblePlugins_loop po (if Principal_Reaches po name LevelRead then out @ [name] else out) names"

definition VisiblePlugins :: "principal option \<Rightarrow> string list \<Rightarrow> string list" where
  "VisiblePlugins po all = VisiblePlugins_loop po [] all"

section \<open>Properties\<close>

lemma VisiblePlugins_filter:
  "VisiblePlugins po all = filter (\<lambda>n. Principal_Reaches po n LevelRead) all"
proof -
  have "VisiblePlugins_loop po out all = out @ filter (\<lambda>n. Principal_Reaches po n LevelRead) all" for out
    by (induction all arbitrary: out) auto
  then show ?thesis by (simp add: VisiblePlugins_def)
qed

lemma Allow_Deny [simp]: "Allowed Allow" "\<not> Allowed (Deny c r)" "d_Code (Deny c r) = c"
  by (simp_all add: Allow_def Deny_def)

lemma Includes_read: "Includes l m \<Longrightarrow> level_rank m > 0 \<Longrightarrow> Includes l LevelRead"
  by (cases m) (auto simp: Includes_def)

lemma Reaches_read: "Reaches gs n m \<Longrightarrow> level_rank m > 0 \<Longrightarrow> Reaches gs n LevelRead"
  using Includes_read by (auto simp: Reaches_def list_ex_iff split: if_splits)

lemma AuthorizeTool_Allowed:
  "Allowed (AuthorizeTool po plugin c) \<longleftrightarrow>
     Principal_Reaches po plugin LevelRead
     \<and> (c = CapRead \<or> c = CapUnset
        \<or> (c = CapPropose \<and> Principal_Reaches po plugin LevelWrite)
        \<or> (c = CapApprove \<and> Can po PermApprovalsDecide)
        \<or> (c = CapAdmin \<and> Can po PermPluginsWrite))"
  by (cases c) (auto simp: AuthorizeTool_def AuthorizeEndpoint_def Let_def)

text \<open>
  A caller nobody has vouched for is refused everything. For no principal at all and for a
  pending registration, whatever role, permissions and grants its row carries, every permission
  check and every plugin check fails, every tool is refused with the code \<open>NOT_AUTHORIZED\<close>,
  nothing is listed as permitted and no plugin is visible.
\<close>
theorem unvouched_refused:
  assumes "\<forall>p. po = Some p \<longrightarrow> p_Pending p"
  shows "\<not> Can po perm \<and> \<not> Principal_Reaches po plugin l
    \<and> \<not> Allowed (AuthorizeTool po plugin c)
    \<and> Decision_Error (AuthorizeTool po plugin c) = Some CodeAuthNotAuthorized
    \<and> PermissionList po = [] \<and> VisiblePlugins po all = []"
  using assms
  by (cases po) (auto simp: auth_simps Let_def Decision_Error_def VisiblePlugins_filter)

theorem unvouched_refused_witness:
  "\<not> Can (Some \<lparr>p_ID = ''user:mallory'', p_DisplayName = [], p_RoleID = RoleAdministrator,
       p_RoleName = ''Administrator'', p_Permissions = [(AreaPlugins, LevelWrite)],
       p_Grants = [\<lparr>g_Plugin = Wildcard, g_Level = LevelWrite\<rparr>], p_TokenID = ''t'',
       p_Pending = True\<rparr>) PermPluginsWrite"
  by (rule unvouched_refused [THEN conjunct1]) simp

text \<open>
  The translation of a tool's declared capability into host rights. A call is allowed exactly
  when the plugin is reached at read and, for a proposal, at write; for a decision the caller
  decides on approvals; for a privileged read it may write plugins. An unknown capability is
  allowed to nobody.
\<close>
theorem tool_access_matrix:
  "Allowed (AuthorizeTool po plugin c) \<longleftrightarrow>
     Principal_Reaches po plugin LevelRead
     \<and> (case c of CapUnset \<Rightarrow> True | CapRead \<Rightarrow> True
          | CapPropose \<Rightarrow> Principal_Reaches po plugin LevelWrite
          | CapApprove \<Rightarrow> Can po PermApprovalsDecide
          | CapAdmin \<Rightarrow> Can po PermPluginsWrite
          | CapOther _ \<Rightarrow> False)"
  by (cases c) (simp_all add: AuthorizeTool_Allowed)

text \<open>
  Visibility is exactly access: a plugin is shown to a principal when and only when some tool
  declaration of it could be called by that principal, in the order given; nothing visible is
  unusable and nothing usable is hidden.
\<close>
theorem visible_iff_callable:
  "VisiblePlugins po all = filter (\<lambda>n. \<exists>c. Allowed (AuthorizeTool po n c)) all"
proof -
  have "(\<exists>c. Allowed (AuthorizeTool po n c)) \<longleftrightarrow> Principal_Reaches po n LevelRead" for n
    by (auto simp: AuthorizeTool_Allowed)
  then show ?thesis by (simp add: VisiblePlugins_filter)
qed

section \<open>Equal principals\<close>

lemma Validate_permissions_entry:
  "Validate_permissions ps = None \<Longrightarrow> (a, l) \<in> set ps \<Longrightarrow> l \<noteq> LevelNone \<Longrightarrow> entry_ok (a, l)"
  by (induction ps) (auto simp: entry_ok_def split: if_splits)

lemma level_at_Normalize:
  "distinct (map fst ps) \<Longrightarrow>
   level_at (Normalize_permissions ps) a =
     (case map_of ps a of Some l \<Rightarrow> if entry_ok (a, l) then l else LevelUnset | None \<Rightarrow> LevelUnset)"
proof (induction ps)
  case Nil
  then show ?case by (simp add: level_at_def Normalize_permissions_def)
next
  case (Cons e ps)
  obtain b l where e: "e = (b, l)" by fastforce
  have "map_of (Normalize_permissions ps) b = None"
    using Cons.prems e by (auto simp: Normalize_permissions_def map_of_eq_None_iff)
  then show ?case
    using Cons e by (auto simp: level_at_def Normalize_permissions_def split: option.splits)
qed

lemma Normalize_rank:
  assumes "distinct (map fst ps)" and "Validate_permissions ps = None"
  shows "level_rank (level_at (Normalize_permissions ps) a) = level_rank (level_at ps a)"
proof (cases "map_of ps a")
  case None
  then show ?thesis by (simp add: level_at_Normalize [OF assms(1)] level_at_def [of ps])
next
  case (Some l)
  then have "(a, l) \<in> set ps" by (rule map_of_SomeD)
  then have "l = LevelNone \<or> entry_ok (a, l)"
    using Validate_permissions_entry [OF assms(2)] by blast
  with Some show ?thesis by (auto simp: level_at_Normalize [OF assms(1)] level_at_def [of ps])
qed

lemma Equal_permissions_level:
  assumes "Equal_permissions ps qs" and "distinct (map fst ps)" and "distinct (map fst qs)"
  shows "level_at (Normalize_permissions ps) a = level_at (Normalize_permissions qs) a"
proof -
  let ?a = "Normalize_permissions ps" and ?b = "Normalize_permissions qs"
  have da: "distinct (map fst ?a)" and db: "distinct (map fst ?b)"
    using assms(2,3) by (simp_all add: Normalize_permissions_def distinct_map_filter)
  have len: "length ?a = length ?b" and all: "\<forall>(x, l)\<in>set ?a. level_at ?b x = l"
    using assms(1) by (auto simp: Equal_permissions_def Let_def list_all_iff split: if_splits)
  have valid: "l \<noteq> LevelUnset" if "(x, l) \<in> set ?a" for x l
    using that by (auto simp: Normalize_permissions_def entry_ok_def level_Valid_def)
  have "set ?a \<subseteq> set ?b"
  proof
    fix e assume e: "e \<in> set ?a"
    obtain x l where [simp]: "e = (x, l)" by fastforce
    from e all valid have "level_at ?b x = l" and "l \<noteq> LevelUnset" by auto
    then show "e \<in> set ?b" by (auto simp: level_at_def dest: map_of_SomeD split: option.splits)
  qed
  moreover have "card (set ?a) = card (set ?b)"
    using da db len by (simp add: distinct_card distinct_map)
  ultimately have "set ?a = set ?b" by (simp add: card_subset_eq)
  then have "map_of ?a = map_of ?b" using da db by (simp add: map_of_inject_set)
  then show ?thesis by (simp add: level_at_def)
qed

lemma Holds_Equal:
  assumes "Equal_permissions ps qs" and "distinct (map fst ps)" and "distinct (map fst qs)"
    and "Validate_permissions ps = None" and "Validate_permissions qs = None"
  shows "Holds ps perm = Holds qs perm"
proof -
  have "level_rank (level_at ps a) = level_rank (level_at qs a)" for a
    using Normalize_rank [OF assms(2,4), of a] Normalize_rank [OF assms(3,5), of a]
      Equal_permissions_level [OF assms(1-3), of a] by simp
  moreover have "level_rank l > 0" if "Split perm = Some (a, l)" for a l
    using Split_Some [OF that] entry_ok_rank by blast
  ultimately show ?thesis by (auto simp: Holds_def Includes_rank split: option.splits)
qed

definition wf_principal :: "principal \<Rightarrow> bool" where
  "wf_principal p \<longleftrightarrow> Validate_principal (Some p) = None \<and> distinct (map fst (p_Permissions p))
     \<and> (\<forall>g\<in>set (p_Grants p). TrimSpace (g_Plugin g) = g_Plugin g)"

lemma wf_principal_parts:
  assumes "wf_principal p"
  shows "Validate_permissions (p_Permissions p) = None" "Validate_grants (p_Grants p) = None"
    "distinct (map fst (p_Permissions p))" "map trim_grant (p_Grants p) = p_Grants p"
  using assms
  by (auto simp: wf_principal_def Validate_principal_def trim_grant_def map_idI
      split: if_splits option.splits)

text \<open>
  Principals that compare equal are interchangeable: every permission check, plugin check and
  tool decision comes out the same for both, so skipping a tunnel restart on \<open>Equal\<close> never leaves
  an old access in force.
\<close>
theorem equal_principals_same_decisions:
  assumes "Equal_principal p q" and "wf_principal p" and "wf_principal q"
  shows "Can (Some p) perm = Can (Some q) perm
    \<and> Principal_Reaches (Some p) plugin l = Principal_Reaches (Some q) plugin l
    \<and> Allowed (AuthorizeTool (Some p) plugin c) = Allowed (AuthorizeTool (Some q) plugin c)"
proof -
  have eq: "p_Pending p = p_Pending q" "Equal_permissions (p_Permissions p) (p_Permissions q)"
      "Equal_grants (p_Grants p) (p_Grants q)"
    using assms(1) by (simp_all add: Equal_principal_def split: if_splits)
  have can: "Can (Some p) x = Can (Some q) x" for x
    using Holds_Equal [OF eq(2)] wf_principal_parts [OF assms(2)] wf_principal_parts [OF assms(3)] eq(1)
    by (simp add: Can_def)
  have "Reaches (p_Grants p) plugin m = Reaches (p_Grants q) plugin m" for m
    using Normalize_reach [of "p_Grants p" plugin m] Normalize_reach [of "p_Grants q" plugin m]
      wf_principal_parts [OF assms(2)] wf_principal_parts [OF assms(3)] eq(3)
    unfolding Equal_grants_def by simp
  then have reach: "Principal_Reaches (Some p) plugin m = Principal_Reaches (Some q) plugin m" for m
    using eq(1) by (simp add: Principal_Reaches_def)
  show ?thesis by (simp only: can reach AuthorizeTool_Allowed)
qed

definition agent_a :: principal where
  "agent_a = \<lparr>p_ID = ''svc:bot'', p_DisplayName = ''Bot'', p_RoleID = RoleOperator, p_RoleName = ''Operator'',
     p_Permissions = [(AreaPlugins, LevelRead), (AreaApprovals, LevelDecide)],
     p_Grants = [\<lparr>g_Plugin = ''b'', g_Level = LevelRead\<rparr>, \<lparr>g_Plugin = ''a'', g_Level = LevelWrite\<rparr>],
     p_TokenID = ''t'', p_Pending = False\<rparr>"

definition agent_b :: principal where
  "agent_b = \<lparr>p_ID = ''svc:bot'', p_DisplayName = ''The bot'', p_RoleID = RoleOperator, p_RoleName = [],
     p_Permissions = [(AreaApprovals, LevelDecide), (AreaPlugins, LevelRead)],
     p_Grants = [\<lparr>g_Plugin = ''a'', g_Level = LevelWrite\<rparr>, \<lparr>g_Plugin = ''b'', g_Level = LevelRead\<rparr>,
                 \<lparr>g_Plugin = ''a'', g_Level = LevelRead\<rparr>],
     p_TokenID = ''t'', p_Pending = False\<rparr>"

theorem equal_principals_same_decisions_witness:
  "Can (Some agent_a) PermApprovalsDecide = Can (Some agent_b) PermApprovalsDecide
    \<and> Principal_Reaches (Some agent_a) ''a'' LevelWrite = Principal_Reaches (Some agent_b) ''a'' LevelWrite
    \<and> Allowed (AuthorizeTool (Some agent_a) ''a'' CapPropose)
      = Allowed (AuthorizeTool (Some agent_b) ''a'' CapPropose)"
proof (rule equal_principals_same_decisions)
  have trim: "TrimSpace ''svc:bot'' = ''svc:bot''" "TrimSpace ''a'' = ''a''" "TrimSpace ''b'' = ''b''"
    by (rule TrimSpace_visible; simp add: visible_def)+
  show "wf_principal agent_a" and "wf_principal agent_b"
    by (simp_all add: wf_principal_def agent_a_def agent_b_def Validate_principal_def trim
        area_Valid_def Areas_def level_Valid_def Levels_def)
  show "Equal_principal agent_a agent_b"
    by (simp add: Equal_principal_def agent_a_def agent_b_def Equal_permissions_def
        Normalize_permissions_def entry_ok_def area_Valid_def Areas_def level_Valid_def Levels_def
        level_at_def Equal_grants_def Normalize_grants_def trim Wildcard_def best_level_def
        Includes_def mk_grant_def grant_le_def)
qed

end
