(* ===== verification/Approval.thy ===== *)
theory Approval
  imports Rules Principal
begin

text \<open>
  Who and what may authorise a change: the windows of \<open>internal/operations/bypass.go\<close>, the inline
  ceiling of \<open>inline.go\<close>, the right to approve of \<open>approval.go\<close>, and from \<open>service.go\<close> the
  policy record and \<open>applyBypass\<close>. A \<open>*Bypass\<close> is an option.
\<close>

section \<open>Windows\<close>

definition MaxBypassMinutes :: int where "MaxBypassMinutes = 480"
definition MinBypassMinutes :: int where "MinBypassMinutes = 1"

text \<open>\<open>time.Time.Sub\<close> saturates at the ends of the 64-bit range of a duration.\<close>

definition time_Sub :: "time \<Rightarrow> time \<Rightarrow> duration" where
  "time_Sub t u = min (2 ^ 63 - 1) (max (- (2 ^ 63)) (t - u))"

definition Active :: "bypass option \<Rightarrow> time \<Rightarrow> bool" where
  "Active bo now = (case bo of None \<Rightarrow> False | Some b \<Rightarrow> now < by_ExpiresAt b)"

definition Remaining :: "bypass option \<Rightarrow> time \<Rightarrow> duration" where
  "Remaining bo now =
    (if \<not> Active bo now then 0
     else case bo of None \<Rightarrow> 0 | Some b \<Rightarrow> time_Sub (by_ExpiresAt b) now)"

datatype cover_reason = WindowExpired | WindowNoWayBack | WindowUnrecognisedRisk risk_level
  | WindowNoCritical | WindowOtherPlugin string string | WindowTooLow risk_level risk_level
  | WindowCovers string

definition Covers :: "bypass option \<Rightarrow> approval_question \<Rightarrow> time \<Rightarrow> bool \<times> cover_reason" where
  "Covers bo req now =
    (case bo of
       None \<Rightarrow> (False, WindowExpired)
     | Some b \<Rightarrow>
         if \<not> Active bo now then (False, WindowExpired)
         else if \<not> q_Reversible req then (False, WindowNoWayBack)
         else if \<not> risk_Valid (q_Risk req) then (False, WindowUnrecognisedRisk (q_Risk req))
         else if by_Ceiling b = RiskCritical \<or> \<not> risk_Valid (by_Ceiling b) then (False, WindowNoCritical)
         else if by_Plugin b \<noteq> '''' \<and> by_Plugin b \<noteq> q_Plugin req
           then (False, WindowOtherPlugin (by_Plugin b) (q_Plugin req))
         else if \<not> risk_AtLeast (by_Ceiling b) (q_Risk req)
           then (False, WindowTooLow (by_Ceiling b) (q_Risk req))
         else (True, WindowCovers
           (''a bypass opened by '' @ by_CreatedBy b @ '' authorises '' @ risk_String (q_Risk req)
            @ '' changes up to '' @ risk_String (by_Ceiling b) @ '' until ''
            @ format_RFC3339 (by_ExpiresAt b))))"

fun cover_text :: "cover_reason \<Rightarrow> string" where
  "cover_text (WindowCovers s) = s"
| "cover_text _ = ''''"

fun applyBypass_loop :: "approval_decision \<Rightarrow> bypass option list \<Rightarrow> approval_question \<Rightarrow> time
    \<Rightarrow> approval_decision" where
  "applyBypass_loop d [] req now = d"
| "applyBypass_loop d (b # bs) req now =
    (case Covers b req now of (covers, reason) \<Rightarrow>
       if \<not> covers then applyBypass_loop d bs req now
       else \<lparr>AutoApprove = True, d_Rule = None, d_Why = Approves (cover_text reason), d_Bypass = b\<rparr>)"

definition applyBypass :: "approval_decision \<Rightarrow> bypass option list \<Rightarrow> approval_question \<Rightarrow> time
    \<Rightarrow> approval_decision" where
  "applyBypass d windows req now =
    (if AutoApprove d \<or> length windows = 0 \<or> Excluded d then d
     else applyBypass_loop d windows req now)"

section \<open>The inline ceiling\<close>

record inline_policy =
  il_MaxRisk :: risk_level

definition Allows :: "inline_policy \<Rightarrow> risk_level \<Rightarrow> bool" where
  "Allows p risk =
    (if \<not> risk_Valid (il_MaxRisk p) then False
     else if \<not> risk_Valid risk then False
     else risk_AtLeast (il_MaxRisk p) risk)"

definition AllowsInline :: "inline_policy \<Rightarrow> risk_level \<Rightarrow> bool" where
  "AllowsInline p risk = Allows p risk"

section \<open>The right to approve\<close>

datatype approval_refusal = NoOperation | EndpointRefused deny_reason | ApproverMayNotDecide string

text \<open>\<open>None\<close> permits; a refusal carries the code \<open>NOT_AUTHORIZED\<close> and its reason.\<close>

definition AuthorizeApproval :: "principal option \<Rightarrow> operation option \<Rightarrow> approval_refusal option"
  where [auth_simps]:
  "AuthorizeApproval po opt =
    (case opt of
       None \<Rightarrow> Some NoOperation
     | Some op \<Rightarrow>
         (let d = AuthorizeEndpoint po (op_Plugin op)
          in if \<not> Allowed d then Some (EndpointRefused (d_Reason d))
             else if \<not> Can po PermApprovalsDecide
               then Some (ApproverMayNotDecide (case po of None \<Rightarrow> [] | Some p \<Rightarrow> p_ID p))
             else None))"

section \<open>Policy\<close>

record policy =
  po_ProposalTTL :: duration
  po_ApprovalTTL :: duration
  po_LeaseTTL :: duration
  po_InlineApproval :: inline_policy
  po_RiskOverrides :: "string \<Rightarrow> risk_level option"
  po_AutoApprove :: approval_policy
  po_Bypasses :: "bypass option list"

section \<open>Properties\<close>

lemma Covers_iff:
  "fst (Covers bo req now) \<longleftrightarrow>
     (\<exists>b. bo = Some b \<and> now < by_ExpiresAt b \<and> q_Reversible req \<and> risk_Valid (q_Risk req)
        \<and> risk_Valid (by_Ceiling b) \<and> by_Ceiling b \<noteq> RiskCritical
        \<and> (by_Plugin b = '''' \<or> by_Plugin b = q_Plugin req)
        \<and> risk_AtLeast (by_Ceiling b) (q_Risk req))"
  by (auto simp: Covers_def Active_def split: option.splits if_splits)

lemma applyBypass_loop_iff:
  "AutoApprove (applyBypass_loop d bs req now) \<longleftrightarrow>
     AutoApprove d \<or> (\<exists>b\<in>set bs. fst (Covers b req now))"
  by (induction bs) (auto split: prod.splits)

lemma applyBypass_iff:
  "AutoApprove (applyBypass d bs req now) \<longleftrightarrow>
     AutoApprove d \<or> (\<not> Excluded d \<and> (\<exists>b\<in>set bs. fst (Covers b req now)))"
  by (auto simp: applyBypass_def applyBypass_loop_iff)

lemma Covers_not_critical:
  assumes "fst (Covers bo req now)"
  shows "q_Reversible req \<and> q_Risk req \<in> {RiskLow, RiskMedium, RiskHigh}"
proof -
  obtain b :: bypass where b: "q_Reversible req" "risk_Valid (q_Risk req)" "risk_Valid (by_Ceiling b)"
      "by_Ceiling b \<noteq> RiskCritical" "risk_AtLeast (by_Ceiling b) (q_Risk req)"
    using assms unfolding Covers_iff by blast
  then have "risk_rank (by_Ceiling b) \<le> 3" by (auto simp: risk_Valid_cases)
  with b show ?thesis by (auto simp: risk_Valid_cases risk_AtLeast_def)
qed

text \<open>
  C15. An exclusion always wins. When some rule that authorises nothing covers a proposal, whatever
  other rules grant, whatever the default for uncovered changes is and whatever windows are open,
  the change is put to a person.
\<close>
theorem exclusion_always_wins:
  assumes "r \<in> set (ap_Rules p)" and "rule_matches r req" and "authorisesNothing r"
  shows "\<not> AutoApprove (applyBypass (Evaluate p req) windows req now)"
proof -
  have ex: "exclusions p req \<noteq> []" using assms by (auto simp: exclusions_def filter_empty_conv)
  then have "\<not> AutoApprove (Evaluate p req)" by (simp add: Evaluate_AutoApprove)
  moreover have "Excluded (Evaluate p req) \<or> \<not> fst (Covers b req now)" for b
    using ex Evaluate_Excluded [of req p] by (auto simp: Covers_iff)
  ultimately show ?thesis by (auto simp: applyBypass_iff)
qed

definition sample_window :: bypass where
  "sample_window = \<lparr>by_ID = ''b1'', by_Plugin = [], by_Ceiling = RiskHigh, by_ExpiresAt = 1000,
     by_Reason = ''maintenance'', by_CreatedBy = ''user:root'', by_CreatedAt = 0\<rparr>"

theorem exclusion_always_wins_witness:
  "\<not> AutoApprove (applyBypass (Evaluate sample_policy sample_question) [Some sample_window]
       sample_question 5)"
proof (rule exclusion_always_wins)
  let ?r = "sample_rules ! 1"
  show "?r \<in> set (ap_Rules sample_policy)" by (simp add: sample_policy_def sample_rules_def)
  show "rule_matches ?r sample_question"
    by (simp add: sample_rules_def sample_question_def rule_matches_def selectorMatches_def)
  show "authorisesNothing ?r" by (simp add: sample_rules_def authorisesNothing_def risk_Valid_cases)
qed

text \<open>
  C35. Exactly when nobody is asked. A proposal goes ahead unasked when and only when it can be
  undone, its risk is recognised, no exclusion covers it, and either the most specific grant that
  covers it (or, if none does, the default) reaches its risk, or an open window does.
\<close>
theorem unasked_exactly_when:
  "AutoApprove (applyBypass (Evaluate p req) windows req now) \<longleftrightarrow>
     q_Reversible req \<and> risk_Valid (q_Risk req) \<and> exclusions p req = []
     \<and> (rules_authorise p req
        \<or> (\<exists>b. Some b \<in> set windows \<and> now < by_ExpiresAt b
             \<and> risk_Valid (by_Ceiling b) \<and> by_Ceiling b \<noteq> RiskCritical
             \<and> (by_Plugin b = '''' \<or> by_Plugin b = q_Plugin req)
             \<and> risk_AtLeast (by_Ceiling b) (q_Risk req)))"
proof -
  have cov: "(\<exists>b\<in>set windows. fst (Covers b req now)) \<longleftrightarrow>
      q_Reversible req \<and> risk_Valid (q_Risk req) \<and>
      (\<exists>b. Some b \<in> set windows \<and> now < by_ExpiresAt b
             \<and> risk_Valid (by_Ceiling b) \<and> by_Ceiling b \<noteq> RiskCritical
             \<and> (by_Plugin b = '''' \<or> by_Plugin b = q_Plugin req)
             \<and> risk_AtLeast (by_Ceiling b) (q_Risk req))"
    by (auto simp: Covers_iff)
  show ?thesis
    using Evaluate_Excluded [of req p] unfolding applyBypass_iff cov Evaluate_AutoApprove by auto
qed

lemma AutoApprove_bounds:
  assumes "AutoApprove (applyBypass (Evaluate p req) windows req now)"
  shows "q_Reversible req \<and> q_Risk req \<in> {RiskLow, RiskMedium, RiskHigh}"
proof (cases "AutoApprove (Evaluate p req)")
  case True
  then show ?thesis using rules_authorise_not_critical by (auto simp: Evaluate_AutoApprove)
next
  case False
  with assms show ?thesis using Covers_not_critical by (auto simp: applyBypass_iff)
qed

text \<open>
  What no configuration can authorise. Whatever rules are stored, validated or not, whatever
  the default is and whatever windows are open, nothing goes ahead unasked that cannot be undone,
  that is critical, or whose risk this host does not recognise.
\<close>
theorem never_unasked:
  assumes "\<not> q_Reversible req \<or> q_Risk req \<notin> {RiskLow, RiskMedium, RiskHigh}"
  shows "\<not> AutoApprove (applyBypass (Evaluate p req) windows req now)"
  using assms AutoApprove_bounds by blast

theorem never_unasked_witness:
  "\<not> AutoApprove (applyBypass
      (Evaluate \<lparr>ap_Rules = [\<lparr>ru_ID = ''all'', ru_Plugin = RuleAny, ru_Action = RuleAny,
         ru_Principal = RuleAny, ru_MaxRisk = RiskCritical, ru_Note = []\<rparr>], ap_Unmatched = RiskCritical\<rparr>
         (sample_question\<lparr>q_Risk := RiskCritical\<rparr>))
      [Some sample_window] (sample_question\<lparr>q_Risk := RiskCritical\<rparr>) 5)"
  by (rule never_unasked) simp

text \<open>
  A window only ever adds. It never withdraws an approval a rule gave, nor the rule's name on
  it; it names itself as the authority when it is what authorised the change; and once every
  window has closed the decision is the rules' own.
\<close>
theorem bypass_only_adds:
  "(AutoApprove d \<longrightarrow> applyBypass d windows req now = d)
   \<and> (\<not> AutoApprove d \<and> AutoApprove (applyBypass d windows req now) \<longrightarrow>
        (\<exists>b. Some b \<in> set windows \<and> now < by_ExpiresAt b
           \<and> Authority (applyBypass d windows req now) = BypassAuthority (by_ID b)
           \<and> d_Rule (applyBypass d windows req now) = None))
   \<and> ((\<forall>b. Some b \<in> set windows \<longrightarrow> by_ExpiresAt b \<le> now) \<longrightarrow> applyBypass d windows req now = d)"
proof -
  have found: "\<not> AutoApprove d \<Longrightarrow> AutoApprove (applyBypass_loop d bs req now) \<Longrightarrow>
      \<exists>b. Some b \<in> set bs \<and> now < by_ExpiresAt b
        \<and> Authority (applyBypass_loop d bs req now) = BypassAuthority (by_ID b)
        \<and> d_Rule (applyBypass_loop d bs req now) = None" for bs
  proof (induction bs)
    case Nil
    then show ?case by simp
  next
    case (Cons w bs)
    obtain c why where cw: "Covers w req now = (c, why)" by fastforce
    show ?case
    proof (cases c)
      case True
      then obtain b where "w = Some b" "now < by_ExpiresAt b" using cw Covers_iff [of w req now] by auto
      with cw True show ?thesis by (auto simp: Authority_def)
    next
      case False
      with Cons cw show ?thesis by auto
    qed
  qed
  have closed: "\<forall>b. Some b \<in> set bs \<longrightarrow> by_ExpiresAt b \<le> now \<Longrightarrow> applyBypass_loop d bs req now = d" for bs
  proof (induction bs)
    case Nil
    then show ?case by simp
  next
    case (Cons w bs)
    have "\<not> fst (Covers w req now)" using Cons.prems by (fastforce simp: Covers_iff)
    with Cons show ?case by (auto split: prod.splits)
  qed
  show ?thesis
    using found [of windows] closed [of windows] by (auto simp: applyBypass_def)
qed

theorem bypass_only_adds_witness:
  "Authority (applyBypass (declined None NoRuleCovers) [Some sample_window] sample_question 5)
     = BypassAuthority ''b1''
   \<and> applyBypass (declined None NoRuleCovers) [Some sample_window] sample_question 1000
     = declined None NoRuleCovers"
proof -
  have a: "AutoApprove (applyBypass (declined None NoRuleCovers) [Some sample_window] sample_question 5)"
    by (simp add: applyBypass_iff Excluded_def Covers_iff sample_window_def sample_question_def
        risk_Valid_cases risk_AtLeast_def)
  show ?thesis
    using bypass_only_adds [of "declined None NoRuleCovers" "[Some sample_window]" sample_question 5] a
      bypass_only_adds [of "declined None NoRuleCovers" "[Some sample_window]" sample_question 1000]
    by (auto simp: sample_window_def)
qed

text \<open>
  Approving takes both rights: a principal may approve an operation exactly when it reaches the
  operation's plugin at read and holds the deciding of approvals. Nobody approves nothing.
\<close>
theorem approval_takes_both_rights:
  "(AuthorizeApproval po (Some op) = None \<longleftrightarrow>
      Principal_Reaches po (op_Plugin op) LevelRead \<and> Can po PermApprovalsDecide)
   \<and> AuthorizeApproval po None \<noteq> None"
  by (auto simp: AuthorizeApproval_def AuthorizeEndpoint_def Let_def)

end
