(* ===== verification/Redact.thy ===== *)
theory Redact
  imports Go_Lib
begin

text \<open>
  Filtering of upstream error text before it is stored (\<open>internal/operations/redact.go\<close>), with as
  much of \<open>regexp\<close> as its five patterns use. A match is leftmost, and of the matches starting there
  the one a backtracking search finds first, so a pattern is modelled by the list of its matches in
  that order. All sets of the patterns are sets of bytes: a negated set takes the bytes of a longer
  character one by one, which no pattern can tell apart. Under \<open>(?i)\<close> the letters \<open>s\<close> and \<open>k\<close> also
  match U+017F and U+212A.
\<close>

section \<open>Patterns\<close>

text \<open>The number of bytes of one character at the start of a string, 0 when it does not match.\<close>

type_synonym char_match = "string \<Rightarrow> nat"

definition byte_in :: "(char \<Rightarrow> bool) \<Rightarrow> char_match" where
  "byte_in P s = (case s of [] \<Rightarrow> 0 | c # cs \<Rightarrow> if P c then 1 else 0)"

definition upper :: "char \<Rightarrow> bool" where
  "upper c \<longleftrightarrow> CHR ''A'' \<le> c \<and> c \<le> CHR ''Z''"

definition lower :: "char \<Rightarrow> char" where
  "lower c = (if upper c then char_of (of_char c + 32 :: nat) else c)"

definition long_s :: string where "long_s = [CHR 0xC5, CHR 0xBF]"
definition kelvin :: string where "kelvin = [CHR 0xE2, CHR 0x84, CHR 0xAA]"

definition fold_in :: "(char \<Rightarrow> bool) \<Rightarrow> char_match" where
  "fold_in P s =
    (case s of [] \<Rightarrow> 0
     | c # cs \<Rightarrow>
         if P (lower c) then 1
         else if P CHR ''s'' \<and> has_prefix s long_s then 2
         else if P CHR ''k'' \<and> has_prefix s kelvin then 3
         else 0)"

datatype rx =
    One char_match
  | Rep nat char_match
  | Alt "rx list list"
  | Grp nat "rx list"
  | WordB

type_synonym captures = "(nat \<times> nat \<times> nat) list"

text \<open>The ends of 0, 1, 2, ... characters in a row.\<close>

function rep_ends :: "char_match \<Rightarrow> string \<Rightarrow> nat list" where
  "rep_ends u s =
    (let k = u s in if k = 0 \<or> s = [] then [0] else 0 # map ((+) k) (rep_ends u (drop k s)))"
  by pat_completeness auto
termination by (relation "measure (\<lambda>(u, s). length s)") auto

declare rep_ends.simps [simp del]

definition word_char :: "char \<Rightarrow> bool" where
  "word_char c \<longleftrightarrow> is_digit c \<or> upper c \<or> (CHR ''a'' \<le> c \<and> c \<le> CHR ''z'') \<or> c = CHR ''_''"

definition word_at :: "string \<Rightarrow> nat \<Rightarrow> bool" where
  "word_at s i \<longleftrightarrow> i < length s \<and> word_char (s ! i)"

definition boundary :: "string \<Rightarrow> nat \<Rightarrow> bool" where
  "boundary s i \<longleftrightarrow> (i > 0 \<and> word_at s (i - 1)) \<noteq> word_at s i"

fun match1 :: "string \<Rightarrow> rx \<Rightarrow> nat \<times> captures \<Rightarrow> (nat \<times> captures) list"
  and match_seq :: "string \<Rightarrow> rx list \<Rightarrow> nat \<times> captures \<Rightarrow> (nat \<times> captures) list"
  and match_alts :: "string \<Rightarrow> rx list list \<Rightarrow> nat \<times> captures \<Rightarrow> (nat \<times> captures) list" where
  "match1 s (One u) (i, c) = (let k = u (drop i s) in if k = 0 then [] else [(i + k, c)])"
| "match1 s (Rep n u) (i, c) = map (\<lambda>e. (i + e, c)) (rev (drop n (rep_ends u (drop i s))))"
| "match1 s (Alt rs) (i, c) = match_alts s rs (i, c)"
| "match1 s (Grp g rs) (i, c) = map (\<lambda>(e, c'). (e, (g, i, e) # c')) (match_seq s rs (i, c))"
| "match1 s WordB (i, c) = (if boundary s i then [(i, c)] else [])"
| "match_seq s [] st = [st]"
| "match_seq s (r # rs) st = concat (map (match_seq s rs) (match1 s r st))"
| "match_alts s [] st = []"
| "match_alts s (r # rs) st = match_seq s r st @ match_alts s rs st"

text \<open>The leftmost match starting at or after a position: where it starts, where it ends, its groups.\<close>

fun find_match :: "rx list \<Rightarrow> string \<Rightarrow> nat list \<Rightarrow> (nat \<times> nat \<times> captures) option" where
  "find_match re s [] = None"
| "find_match re s (i # is) =
    (case match_seq s re (i, []) of
       [] \<Rightarrow> find_match re s is
     | (e, c) # rest \<Rightarrow> Some (i, e, c))"

lemma find_match_start: "find_match re s is = Some (i, e, c) \<Longrightarrow> i \<in> set is"
  by (induction "is") (auto split: list.splits)

text \<open>\<open>FindAllStringSubmatchIndex\<close>. After an empty match the search moves on by a byte; no pattern here has one.\<close>

function find_all :: "rx list \<Rightarrow> string \<Rightarrow> nat \<Rightarrow> (nat \<times> nat \<times> captures) list" where
  "find_all re s pos =
    (case find_match re s [pos..<Suc (length s)] of
       None \<Rightarrow> []
     | Some (i, e, c) \<Rightarrow> (i, e, c) # find_all re s (if e > pos then e else Suc pos))"
  by pat_completeness auto
termination
  by (relation "measure (\<lambda>(re, s, pos). Suc (length s) - pos)") (auto dest!: find_match_start)

declare find_all.simps [simp del]

section \<open>The rules\<close>

record redact_rule =
  rr_re :: "rx list"
  rr_groups :: nat
  rr_keep :: nat

definition lit :: "string \<Rightarrow> rx list" where
  "lit t = map (\<lambda>c. One (byte_in (\<lambda>x. x = c))) t"

definition ilit :: "string \<Rightarrow> rx list" where
  "ilit t = map (\<lambda>c. One (fold_in (\<lambda>x. x = c))) t"

definition optional :: "rx list \<Rightarrow> rx" where
  "optional r = Alt [r, []]"

definition rx_space :: "char \<Rightarrow> bool" where
  "rx_space c \<longleftrightarrow> c \<in> {CHR 0x09, CHR 0x0A, CHR 0x0C, CHR 0x0D, CHR '' ''}"

definition alnum_low :: "char \<Rightarrow> bool" where
  "alnum_low c \<longleftrightarrow> is_digit c \<or> (CHR ''a'' \<le> c \<and> c \<le> CHR ''z'')"

definition header_re :: "rx list" where
  "header_re =
    [Grp 1 ([optional (ilit ''proxy-'')] @ ilit ''authorization''
       @ [Rep 0 (byte_in rx_space), One (byte_in (\<lambda>c. c \<in> {CHR '':'', CHR ''=''})), Rep 0 (byte_in rx_space)]),
     Rep 0 (byte_in (\<lambda>c. c \<notin> {CHR 0x0D, CHR 0x0A}))]"

definition bearer_re :: "rx list" where
  "bearer_re =
    [WordB, Grp 1 [Alt [ilit ''bearer'', ilit ''basic''], Rep 1 (byte_in rx_space)],
     Rep 8 (fold_in (\<lambda>c. alnum_low c \<or> c \<in> set ''._~+/=-''))]"

definition api_key :: "rx list" where
  "api_key = ilit ''api'' @ [optional (ilit ''_'')] @ ilit ''key''"

definition query_re :: "rx list" where
  "query_re =
    [Grp 1 ([One (byte_in (\<lambda>c. c \<in> {CHR ''?'', CHR ''&''})),
       Alt [ilit ''access_token'', ilit ''refresh_token'', ilit ''token'', api_key, ilit ''client_secret'',
            ilit ''password'', ilit ''secret'', ilit ''code'', ilit ''code_verifier'']] @ lit ''=''),
     Rep 0 (byte_in (\<lambda>c. c \<noteq> CHR ''&'' \<and> \<not> rx_space c))]"

definition dquote :: char where "dquote = CHR 0x22"

definition json_re :: "rx list" where
  "json_re =
    [Grp 1 (lit [dquote] @ [Alt [ilit ''access_token'', ilit ''refresh_token'', ilit ''token'', api_key,
         ilit ''client_secret'', ilit ''password'', ilit ''secret'']] @ lit [dquote]
       @ [Rep 0 (byte_in rx_space)] @ lit '':'' @ [Rep 0 (byte_in rx_space)] @ lit [dquote]),
     Rep 0 (byte_in (\<lambda>c. c \<noteq> dquote)),
     Grp 2 (lit [dquote])]"

definition ascii_letter :: "char \<Rightarrow> bool" where
  "ascii_letter c \<longleftrightarrow> upper c \<or> (CHR ''a'' \<le> c \<and> c \<le> CHR ''z'')"

definition userinfo_re :: "rx list" where
  "userinfo_re =
    [Grp 1 ([One (byte_in ascii_letter),
         Rep 0 (byte_in (\<lambda>c. ascii_letter c \<or> is_digit c \<or> c \<in> set ''+.-''))] @ lit ''://''
       @ [Rep 1 (byte_in (\<lambda>c. c \<noteq> CHR ''/'' \<and> \<not> rx_space c \<and> c \<noteq> CHR '':'' \<and> c \<noteq> CHR ''@''))] @ lit '':''),
     Rep 1 (byte_in (\<lambda>c. c \<noteq> CHR ''/'' \<and> \<not> rx_space c \<and> c \<noteq> CHR ''@'')),
     Grp 2 (lit ''@'')]"

definition redactRules :: "redact_rule list" where
  "redactRules =
    [\<lparr>rr_re = header_re, rr_groups = 1, rr_keep = 1\<rparr>,
     \<lparr>rr_re = bearer_re, rr_groups = 1, rr_keep = 1\<rparr>,
     \<lparr>rr_re = query_re, rr_groups = 1, rr_keep = 1\<rparr>,
     \<lparr>rr_re = json_re, rr_groups = 2, rr_keep = 1\<rparr>,
     \<lparr>rr_re = userinfo_re, rr_groups = 2, rr_keep = 1\<rparr>]"

definition redactionMarker :: string where "redactionMarker = ''[REDACTED]''"
definition maxDetailLen :: nat where "maxDetailLen = 1024"

definition truncated_marker :: string where
  "truncated_marker = [CHR 0xE2, CHR 0x80, CHR 0xA6] @ '' (truncated)''"

definition slice :: "string \<Rightarrow> nat \<Rightarrow> nat \<Rightarrow> string" where
  "slice s a b = take (b - a) (drop a s)"

definition group_text :: "string \<Rightarrow> captures \<Rightarrow> nat \<Rightarrow> string" where
  "group_text s c g = (case map_of c g of None \<Rightarrow> [] | Some (a, b) \<Rightarrow> slice s a b)"

fun keep_loop :: "redact_rule \<Rightarrow> string \<Rightarrow> nat \<Rightarrow> (nat \<times> nat \<times> captures) list \<Rightarrow> string" where
  "keep_loop rule s pos [] = drop pos s"
| "keep_loop rule s pos ((i, e, c) # ms) =
    slice s pos i @ group_text s c (rr_keep rule) @ redactionMarker
    @ (if rr_groups rule \<ge> 2 then group_text s c 2 else []) @ keep_loop rule s e ms"

definition replaceKeeping :: "redact_rule \<Rightarrow> string \<Rightarrow> string" where
  "replaceKeeping rule s = keep_loop rule s 0 (find_all (rr_re rule) s 0)"

definition redact :: "string \<Rightarrow> string" where
  "redact s =
    (if s = '''' then ''''
     else (let out = fold replaceKeeping redactRules s
           in if length out > maxDetailLen then take maxDetailLen out @ truncated_marker else out))"

section \<open>Properties\<close>

lemma match_one: "u (drop i s) = k \<Longrightarrow> match1 s (One u) (i, c) = (if k = 0 then [] else [(i + k, c)])"
  by (simp add: Let_def)

lemma rep_ends_all:
  assumes "list_all P s"
  shows "rep_ends (byte_in P) s = [0..<Suc (length s)]"
  using assms
proof (induction s)
  case (Cons c s)
  then have s: "rep_ends (byte_in P) s = [0..<Suc (length s)]" by simp
  have c: "byte_in P (c # s) = 1" using Cons.prems by (simp add: byte_in_def)
  have "rep_ends (byte_in P) (c # s) = 0 # map Suc [0..<Suc (length s)]"
    unfolding rep_ends.simps [of _ "c # s"] c Let_def by (simp add: s del: upt_Suc)
  moreover have "[0..<Suc m] = 0 # map Suc [0..<m]" for m
    by (simp add: map_Suc_upt upt_conv_Cons del: upt_Suc)
  ultimately show ?case by (simp del: upt_Suc)
qed (simp add: rep_ends.simps byte_in_def)

lemma rep_ends_none: "s = [] \<or> \<not> P (hd s) \<Longrightarrow> rep_ends (byte_in P) s = [0]"
  by (subst rep_ends.simps) (cases s; simp add: byte_in_def)

lemma match_seq_append: "match_seq s (a @ b) st = concat (map (match_seq s b) (match_seq s a st))"
proof (induction a arbitrary: st)
  case (Cons r a)
  have "concat (map (\<lambda>x. concat (map f (g x))) xs) = concat (map f (concat (map g xs)))"
    for f :: "nat \<times> captures \<Rightarrow> (nat \<times> captures) list" and g xs
    by (induction xs) simp_all
  moreover have "match_seq s (a @ b) = (\<lambda>st. concat (map (match_seq s b) (match_seq s a st)))"
    using Cons.IH by (rule ext)
  ultimately show ?case by (simp add: comp_def)
qed simp

lemma ilit_match:
  "map lower (take (length t) (drop i s)) = t \<Longrightarrow> match_seq s (ilit t) (i, c) = [(i + length t, c)]"
proof (induction t arbitrary: i)
  case (Cons x t)
  then obtain y r where d: "drop i s = y # r" by (cases "drop i s") auto
  then have "r = drop (Suc i) s" by (metis drop_Suc list.sel(3) tl_drop)
  with Cons.prems d have "lower y = x" "map lower (take (length t) (drop (Suc i) s)) = t" by simp_all
  then show ?case using Cons.IH [of "Suc i"] by (simp add: ilit_def d fold_in_def)
qed (simp add: ilit_def)

lemma header_fails:
  assumes "drop i s = c # r" and "lower c \<noteq> CHR ''a''" and "lower c \<noteq> CHR ''p''"
  shows "match_seq s header_re (i, []) = []"
  using assms by (simp add: header_re_def optional_def ilit_def Let_def fold_in_def)

lemma header_skips:
  assumes "i < length pre" and "list_all (\<lambda>c. lower c \<notin> {CHR ''a'', CHR ''p''}) pre"
  shows "match_seq (pre @ t) header_re (i, []) = []"
proof (rule header_fails)
  show "drop i (pre @ t) = pre ! i # (drop (Suc i) pre @ t)"
    using assms(1) by (simp add: Cons_nth_drop_Suc)
  show "lower (pre ! i) \<noteq> CHR ''a''" "lower (pre ! i) \<noteq> CHR ''p''"
    using assms by (auto simp: list_all_length)
qed

text \<open>Up to the value, the header pattern consumes the fixed text.\<close>

lemma header_group:
  assumes name: "\<And>c. match_seq s (ilit ''authorization'') (n, c) = [(n + 13, c)]"
    and proxy: "\<And>c. match_seq s (ilit ''proxy-'') (n, c) = []"
    and d: "drop (n + 13) s = CHR '':'' # CHR '' '' # v" "drop (n + 14) s = CHR '' '' # v"
    and v: "v = [] \<or> \<not> rx_space (hd v)"
  shows "match1 s (hd header_re) (n, []) = [(n + 15, [(1, n, n + 15)]), (n + 14, [(1, n, n + 14)])]"
proof -
  have spaces: "rep_ends (byte_in rx_space) (CHR '':'' # CHR '' '' # v) = [0]"
    by (rule rep_ends_none) (simp add: rx_space_def)
  have "rep_ends (byte_in rx_space) v = [0]" using v by (rule rep_ends_none)
  then have space: "rep_ends (byte_in rx_space) (CHR '' '' # v) = [0, 1]"
    by (subst rep_ends.simps) (simp add: byte_in_def rx_space_def)
  have tail: "match_seq s [Rep 0 (byte_in rx_space), One (byte_in (\<lambda>c. c \<in> {CHR '':'', CHR ''=''})), Rep 0 (byte_in rx_space)]
      (n + 13, c) = [(n + 15, c), (n + 14, c)]" for c
    using d by (simp add: spaces space byte_in_def add.commute [of _ n])
  have opt: "match_seq s [optional (ilit ''proxy-'')] (n, c) = [(n, c)]" for c
    by (simp add: optional_def proxy)
  have "match_seq s ([optional (ilit ''proxy-'')] @ ilit ''authorization'' @ [Rep 0 (byte_in rx_space),
      One (byte_in (\<lambda>c. c \<in> {CHR '':'', CHR ''=''})), Rep 0 (byte_in rx_space)]) (n, []) = [(n + 15, []), (n + 14, [])]"
    unfolding match_seq_append opt by (simp only: list.map concat.simps match_seq_append name tail append_Nil2)
  then show ?thesis unfolding header_re_def list.sel match1.simps by simp
qed

lemma find_match_skip:
  "(\<And>i. i \<in> set xs \<Longrightarrow> match_seq s re (i, []) = []) \<Longrightarrow> find_match re s (xs @ ys) = find_match re s ys"
  by (induction xs) simp_all

lemma header_whole:
  fixes pre v :: string
  defines "s \<equiv> pre @ ''Authorization: '' @ v"
  assumes v: "v = [] \<or> \<not> rx_space (hd v)" "list_all (\<lambda>c. c \<notin> {CHR 0x0D, CHR 0x0A}) v"
  shows "\<exists>rest. match_seq s header_re (length pre, [])
    = (length s, [(1, length pre, length pre + 15)]) # rest"
proof -
  let ?n = "length pre"
  have low: "map lower ''Authorization'' = ''authorization''" "lower CHR ''A'' \<noteq> CHR ''p''" by code_simp+
  have d: "drop (?n + k) s = drop k (''Authorization: '' @ v)" for k by (simp add: s_def)
  have name: "match_seq s (ilit ''authorization'') (?n, c) = [(?n + 13, c)]" for c
    using ilit_match [of "''authorization''" ?n s c] low(1) by (simp add: s_def)
  have proxy: "match_seq s (ilit ''proxy-'') (?n, c) = []" for c
    using low(2) d [of 0] by (simp add: ilit_def fold_in_def Let_def)
  have grp: "match1 s (hd header_re) (?n, []) = [(?n + 15, [(1, ?n, ?n + 15)]), (?n + 14, [(1, ?n, ?n + 14)])]"
    by (rule header_group [OF name proxy _ _ v(1)]) (simp_all add: d)
  have "match_seq s [Rep 0 (byte_in (\<lambda>c. c \<notin> {CHR 0x0D, CHR 0x0A}))] (?n + 15, c)
      = (?n + 15 + length v, c) # map (\<lambda>e. (?n + 15 + e, c)) (rev [0..<length v])" for c
    using d [of 15] rep_ends_all [OF v(2)] by (simp add: comp_def)
  then show ?thesis
    using grp by (simp add: header_re_def s_def add.commute)
qed

text \<open>A match that reaches the end of the text is the only one.\<close>

lemma find_all_one:
  assumes skip: "\<And>i. i < n \<Longrightarrow> match_seq s re (i, []) = []"
    and hit: "match_seq s re (n, []) = (length s, c) # rest"
    and fin: "match_seq s re (length s, []) = []" and n: "n < length s"
  shows "find_all re s 0 = [(n, length s, c)]"
proof -
  have le: "n < Suc (length s)" using n by simp
  have "[0..<Suc (length s)] = [0..<n] @ [n..<Suc (length s)]"
    using upt_add_eq_append [of 0 n "Suc (length s) - n"] le by (simp del: upt_Suc)
  then have "[0..<Suc (length s)] = [0..<n] @ n # [Suc n..<Suc (length s)]"
    by (simp only: upt_conv_Cons [OF le])
  then have first: "find_match re s [0..<Suc (length s)] = Some (n, length s, c)"
    using hit find_match_skip [of "[0..<n]" s re "n # [Suc n..<Suc (length s)]"] skip
    by (simp del: upt_Suc)
  have "find_all re s (length s) = []"
    by (subst find_all.simps) (simp add: fin)
  then show ?thesis by (subst find_all.simps) (use first n in \<open>auto simp del: upt_Suc\<close>)
qed

lemma keep_one:
  "keep_loop rule s 0 [(n, length s, c)] = take n s @ group_text s c (rr_keep rule) @ redactionMarker
     @ (if rr_groups rule \<ge> 2 then group_text s c 2 else [])"
  by (simp add: slice_def)

lemma header_replaced:
  fixes pre v :: string
  assumes pre: "list_all (\<lambda>c. lower c \<notin> {CHR ''a'', CHR ''p''}) pre"
    and v: "v = [] \<or> \<not> rx_space (hd v)" "list_all (\<lambda>c. c \<notin> {CHR 0x0D, CHR 0x0A}) v"
  shows "replaceKeeping (hd redactRules) (pre @ ''Authorization: '' @ v)
    = pre @ ''Authorization: '' @ redactionMarker"
proof -
  define s where "s = pre @ ''Authorization: '' @ v"
  let ?n = "length pre"
  obtain rest where m: "match_seq s header_re (?n, []) = (length s, [(1, ?n, ?n + 15)]) # rest"
    using header_whole [OF v] unfolding s_def by blast
  have skip: "match_seq s header_re (i, []) = []" if "i < ?n" for i
    unfolding s_def by (rule header_skips [OF that pre])
  have fin: "match_seq s header_re (length s, []) = []"
    by (simp add: header_re_def optional_def ilit_def fold_in_def Let_def)
  have "?n < length s" by (simp add: s_def)
  with skip m fin have all: "find_all header_re s 0 = [(?n, length s, [(1, ?n, ?n + 15)])]"
    by (rule find_all_one)
  have parts: "take ?n s = pre" "slice s ?n (?n + 15) = ''Authorization: ''"
    by (simp_all add: s_def slice_def)
  show ?thesis
    unfolding s_def [symmetric] replaceKeeping_def redactRules_def list.sel redact_rule.simps all keep_one
    by (simp add: parts group_text_def)
qed

text \<open>
  What follows a credential header never reaches the store. Whatever the text before the header
  (as long as it holds none of the letters a header name starts with), the filtered text is the same
  for every value on the rest of the line, so it tells nothing about the value, its length included.
\<close>
theorem header_value_withheld:
  assumes "list_all (\<lambda>c. lower c \<notin> {CHR ''a'', CHR ''p''}) pre"
    and "v = [] \<or> \<not> rx_space (hd v)" and "list_all (\<lambda>c. c \<notin> {CHR 0x0D, CHR 0x0A}) v"
  shows "redact (pre @ ''Authorization: '' @ v) = redact (pre @ ''Authorization: '')"
proof -
  have rules: "redactRules = hd redactRules # tl redactRules" by (simp add: redactRules_def)
  have "fold replaceKeeping redactRules (pre @ ''Authorization: '' @ v)
      = fold replaceKeeping redactRules (pre @ ''Authorization: '')"
    by (subst (1 2) rules)
       (use header_replaced [OF assms] header_replaced [OF assms(1), of "[]"] in simp)
  then show ?thesis by (simp add: redact_def)
qed

theorem header_value_withheld_witness:
  "redact (''> '' @ ''Authorization: '' @ ''Bearer hunter2'') = redact (''> '' @ ''Authorization: '')"
  by (rule header_value_withheld) (simp_all add: rx_space_def lower_def upper_def)

text \<open>
  A quote inside a secret ends the redaction early. The value of a JSON field is taken to end at
  the next quotation mark, escaped or not: of the password \<open>ab"cd\<close>, written as JSON writes it, the
  part after the quote is stored.
\<close>
theorem escaped_quote_leaks:
  "redact (''{'' @ [dquote] @ ''password'' @ [dquote] @ '':'' @ [dquote] @ ''ab'' @ [CHR 0x5C, dquote] @ ''cd'' @ [dquote] @ ''}'')
   = ''{'' @ [dquote] @ ''password'' @ [dquote] @ '':'' @ [dquote] @ ''[REDACTED]'' @ [dquote] @ ''cd'' @ [dquote] @ ''}''"
  by code_simp

lemma redact_bound: "length (redact s) \<le> maxDetailLen + length truncated_marker"
  by (simp add: redact_def Let_def)

end
