(* ===== verification/Host.thy ===== *)
theory Host
  imports Store_Props Approval Redact
begin

text \<open>
  What the service, the executor and the reaper share: the repository they call
  (\<open>Repository\<close> of \<open>internal/operations/repository.go\<close>), the clock, identifiers and policy they
  read, and the audit entries and events they write (\<open>auditFor\<close>, \<open>eventFor\<close> of \<open>executor.go\<close>,
  \<open>audit\<close>, \<open>event\<close> and \<open>policyAudit\<close> of \<open>service.go\<close>).
\<close>

section \<open>The repository interface\<close>

record 's repository =
  r_Propose :: "propose_request \<Rightarrow> 's \<Rightarrow> (op_error + operation) \<times> 's"
  r_Get :: "string \<Rightarrow> 's \<Rightarrow> (op_error + operation) \<times> 's"
  r_List :: "list_filter \<Rightarrow> 's \<Rightarrow> (op_error + operation list) \<times> 's"
  r_Transition :: "transition_request \<Rightarrow> 's \<Rightarrow> (op_error + operation) \<times> 's"
  r_Claim :: "claim_request \<Rightarrow> 's \<Rightarrow> (op_error + operation) \<times> 's"
  r_Settle :: "settle_request \<Rightarrow> 's \<Rightarrow> (op_error + operation) \<times> 's"
  r_DueForExpiry :: "time \<Rightarrow> int \<Rightarrow> 's \<Rightarrow> (op_error + operation list) \<times> 's"

text \<open>
  The store of \<open>internal/storage/sqlite\<close> behind the interface, with everybody else at work on it:
  before the n-th call the calls \<open>others n\<close> of other goroutines commit, and \<open>clk n i\<close> is the i-th
  reading of the clock in that call.
\<close>

record sql_state =
  ss_db :: database
  ss_calls :: nat

type_synonym rival_calls = "nat \<Rightarrow> ((nat \<Rightarrow> time) \<times> repo_call) list"

definition sql_read :: "(string \<Rightarrow> bool) \<Rightarrow> rival_calls \<Rightarrow> (database \<Rightarrow> 'a) \<Rightarrow> sql_state \<Rightarrow> 'a \<times> sql_state" where
  "sql_read jv others f s =
    (let db = run_calls jv (others (ss_calls s)) (ss_db s)
     in (f db, \<lparr>ss_db = db, ss_calls = ss_calls s + 1\<rparr>))"

definition sql_write :: "(string \<Rightarrow> bool) \<Rightarrow> rival_calls \<Rightarrow> (nat \<Rightarrow> nat \<Rightarrow> time) \<Rightarrow> repo_call \<Rightarrow> sql_state
    \<Rightarrow> (op_error + operation) \<times> sql_state" where
  "sql_write jv others clk c s =
    (let db = run_calls jv (others (ss_calls s)) (ss_db s)
     in case exec_call jv (clk (ss_calls s)) c db of
          (r, db') \<Rightarrow> (r, \<lparr>ss_db = db', ss_calls = ss_calls s + 1\<rparr>))"

definition sqlite :: "(string \<Rightarrow> bool) \<Rightarrow> rival_calls \<Rightarrow> (nat \<Rightarrow> nat \<Rightarrow> time) \<Rightarrow> sql_state repository" where
  "sqlite jv others clk = \<lparr>
     r_Propose = (\<lambda>req. sql_write jv others clk (DoPropose req)),
     r_Get = (\<lambda>i. sql_read jv others (Get i)),
     r_List = (\<lambda>f. sql_read jv others (List_ops f)),
     r_Transition = (\<lambda>req. sql_write jv others clk (DoTransition req)),
     r_Claim = (\<lambda>req. sql_write jv others clk (DoClaim req)),
     r_Settle = (\<lambda>req. sql_write jv others clk (DoSettle req)),
     r_DueForExpiry = (\<lambda>now limit. sql_read jv others (DueForExpiry now limit))\<rparr>"

section \<open>The process around them\<close>

text \<open>
  \<open>en_Now n\<close> is the n-th reading of the injected clock, \<open>en_ULID n\<close> the n-th identifier drawn and
  \<open>en_Policy n\<close> the policy the n-th call of \<open>policyFn\<close> returns. \<open>en_TimeJSON\<close> is how an instant is
  written in JSON, which depends on the time zone of the process; \<open>en_Quote\<close> is \<open>strconv.Quote\<close>,
  whose table of printable characters is not modelled.
\<close>

record environment =
  en_Now :: "nat \<Rightarrow> time"
  en_ULID :: "nat \<Rightarrow> string"
  en_Policy :: "nat \<Rightarrow> policy"
  en_TimeJSON :: "time \<Rightarrow> json"
  en_Quote :: "string \<Rightarrow> string"

text \<open>The store, how often the clock, the identifiers and the policy were read, and the wake-ups sent.\<close>

record 's host =
  h_store :: 's
  h_now :: nat
  h_ids :: nat
  h_policy :: nat
  h_woken :: nat

definition call_repo :: "('s \<Rightarrow> 'a \<times> 's) \<Rightarrow> ('s, 'm) host_scheme \<Rightarrow> 'a \<times> ('s, 'm) host_scheme" where
  "call_repo f h = (case f (h_store h) of (x, s) \<Rightarrow> (x, h\<lparr>h_store := s\<rparr>))"

definition read_clock :: "environment \<Rightarrow> ('s, 'm) host_scheme \<Rightarrow> time \<times> ('s, 'm) host_scheme" where
  "read_clock env h = (en_Now env (h_now h), h\<lparr>h_now := h_now h + 1\<rparr>)"

definition read_policy :: "environment \<Rightarrow> ('s, 'm) host_scheme \<Rightarrow> policy \<times> ('s, 'm) host_scheme" where
  "read_policy env h = (en_Policy env (h_policy h), h\<lparr>h_policy := h_policy h + 1\<rparr>)"

definition draw_ulid :: "environment \<Rightarrow> ('s, 'm) host_scheme \<Rightarrow> string \<times> ('s, 'm) host_scheme" where
  "draw_ulid env h = (en_ULID env (h_ids h), h\<lparr>h_ids := h_ids h + 1\<rparr>)"

definition OperationID :: "environment \<Rightarrow> ('s, 'm) host_scheme \<Rightarrow> string \<times> ('s, 'm) host_scheme" where
  "OperationID env h = (case draw_ulid env h of (u, h') \<Rightarrow> (''op_'' @ u, h'))"

definition EventID :: "environment \<Rightarrow> ('s, 'm) host_scheme \<Rightarrow> string \<times> ('s, 'm) host_scheme" where
  "EventID env h = (case draw_ulid env h of (u, h') \<Rightarrow> (''evt_'' @ u, h'))"

definition AttemptID :: "environment \<Rightarrow> ('s, 'm) host_scheme \<Rightarrow> string \<times> ('s, 'm) host_scheme" where
  "AttemptID env h = (case draw_ulid env h of (u, h') \<Rightarrow> (''att_'' @ u, h'))"

definition notify :: "('s, 'm) host_scheme \<Rightarrow> ('s, 'm) host_scheme" where
  "notify h = h\<lparr>h_woken := h_woken h + 1\<rparr>"

section \<open>Audit entries and events\<close>

text \<open>Details hold only values \<open>json.Marshal\<close> can write, so its error branch is never taken.\<close>

definition auditFor :: "string \<Rightarrow> string \<Rightarrow> operation \<Rightarrow> string \<Rightarrow> op_state \<Rightarrow> op_state
    \<Rightarrow> (string \<times> json) list \<Rightarrow> audit_entry" where
  "auditFor eventID kind op actor from to detail =
    \<lparr>ae_EventID = eventID, ae_Kind = kind, ae_OperationID = op_ID op, ae_Plugin = op_Plugin op,
     ae_Action = op_Action op, ae_Actor = actor, ae_FromState = from, ae_ToState = to,
     ae_Risk = op_Risk op, ae_CorrelationID = op_CorrelationID op, ae_Detail = marshal (JObj detail)\<rparr>"

definition event_payload :: "operation \<Rightarrow> json" where
  "event_payload op = JObj [(''operation_id'', JStr (op_ID op)), (''plugin'', JStr (op_Plugin op)),
     (''action'', JStr (op_Action op)), (''risk'', JStr (risk_String (op_Risk op)))]"

definition eventFor :: "string \<Rightarrow> string \<Rightarrow> operation \<Rightarrow> outbox_event" where
  "eventFor eventID subject op =
    \<lparr>oe_ID = eventID, oe_Subject = subject, oe_OperationID = op_ID op,
     oe_CorrelationID = op_CorrelationID op, oe_Payload = marshal (event_payload op)\<rparr>"

text \<open>The methods of the service that draw the identifier themselves.\<close>

definition svc_audit :: "environment \<Rightarrow> string \<Rightarrow> operation \<Rightarrow> string \<Rightarrow> op_state \<Rightarrow> op_state
    \<Rightarrow> (string \<times> json) list \<Rightarrow> ('s, 'm) host_scheme \<Rightarrow> audit_entry \<times> ('s, 'm) host_scheme" where
  "svc_audit env kind op actor from to detail h =
    (case EventID env h of (i, h') \<Rightarrow> (auditFor i kind op actor from to detail, h'))"

definition svc_event :: "environment \<Rightarrow> string \<Rightarrow> operation \<Rightarrow> ('s, 'm) host_scheme
    \<Rightarrow> outbox_event \<times> ('s, 'm) host_scheme" where
  "svc_event env subject op h = (case EventID env h of (i, h') \<Rightarrow> (eventFor i subject op, h'))"

text \<open>A nil and an empty slice of changes are one value here, written as the nil one.\<close>

definition change_json :: "change \<Rightarrow> json" where
  "change_json c = JObj [(''field'', JStr (Field c)), (''from'', From c), (''to'', To c)]"

definition changes_json :: "change list \<Rightarrow> json" where
  "changes_json cs = (if cs = [] then JNull else JArr (map change_json cs))"

definition Reason_text :: "approval_decision \<Rightarrow> string" where
  "Reason_text d = (case d_Why d of Approves t \<Rightarrow> t | _ \<Rightarrow> '''')"

definition policyAudit :: "environment \<Rightarrow> approval_decision \<Rightarrow> operation \<Rightarrow> time \<Rightarrow> (string \<times> json) list" where
  "policyAudit env d op executeBy =
    [(''reason'', JStr (Reason_text d)), (''execute_by'', en_TimeJSON env executeBy),
     (''channel'', JStr ''policy''), (''authority'', JStr (Authority d)),
     (''proposed_by'', JStr (op_RequestedBy op)), (''asked_a_person'', JBool False)]
    @ (case d_Rule d of
         None \<Rightarrow> []
       | Some r \<Rightarrow> [(''rule'', JStr (ru_ID r)), (''rule_scope'', JStr (Scope r)),
           (''rule_max_risk'', JStr (risk_String (ru_MaxRisk r))), (''rule_note'', JStr (ru_Note r))])"

definition guardContext :: "string \<Rightarrow> time \<Rightarrow> guard_context" where
  "guardContext actor now =
    \<lparr>gc_Now = now, gc_Actor = actor, gc_RecomputedHash = '''', gc_PreconditionsMatch = True\<rparr>"

text \<open>The text of a refusal, where an error carries it.\<close>

definition deny_text :: "environment \<Rightarrow> deny_reason \<Rightarrow> string" where
  "deny_text env r =
    (case r of
       NotGranted p plugin \<Rightarrow> ''principal '' @ p @ '' is not granted access to plugin '' @ en_Quote env plugin
     | HeldAtRead p plugin \<Rightarrow> ''principal '' @ p @ '' holds plugin '' @ en_Quote env plugin @ '' at read, not write''
     | MayNotDecide p \<Rightarrow> ''principal '' @ p @ '' may not decide on approvals''
     | MayNotAdminister p \<Rightarrow> ''principal '' @ p @ '' may not administer plugins''
     | UnknownCapability c \<Rightarrow> ''tool declares unknown capability '' @ en_Quote env c
     | NoReason \<Rightarrow> '''')"

definition refusal_text :: "environment \<Rightarrow> approval_refusal \<Rightarrow> string" where
  "refusal_text env r =
    (case r of
       NoOperation \<Rightarrow> ''no operation supplied''
     | EndpointRefused why \<Rightarrow> deny_text env why
     | ApproverMayNotDecide i \<Rightarrow> ''principal '' @ i @ '' may not decide on approvals'')"

text \<open>The moves the three components ask for. All but the last are rows of the transition table.\<close>

definition asked_moves :: "(op_state \<times> op_state) list" where
  "asked_moves =
    [(StatePendingApproval, StateApproved), (StatePendingApproval, StateRejected),
     (StateDraft, StateCancelled), (StatePendingApproval, StateCancelled), (StateApproved, StateCancelled),
     (StatePendingApproval, StateExpired), (StateApproved, StateExpired), (StateApproved, StateFailed)]"

end
