(* ===== verification/Service.thy ===== *)
theory Service
  imports Host
begin

text \<open>
  The approval service (\<open>internal/operations/service.go\<close>), over any repository. A method takes the
  host before the call and returns its result with the host after it. Contexts and log lines are left
  out, except that a log line of a refusal dereferences the principal.
\<close>

section \<open>Proposing\<close>

record svc_propose_request =
  rq_Plugin :: string
  rq_Action :: string
  rq_Risk :: risk_level
  rq_Target :: raw_message
  rq_Params :: raw_message
  rq_Before :: raw_message
  rq_Desired :: raw_message
  rq_Preconditions :: raw_message
  rq_Rollback :: raw_message
  rq_Changes :: "change list"
  rq_Impact :: string
  rq_Verifiable :: bool
  rq_Reversible :: bool
  rq_IdempotencyKey :: string
  rq_CorrelationID :: string

definition ID_of :: "principal option \<Rightarrow> string" where
  "ID_of po = (case po of None \<Rightarrow> '''' | Some p \<Rightarrow> p_ID p)"

definition question_of :: "operation \<Rightarrow> bool \<Rightarrow> approval_question" where
  "question_of op reversible =
    \<lparr>q_Plugin = op_Plugin op, q_Action = op_Action op, q_Principal = op_RequestedBy op,
     q_Risk = op_Risk op, q_Reversible = reversible\<rparr>"

definition autoApprove :: "environment \<Rightarrow> 's repository \<Rightarrow> operation \<Rightarrow> bool \<Rightarrow> ('s, 'm) host_scheme
    \<Rightarrow> operation \<times> ('s, 'm) host_scheme" where
  "autoApprove env repo op reversible h =
    (if op_State op \<noteq> StatePendingApproval then (op, h)
     else
       (let (policy, h1) = read_policy env h;
            first = Evaluate (po_AutoApprove policy) (question_of op reversible);
            (now, h2) = read_clock env h1;
            decision = applyBypass first (po_Bypasses policy) (question_of op reversible) now
        in if \<not> AutoApprove decision then (op, h2)
           else case Validate (Some op) StateApproved TriggerApprove (guardContext PolicyActor now) of
             Some e \<Rightarrow> (op, h2)
           | None \<Rightarrow>
               (let approvalExpiry = now + po_ApprovalTTL policy;
                    (audit, h3) = svc_audit env ''operation.approved'' op PolicyActor StatePendingApproval
                      StateApproved (policyAudit env decision op approvalExpiry) h2;
                    (event, h4) = svc_event env (subjectFor StateApproved) op h3;
                    (res, h5) = call_repo (r_Transition repo
                      \<lparr>tr_OperationID = op_ID op, tr_From = StatePendingApproval, tr_To = StateApproved,
                       tr_Actor = PolicyActor, tr_Reason = Reason_text decision, tr_Audit = audit, tr_Event = event,
                       tr_Approval = Some \<lparr>ap_ApprovedBy = PolicyActor, ap_ApprovedAt = now,
                         ap_ApprovalExpiresAt = approvalExpiry, ap_AuthorizedByRule = Authority decision\<rparr>,
                       tr_Terminal = False, tr_ErrorCode = '''', tr_ErrorDetail = ''''\<rparr>) h4
                in case res of
                     Inl e \<Rightarrow>
                       (case call_repo (r_Get repo (op_ID op)) h5 of
                          (Inr fresh, h6) \<Rightarrow> (fresh, h6)
                        | (Inl e', h6) \<Rightarrow> (op, h6))
                   | Inr stored \<Rightarrow> (stored, notify h5))))"

definition proposed_operation :: "svc_propose_request \<Rightarrow> string \<Rightarrow> string \<Rightarrow> risk_level \<Rightarrow> string \<Rightarrow> time \<Rightarrow> duration
    \<Rightarrow> operation" where
  "proposed_operation req i hash risk requester now ttl =
    zero_operation\<lparr>op_ID := i, op_Plugin := rq_Plugin req, op_Action := rq_Action req,
      op_State := StatePendingApproval, op_Risk := risk, op_Target := rq_Target req,
      op_Params := rq_Params req, op_PayloadHash := hash, op_Before := rq_Before req,
      op_Desired := rq_Desired req, op_Preconditions := rq_Preconditions req,
      op_Rollback := rq_Rollback req, op_Changes := rq_Changes req, op_Impact := rq_Impact req,
      op_Verifiable := rq_Verifiable req, op_RequestedBy := requester, op_RequestedAt := now,
      op_ExpiresAt := now + ttl, op_CorrelationID := rq_CorrelationID req,
      op_IdempotencyKey := (if rq_IdempotencyKey req = '''' then hash else rq_IdempotencyKey req)\<rparr>"

definition svc_Propose :: "environment \<Rightarrow> 's repository \<Rightarrow> principal option \<Rightarrow> svc_propose_request
    \<Rightarrow> ('s, 'm) host_scheme \<Rightarrow> (op_error + operation) \<times> ('s, 'm) host_scheme" where
  "svc_Propose env repo po req h =
    (let d = AuthorizeTool po (rq_Plugin req) CapPropose
     in if \<not> Allowed d then
          (Inl (if po = None then ErrNilDereference else ErrForbidden (d_Code d)), h)
        else case PayloadHash (rq_Plugin req) (rq_Action req) (rq_Target req) (rq_Params req) of
          Inl e \<Rightarrow> (Inl (ErrCanonical e), h)
        | Inr hash \<Rightarrow>
            (let (policy1, h1) = read_policy env h;
                 over = po_RiskOverrides policy1 (rq_Plugin req @ CHR ''.'' # rq_Action req);
                 risk = MaxRisk [rq_Risk req, case over of None \<Rightarrow> RiskUnset | Some r \<Rightarrow> r]
             in if \<not> risk_Valid risk then
                  (Inl (GuardError CodeInvalidRisk
                    (rq_Plugin req @ '' classified '' @ rq_Action req @ '' as '' @ en_Quote env (risk_String risk)
                     @ '', which is not a risk level this host defines; nothing can be authorised''
                     @ '' against a classification it cannot read'')), h1)
                else
                  (let (now, h2) = read_clock env h1;
                       (i, h3) = OperationID env h2;
                       (policy2, h4) = read_policy env h3;
                       op = proposed_operation req i hash risk (ID_of po) now (po_ProposalTTL policy2)
                   in case Validate (Some (zero_operation\<lparr>op_State := StateDraft, op_PayloadHash := hash,
                             op_ExpiresAt := op_ExpiresAt op\<rparr>)) StatePendingApproval TriggerSubmit
                             ((guardContext (ID_of po) now)\<lparr>gc_RecomputedHash := hash\<rparr>) of
                        Some e \<Rightarrow> (Inl e, h4)
                      | None \<Rightarrow>
                          (let (audit, h5) = svc_audit env ''operation.proposed'' op (ID_of po) (StateOther '''')
                                 StatePendingApproval
                                 [(''impact'', JStr (op_Impact op)), (''changes'', changes_json (op_Changes op)),
                                  (''assurance'', JStr (assurance_String (Assurance op))),
                                  (''verifiable'', JBool (op_Verifiable op)),
                                  (''drift_checked'', JBool (DriftChecked op)),
                                  (''reversible'', JBool (rq_Reversible req))] h4;
                               (event, h6) = svc_event env (subjectFor StatePendingApproval) op h5;
                               (policy3, h7) = read_policy env h6;
                               (res, h8) = call_repo (r_Propose repo
                                 \<lparr>pr_Operation = Some op, pr_Audit = audit, pr_Event = event,
                                  pr_RequestHash = hash, pr_IdempotencyTTL = po_ProposalTTL policy3 * 2\<rparr>) h7
                           in case res of
                                Inl e \<Rightarrow> (Inl e, h8)
                              | Inr stored \<Rightarrow>
                                  (case autoApprove env repo stored (rq_Reversible req) (notify h8) of
                                     (op', h9) \<Rightarrow> (Inr op', h9))))))"

section \<open>Deciding\<close>

definition svc_approve :: "environment \<Rightarrow> 's repository \<Rightarrow> principal option \<Rightarrow> operation \<Rightarrow> string \<Rightarrow> string
    \<Rightarrow> ('s, 'm) host_scheme \<Rightarrow> (op_error + operation) \<times> ('s, 'm) host_scheme" where
  "svc_approve env repo po op reason channel h =
    (case AuthorizeApproval po (Some op) of
       Some r \<Rightarrow>
         (Inl (if po = None then ErrNilDereference else GuardError CodeAuthNotAuthorized (refusal_text env r)), h)
     | None \<Rightarrow>
         (let (now, h1) = read_clock env h
          in case Validate (Some op) StateApproved TriggerApprove (guardContext (ID_of po) now) of
               Some e \<Rightarrow> (Inl e, h1)
             | None \<Rightarrow>
                 (let (policy, h2) = read_policy env h1;
                      approvalExpiry = now + po_ApprovalTTL policy;
                      (audit, h3) = svc_audit env ''operation.approved'' op (ID_of po) StatePendingApproval
                        StateApproved [(''reason'', JStr reason), (''execute_by'', en_TimeJSON env approvalExpiry),
                          (''channel'', JStr channel)] h2;
                      (event, h4) = svc_event env (subjectFor StateApproved) op h3;
                      (res, h5) = call_repo (r_Transition repo
                        \<lparr>tr_OperationID = op_ID op, tr_From = StatePendingApproval, tr_To = StateApproved,
                         tr_Actor = ID_of po, tr_Reason = reason, tr_Audit = audit, tr_Event = event,
                         tr_Approval = Some \<lparr>ap_ApprovedBy = ID_of po, ap_ApprovedAt = now,
                           ap_ApprovalExpiresAt = approvalExpiry, ap_AuthorizedByRule = ''''\<rparr>,
                         tr_Terminal = False, tr_ErrorCode = '''', tr_ErrorDetail = ''''\<rparr>) h4
                  in case res of Inl e \<Rightarrow> (Inl e, h5) | Inr stored \<Rightarrow> (Inr stored, notify h5))))"

definition svc_Approve :: "environment \<Rightarrow> 's repository \<Rightarrow> principal option \<Rightarrow> string \<Rightarrow> string
    \<Rightarrow> ('s, 'm) host_scheme \<Rightarrow> (op_error + operation) \<times> ('s, 'm) host_scheme" where
  "svc_Approve env repo po operationID reason h =
    (case call_repo (r_Get repo operationID) h of
       (Inl e, h1) \<Rightarrow> (Inl e, h1)
     | (Inr op, h1) \<Rightarrow> svc_approve env repo po op reason ''dashboard'' h1)"

definition ApproveInline :: "environment \<Rightarrow> 's repository \<Rightarrow> principal option \<Rightarrow> string
    \<Rightarrow> ('s, 'm) host_scheme \<Rightarrow> (op_error + operation) \<times> ('s, 'm) host_scheme" where
  "ApproveInline env repo po operationID h =
    (case call_repo (r_Get repo operationID) h of
       (Inl e, h1) \<Rightarrow> (Inl e, h1)
     | (Inr op, h1) \<Rightarrow>
         (let (policy, h2) = read_policy env h1
          in if \<not> Allows (po_InlineApproval policy) (op_Risk op) then
               (Inl (GuardError CodeNotAuthorized
                 (''a '' @ risk_String (op_Risk op) @ ''-risk change cannot be settled by a yes/no prompt; show the ''
                  @ ''person what will change, in full, and call approve_operation once they say to go ahead'')), h2)
             else svc_approve env repo po op ''approved in conversation'' ''inline'' h2))"

definition svc_Reject :: "environment \<Rightarrow> 's repository \<Rightarrow> principal option \<Rightarrow> string \<Rightarrow> string
    \<Rightarrow> ('s, 'm) host_scheme \<Rightarrow> (op_error + operation) \<times> ('s, 'm) host_scheme" where
  "svc_Reject env repo po operationID reason h =
    (case call_repo (r_Get repo operationID) h of
       (Inl e, h1) \<Rightarrow> (Inl e, h1)
     | (Inr op, h1) \<Rightarrow>
         (case AuthorizeApproval po (Some op) of
            Some r \<Rightarrow> (Inl (GuardError CodeAuthNotAuthorized (refusal_text env r)), h1)
          | None \<Rightarrow>
              (let (now, h2) = read_clock env h1
               in case Validate (Some op) StateRejected TriggerReject (guardContext (ID_of po) now) of
                    Some e \<Rightarrow> (Inl e, h2)
                  | None \<Rightarrow>
                      (let (audit, h3) = svc_audit env ''operation.rejected'' op (ID_of po) StatePendingApproval
                             StateRejected [(''reason'', JStr reason)] h2;
                           (event, h4) = svc_event env (subjectFor StateRejected) op h3;
                           (res, h5) = call_repo (r_Transition repo
                             \<lparr>tr_OperationID = op_ID op, tr_From = StatePendingApproval, tr_To = StateRejected,
                              tr_Actor = ID_of po, tr_Reason = reason, tr_Audit = audit, tr_Event = event,
                              tr_Approval = None, tr_Terminal = True, tr_ErrorCode = '''', tr_ErrorDetail = ''''\<rparr>) h4
                       in case res of Inl e \<Rightarrow> (Inl e, h5) | Inr stored \<Rightarrow> (Inr stored, notify h5)))))"

definition svc_Cancel :: "environment \<Rightarrow> 's repository \<Rightarrow> principal option \<Rightarrow> string \<Rightarrow> string
    \<Rightarrow> ('s, 'm) host_scheme \<Rightarrow> (op_error + operation) \<times> ('s, 'm) host_scheme" where
  "svc_Cancel env repo po operationID reason h =
    (case call_repo (r_Get repo operationID) h of
       (Inl e, h1) \<Rightarrow> (Inl e, h1)
     | (Inr op, h1) \<Rightarrow>
         (let d = AuthorizeTool po (op_Plugin op) CapPropose
          in if \<not> Allowed d then (Inl (ErrForbidden (d_Code d)), h1)
             else
               (let (now, h2) = read_clock env h1
                in case Validate (Some op) StateCancelled TriggerCancel (guardContext (ID_of po) now) of
                     Some e \<Rightarrow> (Inl e, h2)
                   | None \<Rightarrow>
                       (let (audit, h3) = svc_audit env ''operation.cancelled'' op (ID_of po) (op_State op)
                              StateCancelled [(''reason'', JStr reason)] h2;
                            (event, h4) = svc_event env (subjectFor StateCancelled) op h3;
                            (res, h5) = call_repo (r_Transition repo
                              \<lparr>tr_OperationID = op_ID op, tr_From = op_State op, tr_To = StateCancelled,
                               tr_Actor = ID_of po, tr_Reason = reason, tr_Audit = audit, tr_Event = event,
                               tr_Approval = None, tr_Terminal = True, tr_ErrorCode = '''', tr_ErrorDetail = ''''\<rparr>) h4
                        in case res of Inl e \<Rightarrow> (Inl e, h5) | Inr stored \<Rightarrow> (Inr stored, notify h5)))))"

section \<open>Reading\<close>

definition svc_Get :: "'s repository \<Rightarrow> principal option \<Rightarrow> string \<Rightarrow> ('s, 'm) host_scheme
    \<Rightarrow> (op_error + operation) \<times> ('s, 'm) host_scheme" where
  "svc_Get repo po operationID h =
    (case call_repo (r_Get repo operationID) h of
       (Inl e, h1) \<Rightarrow> (Inl e, h1)
     | (Inr op, h1) \<Rightarrow> if \<not> Allowed (AuthorizeEndpoint po (op_Plugin op)) then (Inl ErrNotFound, h1) else (Inr op, h1))"

definition svc_List :: "'s repository \<Rightarrow> principal option \<Rightarrow> string \<Rightarrow> op_state list \<Rightarrow> int
    \<Rightarrow> ('s, 'm) host_scheme \<Rightarrow> (op_error + operation list) \<times> ('s, 'm) host_scheme" where
  "svc_List repo po plugin states limit h =
    (let d = AuthorizeEndpoint po plugin
     in if \<not> Allowed d then (Inl (ErrForbidden (d_Code d)), h)
        else call_repo (r_List repo \<lparr>lf_Plugin = plugin, lf_States = states, lf_Limit = limit, lf_Offset = 0\<rparr>) h)"

text \<open>
  The polling loop of \<open>AwaitOutcome\<close>: \<open>ticks\<close> is how often the ticker fires before the deadline, and
  the result pairs the last operation read with the error, if a read failed.
\<close>

fun AwaitOutcome_loop :: "'s repository \<Rightarrow> string \<Rightarrow> nat \<Rightarrow> operation option \<Rightarrow> ('s, 'm) host_scheme
    \<Rightarrow> (operation option \<times> op_error option) \<times> ('s, 'm) host_scheme" where
  "AwaitOutcome_loop repo i ticks prev h =
    (case call_repo (r_Get repo i) h of
       (Inl e, h1) \<Rightarrow> ((prev, Some e), h1)
     | (Inr op, h1) \<Rightarrow>
         if op_State op \<noteq> StateApproved \<and> op_State op \<noteq> StateExecuting then ((Some op, None), h1)
         else (case ticks of
                 0 \<Rightarrow> ((Some op, None), h1)
               | Suc n \<Rightarrow> AwaitOutcome_loop repo i n (Some op) h1))"

definition AwaitOutcome :: "'s repository \<Rightarrow> string \<Rightarrow> nat \<Rightarrow> ('s, 'm) host_scheme
    \<Rightarrow> (operation option \<times> op_error option) \<times> ('s, 'm) host_scheme" where
  "AwaitOutcome repo operationID ticks h = AwaitOutcome_loop repo operationID ticks None h"

end
