(* ===== verification/Executor.thy ===== *)
theory Executor
  imports Host
begin

text \<open>
  The executor (\<open>internal/operations/executor.go\<close>), over any repository and any mutation runner. The
  plugins implement the runner: planning, applying and observing act on an upstream state of which
  nothing is assumed. The host gains that state, the writes made so far and the delays waited. What is
  left of an execution when plugin code panics is \<open>Execute_upto\<close>.
\<close>

section \<open>Runners\<close>

text \<open>An error wraps \<open>ErrIndeterminate\<close> or does not; both carry their text.\<close>

datatype run_error = Ambiguous (run_text: string) | Refused (run_text: string)

record 'h plan_result =
  pl_Before :: raw_message
  pl_Desired :: raw_message
  pl_Preconditions :: raw_message
  pl_Changes :: "change list"
  pl_Impact :: string
  pl_Rollback :: raw_message
  pl_RiskOverride :: "risk_level option"
  pl_Handle :: 'h

record apply_outcome =
  ao_UpstreamRef :: string
  ao_Async :: bool

record ('u, 'h) mutation_runner =
  mr_Plan :: "string \<Rightarrow> string \<Rightarrow> raw_message \<Rightarrow> 'u \<Rightarrow> (run_error + 'h plan_result) \<times> 'u"
  mr_Apply :: "string \<Rightarrow> string \<Rightarrow> raw_message \<Rightarrow> 'h plan_result \<Rightarrow> 'u \<Rightarrow> (apply_outcome \<times> run_error option) \<times> 'u"
  mr_Observe :: "string \<Rightarrow> string \<Rightarrow> raw_message \<Rightarrow> 'u \<Rightarrow> (run_error + raw_message) \<times> 'u"

record executor_config =
  cfg_InstanceID :: string
  cfg_LeaseTTL :: duration
  cfg_Concurrency :: int
  cfg_VerifyAttempts :: int
  cfg_VerifyBackoff :: duration
  cfg_VerifyMaxBackoff :: duration

definition withDefaults :: "executor_config \<Rightarrow> executor_config" where
  "withDefaults c = c\<lparr>
     cfg_LeaseTTL := (if cfg_LeaseTTL c \<le> 0 then 2 * Minute else cfg_LeaseTTL c),
     cfg_Concurrency := (if cfg_Concurrency c \<le> 0 then 2 else cfg_Concurrency c),
     cfg_VerifyAttempts := (if cfg_VerifyAttempts c \<le> 0 then 6 else cfg_VerifyAttempts c),
     cfg_VerifyBackoff := (if cfg_VerifyBackoff c \<le> 0 then 2 * Second else cfg_VerifyBackoff c),
     cfg_VerifyMaxBackoff := (if cfg_VerifyMaxBackoff c \<le> 0 then 30 * Second else cfg_VerifyMaxBackoff c)\<rparr>"

record upstream_write =
  uw_OperationID :: string
  uw_Plugin :: string
  uw_Action :: string
  uw_Params :: raw_message

text \<open>
  What executions have of the host beyond the service: the upstream systems, the calls of \<open>Apply\<close> an
  execution has made (a record for the theorems, written by \<open>exec_apply\<close> as it calls) and the delays
  begun before an observation.
\<close>

record ('s, 'u) exec_host = "'s host" +
  x_up :: 'u
  x_writes :: "upstream_write list"
  x_waits :: "duration list"

text \<open>
  The context of a call: whether it had ended at each place the code looks (0 while waiting for a slot,
  n while waiting to observe for the n-th time again), and the text of its error.
\<close>

record call_context =
  cx_Ended :: "nat \<Rightarrow> bool"
  cx_Err :: string

definition call_up :: "('u \<Rightarrow> 'a \<times> 'u) \<Rightarrow> ('s, 'u) exec_host \<Rightarrow> 'a \<times> ('s, 'u) exec_host" where
  "call_up f h = (case f (x_up h) of (x, u) \<Rightarrow> (x, h\<lparr>x_up := u\<rparr>))"

section \<open>Settling\<close>

definition verified_json :: "bool option \<Rightarrow> json" where
  "verified_json v = (case v of None \<Rightarrow> JNull | Some b \<Rightarrow> JBool b)"

definition exec_settle :: "environment \<Rightarrow> 's repository \<Rightarrow> operation \<Rightarrow> string \<Rightarrow> op_state \<Rightarrow> raw_message
    \<Rightarrow> bool option \<Rightarrow> string \<Rightarrow> string \<Rightarrow> string \<Rightarrow> ('s, 'u) exec_host \<Rightarrow> op_error option \<times> ('s, 'u) exec_host" where
  "exec_settle env repo op attemptID to observed verified upstreamRef errCode errDetail h =
    (let (aid, h1) = EventID env h;
         (eid, h2) = EventID env h1;
         (res, h3) = call_repo (r_Settle repo
           \<lparr>sr_OperationID = op_ID op, sr_AttemptID = attemptID, sr_To = to, sr_Actor = ''system:executor'',
            sr_Reason = '''', sr_Verified = verified, sr_Observed = observed, sr_UpstreamRef = upstreamRef,
            sr_ErrorCode = errCode, sr_ErrorDetail = errDetail,
            sr_Audit = auditFor aid (''operation.'' @ state_String to) op ''system:executor'' StateExecuting to
              [(''verified'', verified_json verified), (''upstream_ref'', JStr upstreamRef),
               (''error_code'', JStr errCode)],
            sr_Event = eventFor eid (subjectFor to) op\<rparr>) h2
     in case res of Inl e \<Rightarrow> (Some e, h3) | Inr stored \<Rightarrow> (None, notify h3))"

definition settleFailure :: "environment \<Rightarrow> 's repository \<Rightarrow> operation \<Rightarrow> string \<Rightarrow> string
    \<Rightarrow> ('s, 'u) exec_host \<Rightarrow> op_error option \<times> ('s, 'u) exec_host" where
  "settleFailure env repo op code detail h =
    (let (aid, h1) = EventID env h;
         (eid, h2) = EventID env h1;
         (res, h3) = call_repo (r_Transition repo
           \<lparr>tr_OperationID = op_ID op, tr_From = StateApproved, tr_To = StateFailed,
            tr_Actor = ''system:executor'', tr_Reason = detail,
            tr_Audit = auditFor aid ''operation.failed'' op ''system:executor'' StateApproved StateFailed
              [(''error_code'', JStr code), (''detail'', JStr detail)],
            tr_Event = eventFor eid (subjectFor StateFailed) op,
            tr_Approval = None, tr_Terminal = True, tr_ErrorCode = code, tr_ErrorDetail = detail\<rparr>) h2
     in case res of
          Inl e \<Rightarrow> if e = ErrStateConflict then (None, h3) else (Some e, h3)
        | Inr stored \<Rightarrow> (None, notify h3))"

section \<open>Verifying\<close>

text \<open>Doubling a \<open>time.Duration\<close>, an \<open>int64\<close>, wraps.\<close>

definition wrap64 :: "int \<Rightarrow> int" where
  "wrap64 x = (x + 2 ^ 63) mod 2 ^ 64 - 2 ^ 63"

lemma wrap64_fits: "- (2 ^ 63) \<le> x \<Longrightarrow> x < 2 ^ 63 \<Longrightarrow> wrap64 x = x"
  by (simp add: wrap64_def)

definition not_yet :: string where
  "not_yet = ''observed state does not yet match the requested state''"

fun verify_attempts :: "('u, 'h) mutation_runner \<Rightarrow> call_context \<Rightarrow> executor_config \<Rightarrow> operation \<Rightarrow> raw_message
    \<Rightarrow> nat \<Rightarrow> nat \<Rightarrow> duration \<Rightarrow> raw_message \<Rightarrow> string option \<Rightarrow> ('s, 'u) exec_host
    \<Rightarrow> (raw_message \<times> bool \<times> string option) \<times> ('s, 'u) exec_host" where
  "verify_attempts runner ctx cfg op desired attempt 0 backoff observed lastErr h =
    ((observed, False, lastErr), h)"
| "verify_attempts runner ctx cfg op desired attempt (Suc left) backoff observed lastErr h =
    (let h1 = (if attempt > 0 then h\<lparr>x_waits := x_waits h @ [backoff]\<rparr> else h);
         backoff1 = (if attempt > 0 then min (wrap64 (backoff * 2)) (cfg_VerifyMaxBackoff cfg) else backoff)
     in if attempt > 0 \<and> cx_Ended ctx attempt then ((observed, False, Some (cx_Err ctx)), h1)
        else
          (let (res, h2) = call_up (mr_Observe runner (op_Plugin op) (op_Action op) (op_Params op)) h1
           in case res of
                Inl e \<Rightarrow> verify_attempts runner ctx cfg op desired (Suc attempt) left backoff1 observed
                           (Some (run_text e)) h2
              | Inr obs \<Rightarrow>
                  if CanonicalEqual desired obs then ((obs, True, None), h2)
                  else verify_attempts runner ctx cfg op desired (Suc attempt) left backoff1 obs
                         (Some not_yet) h2))"

definition exec_verify :: "('u, 'h) mutation_runner \<Rightarrow> call_context \<Rightarrow> executor_config \<Rightarrow> operation
    \<Rightarrow> 'h plan_result \<Rightarrow> ('s, 'u) exec_host
    \<Rightarrow> (raw_message \<times> bool \<times> string option) \<times> ('s, 'u) exec_host" where
  "exec_verify runner ctx cfg op plan h =
    (let desired = (if length (op_Desired op) = 0 then pl_Desired plan else op_Desired op)
     in verify_attempts runner ctx cfg op desired 0 (nat (cfg_VerifyAttempts cfg)) (cfg_VerifyBackoff cfg)
          [] None h)"

section \<open>Applying\<close>

definition exec_apply :: "environment \<Rightarrow> 's repository \<Rightarrow> ('u, 'h) mutation_runner \<Rightarrow> call_context
    \<Rightarrow> executor_config \<Rightarrow> operation \<Rightarrow> string \<Rightarrow> 'h plan_result \<Rightarrow> ('s, 'u) exec_host
    \<Rightarrow> op_error option \<times> ('s, 'u) exec_host" where
  "exec_apply env repo runner ctx cfg op attemptID plan h =
    (let h0 = h\<lparr>x_writes := x_writes h @ [\<lparr>uw_OperationID = op_ID op, uw_Plugin = op_Plugin op,
           uw_Action = op_Action op, uw_Params = op_Params op\<rparr>]\<rparr>;
         ((outcome, err), h1) = call_up (mr_Apply runner (op_Plugin op) (op_Action op) (op_Params op) plan) h0
     in case err of
          Some (Ambiguous t) \<Rightarrow> exec_settle env repo op attemptID StateIndeterminate [] None
            (ao_UpstreamRef outcome) CodeIndeterminate (redact t) h1
        | Some (Refused t) \<Rightarrow> exec_settle env repo op attemptID StateFailed [] None
            (ao_UpstreamRef outcome) CodeUpstreamFailed (redact t) h1
        | None \<Rightarrow>
            if \<not> op_Verifiable op then
              exec_settle env repo op attemptID StateSucceeded [] None (ao_UpstreamRef outcome) '''' '''' h1
            else
              (let ((observed, verified, vErr), h2) = exec_verify runner ctx cfg op plan h1
               in if \<not> verified then
                    (let detail = (case vErr of
                           None \<Rightarrow> ''the target could not be re-read to confirm the change''
                         | Some t \<Rightarrow> redact t)
                     in exec_settle env repo op attemptID StateIndeterminate observed (Some False)
                          (ao_UpstreamRef outcome) CodeVerificationFailed detail h2)
                  else exec_settle env repo op attemptID StateSucceeded observed (Some True)
                         (ao_UpstreamRef outcome) '''' '''' h2))"

section \<open>Executing\<close>

text \<open>What is checked before anything is claimed: a refusal with its code and detail, or the plan.\<close>

datatype 'h checked = CheckFailed_with op_error | Refuse string string | Proceed "'h plan_result" DriftCheck

definition exec_check :: "('u, 'h) mutation_runner \<Rightarrow> operation \<Rightarrow> ('s, 'u) exec_host
    \<Rightarrow> 'h checked \<times> ('s, 'u) exec_host" where
  "exec_check runner op h =
    (case Recompute op of
       Inl e \<Rightarrow> (CheckFailed_with (ErrRecompute e), h)
     | Inr recomputed \<Rightarrow>
         if recomputed \<noteq> op_PayloadHash op then
           (Refuse CodePayloadMismatch
              ''the stored mutation payload does not match the hash recorded at approval'', h)
         else
           (case call_up (mr_Plan runner (op_Plugin op) (op_Action op) (op_Params op)) h of
              (Inl e, h1) \<Rightarrow> (Refuse CodeUpstreamFailed ''the target could not be read before execution'', h1)
            | (Inr plan, h1) \<Rightarrow>
                (let drift = CheckDrift (op_Preconditions op) (pl_Preconditions plan);
                     raised = (case pl_RiskOverride plan of
                        None \<Rightarrow> op_Risk op | Some r \<Rightarrow> MaxRisk [op_Risk op, r])
                 in if drift = DriftDetected then
                      (Refuse CodePreconditionChanged
                         (''the target changed after this operation was approved, so applying it ''
                          @ ''would overwrite a change nobody reviewed''), h1)
                    else if AutoApproved op \<and> pl_RiskOverride plan \<noteq> None \<and> raised \<noteq> op_Risk op then
                      (Refuse CodeRiskRaised
                         (''rule '' @ op_AuthorizedByRule op @ '' authorised this as a '' @ risk_String (op_Risk op)
                          @ '' change and re-reading the target classified it '' @ risk_String raised
                          @ ''; nobody has seen it at that classification''), h1)
                    else (Proceed plan drift, h1))))"

definition exec_claim :: "environment \<Rightarrow> 's repository \<Rightarrow> executor_config \<Rightarrow> operation \<Rightarrow> DriftCheck
    \<Rightarrow> ('s, 'u) exec_host \<Rightarrow> (op_error + operation) \<times> string \<times> ('s, 'u) exec_host" where
  "exec_claim env repo cfg op drift h =
    (let (attemptID, h1) = AttemptID env h;
         (now, h2) = read_clock env h1;
         (aid, h3) = EventID env h2;
         (eid, h4) = EventID env h3;
         (res, h5) = call_repo (r_Claim repo
           \<lparr>cr_OperationID = op_ID op, cr_ExpectedHash = op_PayloadHash op, cr_InstanceID = cfg_InstanceID cfg,
            cr_LeaseExpiresAt = now + cfg_LeaseTTL cfg, cr_AttemptID = attemptID,
            cr_Audit = auditFor aid ''operation.executing'' op ''system:executor'' StateApproved StateExecuting
              [(''instance'', JStr (cfg_InstanceID cfg)), (''attempt'', JStr attemptID),
               (''drift'', JStr (DriftCheck_String drift)), (''verifiable'', JBool (op_Verifiable op)),
               (''assurance'', JStr (assurance_String (Assurance op)))],
            cr_Event = eventFor eid (subjectFor StateExecuting) op\<rparr>) h4
     in (res, attemptID, h5))"

definition Execute :: "environment \<Rightarrow> 's repository \<Rightarrow> ('u, 'h) mutation_runner \<Rightarrow> call_context
    \<Rightarrow> executor_config \<Rightarrow> string \<Rightarrow> ('s, 'u) exec_host \<Rightarrow> op_error option \<times> ('s, 'u) exec_host" where
  "Execute env repo runner ctx cfg operationID h =
    (if cx_Ended ctx 0 then (Some ErrContext, h)
     else case call_repo (r_Get repo operationID) h of
       (Inl e, h1) \<Rightarrow> (Some e, h1)
     | (Inr op, h1) \<Rightarrow>
         if op_State op \<noteq> StateApproved then (None, h1)
         else (case exec_check runner op h1 of
                 (CheckFailed_with e, h2) \<Rightarrow> (Some e, h2)
               | (Refuse code detail, h2) \<Rightarrow> settleFailure env repo op code detail h2
               | (Proceed plan drift, h2) \<Rightarrow>
                   (case exec_claim env repo cfg op drift h2 of
                      (Inl e, attemptID, h3) \<Rightarrow> if e = ErrClaimLost then (None, h3) else (Some e, h3)
                    | (Inr claimed, attemptID, h3) \<Rightarrow>
                        exec_apply env repo runner ctx cfg claimed attemptID plan (notify h3))))"

section \<open>Plugin code that panics\<close>

text \<open>
  A panic leaves an execution in the middle, at the call of plugin code it comes from; nothing in the
  executor recovers it. \<open>Execute_upto\<close> is the execution as far as that call, if it gets there: its
  re-plan, its \<open>Apply\<close>, or the observation after k others that did not agree (the wait before it is
  left out).
\<close>

datatype panic_point = AtPlan | AtApply | AtObserve nat

definition Execute_upto :: "environment \<Rightarrow> 's repository \<Rightarrow> ('u, 'h) mutation_runner \<Rightarrow> call_context
    \<Rightarrow> executor_config \<Rightarrow> panic_point \<Rightarrow> string \<Rightarrow> ('s, 'u) exec_host \<Rightarrow> ('s, 'u) exec_host option" where
  "Execute_upto env repo runner ctx cfg point operationID h =
    (if cx_Ended ctx 0 then None
     else case call_repo (r_Get repo operationID) h of
       (Inl e, h1) \<Rightarrow> None
     | (Inr op, h1) \<Rightarrow>
         if op_State op \<noteq> StateApproved then None
         else if point = AtPlan then (if Recompute op = Inr (op_PayloadHash op) then Some h1 else None)
         else (case exec_check runner op h1 of
                 (Proceed plan drift, h2) \<Rightarrow>
                   (case exec_claim env repo cfg op drift h2 of
                      (Inl e, attemptID, h3) \<Rightarrow> None
                    | (Inr claimed, attemptID, h3) \<Rightarrow>
                        (let h4 = (notify h3)\<lparr>x_writes := x_writes h3 @ [\<lparr>uw_OperationID = op_ID claimed,
                               uw_Plugin = op_Plugin claimed, uw_Action = op_Action claimed,
                               uw_Params = op_Params claimed\<rparr>]\<rparr>
                         in case point of
                              AtObserve k \<Rightarrow>
                                (case call_up (mr_Apply runner (op_Plugin claimed) (op_Action claimed)
                                         (op_Params claimed) plan) h4 of
                                   ((outcome, None), h5) \<Rightarrow>
                                     if \<not> op_Verifiable claimed \<or> nat (cfg_VerifyAttempts cfg) \<le> k then None
                                     else (case exec_verify runner ctx (cfg\<lparr>cfg_VerifyAttempts := int k\<rparr>) claimed plan h5 of
                                             ((observed, verified, e), h6) \<Rightarrow>
                                               if verified \<or> (\<exists>a\<in>{1..k}. cx_Ended ctx a) then None else Some h6)
                                 | ((outcome, Some e), h5) \<Rightarrow> None)
                            | _ \<Rightarrow> Some h4))
               | (_, h2) \<Rightarrow> None))"

end
