(* ===== verification/Reaper.thy ===== *)
theory Reaper
  imports Host
begin

text \<open>
  The deadline enforcer (\<open>internal/operations/reaper.go\<close>), over any repository. \<open>ended n\<close> says whether
  the context had ended before the n-th operation of a sweep; log lines are left out.
\<close>

definition expiryCode :: "op_state \<Rightarrow> string" where
  "expiryCode from = (if from = StateApproved then CodeApprovalExpired else CodeProposalExpired)"

definition expire :: "environment \<Rightarrow> 's repository \<Rightarrow> operation \<Rightarrow> string \<Rightarrow> ('s, 'm) host_scheme \<Rightarrow> ('s, 'm) host_scheme" where
  "expire env repo op reason h =
    (let (aid, h1) = EventID env h;
         (eid, h2) = EventID env h1;
         (res, h3) = call_repo (r_Transition repo
           \<lparr>tr_OperationID = op_ID op, tr_From = op_State op, tr_To = StateExpired, tr_Actor = ''system:reaper'',
            tr_Reason = reason,
            tr_Audit = auditFor aid ''operation.expired'' op ''system:reaper'' (op_State op) StateExpired
              [(''reason'', JStr reason)],
            tr_Event = eventFor eid (subjectFor StateExpired) op, tr_Approval = None, tr_Terminal = True,
            tr_ErrorCode = expiryCode (op_State op), tr_ErrorDetail = reason\<rparr>) h2
     in case res of Inl e \<Rightarrow> h3 | Inr stored \<Rightarrow> notify h3)"

definition reap_lease :: "environment \<Rightarrow> 's repository \<Rightarrow> operation \<Rightarrow> ('s, 'm) host_scheme \<Rightarrow> ('s, 'm) host_scheme" where
  "reap_lease env repo op h =
    (let (aid, h1) = EventID env h;
         (eid, h2) = EventID env h1;
         (res, h3) = call_repo (r_Settle repo
           \<lparr>sr_OperationID = op_ID op, sr_AttemptID = '''', sr_To = StateIndeterminate, sr_Actor = ''system:reaper'',
            sr_Reason = ''execution lease expired without settlement'', sr_Verified = None, sr_Observed = [],
            sr_UpstreamRef = '''', sr_ErrorCode = CodeLeaseExpired,
            sr_ErrorDetail = ''the worker holding this operation stopped before recording an outcome, ''
              @ ''so whether the change was applied is unknown'',
            sr_Audit = auditFor aid ''operation.indeterminate'' op ''system:reaper'' StateExecuting StateIndeterminate
              [(''lease_owner'', JStr (op_LeaseOwner op))],
            sr_Event = eventFor eid (subjectFor StateIndeterminate) op\<rparr>) h2
     in case res of
          Inl e \<Rightarrow> if e \<noteq> ErrStateConflict then h3 else notify h3
        | Inr stored \<Rightarrow> notify h3)"

definition reap :: "environment \<Rightarrow> 's repository \<Rightarrow> operation \<Rightarrow> ('s, 'm) host_scheme \<Rightarrow> ('s, 'm) host_scheme" where
  "reap env repo op h =
    (case op_State op of
       StatePendingApproval \<Rightarrow> expire env repo op ''the proposal expired before anyone approved it'' h
     | StateApproved \<Rightarrow> expire env repo op ''the approval expired before the change was applied'' h
     | StateExecuting \<Rightarrow> reap_lease env repo op h
     | _ \<Rightarrow> h)"

fun sweep_loop :: "environment \<Rightarrow> 's repository \<Rightarrow> (nat \<Rightarrow> bool) \<Rightarrow> nat \<Rightarrow> operation list
    \<Rightarrow> ('s, 'm) host_scheme \<Rightarrow> ('s, 'm) host_scheme" where
  "sweep_loop env repo ended n [] h = h"
| "sweep_loop env repo ended n (op # ops) h =
    (if ended n then h else sweep_loop env repo ended (Suc n) ops (reap env repo op h))"

definition sweep_batch :: int where "sweep_batch = 100"

definition Sweep :: "environment \<Rightarrow> 's repository \<Rightarrow> (nat \<Rightarrow> bool) \<Rightarrow> ('s, 'm) host_scheme \<Rightarrow> ('s, 'm) host_scheme" where
  "Sweep env repo ended h =
    (let (now, h1) = read_clock env h
     in case call_repo (r_DueForExpiry repo now sweep_batch) h1 of
          (Inl e, h2) \<Rightarrow> h2
        | (Inr due, h2) \<Rightarrow> sweep_loop env repo ended 0 due h2)"

end
