(* ===== verification/Lifecycle.thy ===== *)
theory Lifecycle
  imports Host
begin

text \<open>
  The life of an operation under the calls the service, the executor and the reaper make: what each of
  them promises of a call it issues, and what every store reached by such calls satisfies. A store is
  shared, so a component is met by the calls of others at every call of its own; the locale
  \<open>shared_store\<close> states what it relies on.
\<close>

section \<open>Calls a component may issue\<close>

definition audit_names :: "audit_entry \<Rightarrow> string \<Rightarrow> op_state \<Rightarrow> op_state \<Rightarrow> bool" where
  "audit_names a i from to \<longleftrightarrow> ae_OperationID a = i \<and> ae_FromState a = from \<and> ae_ToState a = to"

definition outcomes :: "op_state list" where
  "outcomes = [StateSucceeded, StateFailed, StateIndeterminate]"

fun well_asked :: "repo_call \<Rightarrow> bool" where
  "well_asked (DoPropose req) =
    (case pr_Operation req of
       None \<Rightarrow> False
     | Some op \<Rightarrow> op_State op = StatePendingApproval
         \<and> audit_names (pr_Audit req) (op_ID op) (StateOther '''') StatePendingApproval)"
| "well_asked (DoTransition req) =
    ((tr_From req, tr_To req) \<in> set asked_moves
     \<and> (tr_Approval req \<noteq> None) = (tr_To req = StateApproved)
     \<and> tr_Terminal req = IsTerminal (tr_To req)
     \<and> audit_names (tr_Audit req) (tr_OperationID req) (tr_From req) (tr_To req))"
| "well_asked (DoClaim req) = audit_names (cr_Audit req) (cr_OperationID req) StateApproved StateExecuting"
| "well_asked (DoSettle req) =
    (sr_To req \<in> set outcomes \<and> audit_names (sr_Audit req) (sr_OperationID req) StateExecuting (sr_To req))"

definition executed :: "string \<Rightarrow> database \<Rightarrow> bool" where
  "executed i db \<longleftrightarrow> list_ex (\<lambda>t. tn_to_state t = ''executing'') (history db i)"

text \<open>A settlement is asked only of an operation that has been executing.\<close>

definition lawful :: "repo_call \<Rightarrow> database \<Rightarrow> bool" where
  "lawful c db \<longleftrightarrow> well_asked c \<and> (case c of DoSettle req \<Rightarrow> executed (sr_OperationID req) db | _ \<Rightarrow> True)"

inductive reached :: "(string \<Rightarrow> bool) \<Rightarrow> database \<Rightarrow> bool" for jv where
  reached_empty: "reached jv empty_db"
| reached_call: "reached jv db \<Longrightarrow> lawful c db \<Longrightarrow> reached jv (snd (exec_call jv clk c db))"

text \<open>A series of calls, each lawful on the database it meets.\<close>

fun lawful_run :: "(string \<Rightarrow> bool) \<Rightarrow> ((nat \<Rightarrow> time) \<times> repo_call) list \<Rightarrow> database \<Rightarrow> bool" where
  "lawful_run jv [] db \<longleftrightarrow> True"
| "lawful_run jv ((clk, c) # cs) db \<longleftrightarrow> lawful c db \<and> lawful_run jv cs (snd (exec_call jv clk c db))"

lemma reached_lawful_run: "reached jv db \<Longrightarrow> lawful_run jv cs db \<Longrightarrow> reached jv (run_calls jv cs db)"
  by (induction jv cs db rule: lawful_run.induct) (simp_all add: reached_call)

lemma reached_ok: "reached jv db \<Longrightarrow> store_ok jv db"
  by (induction rule: reached.induct) (simp_all add: store_ok_empty store_ok_exec)

text \<open>Proposals that others commit around keep to it too.\<close>

lemma reached_amid:
  assumes "reached jv db" and "well_asked (DoPropose req)"
  shows "reached jv (snd (Propose_amid jv clk req seen later db))"
proof (rule proposal_amid_is_a_call [of jv clk req seen later db])
  fix clk'
  assume "snd (Propose_amid jv clk req seen later db) = snd (Propose jv clk' req db)"
  then show ?thesis
    using reached_call [OF assms(1), of "DoPropose req" clk'] assms(2) by (simp add: lawful_def)
qed (use assms(1) in simp)

section \<open>The life of an operation\<close>

text \<open>The states an operation may be recorded in, one after the other, as an automaton.\<close>

datatype phase = Unborn | Waiting | Ready | Started | Closed

definition past_execution :: "string list" where
  "past_execution = [''succeeded'', ''failed'', ''indeterminate'']"

fun next_phase :: "phase \<Rightarrow> string \<Rightarrow> phase option" where
  "next_phase Unborn t = (if t = ''pending_approval'' then Some Waiting else None)"
| "next_phase Waiting t =
    (if t = ''approved'' then Some Ready
     else if t \<in> {''rejected'', ''cancelled'', ''expired''} then Some Closed else None)"
| "next_phase Ready t =
    (if t = ''executing'' then Some Started
     else if t \<in> {''cancelled'', ''expired'', ''failed''} then Some Closed else None)"
| "next_phase Started t = (if t \<in> set past_execution then Some Started else None)"
| "next_phase Closed t = None"

fun phase_of :: "phase \<Rightarrow> string list \<Rightarrow> phase option" where
  "phase_of p [] = Some p"
| "phase_of p (t # ts) = (case next_phase p t of None \<Rightarrow> None | Some p' \<Rightarrow> phase_of p' ts)"

definition life :: "string list \<Rightarrow> bool" where
  "life ts \<longleftrightarrow> phase_of Unborn ts \<noteq> None"

definition states_of :: "database \<Rightarrow> string \<Rightarrow> string list" where
  "states_of db i = map tn_to_state (history db i)"

lemma executed_states: "executed i db \<longleftrightarrow> ''executing'' \<in> set (states_of db i)"
  by (force simp: executed_def states_of_def list_ex_iff)

lemma phase_of_snoc:
  "phase_of p (ts @ [t]) = (case phase_of p ts of None \<Rightarrow> None | Some p' \<Rightarrow> next_phase p' t)"
  by (induction ts arbitrary: p) (auto split: option.splits)

definition closing :: "string list" where
  "closing = [''rejected'', ''cancelled'', ''expired'', ''failed'']"

lemma next_phase_cases:
  assumes "next_phase q t = Some p"
  obtains (born) "q = Unborn" "p = Waiting" "t = ''pending_approval''"
  | (approve) "q = Waiting" "p = Ready" "t = ''approved''"
  | (close) "q = Waiting \<or> q = Ready" "p = Closed" "t \<in> set closing"
  | (start) "q = Ready" "p = Started" "t = ''executing''"
  | (settle) "q = Started" "p = Started" "t \<in> set past_execution"
  using assms by (cases q) (auto simp: closing_def split: if_splits)

lemma closing_not [simp]: "t \<in> set closing \<Longrightarrow> t \<noteq> ''executing'' \<and> t \<noteq> ''approved'' \<and> t \<noteq> ''pending_approval''"
  by (auto simp: closing_def)

lemma past_not [simp]: "t \<in> set past_execution \<Longrightarrow> t \<noteq> ''executing'' \<and> t \<noteq> ''approved'' \<and> t \<noteq> ''pending_approval''"
  by (auto simp: past_execution_def)

lemma count_snoc: "count_list (ts @ [t]) x = count_list ts x + (if t = x then 1 else 0)"
  by simp

definition phase_fact :: "phase \<Rightarrow> string list \<Rightarrow> bool" where
  "phase_fact p ts \<longleftrightarrow>
     (case p of
        Unborn \<Rightarrow> ts = []
      | Waiting \<Rightarrow> ts \<noteq> [] \<and> last ts = ''pending_approval''
      | Ready \<Rightarrow> ts \<noteq> [] \<and> last ts = ''approved''
      | Started \<Rightarrow> ts \<noteq> [] \<and> (last ts = ''executing'' \<or> last ts \<in> set past_execution)
      | Closed \<Rightarrow> ts \<noteq> [] \<and> last ts \<in> set closing)
     \<and> count_list ts ''executing'' = (if p = Started then 1 else 0)
     \<and> count_list ts ''approved'' \<le> (if p = Unborn \<or> p = Waiting then 0 else 1)"

lemma phase_facts: "phase_of Unborn ts = Some p \<Longrightarrow> phase_fact p ts"
proof (induction ts arbitrary: p rule: rev_induct)
  case Nil
  then show ?case by (auto simp: phase_fact_def)
next
  case (snoc t ts)
  then obtain q where q: "phase_of Unborn ts = Some q" "next_phase q t = Some p"
    by (auto simp: phase_of_snoc split: option.splits)
  note f = snoc.IH [OF q(1)]
  from q(2) show ?case
    by (cases rule: next_phase_cases) (use f in \<open>auto simp: phase_fact_def count_snoc simp del: count_list_append\<close>)
qed

lemma phase_prefix:
  "phase_of Unborn ts = Some p \<Longrightarrow>
     (p = Waiting \<longrightarrow> ts = [''pending_approval'']) \<and> (p = Ready \<longrightarrow> ts = [''pending_approval'', ''approved''])
     \<and> (p = Started \<longrightarrow> take 3 ts = [''pending_approval'', ''approved'', ''executing''])"
proof (induction ts arbitrary: p rule: rev_induct)
  case (snoc t ts)
  then obtain q where q: "phase_of Unborn ts = Some q" "next_phase q t = Some p"
    by (auto simp: phase_of_snoc split: option.splits)
  note IH = snoc.IH [OF q(1)]
  from q(2) show ?case
  proof (cases rule: next_phase_cases)
    case born
    then show ?thesis using phase_facts [OF q(1)] by (simp add: phase_fact_def)
  next
    case settle
    then have "take 3 ts = [''pending_approval'', ''approved'', ''executing'']" using IH by simp
    then have "length (take 3 ts) = 3" by simp
    then have "3 \<le> length ts" by simp
    with settle IH show ?thesis by simp
  qed (use IH in simp_all)
qed simp

lemma phase_by_last:
  assumes p: "phase_of Unborn ts = Some p" and ne: "ts \<noteq> []"
  shows "last ts = ''pending_approval'' \<Longrightarrow> p = Waiting" and "last ts = ''approved'' \<Longrightarrow> p = Ready"
    and "''executing'' \<in> set ts \<Longrightarrow> p = Started"
proof -
  note f = phase_facts [OF p]
  show "last ts = ''pending_approval'' \<Longrightarrow> p = Waiting" "last ts = ''approved'' \<Longrightarrow> p = Ready"
    using f ne closing_not [of "last ts"] past_not [of "last ts"] by (cases p; auto simp: phase_fact_def)+
  assume "''executing'' \<in> set ts"
  then have "count_list ts ''executing'' \<noteq> 0" by (simp add: count_list_0_iff)
  with f show "p = Started" by (auto simp: phase_fact_def split: if_splits)
qed

lemma life_snoc:
  assumes lf: "life ts" and ne: "ts \<noteq> []"
    and "(last ts = ''pending_approval'' \<and> t \<in> {''approved'', ''rejected'', ''cancelled'', ''expired''})
      \<or> (last ts = ''approved'' \<and> t \<in> {''executing'', ''cancelled'', ''expired'', ''failed''})
      \<or> (''executing'' \<in> set ts \<and> t \<in> set past_execution)"
  shows "life (ts @ [t])"
proof -
  obtain p where p: "phase_of Unborn ts = Some p" using lf by (auto simp: life_def)
  note by_last = phase_by_last [OF p ne]
  have step: "life (ts @ [t]) \<longleftrightarrow> next_phase p t \<noteq> None" by (simp add: life_def phase_of_snoc p)
  from assms(3) show ?thesis
    unfolding step
    by (elim disjE conjE) (use by_last in auto)
qed

lemma life_not_draft: "life ts \<Longrightarrow> ts \<noteq> [] \<Longrightarrow> last ts \<noteq> ''draft''"
proof -
  assume "life ts" "ts \<noteq> []"
  then obtain p where "phase_of Unborn ts = Some p" by (auto simp: life_def)
  from phase_facts [OF this] \<open>ts \<noteq> []\<close> show "last ts \<noteq> ''draft''"
    by (cases p) (auto simp: phase_fact_def closing_def past_execution_def)
qed

lemma asked_states:
  "(f, t) \<in> set asked_moves \<Longrightarrow> state_String f \<noteq> ''draft'' \<Longrightarrow>
    (state_String f = ''pending_approval'' \<and> state_String t \<in> {''approved'', ''rejected'', ''cancelled'', ''expired''})
    \<or> (state_String f = ''approved'' \<and> state_String t \<in> {''executing'', ''cancelled'', ''expired'', ''failed''})"
  by (auto simp: asked_moves_def)

lemma history_append:
  "db_transitions db' = db_transitions db @ [t] \<Longrightarrow>
    states_of db' i = states_of db i @ (if tn_operation_id t = i then [tn_to_state t] else [])"
  by (simp add: history_def states_of_def)

lemma replay_last: "replay s ts = Some (Some x) \<Longrightarrow> ts \<noteq> [] \<Longrightarrow> tn_to_state (last ts) = x"
  by (induction ts arbitrary: s) (auto split: if_splits)

lemma states_last:
  assumes ok: "store_ok jv db" and r: "find_op i db = Some r"
  shows "states_of db i \<noteq> [] \<and> last (states_of db i) = c_state r"
proof -
  have mem: "r \<in> set (db_operations db)" "c_id r = i" using find_op_in [OF r] by auto
  then have rp: "replay None (history db i) = Some (Some (c_state r))" using ok by (auto simp: store_ok_def)
  then have "history db i \<noteq> []" by auto
  with replay_last [OF rp] show ?thesis by (simp add: states_of_def last_map)
qed

lemma states_none:
  assumes ok: "store_ok jv db" and "find_op i db = None"
  shows "states_of db i = []"
  using assms by (auto simp: states_of_def history_def store_ok_def find_op_None filter_empty_conv)

lemma lawful_step:
  assumes ok: "store_ok jv db" and tx: "call_tx jv clk c db = Inr db'" and law: "lawful c db"
    and lf: "\<And>i. life (states_of db i)"
  shows "life (states_of db' i)"
proof -
  obtain t where t: "db_transitions db' = db_transitions db @ [t]" "tn_operation_id t = call_op c"
      "tn_to_state t = call_target c" "tn_from_state t = map_option c_state (find_op (call_op c) db)"
    using call_tx_records [OF ok tx] by (auto simp: recorded_def)
  show ?thesis
  proof (cases "i = call_op c")
    case False
    then show ?thesis using history_append [OF t(1)] lf t(2) by simp
  next
    case True
    have app: "states_of db' i = states_of db i @ [call_target c]"
      using history_append [OF t(1)] t(2,3) True by simp
    show ?thesis
      using call_tx_effect [OF ok tx]
    proof
      assume "\<exists>req op. c = DoPropose req \<and> pr_Operation req = Some op \<and> op_ID op \<notin> set (op_ids db)
        \<and> db_operations db' = db_operations db @ [row_of_operation op]"
      then obtain req op where c: "c = DoPropose req" "pr_Operation req = Some op" "op_ID op \<notin> set (op_ids db)"
        by blast
      then have "states_of db i = []" using True states_none [OF ok] by (simp add: find_op_None)
      moreover have "call_target c = ''pending_approval''" using c law by (simp add: lawful_def)
      ultimately show ?thesis using app by (simp add: life_def)
    next
      assume "\<not> is_propose c \<and> (\<exists>old. find_op (call_op c) db = Some old \<and> call_guard clk c old
          \<and> row_refused jv (call_sets clk c) old = None)
        \<and> (\<forall>j. find_op j db' = map_option (\<lambda>r. if j = call_op c then assign_all (call_sets clk c) r else r)
              (find_op j db))"
      then obtain old where np: "\<not> is_propose c" and old: "find_op i db = Some old" "call_guard clk c old"
        using True by blast
      note st = states_last [OF ok old(1)]
      show ?thesis
        unfolding app
      proof (rule life_snoc [OF lf])
        show "states_of db i \<noteq> []" using st by simp
        show "(last (states_of db i) = ''pending_approval'' \<and> call_target c \<in> {''approved'', ''rejected'', ''cancelled'', ''expired''})
          \<or> (last (states_of db i) = ''approved'' \<and> call_target c \<in> {''executing'', ''cancelled'', ''expired'', ''failed''})
          \<or> (''executing'' \<in> set (states_of db i) \<and> call_target c \<in> set past_execution)"
        proof (cases c)
          case (DoTransition req)
          have frm: "state_String (tr_From req) = last (states_of db i)"
            using old(2) st DoTransition by simp
          have "(tr_From req, tr_To req) \<in> set asked_moves" using law DoTransition by (simp add: lawful_def)
          from asked_states [OF this] show ?thesis
            using life_not_draft [OF lf conjunct1 [OF st]] unfolding frm DoTransition by auto
        next
          case (DoClaim req)
          then show ?thesis using old(2) st by (simp add: claimable_row_def)
        next
          case (DoSettle req)
          then have "state_String (sr_To req) \<in> set past_execution"
            using law by (auto simp: lawful_def outcomes_def past_execution_def)
          moreover have "''executing'' \<in> set (states_of db i)"
            using law DoSettle True by (simp add: lawful_def executed_states)
          ultimately show ?thesis using DoSettle by simp
        qed (use np in simp)
      qed
    qed
  qed
qed

lemma reached_life: "reached jv db \<Longrightarrow> life (states_of db i)"
proof (induction arbitrary: i rule: reached.induct)
  case reached_empty
  then show ?case by (simp add: states_of_def history_def empty_db_def life_def)
next
  case (reached_call db c clk)
  note ok = reached_ok [OF reached_call.hyps(1)]
  show ?case
    using exec_call_effect [OF ok, of clk c]
  proof
    assume "snd (exec_call jv clk c db) = db"
    then show ?thesis using reached_call.IH by simp
  next
    assume "call_tx jv clk c db = Inr (snd (exec_call jv clk c db))"
    then show ?thesis by (rule lawful_step [OF ok _ reached_call.hyps(2) reached_call.IH])
  qed
qed

lemma life_executed:
  assumes "life ts" and "''executing'' \<in> set ts"
  shows "take 3 ts = [''pending_approval'', ''approved'', ''executing'']"
proof -
  obtain p where p: "phase_of Unborn ts = Some p" using assms(1) by (auto simp: life_def)
  have "p = Started" by (rule phase_by_last(3) [OF p]) (use assms(2) in auto)
  then show ?thesis using phase_prefix [OF p] by simp
qed

lemma life_counts:
  assumes "life ts"
  shows "count_list ts ''executing'' \<le> 1" and "count_list ts ''approved'' \<le> 1"
proof -
  obtain p where "phase_of Unborn ts = Some p" using assms by (auto simp: life_def)
  from phase_facts [OF this] show "count_list ts ''executing'' \<le> 1" "count_list ts ''approved'' \<le> 1"
    by (auto simp: phase_fact_def split: if_splits)
qed

text \<open>
  C3. An operation lives once. In every store that the calls of the components reach, in whatever
  order they commit and whatever each of them had read before: the recorded states of each operation
  are a run of the life cycle that ends in its state, it is approved at most once and executing at most
  once in its whole history, and an operation that ever ran was first recorded as pending, then as
  approved, and went from approved straight to executing.
\<close>
theorem operations_live_once:
  assumes "reached jv db"
  shows "list_all (\<lambda>r. let ts = states_of db (c_id r) in
      life ts \<and> last ts = c_state r
      \<and> count_list ts ''approved'' \<le> 1 \<and> count_list ts ''executing'' \<le> 1
      \<and> (if ''executing'' \<in> set ts then take 3 ts = [''pending_approval'', ''approved'', ''executing''] else True))
    (db_operations db)"
proof -
  note ok = reached_ok [OF assms] and lf = reached_life [OF assms]
  show ?thesis
    using states_last [OF ok find_op_unique [OF store_ok_distinct [OF ok]]] lf life_counts [OF lf]
      life_executed [OF lf]
    by (simp add: list_all_iff Let_def)
qed

theorem operations_live_once_witness:
  "let db = snd (Propose (\<lambda>s. True) (\<lambda>i. 0) sample_request empty_db) in
     db \<noteq> empty_db \<and> list_all (\<lambda>r. life (states_of db (c_id r)) \<and> last (states_of db (c_id r)) = c_state r)
       (db_operations db)"
proof -
  let ?db = "snd (Propose (\<lambda>s. True) (\<lambda>i. 0) sample_request empty_db)"
  have law: "lawful (DoPropose sample_request) empty_db"
    by (simp add: lawful_def sample_request_def sample_proposal_def audit_names_def sample_audit_def)
  have "reached (\<lambda>s. True) (snd (exec_call (\<lambda>s. True) (\<lambda>i. 0) (DoPropose sample_request) empty_db))"
    by (rule reached_call [OF reached_empty law])
  then show ?thesis
    using operations_live_once [of "\<lambda>s. True" ?db] sample_request_stored
    by (simp add: Let_def list_all_iff)
qed

section \<open>What has been stays recorded\<close>

lemma exec_transitions:
  "store_ok jv db \<Longrightarrow> \<exists>ts. db_transitions (snd (exec_call jv clk c db)) = db_transitions db @ ts"
  using exec_call_effect [of jv db clk c] call_tx_records [of jv db clk c]
  by (fastforce simp: recorded_def)

lemma run_transitions:
  "store_ok jv db \<Longrightarrow> \<exists>ts. db_transitions (run_calls jv cs db) = db_transitions db @ ts"
proof (induction cs arbitrary: db)
  case (Cons x cs)
  obtain clk c where x: "x = (clk, c)" by fastforce
  obtain ts where ts: "db_transitions (snd (exec_call jv clk c db)) = db_transitions db @ ts"
    using exec_transitions [OF Cons.prems] by blast
  show ?case
    using Cons.IH [OF store_ok_exec [OF Cons.prems, of clk c]] ts by (auto simp: x)
qed simp

lemma executed_run: "store_ok jv db \<Longrightarrow> executed i db \<Longrightarrow> executed i (run_calls jv cs db)"
  using run_transitions [of jv db cs] by (auto simp: executed_def history_def)

lemma executed_exec: "store_ok jv db \<Longrightarrow> executed i db \<Longrightarrow> executed i (snd (exec_call jv clk c db))"
  using exec_transitions [of jv db clk c] by (auto simp: executed_def history_def)

lemma executing_executed:
  "store_ok jv db \<Longrightarrow> find_op i db = Some r \<Longrightarrow> c_state r = ''executing'' \<Longrightarrow> executed i db"
  using states_last [of jv db i r] by (metis executed_states last_in_set)

lemma scanOperation_id: "scanOperation r = Inr op \<Longrightarrow> op_ID op = c_id r"
  by (auto simp: scanOperation_def Let_def split: option.splits if_splits)

lemma scanOperation_state: "scanOperation r = Inr op \<Longrightarrow> op_State op = state_of_string (c_state r)"
  by (auto simp: scanOperation_def Let_def split: option.splits if_splits)

lemma Get_id: "Get i db = Inr op \<Longrightarrow> op_ID op = i"
  by (auto simp: Get_def split: option.splits dest!: scanOperation_id find_op_in)

lemma claim_result:
  assumes ok: "store_ok jv db" and res: "Claim jv clk req db = (Inr op, db')"
  shows "op_ID op = cr_OperationID req \<and> executed (cr_OperationID req) db'"
proof -
  have tx: "call_tx jv clk (DoClaim req) db = Inr db'" and g: "Get (cr_OperationID req) db' = Inr op"
    using res by (auto simp: Claim_def WriteTx_def split: sum.splits prod.splits)
  have "executed (cr_OperationID req) db'"
    using call_tx_records [OF ok tx] by (auto simp: recorded_def executed_def history_def)
  then show ?thesis using Get_id [OF g] by simp
qed

section \<open>A shared store\<close>

text \<open>
  What a component relies on: whatever the others do between its calls, they issue lawful calls, so
  that the store stays one that lawful calls reach.
\<close>

locale shared_store =
  fixes jv :: "string \<Rightarrow> bool" and others :: rival_calls and clk :: "nat \<Rightarrow> nat \<Rightarrow> time"
  assumes rely: "reached jv db \<Longrightarrow> reached jv (run_calls jv (others n) db)"
begin

lemma read_keeps:
  assumes "sql_read jv others f s = (x, s')" and "reached jv (ss_db s)"
  shows "reached jv (ss_db s') \<and> x = f (ss_db s')"
  using assms rely by (auto simp: sql_read_def Let_def)

lemma write_keeps:
  assumes "sql_write jv others clk c s = (x, s')" and "reached jv (ss_db s)"
    and "lawful c (run_calls jv (others (ss_calls s)) (ss_db s))"
  shows "reached jv (ss_db s')"
  using assms(1) reached_call [OF rely [OF assms(2)] assms(3), of "clk (ss_calls s)"]
  by (auto simp: sql_write_def Let_def split: prod.splits)

lemma executed_read:
  assumes "sql_read jv others f s = (x, s')" and "reached jv (ss_db s)" and "executed i (ss_db s)"
  shows "executed i (ss_db s')"
  using assms executed_run [OF reached_ok] by (auto simp: sql_read_def Let_def)

lemma executed_write:
  assumes "sql_write jv others clk c s = (x, s')" and "reached jv (ss_db s)" and "executed i (ss_db s)"
  shows "executed i (ss_db s')"
proof -
  let ?db = "run_calls jv (others (ss_calls s)) (ss_db s)"
  have "executed i (snd (exec_call jv (clk (ss_calls s)) c ?db))"
    using executed_exec [OF reached_ok [OF rely [OF assms(2)]] executed_run [OF reached_ok [OF assms(2)] assms(3)]] .
  then show ?thesis using assms(1) by (auto simp: sql_write_def Let_def split: prod.splits)
qed

lemma settle_lawful:
  assumes "reached jv (ss_db s)" and "executed (sr_OperationID req) (ss_db s)" and "well_asked (DoSettle req)"
  shows "lawful (DoSettle req) (run_calls jv (others n) (ss_db s))"
  using assms executed_run [OF reached_ok] by (simp add: lawful_def)

lemma claim_executes:
  assumes "sql_write jv others clk (DoClaim req) s = (Inr op, s')" and "reached jv (ss_db s)"
  shows "op_ID op = cr_OperationID req \<and> executed (cr_OperationID req) (ss_db s')"
  using assms claim_result [OF reached_ok [OF rely [OF assms(2)]]]
  by (auto simp: sql_write_def Let_def split: prod.splits)

end

text \<open>
  Services, reapers and executors that claim satisfy it: any schedule of well asked calls other than
  settlements. (A settlement is lawful too, for an operation that has been executing.)
\<close>

fun is_settle :: "repo_call \<Rightarrow> bool" where
  "is_settle (DoSettle _) = True"
| "is_settle _ = False"

definition deciders :: "rival_calls \<Rightarrow> rival_calls" where
  "deciders others n = filter (\<lambda>(clk, c). well_asked c \<and> \<not> is_settle c) (others n)"

lemma reached_run:
  "list_all (\<lambda>(clk, c). well_asked c \<and> \<not> is_settle c) cs \<Longrightarrow> reached jv db \<Longrightarrow> reached jv (run_calls jv cs db)"
proof (induction cs arbitrary: db)
  case (Cons x cs)
  obtain clk c where x: "x = (clk, c)" by fastforce
  have "lawful c db" using Cons.prems x by (cases c) (simp_all add: lawful_def)
  then show ?case
    using Cons.IH [OF _ reached_call [OF Cons.prems(2)]] Cons.prems(1) by (simp add: x)
qed simp

interpretation deciding: shared_store jv "deciders others" clk for jv others clk
proof
  fix db n
  assume "reached jv db"
  then show "reached jv (run_calls jv (deciders others n) db)"
    by (rule reached_run [rotated]) (simp add: deciders_def list_all_iff)
qed

end
