(* ===== verification/Workflow.thy ===== *)
theory Workflow
  imports Service Executor Reaper Lifecycle
begin

text \<open>
  The components on one store. Each of them keeps the rules every other relies on, so whatever they do
  together, and however their calls interleave, the store is one that lawful calls reach. There a claim
  has one winner for good, and an operation is written upstream at most once.
\<close>

section \<open>What every component keeps\<close>

definition sound :: "(string \<Rightarrow> bool) \<Rightarrow> (sql_state, 'm) host_scheme \<Rightarrow> bool" where
  "sound jv h \<longleftrightarrow> reached jv (ss_db (h_store h))"

lemmas host_defs = read_clock_def read_policy_def draw_ulid_def OperationID_def EventID_def AttemptID_def
  notify_def svc_audit_def svc_event_def

lemma sqlite_sel [simp]:
  "r_Propose (sqlite jv others clk) req = sql_write jv others clk (DoPropose req)"
  "r_Get (sqlite jv others clk) i = sql_read jv others (Get i)"
  "r_List (sqlite jv others clk) f = sql_read jv others (List_ops f)"
  "r_Transition (sqlite jv others clk) treq = sql_write jv others clk (DoTransition treq)"
  "r_Claim (sqlite jv others clk) creq = sql_write jv others clk (DoClaim creq)"
  "r_Settle (sqlite jv others clk) sreq = sql_write jv others clk (DoSettle sreq)"
  "r_DueForExpiry (sqlite jv others clk) now n = sql_read jv others (DueForExpiry now n)"
  by (simp_all add: sqlite_def)

lemma Validate_approve_pending:
  "Validate (Some op) StateApproved TriggerApprove gc = None \<Longrightarrow> op_State op = StatePendingApproval"
  by (auto simp: Validate_def transition_table_def row_def split: if_splits)

lemma Validate_cancel_from:
  "Validate (Some op) StateCancelled TriggerCancel gc = None \<Longrightarrow> (op_State op, StateCancelled) \<in> set asked_moves"
  by (auto simp: Validate_def transition_table_def row_def asked_moves_def split: if_splits)

lemma audit_names_For [simp]: "audit_names (auditFor i k op actor f t d) j f' t' \<longleftrightarrow> op_ID op = j \<and> f = f' \<and> t = t'"
  by (auto simp: audit_names_def auditFor_def)

text \<open>An operation read as executing has been executing.\<close>

definition seen_running :: "operation \<Rightarrow> database \<Rightarrow> bool" where
  "seen_running op db \<longleftrightarrow> (op_State op = StateExecuting \<longrightarrow> executed (op_ID op) db)"

lemma scanOperations_rows:
  "scanOperations rs = Inr ops \<Longrightarrow> op \<in> set ops \<Longrightarrow> \<exists>r\<in>set rs. scanOperation r = Inr op"
  by (induction rs arbitrary: ops) (auto simp: and_then_Inr)

lemma DueForExpiry_seen:
  assumes ok: "store_ok jv db" and due: "DueForExpiry now n db = Inr ops" and op: "op \<in> set ops"
  shows "seen_running op db"
proof -
  obtain r where r: "r \<in> set (db_operations db)" "scanOperation r = Inr op"
    using scanOperations_rows [OF due [unfolded DueForExpiry_def Let_def] op]
    by (auto dest!: in_set_takeD)
  have "c_state r = ''executing''" if "op_State op = StateExecuting"
    using scanOperation_state [OF r(2)] that by (metis state_String.simps(4) state_String_of_string)
  then show ?thesis
    using executing_executed [OF ok find_op_unique [OF store_ok_distinct [OF ok] r(1)]] scanOperation_id [OF r(2)]
    by (simp add: seen_running_def)
qed

lemma sound_cases:
  "sound jv (snd a) \<Longrightarrow> sound jv (snd b) \<Longrightarrow> sound jv (snd (if c then a else b))"
  "(\<And>e. sound jv (snd (f e))) \<Longrightarrow> (\<And>y. sound jv (snd (g y))) \<Longrightarrow> sound jv (snd (case x of Inl e \<Rightarrow> f e | Inr y \<Rightarrow> g y))"
  "sound jv (snd n) \<Longrightarrow> (\<And>y. sound jv (snd (s y))) \<Longrightarrow> sound jv (snd (case o' of None \<Rightarrow> n | Some y \<Rightarrow> s y))"
  by (simp_all split: sum.split option.split)
lemma call_up_store: "call_up f h = (x, h') \<Longrightarrow> h_store h' = h_store h"
  by (auto simp: call_up_def split: prod.splits)

lemma verify_store: "h_store (snd (verify_attempts runner ctx cfg op d a n b obs e h)) = h_store h"
proof (induction n arbitrary: a b obs e h)
  case (Suc n)
  define h1 where "h1 = (if a > 0 then h\<lparr>x_waits := x_waits h @ [b]\<rparr> else h)"
  obtain res h2 where r: "call_up (mr_Observe runner (op_Plugin op) (op_Action op) (op_Params op)) h1 = (res, h2)"
    by fastforce
  have st: "h_store h2 = h_store h" using call_up_store [OF r] by (simp add: h1_def)
  show ?case
    using Suc.IH st r by (cases res) (simp_all add: Let_def h1_def [symmetric], simp_all add: h1_def)
qed simp

lemma exec_check_store: "exec_check runner op h = (x, h') \<Longrightarrow> h_store h' = h_store h"
  by (auto simp: exec_check_def Let_def split: sum.splits if_splits prod.splits dest: call_up_store)

context shared_store
begin

lemma call_read:
  "call_repo (sql_read jv others f) h = (x, h') \<Longrightarrow> sound jv h \<Longrightarrow> sound jv h'"
  by (auto simp: call_repo_def sound_def split: prod.splits dest: read_keeps)

lemma call_write:
  "call_repo (sql_write jv others clk c) h = (x, h') \<Longrightarrow> sound jv h \<Longrightarrow> well_asked c \<Longrightarrow> \<not> is_settle c \<Longrightarrow> sound jv h'"
  by (cases c) (auto simp: call_repo_def sound_def lawful_def split: prod.splits dest!: write_keeps)

lemma sound_host [simp]:
  "sound jv (h\<lparr>h_now := a\<rparr>) = sound jv h" "sound jv (h\<lparr>h_ids := b\<rparr>) = sound jv h"
  "sound jv (h\<lparr>h_policy := c\<rparr>) = sound jv h" "sound jv (h\<lparr>h_woken := d\<rparr>) = sound jv h"
  by (simp_all add: sound_def)

lemma approve_keeps: "sound jv h \<Longrightarrow> sound jv (snd (svc_approve env (sqlite jv others clk) po op reason ch h))"
  by (auto simp: svc_approve_def host_defs Let_def asked_moves_def split: option.splits sum.splits prod.splits
      dest!: call_write)

lemma Approve_keeps: "sound jv h \<Longrightarrow> sound jv (snd (svc_Approve env (sqlite jv others clk) po i reason h))"
  by (auto simp: svc_Approve_def approve_keeps split: prod.splits sum.splits dest!: call_read)

lemma ApproveInline_keeps: "sound jv h \<Longrightarrow> sound jv (snd (ApproveInline env (sqlite jv others clk) po i h))"
  by (auto simp: ApproveInline_def read_policy_def approve_keeps split: prod.splits sum.splits dest!: call_read)

lemma Reject_keeps: "sound jv h \<Longrightarrow> sound jv (snd (svc_Reject env (sqlite jv others clk) po i reason h))"
  by (auto simp: svc_Reject_def host_defs Let_def asked_moves_def split: option.splits sum.splits prod.splits
      dest!: call_read call_write intro: Get_id)

lemma Cancel_keeps: "sound jv h \<Longrightarrow> sound jv (snd (svc_Cancel env (sqlite jv others clk) po i reason h))"
  by (auto simp: svc_Cancel_def host_defs Let_def split: option.splits sum.splits prod.splits
      dest!: call_read call_write Validate_cancel_from)

lemma autoApprove_keeps:
  "sound jv h \<Longrightarrow> sound jv (snd (autoApprove env (sqlite jv others clk) op rv h))"
  by (auto simp: autoApprove_def host_defs Let_def asked_moves_def split: option.splits sum.splits prod.splits
      dest!: call_read call_write)

lemma autoApprove_eq:
  "autoApprove env (sqlite jv others clk) op rv h = (op', h') \<Longrightarrow> sound jv h \<Longrightarrow> sound jv h'"
  using autoApprove_keeps [of h env op rv] by simp

lemma propose_tail:
  assumes "sound jv h" and "well_asked (DoPropose req)"
  shows "sound jv (snd (case call_repo (sql_write jv others clk (DoPropose req)) h of
      (res, h8) \<Rightarrow> case res of Inl e \<Rightarrow> (Inl e, h8)
        | Inr stored \<Rightarrow> (case autoApprove env (sqlite jv others clk) stored rv (h8\<lparr>h_woken := w h8\<rparr>) of
            (op', h9) \<Rightarrow> (Inr op', h9))))"
  using assms by (auto split: prod.split sum.split dest!: call_write autoApprove_eq)

lemma Propose_keeps: "sound jv h \<Longrightarrow> sound jv (snd (svc_Propose env (sqlite jv others clk) po req h))"
  unfolding svc_Propose_def Let_def host_defs case_prod_conv proposed_operation_def sqlite_sel
  by (intro sound_cases propose_tail) simp_all
lemma svc_Get_keeps: "sound jv h \<Longrightarrow> sound jv (snd (svc_Get (sqlite jv others clk) po i h))"
  by (auto simp: svc_Get_def split: prod.splits sum.splits dest!: call_read)

lemma svc_List_keeps: "sound jv h \<Longrightarrow> sound jv (snd (svc_List (sqlite jv others clk) po plugin states n h))"
  using call_read [of "List_ops \<lparr>lf_Plugin = plugin, lf_States = states, lf_Limit = n, lf_Offset = 0\<rparr>" h]
  by (auto simp: svc_List_def Let_def) (metis prod.collapse)

lemma Await_loop_keeps: "sound jv h \<Longrightarrow> sound jv (snd (AwaitOutcome_loop (sqlite jv others clk) i n prev h))"
proof (induction n arbitrary: prev h)
  case 0
  then show ?case
    by (subst AwaitOutcome_loop.simps)
       (auto simp del: AwaitOutcome_loop.simps split: prod.splits sum.splits dest!: call_read)
next
  case (Suc n)
  then show ?case
    by (subst AwaitOutcome_loop.simps)
       (auto simp del: AwaitOutcome_loop.simps split: prod.splits sum.splits dest!: call_read)
qed

lemma call_settle:
  assumes "call_repo (sql_write jv others clk (DoSettle req)) h = (x, h')" and "sound jv h"
    and "executed (sr_OperationID req) (ss_db (h_store h))" and "well_asked (DoSettle req)"
  shows "sound jv h'"
  using assms settle_lawful [of "h_store h" req "ss_calls (h_store h)"]
  by (auto simp: call_repo_def sound_def split: prod.splits dest!: write_keeps)

lemma settle_keeps:
  assumes "sound jv h" and "executed (op_ID op) (ss_db (h_store h))" and "to \<in> set outcomes"
  shows "sound jv (snd (exec_settle env (sqlite jv others clk) op att to obs ver ref code detail h))"
  using assms
  by (auto simp: exec_settle_def host_defs Let_def split: sum.splits prod.splits dest!: call_settle)

lemma settleFailure_keeps:
  "sound jv h \<Longrightarrow> sound jv (snd (settleFailure env (sqlite jv others clk) op code detail h))"
  by (auto simp: settleFailure_def host_defs Let_def asked_moves_def split: sum.splits prod.splits dest!: call_write)

lemma exec_apply_keeps:
  assumes s: "sound jv h" and ex: "executed (op_ID op) (ss_db (h_store h))"
  shows "sound jv (snd (exec_apply env (sqlite jv others clk) runner ctx cfg op att plan h))"
proof -
  have keep: "sound jv (snd (exec_settle env (sqlite jv others clk) op att to obs ver ref code detail h'))"
    if "h_store h' = h_store h" "to \<in> set outcomes" for h' :: "(sql_state, 'a) exec_host" and to obs ver ref code detail
    using that s ex by (intro settle_keeps) (simp_all add: sound_def)
  have v: "h_store h2 = h_store h1" if "exec_verify runner ctx cfg op plan h1 = (x, h2)"
    for x and h1 h2 :: "(sql_state, 'a) exec_host"
    using that verify_store [of runner ctx cfg op] unfolding exec_verify_def Let_def by (metis snd_conv)
  show ?thesis
    by (auto simp: exec_apply_def Let_def outcomes_def split: prod.splits option.splits run_error.splits
        intro!: keep dest!: call_up_store v)
qed

lemma exec_claim_keeps:
  assumes "exec_claim env (sqlite jv others clk) cfg op drift h = (res, att, h')" and "sound jv h"
  shows "sound jv h' \<and> (\<forall>claimed. res = Inr claimed \<longrightarrow> op_ID claimed = op_ID op \<and> executed (op_ID op) (ss_db (h_store h')))"
  using assms
  by (auto simp: exec_claim_def host_defs Let_def call_repo_def sound_def split: prod.splits
      dest: claim_executes write_keeps [where c = "DoClaim _"] simp: lawful_def)

lemma Execute_keeps:
  assumes "sound jv h"
  shows "sound jv (snd (Execute env (sqlite jv others clk) runner ctx cfg i h))"
proof -
  have chk: "sound jv h2" if "exec_check runner op h1 = (x, h2)" "sound jv h1"
    for op x and h1 h2 :: "(sql_state, 'a) exec_host"
    using that exec_check_store [OF that(1)] by (simp add: sound_def)
  have app: "sound jv (snd (exec_apply env (sqlite jv others clk) runner ctx cfg claimed att plan (notify h3)))"
    if "exec_claim env (sqlite jv others clk) cfg op drift h2 = (Inr claimed, att, h3)" "sound jv h2"
    for op drift claimed att plan and h2 h3 :: "(sql_state, 'a) exec_host"
    using exec_claim_keeps [OF that] by (intro exec_apply_keeps) (simp_all add: notify_def)
  show ?thesis
    using assms
    by (auto simp: Execute_def split: prod.splits sum.splits checked.splits
        dest!: call_read chk intro!: settleFailure_keeps app dest: exec_claim_keeps)
qed

text \<open>Also an execution that a panic of plugin code cuts short.\<close>

lemma Execute_upto_keeps:
  assumes "sound jv h" and "Execute_upto env (sqlite jv others clk) runner ctx cfg point i h = Some h'"
  shows "sound jv h'"
proof -
  have same: "sound jv h2" if "h_store h2 = h_store h1" "sound jv h1" for h1 h2 :: "(sql_state, 'a) exec_host"
    using that by (simp add: sound_def)
  have chk: "sound jv h2" if "exec_check runner op h1 = (x, h2)" "sound jv h1"
    for op x and h1 h2 :: "(sql_state, 'a) exec_host"
    using same [OF exec_check_store [OF that(1)] that(2)] .
  have v: "h_store h2 = h_store h1" if "exec_verify runner ctx cfg' op plan h1 = (x, h2)"
    for x cfg' op plan and h1 h2 :: "(sql_state, 'a) exec_host"
    using that verify_store [of runner ctx cfg' op] unfolding exec_verify_def Let_def by (metis snd_conv)
  have claim: "sound jv h4" if "exec_claim env (sqlite jv others clk) cfg op drift h2 = (Inr claimed, att, h3)" "sound jv h2"
      "h_store h4 = h_store h3" for op drift claimed att and h2 h3 h4 :: "(sql_state, 'a) exec_host"
    using same [OF that(3)] exec_claim_keeps [OF that(1,2)] by auto
  show ?thesis
    using assms
    by (auto simp: Execute_upto_def Let_def notify_def split: if_splits prod.splits sum.splits checked.splits
        panic_point.splits option.splits dest!: call_read chk v call_up_store intro: claim)
qed

lemma expire_keeps:
  assumes "sound jv h" and "(op_State op, StateExpired) \<in> set asked_moves"
  shows "sound jv (expire env (sqlite jv others clk) op reason h)"
  using assms by (auto simp: expire_def host_defs Let_def split: sum.splits prod.splits dest!: call_write)

lemma reap_lease_keeps:
  assumes "sound jv h" and "executed (op_ID op) (ss_db (h_store h))"
  shows "sound jv (reap_lease env (sqlite jv others clk) op h)"
  using assms
  by (auto simp: reap_lease_def host_defs Let_def outcomes_def split: sum.splits prod.splits dest!: call_settle)

lemma write_executed:
  "call_repo (sql_write jv others clk c) h = (x, h') \<Longrightarrow> sound jv h \<Longrightarrow> executed i (ss_db (h_store h))
    \<Longrightarrow> executed i (ss_db (h_store h'))"
  by (auto simp: call_repo_def sound_def split: prod.splits dest: executed_write)

lemma write_executed_case:
  assumes "sound jv h" and "executed i (ss_db (h_store h))"
    and "\<And>e g. h_store (f e g) = h_store g" "\<And>y g. h_store (k y g) = h_store g"
  shows "executed i (ss_db (h_store (case call_repo (sql_write jv others clk c) h of
      (res, h3) \<Rightarrow> case res of Inl e \<Rightarrow> f e h3 | Inr y \<Rightarrow> k y h3)))"
  using assms by (auto split: prod.split sum.split dest!: write_executed)

lemma expire_executed:
  assumes "sound jv h" and "executed i (ss_db (h_store h))"
  shows "executed i (ss_db (h_store (expire env (sqlite jv others clk) op reason h)))"
  unfolding expire_def Let_def host_defs case_prod_conv sqlite_sel
  by (rule write_executed_case) (simp_all add: assms)

lemma reap_lease_executed:
  assumes "sound jv h" and "executed i (ss_db (h_store h))"
  shows "executed i (ss_db (h_store (reap_lease env (sqlite jv others clk) op h)))"
  unfolding reap_lease_def Let_def host_defs case_prod_conv sqlite_sel
  by (rule write_executed_case) (simp_all add: assms)

lemma reap_executed:
  assumes "sound jv h" and "executed i (ss_db (h_store h))"
  shows "executed i (ss_db (h_store (reap env (sqlite jv others clk) op h)))"
  using assms by (simp add: reap_def expire_executed reap_lease_executed split: op_state.split)

lemma reap_keeps:
  assumes "sound jv h" and "seen_running op (ss_db (h_store h))"
  shows "sound jv (reap env (sqlite jv others clk) op h)"
  using assms
  by (auto simp: reap_def seen_running_def asked_moves_def split: op_state.split intro!: expire_keeps reap_lease_keeps)

lemma sweep_loop_keeps:
  "sound jv h \<Longrightarrow> \<forall>op\<in>set ops. seen_running op (ss_db (h_store h))
    \<Longrightarrow> sound jv (sweep_loop env (sqlite jv others clk) ended n ops h)"
proof (induction ops arbitrary: n h)
  case (Cons op ops)
  have "\<forall>o'\<in>set ops. seen_running o' (ss_db (h_store (reap env (sqlite jv others clk) op h)))"
    using Cons.prems reap_executed [OF Cons.prems(1)] by (simp add: seen_running_def)
  then show ?case using Cons.IH [OF reap_keeps] Cons.prems by simp
qed simp

lemma Sweep_keeps:
  assumes "sound jv h"
  shows "sound jv (Sweep env (sqlite jv others clk) ended h)"
proof -
  obtain res h2 where r: "call_repo (sql_read jv others (DueForExpiry (en_Now env (h_now h)) sweep_batch))
      (h\<lparr>h_now := h_now h + 1\<rparr>) = (res, h2)" by fastforce
  have s2: "sound jv h2" using call_read [OF r] assms by simp
  have "res = DueForExpiry (en_Now env (h_now h)) sweep_batch (ss_db (h_store h2))"
    using r by (auto simp: call_repo_def sql_read_def Let_def)
  then have "\<forall>op\<in>set due. seen_running op (ss_db (h_store h2))" if "res = Inr due" for due
    using that DueForExpiry_seen [OF reached_ok [OF s2 [unfolded sound_def]]] by metis
  then show ?thesis
    using r s2 sweep_loop_keeps by (cases res) (simp_all add: Sweep_def read_clock_def Let_def)
qed

end

section \<open>The guarantee\<close>

text \<open>
  C5. Every component keeps the rules the others rely on. Against a store other components work on
  between any two of its calls, every method of the service, every execution and every sweep of the
  reaper leaves a store that lawful calls reach: it proposes only pending operations, asks only for the
  moves of the life cycle with the audit entry naming them, settles only what has been executing, and
  never writes past the repository.
\<close>
theorem components_keep_the_rules:
  fixes h :: "(sql_state, 'm) host_scheme" and x :: "(sql_state, 'u) exec_host"
  assumes rely: "\<And>db n. reached jv db \<Longrightarrow> reached jv (run_calls jv (others n) db)"
    and h: "sound jv h" and x: "sound jv x"
  shows "sound jv (snd (svc_Propose env (sqlite jv others clk) po req h))
    \<and> sound jv (snd (svc_Approve env (sqlite jv others clk) po i reason h))
    \<and> sound jv (snd (ApproveInline env (sqlite jv others clk) po i h))
    \<and> sound jv (snd (svc_Reject env (sqlite jv others clk) po i reason h))
    \<and> sound jv (snd (svc_Cancel env (sqlite jv others clk) po i reason h))
    \<and> sound jv (snd (svc_Get (sqlite jv others clk) po i h))
    \<and> sound jv (snd (svc_List (sqlite jv others clk) po plugin states limit h))
    \<and> sound jv (snd (AwaitOutcome (sqlite jv others clk) i ticks h))
    \<and> sound jv (Sweep env (sqlite jv others clk) ended h)
    \<and> sound jv (snd (Execute env (sqlite jv others clk) runner ctx cfg i x))"
proof -
  have st: "shared_store jv others" using rely by unfold_locales
  show ?thesis
    using shared_store.Propose_keeps [OF st h] shared_store.Approve_keeps [OF st h]
      shared_store.ApproveInline_keeps [OF st h] shared_store.Reject_keeps [OF st h]
      shared_store.Cancel_keeps [OF st h] shared_store.svc_Get_keeps [OF st h]
      shared_store.svc_List_keeps [OF st h] shared_store.Await_loop_keeps [OF st h]
      shared_store.Sweep_keeps [OF st h] shared_store.Execute_keeps [OF st x]
    by (simp add: AwaitOutcome_def)
qed

definition fresh_host :: "sql_state host" where
  "fresh_host = \<lparr>h_store = \<lparr>ss_db = empty_db, ss_calls = 0\<rparr>, h_now = 0, h_ids = 0, h_policy = 0, h_woken = 0\<rparr>"

definition fresh_exec :: "(sql_state, nat) exec_host" where
  "fresh_exec = \<lparr>h_store = \<lparr>ss_db = empty_db, ss_calls = 0\<rparr>, h_now = 0, h_ids = 0, h_policy = 0, h_woken = 0,
     x_up = 0, x_writes = [], x_waits = []\<rparr>"

lemma fresh_sound [simp]: "sound jv fresh_host" "sound jv fresh_exec"
  by (simp_all add: sound_def fresh_host_def fresh_exec_def reached_empty)

theorem components_keep_the_rules_witness:
  "\<forall>others clk env po req runner ctx cfg i.
     sound (\<lambda>s. True) (snd (svc_Propose env (sqlite (\<lambda>s. True) (deciders others) clk) po req fresh_host))
   \<and> sound (\<lambda>s. True) (snd (Execute env (sqlite (\<lambda>s. True) (deciders others) clk) runner ctx cfg i fresh_exec))"
proof (intro allI)
  fix others clk env po req runner ctx cfg i
  show "sound (\<lambda>s. True) (snd (svc_Propose env (sqlite (\<lambda>s. True) (deciders others) clk) po req fresh_host))
   \<and> sound (\<lambda>s. True) (snd (Execute env (sqlite (\<lambda>s. True) (deciders others) clk) runner ctx cfg i fresh_exec))"
    by (intro conjI; rule components_keep_the_rules [where jv = "\<lambda>s. True" and others = "deciders others"
      and h = fresh_host and x = fresh_exec and clk = clk and env = env, THEN conjunct1]
      components_keep_the_rules [where jv = "\<lambda>s. True" and others = "deciders others" and h = fresh_host
        and x = fresh_exec, THEN conjunct2, THEN conjunct2, THEN conjunct2, THEN conjunct2, THEN conjunct2,
        THEN conjunct2, THEN conjunct2, THEN conjunct2, THEN conjunct2])
      (use deciding.rely fresh_sound in blast)+
qed

section \<open>The upstream write\<close>

lemma call_repo_writes: "call_repo f h = (x, h') \<Longrightarrow> x_writes h' = x_writes h"
  by (auto simp: call_repo_def split: prod.splits)

lemma call_up_writes: "call_up f h = (x, h') \<Longrightarrow> x_writes h' = x_writes h"
  by (auto simp: call_up_def split: prod.splits)

lemma settle_writes: "x_writes (snd (exec_settle env repo op att to obs ver ref code detail h)) = x_writes h"
  by (auto simp: exec_settle_def host_defs Let_def split: prod.splits sum.splits dest: call_repo_writes)

lemma settleFailure_writes: "x_writes (snd (settleFailure env repo op code detail h)) = x_writes h"
  by (auto simp: settleFailure_def host_defs Let_def split: prod.splits sum.splits dest: call_repo_writes)

lemma verify_writes: "x_writes (snd (verify_attempts runner ctx cfg op d a n b obs e h)) = x_writes h"
proof (induction n arbitrary: a b obs e h)
  case (Suc n)
  define h1 where "h1 = (if a > 0 then h\<lparr>x_waits := x_waits h @ [b]\<rparr> else h)"
  obtain res h2 where r: "call_up (mr_Observe runner (op_Plugin op) (op_Action op) (op_Params op)) h1 = (res, h2)"
    by fastforce
  have st: "x_writes h2 = x_writes h" using call_up_writes [OF r] by (simp add: h1_def)
  show ?case
    using Suc.IH st r by (cases res) (simp_all add: Let_def h1_def [symmetric], simp_all add: h1_def)
qed simp

lemma exec_verify_writes: "exec_verify runner ctx cfg op plan h = (x, h') \<Longrightarrow> x_writes h' = x_writes h"
  using verify_writes [of runner ctx cfg op] unfolding exec_verify_def Let_def by (metis snd_conv)

lemma exec_apply_writes:
  "x_writes (snd (exec_apply env repo runner ctx cfg op att plan h))
    = x_writes h @ [\<lparr>uw_OperationID = op_ID op, uw_Plugin = op_Plugin op, uw_Action = op_Action op,
        uw_Params = op_Params op\<rparr>]"
  by (auto simp: exec_apply_def Let_def settle_writes split: prod.splits option.splits run_error.splits
      dest!: call_up_writes exec_verify_writes)

lemma exec_check_writes: "exec_check runner op h = (x, h') \<Longrightarrow> x_writes h' = x_writes h"
  by (auto simp: exec_check_def Let_def split: sum.splits if_splits prod.splits dest: call_up_writes)

lemma exec_check_proceeds:
  "exec_check runner op h = (Proceed plan drift, h') \<Longrightarrow>
    Recompute op = Inr (op_PayloadHash op) \<and> drift \<noteq> DriftDetected
    \<and> drift = CheckDrift (op_Preconditions op) (pl_Preconditions plan)"
  by (auto simp: exec_check_def Let_def split: sum.splits if_splits prod.splits)

lemma exec_claim_writes: "exec_claim env repo cfg op drift h = (r, att, h') \<Longrightarrow> x_writes h' = x_writes h"
  by (auto simp: exec_claim_def host_defs Let_def split: prod.splits dest: call_repo_writes)

text \<open>
  C4. Nothing is written upstream without a claim. An execution makes at most one write, and when it
  makes one: the operation it read was approved, its stored payload hashed to the hash recorded at
  approval, the target was read again and showed no drift, this execution's own claim was granted,
  and the write is the stored operation's action with its stored parameters.
\<close>
theorem write_needs_claim:
  "let h' = snd (Execute env repo runner ctx cfg i h) in
     x_writes h' = x_writes h
     \<or> (\<exists>op h1 plan drift h2 claimed att h3.
          call_repo (r_Get repo i) h = (Inr op, h1) \<and> op_State op = StateApproved
          \<and> Recompute op = Inr (op_PayloadHash op)
          \<and> exec_check runner op h1 = (Proceed plan drift, h2) \<and> drift \<noteq> DriftDetected
          \<and> drift = CheckDrift (op_Preconditions op) (pl_Preconditions plan)
          \<and> exec_claim env repo cfg op drift h2 = (Inr claimed, att, h3)
          \<and> x_writes h' = x_writes h @ [\<lparr>uw_OperationID = op_ID claimed, uw_Plugin = op_Plugin claimed,
               uw_Action = op_Action claimed, uw_Params = op_Params claimed\<rparr>])"
proof -
  let ?h' = "snd (Execute env repo runner ctx cfg i h)"
  obtain r h1 where g: "call_repo (r_Get repo i) h = (r, h1)" by fastforce
  note w1 = call_repo_writes [OF g]
  show ?thesis
  proof (cases "\<not> cx_Ended ctx 0 \<and> (\<exists>op. r = Inr op \<and> op_State op = StateApproved)")
    case False
    then have "x_writes ?h' = x_writes h" using g w1 by (auto simp: Execute_def split: sum.splits)
    then show ?thesis by (simp add: Let_def)
  next
    case True
    then obtain op where op: "r = Inr op" "op_State op = StateApproved" and live: "\<not> cx_Ended ctx 0" by blast
    obtain c h2 where c: "exec_check runner op h1 = (c, h2)" by fastforce
    note w2 = exec_check_writes [OF c]
    show ?thesis
    proof (cases "\<exists>plan drift. c = Proceed plan drift")
      case False
      then have "x_writes ?h' = x_writes h"
        using g op live c w1 w2 by (cases c) (simp_all add: Execute_def settleFailure_writes)
      then show ?thesis by (simp add: Let_def)
    next
      case True
      then obtain plan drift where p: "c = Proceed plan drift" by blast
      obtain res att h3 where cl: "exec_claim env repo cfg op drift h2 = (res, att, h3)" by (metis prod_cases3)
      note w3 = exec_claim_writes [OF cl]
      show ?thesis
      proof (cases res)
        case (Inl e)
        then have "x_writes ?h' = x_writes h" using g op live c p cl w1 w2 w3 by (simp add: Execute_def)
        then show ?thesis by (simp add: Let_def)
      next
        case (Inr claimed)
        have "?h' = snd (exec_apply env repo runner ctx cfg claimed att plan (notify h3))"
          using g op live c p cl Inr by (simp add: Execute_def)
        then have "x_writes ?h' = x_writes h @ [\<lparr>uw_OperationID = op_ID claimed, uw_Plugin = op_Plugin claimed,
               uw_Action = op_Action claimed, uw_Params = op_Params claimed\<rparr>]"
          using w1 w2 w3 by (simp add: exec_apply_writes notify_def)
        then show ?thesis
          unfolding Let_def using g op c p cl Inr exec_check_proceeds [OF c [unfolded p]] by blast
      qed
    qed
  qed
qed

section \<open>Many executors\<close>

text \<open>
  Any number of executors, services and reapers on one store, at the granularity of repository calls
  and upstream writes. \<open>granted\<close> holds the claims granted and not yet acted on, \<open>written\<close> the
  operations written upstream, both with repetitions. An executor acts as \<open>Execute\<close> does: it writes
  once for a claim of its own that was granted (\<open>write_needs_claim\<close>) and settles afterwards.
\<close>

fun is_claim :: "repo_call \<Rightarrow> bool" where
  "is_claim (DoClaim _) = True"
| "is_claim _ = False"

inductive system :: "(string \<Rightarrow> bool) \<Rightarrow> database \<Rightarrow> string list \<Rightarrow> string list \<Rightarrow> bool" for jv where
  at_rest: "system jv empty_db [] []"
| decides: "system jv db granted written \<Longrightarrow> lawful c db \<Longrightarrow> \<not> is_claim c
    \<Longrightarrow> system jv (snd (exec_call jv clk c db)) granted written"
| claims: "system jv db granted written \<Longrightarrow> well_asked (DoClaim req)
    \<Longrightarrow> Claim jv clk req db = (Inr claimed, db') \<Longrightarrow> system jv db' (op_ID claimed # granted) written"
| loses: "system jv db granted written \<Longrightarrow> well_asked (DoClaim req)
    \<Longrightarrow> Claim jv clk req db = (Inl e, db') \<Longrightarrow> system jv db' granted written"
| writes: "system jv db granted written \<Longrightarrow> i \<in> set granted
    \<Longrightarrow> system jv db (remove1 i granted) (i # written)"

lemma claim_lawful: "well_asked (DoClaim req) \<Longrightarrow> lawful (DoClaim req) db"
  by (simp add: lawful_def)

lemma system_reached: "system jv db granted written \<Longrightarrow> reached jv db"
proof (induction rule: system.induct)
  case (claims db granted written req clk claimed db')
  then show ?case using reached_call [OF claims.IH claim_lawful [OF claims.hyps(2)], of clk] by simp
next
  case (loses db granted written req clk e db')
  then show ?case using reached_call [OF loses.IH claim_lawful [OF loses.hyps(2)], of clk] by simp
qed (auto intro: reached.intros)

lemma count_remove1: "i \<in> set xs \<Longrightarrow> count_list (remove1 i xs) j + (if i = j then 1 else 0) = count_list xs j"
  by (induction xs) auto

lemma states_grow:
  assumes "store_ok jv db"
  shows "count_list (states_of db i) x \<le> count_list (states_of (snd (exec_call jv clk c db)) i) x"
  using exec_transitions [OF assms, of clk c] by (auto simp: states_of_def history_def)

lemma claim_counts:
  assumes ok: "store_ok jv db" and res: "Claim jv clk req db = (Inr op, db')"
  shows "count_list (states_of db' i) ''executing''
    = count_list (states_of db i) ''executing'' + (if i = op_ID op then 1 else 0)"
proof -
  have tx: "call_tx jv clk (DoClaim req) db = Inr db'"
    using res by (auto simp: Claim_def WriteTx_def split: sum.splits prod.splits)
  obtain t where t: "db_transitions db' = db_transitions db @ [t]" "tn_operation_id t = cr_OperationID req"
      "tn_to_state t = ''executing''"
    using call_tx_records [OF ok tx] by (auto simp: recorded_def)
  show ?thesis
    using history_append [OF t(1), of i] t(2,3) claim_result [OF ok res] by simp
qed

lemma system_budget:
  "system jv db granted written \<Longrightarrow>
    count_list granted i + count_list written i \<le> count_list (states_of db i) ''executing''"
proof (induction rule: system.induct)
  case at_rest
  then show ?case by simp
next
  case (decides db granted written c clk)
  then show ?case
    using states_grow [OF reached_ok [OF system_reached [OF decides.hyps(1)]]] by (meson order_trans)
next
  case (claims db granted written req clk claimed db')
  then show ?case
    using claim_counts [OF reached_ok [OF system_reached [OF claims.hyps(1)]] claims.hyps(3), of i] by auto
next
  case (loses db granted written req clk e db')
  then show ?case
    using states_grow [OF reached_ok [OF system_reached [OF loses.hyps(1)]], of i "''executing''" clk "DoClaim req"]
    by simp
next
  case (writes db granted written j)
  then show ?case using count_remove1 [OF writes.hyps(2), of i] by (auto split: if_splits)
qed

lemma at_most_one_budget: "system jv db granted written \<Longrightarrow> count_list written i \<le> 1"
  using system_budget [of jv db granted written i] life_counts(1) [OF reached_life [OF system_reached], of jv db granted written i]
  by simp

text \<open>
  C1. At most one write, ever. However many executors, services and reapers work on the store, in
  whatever order their calls commit and their writes land, and whatever crashes between a claim and its
  settlement: no operation is written upstream twice, and one that was written had been recorded as
  pending, then as approved, then as executing before.
\<close>
theorem at_most_one_write:
  assumes "system jv db granted written"
  shows "count_list written i \<le> 1
    \<and> (if i \<in> set written then take 3 (states_of db i) = [''pending_approval'', ''approved'', ''executing''] else True)"
proof -
  note lf = reached_life [OF system_reached [OF assms], of i]
  have budget: "count_list granted i + count_list written i \<le> count_list (states_of db i) ''executing''"
    by (rule system_budget [OF assms])
  have "i \<in> set written \<Longrightarrow> ''executing'' \<in> set (states_of db i)"
    using budget by (metis add_is_0 count_list_0_iff le_zero_eq)
  then show ?thesis using budget life_counts(1) [OF lf] life_executed [OF lf] by auto
qed

text \<open>A run with a write in it: proposed, approved by a person, claimed and written.\<close>

definition yes :: "string \<Rightarrow> bool" where "yes s = True"

definition sample_approval :: transition_request where
  "sample_approval = \<lparr>tr_OperationID = ''op_1'', tr_From = StatePendingApproval, tr_To = StateApproved,
     tr_Actor = ''user:bob'', tr_Reason = '''', tr_Audit = (sample_audit ''e2'')\<lparr>ae_FromState := StatePendingApproval,
       ae_ToState := StateApproved\<rparr>, tr_Event = sample_event ''e2'',
     tr_Approval = Some \<lparr>ap_ApprovedBy = ''user:bob'', ap_ApprovedAt = 0, ap_ApprovalExpiresAt = 60 * Second,
       ap_AuthorizedByRule = ''''\<rparr>,
     tr_Terminal = False, tr_ErrorCode = '''', tr_ErrorDetail = ''''\<rparr>"

definition sample_claim :: claim_request where
  "sample_claim = \<lparr>cr_OperationID = ''op_1'', cr_ExpectedHash = ''h'', cr_InstanceID = ''i'', cr_LeaseExpiresAt = 60 * Second,
     cr_AttemptID = ''att_1'', cr_Audit = (sample_audit ''e3'')\<lparr>ae_FromState := StateApproved,
       ae_ToState := StateExecuting\<rparr>, cr_Event = sample_event ''e3''\<rparr>"

lemmas sample_defs = sample_request_def sample_proposal_def zero_operation_def sample_audit_def sample_event_def
  sample_approval_def sample_claim_def

definition stage1 :: database where "stage1 = snd (Propose yes (\<lambda>i. 0) sample_request empty_db)"
definition stage2 :: database where "stage2 = snd (Transition yes (\<lambda>i. 0) sample_approval stage1)"

lemmas stage_defs = propose_tx_def insert_operation_def row_check_def row_of_operation_def live_key_def stored_states_def
  live_states_def upsert_idem_def recordTransition_def appendAudit_def insert_audit_def audit_row_of_def
  enqueue_def wrap_def and_then_def nullStr_def nullJSON_def marshalChanges_def empty_db_def Let_def yes_def

lemma stage1_rows:
  "db_operations stage1 = [row_of_operation sample_proposal]"
  "ob_event_id ` set (db_outbox stage1) = {''e1''}" "au_event_id ` set (db_audit stage1) = {''e1''}"
  "db_attempts stage1 = []"
  by (simp_all add: stage1_def Propose_def byIdempotencyKey_def WriteTx_def stage_defs sample_defs UnixMilli_def)

lemmas update_defs = execGuarded_def update_operations_def row_refused_def update_trigger_def assign_all_def
  guarded_as_def update_where_def count_where_def

definition sample_row :: op_row where
  "sample_row = (row_of_operation sample_proposal)\<lparr>c_state := ''approved'', c_approved_by := Some ''user:bob'',
     c_approved_at := Some 0, c_approval_expires_at := Some 60000\<rparr>"

lemma stage2_rows:
  "db_operations stage2 = [sample_row]"
  "ob_event_id ` set (db_outbox stage2) = {''e1'', ''e2''}" "au_event_id ` set (db_audit stage2) = {''e1'', ''e2''}"
  "db_attempts stage2 = []"
  by (simp_all add: stage2_def Transition_def WriteTx_def transition_tx_def transition_sets_def update_defs stage_defs
      sample_defs UnixMilli_def stage1_rows sample_row_def insert_commute)

lemma sample_claimed: "\<exists>op db'. Claim yes (\<lambda>i. 0) sample_claim stage2 = (Inr op, db') \<and> op_ID op = ''op_1''"
  by (simp add: Claim_def WriteTx_def claim_tx_def claimable_row_def insert_attempt_def find_op_def Get_def
      scanOperation_def update_defs stage_defs sample_defs UnixMilli_def stage2_rows sample_row_def)

lemma stage2_system: "system yes stage2 [] []"
proof -
  have "lawful (DoPropose sample_request) empty_db" "lawful (DoTransition sample_approval) stage1"
    by (simp_all add: lawful_def sample_defs audit_names_def asked_moves_def)
  then have "system yes (snd (exec_call yes (\<lambda>i. 0) (DoTransition sample_approval)
      (snd (exec_call yes (\<lambda>i. 0) (DoPropose sample_request) empty_db)))) [] []"
    by (intro decides at_rest) (simp_all add: stage1_def)
  then show ?thesis by (simp add: stage1_def stage2_def)
qed

theorem at_most_one_write_witness:
  "\<exists>db written. system yes db [] written \<and> written = [''op_1''] \<and> count_list written ''op_1'' \<le> 1
     \<and> take 3 (states_of db ''op_1'') = [''pending_approval'', ''approved'', ''executing'']"
proof -
  note s2 = stage2_system
  obtain op db' where c: "Claim yes (\<lambda>i. 0) sample_claim stage2 = (Inr op, db')" "op_ID op = ''op_1''"
    using sample_claimed by blast
  have "well_asked (DoClaim sample_claim)" by (simp add: sample_defs audit_names_def)
  then have "system yes db' [''op_1''] []" using claims [OF s2 _ c(1)] c(2) by simp
  then have w: "system yes db' [] [''op_1'']" using writes [of yes db' "[''op_1'']" "[]" "''op_1''"] by simp
  show ?thesis using at_most_one_write [OF w, of "''op_1''"] w by auto
qed

section \<open>One claim wins\<close>

lemma started_not_approved:
  assumes "life ts" and "''executing'' \<in> set ts"
  shows "last ts \<noteq> ''approved''"
proof
  assume l: "last ts = ''approved''"
  obtain p where p: "phase_of Unborn ts = Some p" using assms(1) by (auto simp: life_def)
  have ne: "ts \<noteq> []" using assms(2) by auto
  show False using phase_by_last(2,3) [OF p ne] l assms(2) by simp
qed

lemma executed_claim_lost:
  assumes r: "reached jv db" and ex: "executed i db"
  shows "Claim jv clk (req\<lparr>cr_OperationID := i\<rparr>) db = (Inl ErrClaimLost, db)"
proof -
  note ok = reached_ok [OF r]
  have ts: "''executing'' \<in> set (states_of db i)" using ex by (simp add: executed_states)
  then obtain row where row: "find_op i db = Some row" using states_none [OF ok] by fastforce
  have "c_state row \<noteq> ''approved''"
    using started_not_approved [OF reached_life [OF r] ts] states_last [OF ok row] by simp
  then show ?thesis by (intro claim_refused [OF ok]) (use row in simp_all)
qed

text \<open>
  C16. One claim wins, for good. A claim that changes anything found the operation approved, with the
  hash the executor recomputed and an execute-by deadline still ahead, and leaves it executing under the
  claimer's lease with the attempt counted. Whatever services, executors and reapers do to the store
  after that, every other claim of that operation, by whichever instance and at whatever time, is lost
  and changes nothing.
\<close>
theorem claim_has_one_winner:
  assumes "reached jv db" and "well_asked (DoClaim req)" and "lawful_run jv between (snd (Claim jv clk req db))"
  shows "let db1 = snd (Claim jv clk req db); db2 = run_calls jv between db1 in
     db1 = db
     \<or> ((\<exists>old r'. find_op (cr_OperationID req) db = Some old
           \<and> c_state old = ''approved'' \<and> c_payload_hash old = cr_ExpectedHash req
           \<and> c_approval_expires_at old \<noteq> None
           \<and> UnixMilli (clk 0) < the (c_approval_expires_at old)
           \<and> find_op (cr_OperationID req) db1 = Some r' \<and> c_state r' = ''executing''
           \<and> c_lease_owner r' = Some (cr_InstanceID req)
           \<and> c_attempt_count r' = c_attempt_count old + 1)
        \<and> (\<forall>clk' other. Claim jv clk' (other\<lparr>cr_OperationID := cr_OperationID req\<rparr>) db2
                         = (Inl ErrClaimLost, db2)))"
proof -
  let ?db1 = "snd (Claim jv clk req db)" and ?i = "cr_OperationID req"
  note ok = reached_ok [OF assms(1)]
  show ?thesis
  proof (cases "?db1 = db")
    case False
    obtain old r' where o: "find_op ?i db = Some old" "claimable_row (UnixMilli (clk 0)) req old"
        "find_op ?i ?db1 = Some r'" "c_state r' = ''executing''" "c_lease_owner r' = Some (cr_InstanceID req)"
        "c_attempt_count r' = c_attempt_count old + 1"
      using claim_effect [OF ok False] by blast
    have "c_state old = ''approved'' \<and> c_payload_hash old = cr_ExpectedHash req
        \<and> c_approval_expires_at old \<noteq> None \<and> UnixMilli (clk 0) < the (c_approval_expires_at old)"
      using o(2) by (auto simp: claimable_row_def split: option.splits)
    moreover have r1: "reached jv ?db1"
      using reached_call [OF assms(1), of "DoClaim req" clk] assms(2) by (simp add: lawful_def)
    have "executed ?i (run_calls jv between ?db1)"
      by (intro executed_run [OF reached_ok [OF r1]] executing_executed [OF reached_ok [OF r1] o(3,4)])
    then have "\<forall>clk' other. Claim jv clk' (other\<lparr>cr_OperationID := ?i\<rparr>) (run_calls jv between ?db1)
        = (Inl ErrClaimLost, run_calls jv between ?db1)"
      using executed_claim_lost [OF reached_lawful_run [OF r1 assms(3)]] by blast
    ultimately show ?thesis using o unfolding Let_def by blast
  qed (simp add: Let_def)
qed

theorem claim_has_one_winner_witness:
  "let db1 = snd (Claim yes (\<lambda>i. 0) sample_claim stage2);
       db2 = run_calls yes [(\<lambda>i. 5, DoClaim sample_claim)] db1 in
     db1 \<noteq> stage2 \<and> Claim yes (\<lambda>i. 7) sample_claim db2 = (Inl ErrClaimLost, db2)"
proof -
  let ?db1 = "snd (Claim yes (\<lambda>i. 0) sample_claim stage2)"
  let ?next = "[(\<lambda>i :: nat. 5 :: time, DoClaim sample_claim)]"
  have "map c_state (db_operations ?db1) = [''executing'']"
    by (simp add: Claim_def WriteTx_def claim_tx_def claimable_row_def insert_attempt_def find_op_def
        update_defs stage_defs sample_defs UnixMilli_def stage2_rows sample_row_def)
  moreover have "map c_state (db_operations stage2) = [''approved'']" by (simp add: stage2_rows sample_row_def)
  ultimately have moved: "?db1 \<noteq> stage2" by auto
  have wa: "well_asked (DoClaim sample_claim)" by (simp add: sample_defs audit_names_def)
  have "lawful_run yes ?next ?db1" using wa by (simp add: lawful_def)
  from claim_has_one_winner [OF system_reached [OF stage2_system] wa this] moved
  have "\<forall>clk' other. Claim yes clk' (other\<lparr>cr_OperationID := cr_OperationID sample_claim\<rparr>) (run_calls yes ?next ?db1)
      = (Inl ErrClaimLost, run_calls yes ?next ?db1)"
    by (simp only: Let_def) blast
  then have "Claim yes (\<lambda>i. 7) (sample_claim\<lparr>cr_OperationID := cr_OperationID sample_claim\<rparr>) (run_calls yes ?next ?db1)
      = (Inl ErrClaimLost, run_calls yes ?next ?db1)" by blast
  then show ?thesis using moved by (simp add: Let_def)
qed

end
