(* ===== verification/Executor_Facts.thy ===== *)
theory Executor_Facts
  imports Workflow
begin

text \<open>
  What an execution records: the verification loop against its specification as a search through what
  the runner observes, and the outcome settled for every answer of the upstream system.
\<close>

section \<open>Verification\<close>

text \<open>The first n answers of the runner asked to observe again and again, and the upstream system after them.\<close>

fun observations :: "('u, 'h) mutation_runner \<Rightarrow> operation \<Rightarrow> nat \<Rightarrow> 'u \<Rightarrow> (run_error + raw_message) list" where
  "observations runner op 0 u = []"
| "observations runner op (Suc n) u =
    (case mr_Observe runner (op_Plugin op) (op_Action op) (op_Params op) u of
       (r, u') \<Rightarrow> r # observations runner op n u')"

fun observed_for :: "('u, 'h) mutation_runner \<Rightarrow> operation \<Rightarrow> nat \<Rightarrow> 'u \<Rightarrow> 'u" where
  "observed_for runner op 0 u = u"
| "observed_for runner op (Suc n) u =
    observed_for runner op n (snd (mr_Observe runner (op_Plugin op) (op_Action op) (op_Params op) u))"

definition agrees :: "raw_message \<Rightarrow> run_error + raw_message \<Rightarrow> bool" where
  "agrees desired r \<longleftrightarrow> (case r of Inl e \<Rightarrow> False | Inr obs \<Rightarrow> CanonicalEqual desired obs)"

text \<open>The delays before the second, third, ... look: doubled each time, at 64 bits, and capped.\<close>

fun backoffs :: "duration \<Rightarrow> duration \<Rightarrow> nat \<Rightarrow> duration list" where
  "backoffs cap b 0 = []"
| "backoffs cap b (Suc n) = b # backoffs cap (min (wrap64 (b * 2)) cap) n"

lemma backoffs_positive:
  assumes "0 < cap" and "cap < 2 ^ 62"
  shows "0 < b \<Longrightarrow> b < 2 ^ 62 \<Longrightarrow> d \<in> set (backoffs cap b n) \<Longrightarrow> 0 < d \<and> d \<le> max b cap"
proof (induction n arbitrary: b)
  case (Suc n)
  have "wrap64 (b * 2) = b * 2" using Suc.prems by (intro wrap64_fits) auto
  then show ?case
    using Suc.prems Suc.IH [of "min (b * 2) cap"] assms by (cases "d = b") (auto simp: min_def split: if_splits)
qed simp

text \<open>
  How often the loop may look from look a on, of n still allowed: until the context has ended while it
  waits. The first look waits for nothing.
\<close>

fun allowed :: "call_context \<Rightarrow> nat \<Rightarrow> nat \<Rightarrow> nat" where
  "allowed ctx a 0 = 0"
| "allowed ctx a (Suc n) = (if 0 < a \<and> cx_Ended ctx a then 0 else Suc (allowed ctx (Suc a) n))"

definition looks :: "raw_message \<Rightarrow> (run_error + raw_message) list \<Rightarrow> nat" where
  "looks desired rs = min (length rs) (Suc (length (takeWhile (\<lambda>r. \<not> agrees desired r) rs)))"

lemma looks_Cons [simp]: "looks d (r # rs) = (if agrees d r then 1 else Suc (looks d rs))"
  by (simp add: looks_def)

lemma looks_Nil [simp]: "looks d [] = 0"
  by (simp add: looks_def)

lemma looks_pos: "list_ex (agrees d) rs \<Longrightarrow> 0 < looks d rs"
  by (cases rs) auto

lemma allowed_le: "allowed ctx a n \<le> n"
  by (induction n arbitrary: a) auto

text \<open>What the loop makes of the looks it may still take, from any of them on.\<close>

definition searched :: "('u, 'h) mutation_runner \<Rightarrow> call_context \<Rightarrow> executor_config \<Rightarrow> operation \<Rightarrow> raw_message
    \<Rightarrow> nat \<Rightarrow> nat \<Rightarrow> duration \<Rightarrow> ('s, 'u) exec_host \<Rightarrow> raw_message \<Rightarrow> bool \<Rightarrow> ('s, 'u) exec_host \<Rightarrow> bool" where
  "searched runner ctx cfg op d a n b h observed verified h' \<longleftrightarrow>
    (let rs = observations runner op (allowed ctx a n) (x_up h); k = looks d rs;
         waits = (if verified \<or> allowed ctx a n = n then k else Suc k) in
     verified = list_ex (agrees d) rs
     \<and> (verified \<longrightarrow> rs ! (k - 1) = Inr observed \<and> CanonicalEqual d observed)
     \<and> h' = h\<lparr>x_up := observed_for runner op k (x_up h),
          x_waits := x_waits h @ backoffs (cfg_VerifyMaxBackoff cfg) b (if 0 < a then waits else waits - 1)\<rparr>)"

lemma verify_step:
  assumes r: "mr_Observe runner (op_Plugin op) (op_Action op) (op_Params op) (x_up h) = (r, u)"
    and c: "\<not> (a > 0 \<and> cx_Ended ctx a)"
    and h1: "h1 = (if a > 0 then h\<lparr>x_waits := x_waits h @ [b]\<rparr> else h)\<lparr>x_up := u\<rparr>"
    and b1: "b1 = (if a > 0 then min (wrap64 (b * 2)) (cfg_VerifyMaxBackoff cfg) else b)"
  shows "verify_attempts runner ctx cfg op d a (Suc n) b obs e h =
    (case r of Inl e \<Rightarrow> verify_attempts runner ctx cfg op d (Suc a) n b1 obs (Some (run_text e)) h1
     | Inr obs \<Rightarrow> if CanonicalEqual d obs then ((obs, True, None), h1)
         else verify_attempts runner ctx cfg op d (Suc a) n b1 obs (Some not_yet) h1)"
  using assms by (cases "a = 0"; cases r) (simp_all add: call_up_def Let_def)

lemma verify_attempts_search:
  "verify_attempts runner ctx cfg op d a n b obs e h = ((o', v, e'), h')
     \<Longrightarrow> searched runner ctx cfg op d a n b h o' v h'"
proof (induction n arbitrary: a b obs e h)
  case (Suc n)
  obtain r u where r: "mr_Observe runner (op_Plugin op) (op_Action op) (op_Params op) (x_up h) = (r, u)" by fastforce
  show ?case
  proof (cases "a > 0 \<and> cx_Ended ctx a")
    case True
    then show ?thesis using Suc.prems by (auto simp: searched_def Let_def)
  next
    case False
    define h1 where "h1 = (if a > 0 then h\<lparr>x_waits := x_waits h @ [b]\<rparr> else h)\<lparr>x_up := u\<rparr>"
    define b1 where "b1 = (if a > 0 then min (wrap64 (b * 2)) (cfg_VerifyMaxBackoff cfg) else b)"
    note st = verify_step [OF r False h1_def b1_def]
    show ?thesis
    proof (cases "agrees d r")
      case True
      then have "h' = h1" "v" "r = Inr o'" "CanonicalEqual d o'"
        using Suc.prems unfolding st by (auto simp: agrees_def split: sum.splits)
      then show ?thesis using r False True by (simp add: searched_def h1_def)
    next
      case no: False
      have "\<exists>obs' e''. verify_attempts runner ctx cfg op d (Suc a) n b1 obs' e'' h1 = ((o', v, e'), h')"
        using Suc.prems no unfolding st by (auto simp: agrees_def split: sum.splits)
      then have IH: "searched runner ctx cfg op d (Suc a) n b1 h1 o' v h'" using Suc.IH by blast
      have up: "x_up h1 = u" by (simp add: h1_def)
      show ?thesis
        using IH r False no unfolding searched_def up by (cases "a = 0") (auto simp: Let_def h1_def b1_def nth_Cons' dest: looks_pos)
    qed
  qed
qed (simp add: searched_def)

lemma exec_verify_search:
  "exec_verify runner ctx cfg op plan h = ((observed, verified, err), h')
     \<Longrightarrow> searched runner ctx cfg op (if op_Desired op = [] then pl_Desired plan else op_Desired op) 0
       (nat (cfg_VerifyAttempts cfg)) (cfg_VerifyBackoff cfg) h observed verified h'"
  unfolding exec_verify_def Let_def length_0_conv by (rule verify_attempts_search)

text \<open>
  C33. Verification is a bounded search. Let the runner be asked to observe up to \<open>VerifyAttempts\<close> times,
  or as often as the context lasts if it ends while the loop waits. The target is found as requested
  exactly when one of those observations has the canonical form of the desired state. The observation
  recorded is then the first that has it, and the runner is asked no further: the upstream system is the
  one left by exactly the observations up to that one, or by all of them when none agrees. Between two
  looks the loop waits, first \<open>VerifyBackoff\<close>, then the delay before doubled in 64-bit arithmetic and
  capped, and it begins a wait before each look but the first and before the one the context forbids.
  Nothing else of the host changes.
\<close>
theorem verification_is_bounded_search:
  assumes "exec_verify runner ctx cfg op plan h = ((observed, verified, err), h')"
  shows "let desired = (if op_Desired op = [] then pl_Desired plan else op_Desired op);
      n = nat (cfg_VerifyAttempts cfg); m = allowed ctx 0 n;
      rs = observations runner op m (x_up h); k = looks desired rs;
      waits = (if verified \<or> m = n then k - 1 else k) in
    verified = list_ex (agrees desired) rs
    \<and> (verified \<longrightarrow> rs ! (k - 1) = Inr observed \<and> CanonicalEqual desired observed)
    \<and> h' = h\<lparr>x_up := observed_for runner op k (x_up h),
        x_waits := x_waits h @ backoffs (cfg_VerifyMaxBackoff cfg) (cfg_VerifyBackoff cfg) waits\<rparr>"
  using exec_verify_search [OF assms] by (simp add: searched_def Let_def)

section \<open>Witness data\<close>

text \<open>A runner whose target reads as the number of observations so far and never fails.\<close>

definition counting_runner :: "(nat, unit) mutation_runner" where
  "counting_runner = \<lparr>
     mr_Plan = (\<lambda>p a ps u. (Inl (Refused ''''), u)),
     mr_Apply = (\<lambda>p a ps plan u. ((\<lparr>ao_UpstreamRef = '''', ao_Async = False\<rparr>, None), u)),
     mr_Observe = (\<lambda>p a ps u. (Inr (if u = 0 then ''{}'' else ''[]''), Suc u))\<rparr>"

definition lasting :: call_context where
  "lasting = \<lparr>cx_Ended = (\<lambda>n. False), cx_Err = ''''\<rparr>"

definition sample_config :: executor_config where
  "sample_config = withDefaults \<lparr>cfg_InstanceID = ''i'', cfg_LeaseTTL = 0, cfg_Concurrency = 0,
     cfg_VerifyAttempts = 0, cfg_VerifyBackoff = 0, cfg_VerifyMaxBackoff = 0\<rparr>"

definition empty_plan :: "unit plan_result" where
  "empty_plan = \<lparr>pl_Before = [], pl_Desired = [], pl_Preconditions = [], pl_Changes = [], pl_Impact = [],
     pl_Rollback = [], pl_RiskOverride = None, pl_Handle = ()\<rparr>"

lemma equal_lists: "CanonicalEqual ''[]'' ''[]''" "\<not> CanonicalEqual ''[]'' ''{}''"
proof -
  have "TrimSpace ''[]'' = ''[]''" "TrimSpace ''{}'' = ''{}''"
    by (rule TrimSpace_visible; simp add: visible_def)+
  then show "CanonicalEqual ''[]'' ''[]''" "\<not> CanonicalEqual ''[]'' ''{}''"
    by (simp_all add: CanonicalEqual_def Canonicalize_def Decode_def is_space_def More_def begin_value_def
        open_frame_def max_nesting_def)
qed

theorem verification_is_bounded_search_witness:
  "let ((observed, verified, err), h') = exec_verify counting_runner lasting sample_config
        (sample_proposal\<lparr>op_Desired := ''[]''\<rparr>) empty_plan fresh_exec in
     verified \<and> observed = ''[]'' \<and> x_waits h' = [2 * Second] \<and> x_up h' = 2"
proof -
  let ?op = "sample_proposal\<lparr>op_Desired := ''[]''\<rparr>"
  obtain obs v e h' where r: "exec_verify counting_runner lasting sample_config ?op empty_plan fresh_exec
      = ((obs, v, e), h')" by (metis prod_cases3 surj_pair)
  have c: "nat (cfg_VerifyAttempts sample_config) = 6" "cfg_VerifyBackoff sample_config = 2 * Second"
    by (simp_all add: sample_config_def withDefaults_def)
  have m: "allowed lasting 0 6 = 6" by (simp add: lasting_def eval_nat_numeral)
  have seen: "observations counting_runner ?op 6 0 = [Inr ''{}'', Inr ''[]'', Inr ''[]'', Inr ''[]'', Inr ''[]'', Inr ''[]'']"
    by (simp add: counting_runner_def eval_nat_numeral)
  have look: "looks ''[]'' (observations counting_runner ?op 6 0) = 2"
    by (simp add: seen agrees_def equal_lists)
  have ex: "list_ex (agrees ''[]'') (observations counting_runner ?op 6 0)"
    by (simp add: seen agrees_def equal_lists)
  have up: "observed_for counting_runner ?op 2 0 = 2" by (simp add: counting_runner_def eval_nat_numeral)
  have start: "x_up fresh_exec = 0" "x_waits fresh_exec = []" by (simp_all add: fresh_exec_def)
  have b: "backoffs m b 1 = [b]" for m b by simp
  have "v \<and> obs = ''[]'' \<and> h' = fresh_exec\<lparr>x_up := 2, x_waits := [2 * Second]\<rparr>"
    using verification_is_bounded_search [OF r] c look ex start seen m up b
    by (simp add: Let_def)
  then show ?thesis using r by simp
qed

section \<open>Outcomes\<close>

text \<open>The host once \<open>Apply\<close> has been called and has left the upstream system at u.\<close>

definition after_apply :: "operation \<Rightarrow> 'u \<Rightarrow> ('s, 'u) exec_host \<Rightarrow> ('s, 'u) exec_host" where
  "after_apply op u h = h\<lparr>x_writes := x_writes h @ [\<lparr>uw_OperationID = op_ID op, uw_Plugin = op_Plugin op,
     uw_Action = op_Action op, uw_Params = op_Params op\<rparr>], x_up := u\<rparr>"

lemma after_apply_up [simp]: "x_up (after_apply op u h) = u" "h_store (after_apply op u h) = h_store h"
  by (simp_all add: after_apply_def)

text \<open>What an execution does with each answer of \<open>Apply\<close>.\<close>

lemma apply_branches:
  assumes "mr_Apply runner (op_Plugin op) (op_Action op) (op_Params op) plan (x_up h) = ((out, err), u)"
  shows "exec_apply env repo runner ctx cfg op att plan h =
    (case err of
       Some (Ambiguous t) \<Rightarrow> exec_settle env repo op att StateIndeterminate [] None
         (ao_UpstreamRef out) CodeIndeterminate (redact t) (after_apply op u h)
     | Some (Refused t) \<Rightarrow> exec_settle env repo op att StateFailed [] None
         (ao_UpstreamRef out) CodeUpstreamFailed (redact t) (after_apply op u h)
     | None \<Rightarrow>
         if \<not> op_Verifiable op then
           exec_settle env repo op att StateSucceeded [] None (ao_UpstreamRef out) '''' '''' (after_apply op u h)
         else (case exec_verify runner ctx cfg op plan (after_apply op u h) of
             ((o', v, e), h2) \<Rightarrow>
               if v then exec_settle env repo op att StateSucceeded o' (Some True) (ao_UpstreamRef out) '''' '''' h2
               else exec_settle env repo op att StateIndeterminate o' (Some False) (ao_UpstreamRef out)
                 CodeVerificationFailed (case e of
                     None \<Rightarrow> ''the target could not be re-read to confirm the change''
                   | Some t \<Rightarrow> redact t) h2))"
  using assms
  by (cases err) (auto simp: exec_apply_def call_up_def after_apply_def Let_def split: run_error.split prod.split)

lemma searched_store: "searched runner ctx cfg op d a n b h o' v h' \<Longrightarrow> h_store h' = h_store h"
  by (simp add: searched_def Let_def)

lemma searched_seen:
  assumes "searched runner ctx cfg op d a n b h o' v h'" and v
  shows "Inr o' \<in> set (observations runner op (allowed ctx a n) (x_up h)) \<and> CanonicalEqual d o'"
proof -
  define rs where "rs = observations runner op (allowed ctx a n) (x_up h)"
  have s: "list_ex (agrees d) rs" "rs ! (looks d rs - 1) = Inr o'" "CanonicalEqual d o'"
    using assms by (simp_all add: searched_def rs_def Let_def)
  have "looks d rs \<le> length rs" by (simp add: looks_def)
  then have "rs ! (looks d rs - 1) \<in> set rs" using looks_pos [OF s(1)] by (intro nth_mem) linarith
  then show ?thesis using s by (simp add: rs_def)
qed

text \<open>
  C17. What is recorded is what is known. An execution that was granted its claim calls \<open>Apply\<close> and
  settles exactly once: as indeterminate when the upstream answer was ambiguous; as failed when upstream
  refused; as succeeded and unverified when the action cannot be verified; and else by what the target
  read afterwards. Of the answers \<open>Observe\<close> gives after the write, as many as the configuration and the
  context allow, one had the canonical form of the desired state: then it is recorded, and the operation
  has succeeded and is verified. None had: the operation is indeterminate and recorded as not verified.
\<close>
theorem outcome_is_evidence:
  "\<exists>to obs ver code detail h2.
     (case mr_Apply runner (op_Plugin op) (op_Action op) (op_Params op) plan (x_up h) of
        ((out, err), u) \<Rightarrow>
          exec_apply env repo runner ctx cfg op att plan h
            = exec_settle env repo op att to obs ver (ao_UpstreamRef out) code detail h2
          \<and> h_store h2 = h_store h
          \<and> (case err of
               Some (Ambiguous t) \<Rightarrow> to = StateIndeterminate \<and> ver = None \<and> code = CodeIndeterminate \<and> detail = redact t
             | Some (Refused t) \<Rightarrow> to = StateFailed \<and> ver = None \<and> code = CodeUpstreamFailed \<and> detail = redact t
             | None \<Rightarrow>
                 if \<not> op_Verifiable op then to = StateSucceeded \<and> ver = None \<and> code = ''''
                 else
                   (let desired = (if op_Desired op = [] then pl_Desired plan else op_Desired op);
                        rs = observations runner op (allowed ctx 0 (nat (cfg_VerifyAttempts cfg))) u
                    in if list_ex (agrees desired) rs then
                         to = StateSucceeded \<and> ver = Some True \<and> code = '''' \<and> Inr obs \<in> set rs
                         \<and> CanonicalEqual desired obs
                       else to = StateIndeterminate \<and> ver = Some False \<and> code = CodeVerificationFailed)))"
proof -
  obtain out err u where a: "mr_Apply runner (op_Plugin op) (op_Action op) (op_Params op) plan (x_up h) = ((out, err), u)"
    by (metis surj_pair)
  note b = apply_branches [OF a]
  obtain o' v e' h2 where v: "exec_verify runner ctx cfg op plan (after_apply op u h) = ((o', v, e'), h2)"
    by (metis prod_cases3 surj_pair)
  note s = exec_verify_search [OF v]
  have st: "h_store h2 = h_store h" using searched_store [OF s] by simp
  have vv: "v = list_ex (agrees (if op_Desired op = [] then pl_Desired plan else op_Desired op))
      (observations runner op (allowed ctx 0 (nat (cfg_VerifyAttempts cfg))) u)"
    using s by (simp add: searched_def Let_def)
  show ?thesis
  proof (cases err)
    case (Some x)
    then show ?thesis unfolding a prod.case b
      by (cases x) (auto intro!: exI conjI refl after_apply_up(2))
  next
    case None
    show ?thesis
    proof (cases "op_Verifiable op")
      case False
      then show ?thesis unfolding a prod.case b by (auto simp: None intro!: exI conjI refl after_apply_up(2))
    next
      case ver: True
      show ?thesis
      proof (cases v)
        case True
        then show ?thesis using searched_seen [OF s True] vv ver
          unfolding a prod.case b v by (auto simp: None Let_def intro!: exI conjI refl st)
      next
        case False
        then show ?thesis using vv ver
          unfolding a prod.case b v by (auto simp: None Let_def intro!: exI conjI refl st)
      qed
    qed
  qed
qed

end
