(* ===== verification/Ids.thy ===== *)
theory Ids
  imports Go_Lib "HOL-Library.Word"
begin

text \<open>
  Identifiers: \<open>ULIDGenerator\<close> of \<open>internal/operations/ids.go\<close>, with the parts of
  \<open>encoding/base32\<close>, \<open>encoding/binary\<close> and \<open>strings\<close> it uses. A byte is an \<open>8 word\<close>, so that
  \<open>b[i]++\<close> wraps; an \<open>int64\<close> of milliseconds is an \<open>int\<close>, which its shifts and truncations to a
  byte read at the right width. What \<open>rand.Read\<close> delivers is an argument: \<open>None\<close> where it fails.
\<close>

section \<open>Big-endian bytes and base 32\<close>

fun be_value :: "8 word list \<Rightarrow> nat" where
  "be_value [] = 0"
| "be_value (b # bs) = unat b * 256 ^ length bs + be_value bs"

fun be_digits :: "nat \<Rightarrow> nat \<Rightarrow> nat \<Rightarrow> nat list" where
  "be_digits base 0 n = []"
| "be_digits base (Suc k) n = n div base ^ k # be_digits base k (n mod base ^ k)"

definition alphabet :: string where
  "alphabet = ''0123456789ABCDEFGHJKMNPQRSTVWXYZ''"

text \<open>
  \<open>Encoding.EncodeToString\<close> without padding: five bits a character, the last one filled up with
  zero bits.
\<close>

definition EncodeToString :: "8 word list \<Rightarrow> string" where
  "EncodeToString bs =
    (let chars = (8 * length bs + 4) div 5
     in map ((!) alphabet) (be_digits 32 chars (be_value bs * 2 ^ (5 * chars - 8 * length bs))))"

definition lower_ascii :: "char \<Rightarrow> char" where
  "lower_ascii c = (if CHR ''A'' \<le> c \<and> c \<le> CHR ''Z'' then char_of (of_char c + 32 :: nat) else c)"

definition PutUint64 :: "int \<Rightarrow> 8 word list" where
  "PutUint64 v = map (\<lambda>i. word_of_int (v div 2 ^ i)) [56, 48, 40, 32, 24, 16, 8, 0]"

section \<open>The generator\<close>

record ulid_generator =
  ug_lastMS :: millis
  ug_lastRand :: "8 word list"

definition NewULIDGenerator :: ulid_generator where
  "NewULIDGenerator = \<lparr>ug_lastMS = 0, ug_lastRand = replicate 10 0\<rparr>"

fun increment_loop :: "8 word list \<Rightarrow> 8 word list" where
  "increment_loop [] = []"
| "increment_loop (b # bs) = (if b + 1 \<noteq> 0 then (b + 1) # bs else (b + 1) # increment_loop bs)"

definition incrementBytes :: "8 word list \<Rightarrow> 8 word list" where
  "incrementBytes bs = rev (increment_loop (rev bs))"

definition next_rand :: "millis \<Rightarrow> 8 word list option \<Rightarrow> ulid_generator \<Rightarrow> 8 word list" where
  "next_rand ms drawn g =
    (if ms = ug_lastMS g then incrementBytes (ug_lastRand g)
     else case drawn of
            Some r \<Rightarrow> r
          | None \<Rightarrow> PutUint64 ms @ drop 8 (ug_lastRand g))"

definition stamp_bytes :: "millis \<Rightarrow> 8 word list" where
  "stamp_bytes ms = map (\<lambda>i. word_of_int (ms div 2 ^ i)) [40, 32, 24, 16, 8, 0]"

definition ulid :: "millis \<Rightarrow> 8 word list option \<Rightarrow> ulid_generator \<Rightarrow> string \<times> ulid_generator" where
  "ulid ms drawn g =
    (let entropy = next_rand ms drawn g
     in (map lower_ascii (EncodeToString (stamp_bytes ms @ entropy)),
         \<lparr>ug_lastMS = ms, ug_lastRand = entropy\<rparr>))"


text \<open>The identifiers a generator hands out over a list of clock readings and draws.\<close>

fun ulids :: "(millis \<times> 8 word list option) list \<Rightarrow> ulid_generator \<Rightarrow> string list" where
  "ulids [] g = []"
| "ulids ((ms, drawn) # ds) g = (case ulid ms drawn g of (u, g') \<Rightarrow> u # ulids ds g')"

section \<open>Values\<close>

lemma byte_below: "unat (b :: 8 word) < 256"
  using unsigned_less [where 'b = 8 and 'a = nat, of b] by simp

lemma be_value_less: "be_value bs < 256 ^ length bs"
proof (induction bs)
  case (Cons b bs)
  have "be_value (b # bs) < unat b * 256 ^ length bs + 256 ^ length bs" using Cons by simp
  also have "\<dots> = (unat b + 1) * 256 ^ length bs" by (simp add: algebra_simps)
  also have "\<dots> \<le> 256 * 256 ^ length bs" using byte_below [of b] by (intro mult_le_mono1) simp
  finally show ?case by simp
qed simp

lemma be_value_append: "be_value (xs @ ys) = be_value xs * 256 ^ length ys + be_value ys"
  by (induction xs) (auto simp: power_add algebra_simps)

lemma length_increment_loop [simp]: "length (increment_loop bs) = length bs"
  by (induction bs) auto

lemma length_incrementBytes [simp]: "length (incrementBytes bs) = length bs"
  by (simp add: incrementBytes_def)

lemma be_value_snoc: "be_value (bs @ [b]) = be_value bs * 256 + unat b"
  by (simp add: be_value_append)

lemma increment_loop_value:
  "be_value (rev (increment_loop bs)) = (be_value (rev bs) + 1) mod 256 ^ length bs"
proof (induction bs)
  case (Cons b bs)
  let ?n = "256 ^ length bs :: nat" and ?v = "be_value (rev bs)"
  have b: "unat b < 256" by (rule byte_below)
  have v: "?v < ?n" using be_value_less [of "rev bs"] by simp
  show ?case
  proof (cases "b + 1 = 0")
    case True
    then have "unat b + 1 = 256" using b unat_word_ariths(1) [of b 1] by (auto simp: mod_if split: if_splits)
    then have "be_value (rev (b # bs)) + 1 = 256 * (?v + 1)" by (simp add: be_value_snoc)
    then have "(be_value (rev (b # bs)) + 1) mod (256 * ?n) = 256 * ((?v + 1) mod ?n)"
      by (simp only: mult_mod_right)
    also have "\<dots> = be_value (rev (increment_loop (b # bs)))"
      using True Cons by (simp add: be_value_snoc mult.commute)
    finally show ?thesis by simp
  next
    case False
    then have u: "unat (b + 1) = unat b + 1" by (metis unatSuc add.commute Suc_eq_plus1)
    then have "unat b + 1 < 256" using byte_below [of "b + 1"] by simp
    moreover have "Suc ?v * 256 \<le> ?n * 256" using v by (intro mult_le_mono1) simp
    ultimately have "?v * 256 + unat b + 1 < 256 * ?n" by simp
    then show ?thesis using False u by (simp add: be_value_snoc)
  qed
qed simp

lemma incrementBytes_value: "be_value (incrementBytes bs) = (be_value bs + 1) mod 256 ^ length bs"
  using increment_loop_value [of "rev bs"] by (simp add: incrementBytes_def)

section \<open>Order\<close>

lemma length_be_digits [simp]: "length (be_digits base k n) = k"
  by (induction k arbitrary: n) auto

lemma be_digits_below: "0 < base \<Longrightarrow> n < base ^ k \<Longrightarrow> d \<in> set (be_digits base k n) \<Longrightarrow> d < base"
proof (induction k arbitrary: n)
  case (Suc k)
  have "n mod base ^ k < base ^ k" using Suc.prems(1) by simp
  moreover have "n div base ^ k < base" using Suc.prems by (simp add: less_mult_imp_div_less)
  ultimately show ?case using Suc.IH [of "n mod base ^ k"] Suc.prems by auto
qed simp

lemma be_digits_mono:
  assumes "0 < base" and "m < n" and "n < base ^ k"
    and "\<And>i j. i < j \<Longrightarrow> j < base \<Longrightarrow> (f i :: char) < f j"
  shows "map f (be_digits base k m) < map f (be_digits base k n)"
  using assms(2,3)
proof (induction k arbitrary: m n)
  case (Suc k)
  have below: "n div base ^ k < base" using Suc.prems assms(1) by (simp add: less_mult_imp_div_less)
  have "m div base ^ k < n div base ^ k \<or> m div base ^ k = n div base ^ k \<and> m mod base ^ k < n mod base ^ k"
    using Suc.prems(1) by (metis div_le_mono div_mult_mod_eq le_neq_implies_less nat_add_left_cancel_less nless_le)
  then show ?case using Suc.IH [of "m mod base ^ k" "n mod base ^ k"] below assms(1,4) by auto
qed simp

lemma be_digits_value: "0 < base \<Longrightarrow> n < base ^ k \<Longrightarrow>
    foldl (\<lambda>a d. a * base + d) a (be_digits base k n) = a * base ^ k + n"
proof (induction k arbitrary: a n)
  case (Suc k)
  have "n mod base ^ k < base ^ k" using Suc.prems(1) by simp
  then have "foldl (\<lambda>a d. a * base + d) a (be_digits base (Suc k) n)
      = (a * base + n div base ^ k) * base ^ k + n mod base ^ k"
    using Suc.IH Suc.prems(1) by simp
  also have "\<dots> = a * base ^ Suc k + (n div base ^ k * base ^ k + n mod base ^ k)"
    by (simp add: algebra_simps)
  finally show ?case by (simp only: div_mult_mod_eq)
qed simp

definition lower_alphabet :: string where
  "lower_alphabet = ''0123456789abcdefghjkmnpqrstvwxyz''"

lemma lower_alphabet_at: "d < 32 \<Longrightarrow> lower_ascii (alphabet ! d) = lower_alphabet ! d"
proof -
  have "map lower_ascii alphabet = lower_alphabet" by code_simp
  moreover have "length alphabet = 32" by code_simp
  ultimately show "d < 32 \<Longrightarrow> ?thesis" by (metis nth_map)
qed

lemma lower_alphabet_sorted: "i < j \<Longrightarrow> j < 32 \<Longrightarrow> lower_alphabet ! i < lower_alphabet ! j"
proof -
  have "sorted_wrt (<) lower_alphabet" by code_simp
  moreover have "length lower_alphabet = 32" by code_simp
  ultimately show "i < j \<Longrightarrow> j < 32 \<Longrightarrow> ?thesis" by (simp add: sorted_wrt_nth_less)
qed
section \<open>Identifiers\<close>

definition id_value :: "millis \<Rightarrow> 8 word list \<Rightarrow> nat" where
  "id_value ms entropy = be_value (stamp_bytes ms @ entropy)"

lemma big_endian_value:
  "int (be_value (map (\<lambda>i. word_of_int (v div 256 ^ i)) (rev [0..<n]))) = v mod 256 ^ n"
proof (induction n)
  case (Suc n)
  have "v mod (256 ^ n * 256) = 256 ^ n * (v div 256 ^ n mod 256) + v mod 256 ^ n"
    by (rule zmod_zmult2_eq) simp
  then show ?case using Suc by (simp add: uint_word_of_int mult.commute)
qed simp

lemma stamp_value:
  assumes "0 \<le> ms" and "ms < 2 ^ 48"
  shows "be_value (stamp_bytes ms) = nat ms"
proof -
  have "stamp_bytes ms = map (\<lambda>i. word_of_int (ms div 256 ^ i)) (rev [0..<6])"
    by (simp add: stamp_bytes_def upt_rec)
  then have "int (be_value (stamp_bytes ms)) = ms mod 256 ^ 6" by (simp only: big_endian_value)
  then show ?thesis using assms by simp
qed

lemma ulid_text:
  assumes "length entropy = 10"
  shows "map lower_ascii (EncodeToString (stamp_bytes ms @ entropy))
    = map ((!) lower_alphabet) (be_digits 32 26 (id_value ms entropy * 4))"
proof -
  have len: "length (stamp_bytes ms @ entropy) = 16" using assms by (simp add: stamp_bytes_def)
  then have "be_value (stamp_bytes ms @ entropy) < 256 ^ 16" by (metis be_value_less)
  then have small: "id_value ms entropy * 4 < 32 ^ 26" by (simp add: id_value_def)
  have "map lower_ascii (map ((!) alphabet) (be_digits 32 26 n)) = map ((!) lower_alphabet) (be_digits 32 26 n)"
    if "n < 32 ^ 26" for n
    using that be_digits_below [of 32 n 26] lower_alphabet_at by auto
  from this [OF small] show ?thesis using len by (simp add: EncodeToString_def Let_def id_value_def)
qed

lemma ulid_less:
  assumes "length e = 10" and "length e' = 10" and "id_value ms e < id_value ms' e'"
  shows "map lower_ascii (EncodeToString (stamp_bytes ms @ e)) < map lower_ascii (EncodeToString (stamp_bytes ms' @ e'))"
proof -
  have len: "length (stamp_bytes ms' @ e') = 16" using assms by (simp add: stamp_bytes_def)
  then have "id_value ms' e' < 256 ^ 16" unfolding id_value_def by (metis be_value_less)
  then have "id_value ms' e' * 4 < 32 ^ 26" by simp
  then show ?thesis unfolding ulid_text [OF assms(1)] ulid_text [OF assms(2)]
    using assms(3) lower_alphabet_sorted by (intro be_digits_mono) auto
qed

lemma id_value_split: "0 \<le> ms \<Longrightarrow> ms < 2 ^ 48 \<Longrightarrow> length e = 10 \<Longrightarrow>
    id_value ms e = nat ms * 256 ^ 10 + be_value e"
  by (simp only: id_value_def be_value_append stamp_value)

text \<open>Whether a counter can be advanced that often without running over.\<close>

definition headroom :: "nat \<Rightarrow> 8 word list \<Rightarrow> bool" where
  "headroom n e \<longleftrightarrow> length e = 10 \<and> be_value e + n < 256 ^ 10"

definition fair_draw :: "nat \<Rightarrow> millis \<times> 8 word list option \<Rightarrow> bool" where
  "fair_draw n d = (case d of (ms, drawn) \<Rightarrow>
     0 \<le> ms \<and> ms < 2 ^ 48 \<and> (case drawn of None \<Rightarrow> True | Some r \<Rightarrow> headroom n r))"

lemma headroom_mono: "headroom n e \<Longrightarrow> m \<le> n \<Longrightarrow> headroom m e"
  by (simp add: headroom_def)

lemma fair_draw_mono: "fair_draw n d \<Longrightarrow> m \<le> n \<Longrightarrow> fair_draw m d"
  by (auto simp: fair_draw_def split: option.splits elim: headroom_mono)

lemma fallback_headroom:
  assumes "0 \<le> ms" and "ms < 2 ^ 48" and "length e = 10" and "n < 2 ^ 64"
  shows "headroom n (PutUint64 ms @ drop 8 e)"
proof -
  have "PutUint64 ms = map (\<lambda>i. word_of_int (ms div 256 ^ i)) (rev [0..<8])"
    by (simp add: PutUint64_def upt_rec)
  then have "int (be_value (PutUint64 ms)) = ms mod 256 ^ 8" by (simp only: big_endian_value)
  also have "\<dots> = ms" using assms by simp
  finally have v: "be_value (PutUint64 ms) < 2 ^ 48" using assms by simp
  have "be_value (drop 8 e) < 256 ^ length (drop 8 e)" by (rule be_value_less)
  then show ?thesis using v assms by (simp add: headroom_def be_value_append PutUint64_def)
qed

lemma next_rand_step:
  assumes g: "headroom (Suc n) (ug_lastRand g)" "0 \<le> ug_lastMS g" "ug_lastMS g \<le> ms"
    and d: "fair_draw n (ms, drawn)" and n: "n < 2 ^ 64"
  shows "headroom n (next_rand ms drawn g)"
    and "id_value (ug_lastMS g) (ug_lastRand g) < id_value ms (next_rand ms drawn g)"
proof -
  let ?e = "next_rand ms drawn g"
  have ms: "0 \<le> ms" "ms < 2 ^ 48" using d by (simp_all add: fair_draw_def)
  have len: "length (ug_lastRand g) = 10" using g by (simp add: headroom_def)
  show room: "headroom n ?e"
  proof (cases "ms = ug_lastMS g")
    case True
    then show ?thesis using g by (auto simp: next_rand_def headroom_def incrementBytes_value)
  next
    case False
    then show ?thesis using d fallback_headroom [OF ms len n]
      by (auto simp: next_rand_def fair_draw_def split: option.splits)
  qed
  have split: "id_value ms ?e = nat ms * 256 ^ 10 + be_value ?e"
      "id_value (ug_lastMS g) (ug_lastRand g) = nat (ug_lastMS g) * 256 ^ 10 + be_value (ug_lastRand g)"
    using id_value_split room ms g len by (auto simp: headroom_def)
  show "id_value (ug_lastMS g) (ug_lastRand g) < id_value ms ?e"
  proof (cases "ms = ug_lastMS g")
    case True
    then have "be_value ?e = be_value (ug_lastRand g) + 1"
      using g by (simp add: next_rand_def headroom_def incrementBytes_value)
    then show ?thesis unfolding split using True by simp
  next
    case False
    then have "nat (ug_lastMS g) + 1 \<le> nat ms" using g by simp
    then have "(nat (ug_lastMS g) + 1) * 256 ^ 10 \<le> nat ms * 256 ^ 10" by (rule mult_le_mono1)
    then show ?thesis using g by (simp add: split headroom_def)
  qed
qed

lemma ulids_above:
  assumes "headroom n (ug_lastRand g)" and "length ds \<le> n" and "n < 2 ^ 64" and "0 \<le> ug_lastMS g"
    and "sorted (ug_lastMS g # map fst ds)" and "list_all (fair_draw n) ds"
  shows "(\<forall>u\<in>set (ulids ds g). map lower_ascii (EncodeToString (stamp_bytes (ug_lastMS g) @ ug_lastRand g)) < u)
    \<and> sorted_wrt (<) (ulids ds g)"
  using assms
proof (induction ds arbitrary: g n)
  case (Cons d ds)
  obtain ms drawn where d: "d = (ms, drawn)" by fastforce
  obtain m where m: "n = Suc m" using Cons.prems(2) by (cases n) auto
  define g' where "g' = \<lparr>ug_lastMS = ms, ug_lastRand = next_rand ms drawn g\<rparr>"
  let ?txt = "\<lambda>g. map lower_ascii (EncodeToString (stamp_bytes (ug_lastMS g) @ ug_lastRand g))"
  have fair: "fair_draw m (ms, drawn)"
    using Cons.prems(6) d m fair_draw_mono [of n "(ms, drawn)" m] by simp
  have step: "headroom m (ug_lastRand g')"
      "id_value (ug_lastMS g) (ug_lastRand g) < id_value (ug_lastMS g') (ug_lastRand g')"
    using next_rand_step [of m g ms drawn] Cons.prems fair m d by (simp_all add: g'_def)
  have rest: "length ds \<le> m" "m < 2 ^ 64" "0 \<le> ug_lastMS g'" "sorted (ug_lastMS g' # map fst ds)"
    using Cons.prems(2-5) d m by (simp_all add: g'_def)
  have fairs: "list_all (fair_draw m) ds"
    using Cons.prems(6) d m fair_draw_mono [of n _ m] by (simp add: list_all_iff)
  have less: "?txt g < ?txt g'"
    using ulid_less step Cons.prems(1) by (simp add: headroom_def)
  have u: "ulids (d # ds) g = ?txt g' # ulids ds g'" by (simp add: d ulid_def Let_def g'_def)
  show ?case using less Cons.IH [OF step(1) rest fairs] order.strict_trans unfolding u by auto
qed simp_all

definition position :: "char \<Rightarrow> nat" where
  "position c = length (takeWhile (\<lambda>a. a \<noteq> c) lower_alphabet)"

definition read32 :: "string \<Rightarrow> nat" where
  "read32 u = foldl (\<lambda>a c. a * 32 + position c) 0 u"

lemma position_at: "d < 32 \<Longrightarrow> position (lower_alphabet ! d) = d"
proof -
  have "\<forall>d\<in>set [0..<32]. position (lower_alphabet ! d) = d" by code_simp
  then show "d < 32 \<Longrightarrow> ?thesis" by simp
qed

lemma read32_digits: "n < 32 ^ k \<Longrightarrow> read32 (map ((!) lower_alphabet) (be_digits 32 k n)) = n"
proof -
  assume n: "n < 32 ^ k"
  have "foldl (\<lambda>a c. a * 32 + position c) a (map ((!) lower_alphabet) ds) = foldl (\<lambda>a d. a * 32 + d) a ds"
    if "\<And>d. d \<in> set ds \<Longrightarrow> d < 32" for a ds
    using that by (induction ds arbitrary: a) (simp_all add: position_at)
  then show ?thesis
    using be_digits_value [of 32 n k 0] be_digits_below [of 32 n k] n by (simp add: read32_def)
qed

text \<open>
  Identifiers sort in the order they were drawn. While the clock does not run backwards, any
  number of identifiers of one generator, in the same millisecond or not and with or without system
  entropy, come out in strictly increasing byte order, so no two are equal.
\<close>
theorem ids_sort:
  assumes "sorted (0 # map fst ds)" and "length ds < 2 ^ 64" and "list_all (fair_draw (length ds)) ds"
  shows "sorted_wrt (<) (ulids ds NewULIDGenerator)"
proof (rule ulids_above [THEN conjunct2])
  have "be_value (replicate n 0) = 0" for n by (induction n) auto
  then show "headroom (length ds) (ug_lastRand NewULIDGenerator)"
    using assms(2) by (simp add: headroom_def NewULIDGenerator_def)
  show "list_all (fair_draw (length ds)) ds" by (rule assms(3))
qed (use assms(1,2) in \<open>simp_all add: NewULIDGenerator_def\<close>)

text \<open>
  An identifier reads back. It has 26 characters, and read in base 32 it gives the milliseconds of
  its clock reading and the ten bytes of entropy the generator holds afterwards.
\<close>
theorem id_reads_back:
  assumes "0 \<le> ms" and "ms < 2 ^ 48" and "length (next_rand ms drawn g) = 10"
  shows "case ulid ms drawn g of (u, g') \<Rightarrow>
    length u = 26 \<and> read32 u div 4 = nat ms * 256 ^ 10 + be_value (ug_lastRand g')
    \<and> read32 u div 2 ^ 82 = nat ms"
proof -
  let ?e = "next_rand ms drawn g"
  have len: "length (stamp_bytes ms @ ?e) = 16" using assms by (simp add: stamp_bytes_def)
  have "id_value ms ?e < 256 ^ 16" unfolding id_value_def by (metis be_value_less len)
  then have small: "id_value ms ?e * 4 < 32 ^ 26" by simp
  have v: "id_value ms ?e = nat ms * 256 ^ 10 + be_value ?e" using assms by (simp only: id_value_split)
  have "be_value ?e < 256 ^ 10" using be_value_less [of ?e] assms by simp
  moreover have "fst (ulid ms drawn g) = map ((!) lower_alphabet) (be_digits 32 26 (id_value ms ?e * 4))"
    using assms by (simp add: ulid_def Let_def ulid_text)
  ultimately show ?thesis using read32_digits [OF small] v
    by (simp add: ulid_def Let_def)
qed


definition sample_draws :: "(millis \<times> 8 word list option) list" where
  "sample_draws = [(1700000000000, Some [1, 2, 3, 4, 5, 6, 7, 8, 9, 255]), (1700000000000, None), (1700000000001, None)]"

theorem ids_sort_witness:
  "sorted_wrt (<) (ulids sample_draws NewULIDGenerator) \<and> length (ulids sample_draws NewULIDGenerator) = 3"
proof -
  have "sorted_wrt (<) (ulids sample_draws NewULIDGenerator)"
    by (rule ids_sort) (simp_all add: sample_draws_def fair_draw_def headroom_def)
  then show ?thesis by (simp add: sample_draws_def ulid_def Let_def)
qed

theorem id_reads_back_witness:
  "read32 (fst (ulid 1700000000000 None NewULIDGenerator)) div 2 ^ 82 = 1700000000000"
  using id_reads_back [of 1700000000000 None NewULIDGenerator]
  by (auto simp: next_rand_def NewULIDGenerator_def PutUint64_def split: prod.splits)

end
