(* ===== verification/Outbox.thy ===== *)
theory Outbox
  imports Host
begin

text \<open>
  The outbox: \<open>internal/storage/sqlite/outbox.go\<close>. A row is queued by the transaction of a state
  change (\<open>enqueue\<close>, in \<open>Database\<close>) or by a plugin's (\<open>EnqueueEvent\<close> of \<open>tx.go\<close>), read back in
  the order of its sequence number, and marked as published or scheduled again. The invariant
  \<open>outbox_ok\<close> says that sequence numbers increase along the table and that no event identifier
  repeats.
\<close>

section \<open>Reading\<close>

record pending_event =
  pe_Seq :: int
  pe_EventID :: string
  pe_Subject :: string
  pe_OperationID :: string
  pe_CorrelationID :: string
  pe_Payload :: raw_message
  pe_Attempts :: nat

definition scanPending :: "outbox_row \<Rightarrow> pending_event" where
  "scanPending r = \<lparr>pe_Seq = ob_seq r, pe_EventID = ob_event_id r, pe_Subject = ob_subject r,
     pe_OperationID = (case ob_operation_id r of None \<Rightarrow> '''' | Some i \<Rightarrow> i),
     pe_CorrelationID = ob_correlation_id r, pe_Payload = ob_payload_json r, pe_Attempts = ob_attempts r\<rparr>"

definition unpublished :: "outbox_row \<Rightarrow> bool" where
  "unpublished r \<longleftrightarrow> ob_published_at r = None"

definition due :: "time \<Rightarrow> outbox_row \<Rightarrow> bool" where
  "due now r \<longleftrightarrow> unpublished r \<and> ob_next_attempt_at r \<le> UnixMilli now"

definition Pending_rows :: "time \<Rightarrow> int \<Rightarrow> outbox_row list \<Rightarrow> outbox_row list" where
  "Pending_rows now limit rows =
    take (nat (if limit \<le> 0 then 128 else limit))
      (sort_by (\<lambda>a b. ob_seq a \<le> ob_seq b) (filter (due now) rows))"

definition Pending :: "time \<Rightarrow> int \<Rightarrow> database \<Rightarrow> pending_event list" where
  "Pending now limit db = map scanPending (Pending_rows now limit (db_outbox db))"

definition PendingCount :: "database \<Rightarrow> nat" where
  "PendingCount db = count_where unpublished (db_outbox db)"

section \<open>Marking\<close>

definition published_at :: "time \<Rightarrow> outbox_row \<Rightarrow> outbox_row" where
  "published_at t r = r\<lparr>ob_published_at := Some (UnixMilli t), ob_last_error := None\<rparr>"

definition MarkPublished :: "string \<Rightarrow> time \<Rightarrow> database \<Rightarrow> op_error option \<times> database" where
  "MarkPublished eventID t =
    WriteTx (\<lambda>db. Inr (db\<lparr>db_outbox :=
      update_where (\<lambda>r. ob_event_id r = eventID \<and> unpublished r) (published_at t) (db_outbox db)\<rparr>))"

definition truncate :: "string \<Rightarrow> nat \<Rightarrow> string option" where
  "truncate s n = (if s = '''' then None else if length s > n then Some (take n s) else Some s)"

definition failed_until :: "time \<Rightarrow> string \<Rightarrow> outbox_row \<Rightarrow> outbox_row" where
  "failed_until t cause r = r\<lparr>ob_attempts := ob_attempts r + 1, ob_next_attempt_at := UnixMilli t,
     ob_last_error := truncate cause 1024\<rparr>"

definition MarkFailed :: "string \<Rightarrow> time \<Rightarrow> string \<Rightarrow> database \<Rightarrow> op_error option \<times> database" where
  "MarkFailed eventID nextAttempt cause =
    WriteTx (\<lambda>db. Inr (db\<lparr>db_outbox :=
      update_where (\<lambda>r. ob_event_id r = eventID \<and> unpublished r) (failed_until nextAttempt cause)
        (db_outbox db)\<rparr>))"

definition purgeable :: "time \<Rightarrow> outbox_row \<Rightarrow> bool" where
  "purgeable olderThan r = (case ob_published_at r of None \<Rightarrow> False | Some p \<Rightarrow> p < UnixMilli olderThan)"

definition PurgePublished :: "time \<Rightarrow> database \<Rightarrow> nat \<times> database" where
  "PurgePublished olderThan db =
    (count_where (purgeable olderThan) (db_outbox db),
     db\<lparr>db_outbox := filter (\<lambda>r. \<not> purgeable olderThan r) (db_outbox db)\<rparr>)"

text \<open>A plugin's event: the row \<open>EnqueueEvent\<close> inserts, with the identifier drawn for it.\<close>

definition EnqueueEvent :: "(string \<Rightarrow> bool) \<Rightarrow> string \<Rightarrow> millis \<Rightarrow> string \<Rightarrow> string \<Rightarrow> string \<Rightarrow> raw_message
    \<Rightarrow> database \<Rightarrow> op_error + database" where
  "EnqueueEvent jv eventID now subject operationID correlationID payload db =
    (if \<not> jv payload then Inl (ErrConstraint (sql_text (CheckFailed ''payload_json'')))
     else if eventID \<in> ob_event_id ` set (db_outbox db)
       then Inl (ErrConstraint (sql_text (UniqueFailed ''outbox_events.event_id'')))
     else Inr (db\<lparr>
       db_outbox := db_outbox db @ [\<lparr>ob_seq = sq_outbox db + 1, ob_event_id = eventID, ob_subject = subject,
         ob_operation_id = nullStr operationID, ob_correlation_id = correlationID, ob_payload_json = payload,
         ob_created_at = now, ob_published_at = None, ob_attempts = 0, ob_next_attempt_at = 0,
         ob_last_error = None\<rparr>],
       sq_outbox := sq_outbox db + 1\<rparr>))"

section \<open>The order of the table\<close>

definition outbox_ok :: "database \<Rightarrow> bool" where
  "outbox_ok db \<longleftrightarrow> sorted_wrt (\<lambda>a b. ob_seq a < ob_seq b) (db_outbox db)
     \<and> list_all (\<lambda>r. ob_seq r \<le> sq_outbox db) (db_outbox db)
     \<and> distinct (map ob_event_id (db_outbox db))"

text \<open>A table another one extends: the rows it had, and newer ones that wait.\<close>

definition fresh_row :: "outbox_row \<Rightarrow> bool" where
  "fresh_row r \<longleftrightarrow> unpublished r \<and> ob_attempts r = 0 \<and> ob_next_attempt_at r = 0"

definition queued :: "database \<Rightarrow> database \<Rightarrow> bool" where
  "queued db db' \<longleftrightarrow> (\<exists>new. db_outbox db' = db_outbox db @ new \<and> list_all fresh_row new)
     \<and> (outbox_ok db \<longrightarrow> outbox_ok db')"

lemma queued_refl [simp]: "queued db db"
  by (simp add: queued_def)

lemma queued_same: "db_outbox db' = db_outbox db \<Longrightarrow> sq_outbox db' = sq_outbox db \<Longrightarrow> queued db db'"
  by (simp add: queued_def outbox_ok_def)

lemma queued_trans: "queued a b \<Longrightarrow> queued b c \<Longrightarrow> queued a c"
proof -
  assume ab: "queued a b" and bc: "queued b c"
  then obtain m n where "db_outbox b = db_outbox a @ m" "db_outbox c = db_outbox b @ n"
      "list_all fresh_row m" "list_all fresh_row n"
    by (auto simp: queued_def)
  then have "db_outbox c = db_outbox a @ (m @ n)" "list_all fresh_row (m @ n)" by auto
  then show ?thesis using ab bc unfolding queued_def by blast
qed

lemma queued_append:
  assumes "db_outbox db' = db_outbox db @ [r]" and "sq_outbox db' = sq_outbox db + 1"
    and "ob_seq r = sq_outbox db + 1" and "ob_event_id r \<notin> ob_event_id ` set (db_outbox db)" and "fresh_row r"
  shows "queued db db'"
  using assms by (auto simp: queued_def outbox_ok_def sorted_wrt_append list_all_iff)

lemma enqueue_queued: "enqueue jv now e db = Inr db' \<Longrightarrow> queued db db'"
  by (rule queued_append [of _ _ "outbox_row_of now e (sq_outbox db + 1)"])
     (auto simp: enqueue_def outbox_row_of_def fresh_row_def unpublished_def Let_def split: if_splits)

lemma EnqueueEvent_queued: "EnqueueEvent jv i now s o_id co p db = Inr db' \<Longrightarrow> queued db db'"
  by (rule queued_append [of _ _ "\<lparr>ob_seq = sq_outbox db + 1, ob_event_id = i, ob_subject = s,
         ob_operation_id = nullStr o_id, ob_correlation_id = co, ob_payload_json = p,
         ob_created_at = now, ob_published_at = None, ob_attempts = 0, ob_next_attempt_at = 0,
         ob_last_error = None\<rparr>"])
     (auto simp: EnqueueEvent_def fresh_row_def unpublished_def split: if_splits)

text \<open>No other statement touches the outbox.\<close>

definition outbox_kept :: "database \<Rightarrow> database \<Rightarrow> bool" where
  "outbox_kept db db' \<longleftrightarrow> db_outbox db' = db_outbox db \<and> sq_outbox db' = sq_outbox db"

lemma outbox_kept_refl [intro]: "outbox_kept db db"
  by (simp add: outbox_kept_def)

lemma outbox_kept_trans: "outbox_kept a b \<Longrightarrow> outbox_kept b c \<Longrightarrow> outbox_kept a c"
  by (simp add: outbox_kept_def)

lemma outbox_kept_queued: "outbox_kept a b \<Longrightarrow> queued b c \<Longrightarrow> queued a c"
  by (rule queued_trans [OF queued_same]) (simp_all add: outbox_kept_def)

lemma kept_steps:
  "execGuarded jv sets cond db = Inr db' \<Longrightarrow> outbox_kept db db'"
  "guarded_as e (execGuarded jv sets cond db) = Inr db' \<Longrightarrow> outbox_kept db db'"
  "insert_operation jv r db = Inr db' \<Longrightarrow> outbox_kept db db'"
  "recordTransition now i f t a re co db = Inr db' \<Longrightarrow> outbox_kept db db'"
  "appendAudit jv now ae db = Inr db' \<Longrightarrow> outbox_kept db db'"
  "insert_attempt at db = Inr db' \<Longrightarrow> outbox_kept db db'"
  "upsert_idem m now db = (db', n) \<Longrightarrow> outbox_kept db db'"
  "outbox_kept db (finish_attempt now req db)"
proof -
  show eg: "execGuarded jv sets cond db = Inr db' \<Longrightarrow> outbox_kept db db'"
    by (auto simp: execGuarded_def update_operations_def Let_def outbox_kept_def
        split: sum.splits if_splits prod.splits option.splits)
  show "guarded_as e (execGuarded jv sets cond db) = Inr db' \<Longrightarrow> outbox_kept db db'"
    using eg by (auto simp: guarded_as_def split: sum.splits guarded_error.splits)
qed (auto simp: insert_operation_def recordTransition_def appendAudit_def insert_audit_def insert_attempt_def
    upsert_idem_def finish_attempt_def Let_def outbox_kept_def split: option.splits if_splits)

lemma call_tx_queued: "call_tx jv clk c db = Inr db' \<Longrightarrow> queued db db'"
proof (cases c)
  case (DoPropose req)
  assume "call_tx jv clk c db = Inr db'"
  with DoPropose obtain op db1 db2 n db3 db4 where steps:
      "insert_operation jv (row_of_operation op) db = Inr db1"
      "upsert_idem (idem_of (UnixMilli (clk 1)) (clk 2) op req) (UnixMilli (clk 1)) db1 = (db2, n)"
      "recordTransition (UnixMilli (clk 1)) (op_ID op) '''' (state_String (op_State op))
         (op_RequestedBy op) ''proposed'' (op_CorrelationID op) db2 = Inr db3"
      "appendAudit jv (UnixMilli (clk 1)) (pr_Audit req) db3 = Inr db4"
      "enqueue jv (UnixMilli (clk 1)) (pr_Event req) db4 = Inr db'"
    by (auto simp: propose_tx_def idem_of_def Let_def and_then_Inr split: option.splits sum.splits if_splits prod.splits)
  then show ?thesis
    by (meson enqueue_queued kept_steps outbox_kept_queued outbox_kept_trans)
next
  case (DoTransition req)
  assume "call_tx jv clk c db = Inr db'"
  with DoTransition obtain db1 db2 db3 where steps:
      "outbox_kept db db1" "outbox_kept db1 db2" "outbox_kept db2 db3" "queued db3 db'"
    by (auto simp: transition_tx_def and_then_Inr dest!: kept_steps(1-7) enqueue_queued)
  then show ?thesis by (meson outbox_kept_queued)
next
  case (DoClaim req)
  assume "call_tx jv clk c db = Inr db'"
  with DoClaim obtain db1 db2 db3 db4 where
      "outbox_kept db db1" "outbox_kept db1 db2" "outbox_kept db2 db3" "outbox_kept db3 db4" "queued db4 db'"
    by (auto simp: claim_tx_def and_then_Inr split: option.splits dest!: kept_steps(1-7) enqueue_queued)
  then show ?thesis by (meson outbox_kept_queued)
next
  case (DoSettle req)
  assume "call_tx jv clk c db = Inr db'"
  with DoSettle obtain db1 db2 db3 where
      "outbox_kept db db1" "outbox_kept (finish_attempt (UnixMilli (clk 0)) req db1) db2" "outbox_kept db2 db3"
      "queued db3 db'"
    by (auto simp: settle_tx_def and_then_Inr Let_def split: option.splits dest!: kept_steps(1-7) enqueue_queued)
  then show ?thesis using kept_steps(8) by (meson outbox_kept_queued)
qed

lemma exec_call_queued: "queued db (snd (exec_call jv clk c db))"
  using exec_call_cases [of jv clk c db] call_tx_queued by (cases "exec_call jv clk c db") auto

lemma run_calls_queued: "queued db (run_calls jv cs db)"
proof (induction cs arbitrary: db)
  case (Cons x cs)
  then show ?case by (cases x) (auto intro: queued_trans [OF exec_call_queued])
qed simp

section \<open>Marks\<close>

lemma marks_keep [simp]:
  "ob_seq (published_at t r) = ob_seq r" "ob_event_id (published_at t r) = ob_event_id r"
  "ob_seq (failed_until t c r) = ob_seq r" "ob_event_id (failed_until t c r) = ob_event_id r"
  "unpublished (failed_until t c r) = unpublished r" "\<not> unpublished (published_at t r)"
  by (simp_all add: published_at_def failed_until_def unpublished_def)

lemma update_where_keeps:
  assumes "\<And>r. g (f r) = g r"
  shows "map g (update_where p f rs) = map g rs"
  using assms by (induction rs) (auto simp: update_where_def)

lemma outbox_ok_map: "outbox_ok db \<longleftrightarrow> sorted_wrt (<) (map ob_seq (db_outbox db))
    \<and> list_all (\<lambda>n. n \<le> sq_outbox db) (map ob_seq (db_outbox db)) \<and> distinct (map ob_event_id (db_outbox db))"
  by (simp add: outbox_ok_def sorted_wrt_map list_all_iff)

lemma outbox_ok_update:
  assumes "\<And>r. ob_seq (f r) = ob_seq r" and "\<And>r. ob_event_id (f r) = ob_event_id r"
  shows "outbox_ok (db\<lparr>db_outbox := update_where p f (db_outbox db)\<rparr>) = outbox_ok db"
  unfolding outbox_ok_map
  by (simp add: update_where_keeps [of ob_seq f, OF assms(1)] update_where_keeps [of ob_event_id f, OF assms(2)])

lemma outbox_ok_marks [simp]:
  "outbox_ok (snd (MarkPublished i t db)) = outbox_ok db"
  "outbox_ok (snd (MarkFailed i t c db)) = outbox_ok db"
  by (simp_all add: MarkPublished_def MarkFailed_def WriteTx_def outbox_ok_update)

lemma outbox_ok_purge: "outbox_ok db \<Longrightarrow> outbox_ok (snd (PurgePublished t db))"
  by (auto simp: PurgePublished_def outbox_ok_def list_all_iff sorted_wrt_filter distinct_map_filter)

lemma outbox_ok_empty [simp]: "outbox_ok empty_db"
  by (simp add: outbox_ok_def empty_db_def)

section \<open>What waits\<close>

definition waiting :: "database \<Rightarrow> outbox_row list" where
  "waiting db = filter unpublished (db_outbox db)"

lemma PendingCount_waiting: "PendingCount db = length (waiting db)"
  by (simp add: PendingCount_def waiting_def count_where_def)

lemma queued_waiting: "queued db db' \<Longrightarrow> \<exists>new. waiting db' = waiting db @ new \<and> list_all fresh_row new"
  by (auto simp: queued_def waiting_def list_all_iff fresh_row_def intro!: filter_True)

lemma waiting_published:
  "waiting (snd (MarkPublished i t db)) = filter (\<lambda>r. ob_event_id r \<noteq> i) (waiting db)"
proof -
  have "filter unpublished (update_where (\<lambda>r. ob_event_id r = i \<and> unpublished r) (published_at t) rs)
      = filter (\<lambda>r. ob_event_id r \<noteq> i) (filter unpublished rs)" for rs
    by (induction rs) (auto simp: update_where_def)
  then show ?thesis by (simp add: waiting_def MarkPublished_def WriteTx_def)
qed

lemma waiting_failed:
  "waiting (snd (MarkFailed i t c db)) = update_where (\<lambda>r. ob_event_id r = i) (failed_until t c) (waiting db)"
proof -
  have "filter unpublished (update_where (\<lambda>r. ob_event_id r = i \<and> unpublished r) (failed_until t c) rs)
      = update_where (\<lambda>r. ob_event_id r = i) (failed_until t c) (filter unpublished rs)" for rs
    by (induction rs) (auto simp: update_where_def)
  then show ?thesis by (simp add: waiting_def MarkFailed_def WriteTx_def)
qed

text \<open>The drain query on a table in order: the due rows as they stand, the first ones of them.\<close>

lemma insert_by_first: "list_all (\<lambda>y. le x y) ys \<Longrightarrow> insert_by le x ys = x # ys"
  by (cases ys) auto

lemma sort_by_ordered: "sorted_wrt le xs \<Longrightarrow> sort_by le xs = xs"
  by (induction xs) (auto simp: insert_by_first list_all_iff)

definition batch :: "int \<Rightarrow> nat" where
  "batch limit = nat (if limit \<le> 0 then 128 else limit)"

lemma Pending_waiting:
  assumes "outbox_ok db"
  shows "Pending now limit db = map scanPending (take (batch limit)
    (filter (\<lambda>r. ob_next_attempt_at r \<le> UnixMilli now) (waiting db)))"
proof -
  have "sorted_wrt (\<lambda>a b. ob_seq a < ob_seq b) (filter (due now) (db_outbox db))"
    using assms by (simp add: outbox_ok_def sorted_wrt_filter)
  then have "sorted_wrt (\<lambda>a b. ob_seq a \<le> ob_seq b) (filter (due now) (db_outbox db))"
    by (rule sorted_wrt_mono_rel [rotated]) simp
  moreover have "filter (due now) rs = filter (\<lambda>r. ob_next_attempt_at r \<le> UnixMilli now) (filter unpublished rs)" for rs
    by (induction rs) (auto simp: due_def)
  ultimately show ?thesis
    by (simp add: Pending_def Pending_rows_def batch_def waiting_def sort_by_ordered)
qed

end
