(* ===== verification/Float_Ops.thy ===== *)
theory Float_Ops
  imports Complex_Main Float64
begin

text \<open>
  Arithmetic on non-negative binary64 numbers, as \<open>backoff\<close> of \<open>internal/messaging/publisher.go\<close>
  uses it: conversion from \<open>int64\<close>, \<open>math.Pow(2, n)\<close>, \<open>+\<close>, \<open>*\<close>, halving, comparison and truncation.
  A finite number is a significand and an exponent, positive infinity is \<open>None\<close>. Every operation is
  the exact one followed by \<open>round_ratio\<close>, and rounding is monotone against any representable bound
  (\<open>fl_below\<close>, \<open>fl_above\<close>), which is all the bounds need. A compiler that fuses a product into a sum
  rounds once less, which the same argument covers.
\<close>

type_synonym mag = "(int \<times> int) option"

definition fl :: "int \<Rightarrow> int \<Rightarrow> mag" where
  "fl m e = round_ratio (if e < 0 then m else m * pow2 e) (if e < 0 then pow2 (- e) else 1)"

definition f_int :: "int \<Rightarrow> mag" where "f_int k = fl k 0"
definition f_pow2 :: "int \<Rightarrow> mag" where "f_pow2 k = fl 1 k"

definition f_mul :: "mag \<Rightarrow> mag \<Rightarrow> mag" where
  "f_mul x y = (case (x, y) of (Some (m, e), Some (n, f)) \<Rightarrow> fl (m * n) (e + f) | _ \<Rightarrow> None)"

definition f_add :: "mag \<Rightarrow> mag \<Rightarrow> mag" where
  "f_add x y = (case (x, y) of
     (Some (m, e), Some (n, f)) \<Rightarrow>
       (let g = min e f in fl (m * pow2 (e - g) + n * pow2 (f - g)) g)
   | _ \<Rightarrow> None)"

definition f_half :: "mag \<Rightarrow> mag" where "f_half x = f_mul x (Some (1, -1))"

definition f_less :: "mag \<Rightarrow> mag \<Rightarrow> bool" where
  "f_less x y = (case (x, y) of
     (Some (m, e), Some (n, f)) \<Rightarrow> (let g = min e f in m * pow2 (e - g) < n * pow2 (f - g))
   | (Some _, None) \<Rightarrow> True
   | _ \<Rightarrow> False)"

definition f_trunc :: "int \<times> int \<Rightarrow> int" where
  "f_trunc x = (case x of (m, e) \<Rightarrow> if e < 0 then m div pow2 (- e) else m * pow2 e)"

section \<open>Values\<close>

definition fval :: "int \<times> int \<Rightarrow> real" where
  "fval x = (case x of (m, e) \<Rightarrow> of_int m * 2 powi e)"

lemma pow2_real: "0 \<le> k \<Longrightarrow> of_int (pow2 k) = (2 powi k :: real)"
  by (simp add: pow2_def power_int_def)

lemma pow2_pos [simp]: "0 < pow2 k"
  by (simp add: pow2_def)

lemma bitlen_nat: "0 < n \<Longrightarrow> \<exists>b. bitlen n = int b + 1 \<and> 2 ^ b \<le> n \<and> n < 2 * 2 ^ b"
proof (induction n rule: bitlen.induct)
  case (1 n)
  show ?case
  proof (cases "n div 2 = 0")
    case True
    then have "n = 1" using 1(2) by simp
    then show ?thesis by (simp add: bitlen_step)
  next
    case False
    then have "0 < n div 2" using 1(2) by simp
    then obtain b where b: "bitlen (n div 2) = int b + 1" "2 ^ b \<le> n div 2" "n div 2 < 2 * 2 ^ b"
      using 1 by auto
    then have "bitlen n = int (Suc b) + 1" using 1(2) by (simp add: bitlen_step)
    moreover have "2 ^ Suc b \<le> n" "n < 2 * 2 ^ Suc b" using b by auto
    ultimately show ?thesis by blast
  qed
qed

lemma bitlen_bounds:
  assumes "0 < n"
  shows "2 powi (bitlen n - 1) \<le> real_of_int n" and "real_of_int n < 2 powi bitlen n"
proof -
  obtain b where b: "bitlen n = int b + 1" "2 ^ b \<le> n" "n < 2 * 2 ^ b" using bitlen_nat [OF assms] by blast
  have "real_of_int (2 ^ b) \<le> real_of_int n" using b(2) by (simp only: of_int_le_iff)
  moreover have "real_of_int n < real_of_int (2 * 2 ^ b)" using b(3) by (simp only: of_int_less_iff)
  moreover have "(2 :: real) powi (int b + 1) = 2 * 2 ^ b" by (simp add: power_int_add)
  ultimately show "2 powi (bitlen n - 1) \<le> real_of_int n" "real_of_int n < 2 powi bitlen n"
    by (simp_all add: b(1))
qed

lemma quot_at_ratio:
  assumes "0 < d" and "quot_at n d e = (q, r, den)"
  shows "0 < den \<and> 0 \<le> r \<and> r < den
    \<and> of_int q * of_int den + of_int r = (of_int n / of_int d / 2 powi e * of_int den :: real)"
proof -
  define num where "num = (if e < 0 then n * pow2 (- e) else n)"
  have q: "den = (if e < 0 then d else d * pow2 e)" "q = num div den" "r = num mod den"
    using assms(2) by (auto simp: quot_at_def Let_def num_def)
  have den: "0 < den" using assms(1) by (simp add: q(1))
  have "num = q * den + r" by (simp add: q(2,3))
  then have "real_of_int num = real_of_int (q * den + r)" by simp
  moreover have "real_of_int num = of_int n / of_int d / 2 powi e * of_int den"
    using assms(1) by (cases "e < 0") (simp_all add: num_def q(1) pow2_real power_int_minus field_simps)
  ultimately show ?thesis using den by (simp add: q(3))
qed

text \<open>Rounding to an integer is monotone against integers.\<close>

lemma half_even_between:
  assumes "quot_at n d e = qrd" and "0 < d" and v: "v = (of_int n / of_int d / 2 powi e :: real)"
  shows "of_int z \<le> v \<Longrightarrow> z \<le> half_even qrd" and "v \<le> of_int z \<Longrightarrow> half_even qrd \<le> z"
    and "fst qrd = \<lfloor>v\<rfloor>"
proof -
  obtain q r den where qrd: "qrd = (q, r, den)" by (cases qrd) auto
  have f: "0 < den" "0 \<le> r" "r < den" "of_int q * of_int den + of_int r = v * (of_int den :: real)"
    using quot_at_ratio [OF assms(2), of n e q r den] assms qrd by auto
  have vq: "v = of_int q + of_int r / of_int den" using f by (simp add: field_simps)
  have rd: "0 \<le> real_of_int r / of_int den" "real_of_int r / of_int den < 1" using f by simp_all
  show fl: "fst qrd = \<lfloor>v\<rfloor>" unfolding vq qrd fst_conv using rd by linarith
  show "z \<le> half_even qrd" if "of_int z \<le> v"
  proof -
    have "z \<le> q" using that fl qrd by (simp add: le_floor_iff)
    then show ?thesis by (simp add: half_even_def qrd)
  qed
  show "half_even qrd \<le> z" if "v \<le> of_int z"
  proof -
    have "q \<le> z" using that vq rd by linarith
    moreover have "q < z" if "0 < r"
    proof -
      have "0 < real_of_int r / of_int den" using \<open>0 < r\<close> f(1) by simp
      then show ?thesis using vq \<open>v \<le> of_int z\<close> by linarith
    qed
    ultimately show ?thesis using f(1) by (auto simp: half_even_def qrd)
  qed
qed

section \<open>Rounding\<close>

text \<open>
  \<open>round_ratio\<close> picks an exponent at which the quotient has 53 bits, or the smallest one, and rounds
  there; renormalising a carry keeps the value.
\<close>

lemma round_ratio_exponent:
  assumes "0 < n" and "0 < d" and r: "round_ratio n d = Some (m, e)"
  obtains e1 k where "fval (m, e) = of_int k * 2 powi e1" and "k = half_even (quot_at n d e1)" and "-1074 \<le> e1"
    and "-1074 < e1 \<Longrightarrow> 2 ^ 52 * 2 powi e1 \<le> real_of_int n / of_int d"
proof -
  define e0 where "e0 = max (-1074) (bitlen n - bitlen d - 53)"
  define e1 where "e1 = (if fst (quot_at n d e0) \<ge> 2 ^ 53 then e0 + 1 else e0)"
  define k where "k = half_even (quot_at n d e1)"
  have me: "(m, e) = (if k = 2 ^ 53 then 2 ^ 52 else k, if k = 2 ^ 53 then e1 + 1 else e1)"
    using r assms(1) unfolding round_ratio_def Let_def e0_def [symmetric] e1_def [symmetric] k_def [symmetric]
    by (auto split: if_splits)
  have "fval (m, e) = of_int k * 2 powi e1"
    using me by (cases "k = 2 ^ 53") (simp_all add: fval_def power_int_add)
  moreover have "-1074 \<le> e0" by (simp add: e0_def)
  then have "-1074 \<le> e1" by (simp add: e1_def)
  moreover have "2 ^ 52 * 2 powi e1 \<le> real_of_int n / of_int d" if big: "-1074 < e1"
  proof (cases "fst (quot_at n d e0) \<ge> 2 ^ 53")
    case True
    then have "2 ^ 53 \<le> \<lfloor>real_of_int n / of_int d / 2 powi e0\<rfloor>"
      using half_even_between(3) [OF refl assms(2) refl] by simp
    then have "2 ^ 53 \<le> real_of_int n / of_int d / 2 powi e0" by (simp add: le_floor_iff)
    then have "2 ^ 53 * 2 powi e0 \<le> real_of_int n / of_int d"
      by (rule pos_le_divide_eq [THEN iffD1, rotated]) simp
    moreover have "(2 :: real) ^ 52 * 2 powi e1 = 2 ^ 53 * 2 powi e0" using True by (simp add: e1_def power_int_add)
    ultimately show ?thesis by simp
  next
    case False
    then have e: "e1 = bitlen n - bitlen d - 53" using big by (simp add: e1_def e0_def split: if_splits)
    have "2 powi (bitlen n - 1) / 2 powi bitlen d \<le> real_of_int n / of_int d"
      using bitlen_bounds [OF assms(1)] bitlen_bounds [OF assms(2)] assms(1,2)
      by (intro frac_le) simp_all
    moreover have "(2 :: real) powi (bitlen n - 1) / 2 powi bitlen d = 2 powi (52 + e1)"
    proof -
      have "52 + e1 = bitlen n - 1 - bitlen d" by (simp add: e)
      then show ?thesis by (simp only: power_int_diff [OF disjI1 [OF zero_neq_numeral [symmetric]]])
    qed
    moreover have "(2 :: real) powi (52 + e1) = 2 ^ 52 * 2 powi e1" by (simp add: power_int_add)
    ultimately show ?thesis by simp
  qed
  ultimately show ?thesis using that [of k e1] k_def by blast
qed

text \<open>A number with 53 bits bounds what is rounded, above and below.\<close>

definition representable :: "real \<Rightarrow> bool" where
  "representable v \<longleftrightarrow> (\<exists>x y. v = of_int x * 2 powi y \<and> 0 \<le> x \<and> x < 2 ^ 53 \<and> -1074 \<le> y \<and> y \<le> 900)"

lemma powi_shift: "e \<le> y \<Longrightarrow> (2 :: real) powi y = of_int (2 ^ nat (y - e)) * 2 powi e"
proof -
  assume "e \<le> y"
  then have "(2 :: real) powi (y - e) = 2 ^ nat (y - e)" by (simp add: power_int_def)
  moreover have "(2 :: real) powi y = 2 powi (y - e) * 2 powi e" by (simp add: power_int_add [symmetric])
  ultimately show ?thesis by simp
qed

lemma powi_align: "g \<le> e \<Longrightarrow> (2 :: real) powi e = of_int (pow2 (e - g)) * 2 powi g"
  using powi_shift [of g e] by (simp add: pow2_def)

lemma round_ratio_between:
  assumes n: "0 < n" and d: "0 < d" and r: "round_ratio n d = Some me" and v: "representable v"
  shows "real_of_int n / of_int d \<le> v \<Longrightarrow> fval me \<le> v" and "v \<le> real_of_int n / of_int d \<Longrightarrow> v \<le> fval me"
proof -
  obtain m e where me: "me = (m, e)" by fastforce
  obtain x y where xy: "v = of_int x * 2 powi y" "0 \<le> x" "x < 2 ^ 53" "-1074 \<le> y"
    using v by (auto simp: representable_def)
  obtain e1 k where f: "fval (m, e) = of_int k * 2 powi e1" "k = half_even (quot_at n d e1)" "-1074 \<le> e1"
      and big: "-1074 < e1 \<Longrightarrow> 2 ^ 52 * 2 powi e1 \<le> real_of_int n / of_int d"
    by (rule round_ratio_exponent [OF n d r [unfolded me]]) blast
  let ?R = "real_of_int n / of_int d"
  have p: "(0 :: real) < 2 powi e1" by simp
  note mono = half_even_between [OF refl d refl, where n = n and e = e1]
  have le: "of_int z \<le> ?R / 2 powi e1 \<longleftrightarrow> of_int z * 2 powi e1 \<le> ?R" for z
    by (rule pos_le_divide_eq [OF p])
  have ge: "?R / 2 powi e1 \<le> of_int z \<longleftrightarrow> ?R \<le> of_int z * 2 powi e1" for z
    by (rule pos_divide_le_eq [OF p])
  have small: "v < 2 ^ 52 * 2 powi e1" if "y < e1"
  proof -
    have "v < 2 ^ 53 * 2 powi y" using xy by simp
    also have "\<dots> \<le> 2 ^ 53 * 2 powi (e1 - 1)" using that by (intro mult_left_mono power_int_increasing) auto
    also have "\<dots> = 2 ^ 52 * 2 powi e1" by (simp add: power_int_diff)
    finally show ?thesis .
  qed
  show "fval me \<le> v" if "?R \<le> v"
  proof (cases "e1 \<le> y")
    case True
    then have w: "v = of_int (x * 2 ^ nat (y - e1)) * 2 powi e1" using xy(1) powi_shift [OF True] by simp
    then have "k \<le> x * 2 ^ nat (y - e1)" using that mono(2) ge f(2) by metis
    then have "real_of_int k * 2 powi e1 \<le> of_int (x * 2 ^ nat (y - e1)) * 2 powi e1"
      using p by (intro mult_right_mono) (simp_all only: of_int_le_iff less_imp_le)
    then show ?thesis using f(1) me w by simp
  next
    case False
    then show ?thesis using small big xy(4) that by force
  qed
  show "v \<le> fval me" if "v \<le> ?R"
  proof (cases "e1 \<le> y")
    case True
    then have w: "v = of_int (x * 2 ^ nat (y - e1)) * 2 powi e1" using xy(1) powi_shift [OF True] by simp
    then have "x * 2 ^ nat (y - e1) \<le> k" using that mono(1) le f(2) by metis
    then have "of_int (x * 2 ^ nat (y - e1)) * 2 powi e1 \<le> real_of_int k * 2 powi e1"
      using p by (intro mult_right_mono) (simp_all only: of_int_le_iff less_imp_le)
    then show ?thesis using f(1) me w by simp
  next
    case False
    then have "of_int (2 ^ 52) * 2 powi e1 \<le> ?R" using big xy(4) by simp
    then have "2 ^ 52 \<le> k" using mono(1) le f(2) by metis
    then have "of_int (2 ^ 52) * 2 powi e1 \<le> real_of_int k * 2 powi e1"
      using p by (intro mult_right_mono) (simp_all only: of_int_le_iff less_imp_le)
    moreover have "v \<le> of_int (2 ^ 52) * 2 powi e1" using small False by simp
    ultimately have "v \<le> real_of_int k * 2 powi e1" by (rule order.trans [rotated])
    then show ?thesis using f(1) me by simp
  qed
qed

lemma round_ratio_total:
  assumes n: "0 < n" and d: "0 < d" and v: "representable v" and le: "real_of_int n / of_int d \<le> v"
  shows "round_ratio n d \<noteq> None"
proof
  assume "round_ratio n d = None"
  define e0 where "e0 = max (-1074) (bitlen n - bitlen d - 53)"
  obtain x y where xy: "v = of_int x * 2 powi y" "0 \<le> x" "x < 2 ^ 53" "y \<le> 900"
    using v by (auto simp: representable_def)
  have "969 < e0"
    using \<open>round_ratio n d = None\<close> n unfolding round_ratio_def Let_def e0_def [symmetric]
    by (auto split: if_splits)
  then have e: "969 < bitlen n - bitlen d - 53" by (simp add: e0_def)
  have "(2 :: real) powi 1022 \<le> 2 powi (bitlen n - 1 - bitlen d)" using e by (intro power_int_increasing) auto
  also have "\<dots> = 2 powi (bitlen n - 1) / 2 powi bitlen d" by (simp add: power_int_diff)
  also have "\<dots> \<le> real_of_int n / of_int d"
    using bitlen_bounds [OF n] bitlen_bounds [OF d] n d by (intro frac_le) simp_all
  also have "\<dots> \<le> of_int x * 2 powi y" using le xy(1) by simp
  also have "\<dots> \<le> 2 ^ 53 * 2 powi 900"
    using xy by (intro mult_mono power_int_increasing) auto
  also have "\<dots> = 2 powi 953" by (simp flip: power_int_add add: power_int_numeral)
  finally show False by (simp add: power_int_numeral)
qed

section \<open>Operations\<close>

lemma round_zero: "round_ratio 0 d = Some (0, -1074)"
  by (simp add: round_ratio_def)

lemma representable_nonneg: "representable v \<Longrightarrow> 0 \<le> v"
  by (auto simp: representable_def)

lemma fl_ratio:
  obtains n d where "fl m e = round_ratio n d" and "0 < d" and "(0 < m) = (0 < n)" and "(m = 0) = (n = 0)"
    and "real_of_int n / of_int d = of_int m * 2 powi e"
proof (cases "e < 0")
  case True
  have "(2 :: real) powi e = inverse (2 powi (- e))" by (simp add: power_int_minus)
  then have "real_of_int m / of_int (pow2 (- e)) = of_int m * 2 powi e"
    using True by (simp add: pow2_real divide_inverse)
  then show ?thesis using True by (intro that [of m "pow2 (- e)"]) (simp_all add: fl_def)
next
  case False
  moreover have "0 < pow2 e" "pow2 e \<noteq> 0" "\<not> pow2 e < 0" by (simp_all add: pow2_def)
  ultimately show ?thesis
    by (intro that [of "m * pow2 e" 1]) (auto simp: fl_def pow2_real zero_less_mult_iff)
qed

lemma fl_above:
  assumes "0 \<le> m" and "fl m e = Some r" and "representable v" and "v \<le> of_int m * 2 powi e"
  shows "v \<le> fval r"
proof -
  obtain n d where nd: "fl m e = round_ratio n d" "0 < d" "(0 < m) = (0 < n)" "(m = 0) = (n = 0)"
      "real_of_int n / of_int d = of_int m * 2 powi e"
    by (rule fl_ratio)
  show ?thesis
  proof (cases "m = 0")
    case True
    then have "v = 0" using assms(3,4) representable_nonneg by force
    then show ?thesis using True nd assms(2) by (auto simp: round_zero fval_def)
  next
    case False
    then have "0 < n" using assms(1) nd(3) by simp
    then show ?thesis using round_ratio_between(2) [of n d r v] nd assms by simp
  qed
qed

lemma fl_below:
  assumes "0 \<le> m" and "representable v" and "of_int m * 2 powi e \<le> v"
  obtains r where "fl m e = Some r" and "fval r \<le> v"
proof -
  obtain n d where nd: "fl m e = round_ratio n d" "0 < d" "(0 < m) = (0 < n)" "(m = 0) = (n = 0)"
      "real_of_int n / of_int d = of_int m * 2 powi e"
    by (rule fl_ratio)
  show ?thesis
  proof (cases "m = 0")
    case True
    then show ?thesis using nd assms(2) representable_nonneg that [of "(0, -1074)"]
      by (simp add: round_zero fval_def)
  next
    case False
    then have n: "0 < n" using assms(1) nd(3) by simp
    have "round_ratio n d \<noteq> None" by (rule round_ratio_total [OF n nd(2) assms(2)]) (use nd(5) assms(3) in simp)
    then obtain r where "fl m e = Some r" using nd(1) by auto
    moreover have "fval r \<le> v" using round_ratio_between(1) [OF n nd(2) _ assms(2)] nd assms(3) calculation by simp
    ultimately show ?thesis by (rule that)
  qed
qed

lemma fl_exact:
  assumes "0 \<le> m" and "representable (of_int m * 2 powi e)"
  obtains r where "fl m e = Some r" and "fval r = of_int m * 2 powi e"
  using fl_below [OF assms(1,2) order_refl] fl_above [OF assms(1) _ assms(2) order_refl]
  by (metis order_antisym)

definition proper :: "int \<times> int \<Rightarrow> bool" where
  "proper x \<longleftrightarrow> 0 \<le> fst x"

lemma proper_fval: "proper x \<longleftrightarrow> 0 \<le> fval x"
proof -
  have "\<not> (2 :: real) powi snd x \<le> 0" by (simp add: not_le)
  then show ?thesis by (cases x) (simp add: proper_def fval_def zero_le_mult_iff)
qed

text \<open>Each operation is monotone in its exact result and exact where that is representable.\<close>

lemma f_mul_fl: "f_mul (Some x) (Some y) = fl (fst x * fst y) (snd x + snd y)
    \<and> of_int (fst x * fst y) * 2 powi (snd x + snd y) = fval x * fval y"
  by (cases x; cases y) (simp add: f_mul_def fval_def power_int_add)

lemma f_add_fl:
  obtains m g where "f_add (Some x) (Some y) = fl m g" and "of_int m * 2 powi g = fval x + fval y"
    and "proper x \<Longrightarrow> proper y \<Longrightarrow> 0 \<le> m"
proof -
  obtain a e b f where xy: "x = (a, e)" "y = (b, f)" by fastforce
  define g where "g = min e f"
  have p: "(2 :: real) powi e = of_int (pow2 (e - g)) * 2 powi g" "(2 :: real) powi f = of_int (pow2 (f - g)) * 2 powi g"
    using powi_align [of g e] powi_align [of g f] by (simp_all add: g_def)
  show ?thesis
  proof (rule that)
    show "f_add (Some x) (Some y) = fl (a * pow2 (e - g) + b * pow2 (f - g)) g"
      by (simp add: f_add_def xy Let_def g_def)
    show "of_int (a * pow2 (e - g) + b * pow2 (f - g)) * 2 powi g = fval x + fval y"
      by (simp add: xy fval_def p algebra_simps)
    show "0 \<le> a * pow2 (e - g) + b * pow2 (f - g)" if "proper x" "proper y"
      using that by (simp add: proper_def xy pow2_def)
  qed
qed

lemma f_less_fval: "f_less (Some x) (Some y) \<longleftrightarrow> fval x < fval y"
proof -
  obtain a e b f where xy: "x = (a, e)" "y = (b, f)" by fastforce
  define g where "g = min e f"
  have p: "(2 :: real) powi e = of_int (pow2 (e - g)) * 2 powi g" "(2 :: real) powi f = of_int (pow2 (f - g)) * 2 powi g"
    using powi_align [of g e] powi_align [of g f] by (simp_all add: g_def)
  have "fval x < fval y \<longleftrightarrow> of_int (a * pow2 (e - g)) * 2 powi g < (of_int (b * pow2 (f - g)) * 2 powi g :: real)"
    by (simp add: xy fval_def p)
  also have "\<dots> \<longleftrightarrow> real_of_int (a * pow2 (e - g)) < of_int (b * pow2 (f - g))"
    by (rule mult_less_cancel_right_pos) simp
  also have "\<dots> \<longleftrightarrow> a * pow2 (e - g) < b * pow2 (f - g)" by (simp only: of_int_less_iff)
  finally show ?thesis by (simp add: f_less_def xy Let_def g_def)
qed

lemma f_trunc_floor: "f_trunc x = \<lfloor>fval x\<rfloor>"
proof -
  obtain m e where x: "x = (m, e)" by fastforce
  show ?thesis
  proof (cases "e < 0")
    case True
    have "fval x = real_of_int m / real_of_int (pow2 (- e))"
      using True by (simp add: x fval_def pow2_real power_int_minus divide_inverse)
    then show ?thesis using True by (simp add: f_trunc_def x floor_divide_of_int_eq)
  next
    case False
    then have "fval x = real_of_int (m * pow2 e)" by (simp add: x fval_def pow2_real)
    then show ?thesis using False by (simp only: f_trunc_def x floor_of_int prod.case if_False)
  qed
qed

end
