(* ===== verification/Publisher.thy ===== *)
theory Publisher
  imports Executor Outbox Float_Ops
begin

text \<open>
  The publisher (\<open>internal/messaging/publisher.go\<close>, \<open>event.go\<close>, \<open>subjects.go\<close>), over any outbox and
  any handler, and its wiring in \<open>internal/app/app.go\<close>: the SQLite outbox and \<open>dispatchEvent\<close>, which
  sends approved operations to the executor. The handler acts on the same state as the outbox.
\<close>

section \<open>Subjects and events\<close>

definition SubjectOperationApproved :: string where
  "SubjectOperationApproved = ''mcp.operation.approved''"

definition pluginPrefix :: string where "pluginPrefix = ''mcp.plugin.''"

definition PluginSubject :: "string \<Rightarrow> string \<Rightarrow> string" where
  "PluginSubject plugin suffix = pluginPrefix @ plugin @ ''.''
     @ (if has_prefix suffix ''.'' then drop 1 suffix else suffix)"

record event =
  ev_ID :: string
  ev_Subject :: string
  ev_OperationID :: string
  ev_CorrelationID :: string
  ev_OccurredAt :: time
  ev_Payload :: raw_message

text \<open>How a handler can end: with nil, with an error, or in a panic with the text of its value.\<close>

datatype handled = Took | Failed_with string | Panicked string

section \<open>The publisher\<close>

record 's outbox_reader =
  or_Pending :: "time \<Rightarrow> int \<Rightarrow> 's \<Rightarrow> (op_error + pending_event list) \<times> 's"
  or_MarkPublished :: "string \<Rightarrow> time \<Rightarrow> 's \<Rightarrow> op_error option \<times> 's"
  or_MarkFailed :: "string \<Rightarrow> time \<Rightarrow> string \<Rightarrow> 's \<Rightarrow> op_error option \<times> 's"

record publisher_config =
  pc_BatchSize :: int
  pc_PollInterval :: duration
  pc_BaseBackoff :: duration
  pc_MaxBackoff :: duration

definition pub_withDefaults :: "publisher_config \<Rightarrow> publisher_config" where
  "pub_withDefaults c = c\<lparr>
     pc_BatchSize := (if pc_BatchSize c \<le> 0 then 128 else pc_BatchSize c),
     pc_PollInterval := (if pc_PollInterval c \<le> 0 then 5 * Second else pc_PollInterval c),
     pc_BaseBackoff := (if pc_BaseBackoff c \<le> 0 then Second else pc_BaseBackoff c),
     pc_MaxBackoff := (if pc_MaxBackoff c \<le> 0 then Minute else pc_MaxBackoff c)\<rparr>"

definition PublishDelivered :: string where "PublishDelivered = ''delivered''"
definition PublishFailed :: string where "PublishFailed = ''failed''"
definition PublishUnmarked :: string where "PublishUnmarked = ''delivered_unmarked''"

record 's publisher =
  pb_repo :: "'s outbox_reader"
  pb_deliver :: "event \<Rightarrow> 's \<Rightarrow> handled \<times> 's"
  pb_cfg :: publisher_config

definition NewPublisher :: "'s outbox_reader \<Rightarrow> (event \<Rightarrow> 's \<Rightarrow> handled \<times> 's) \<Rightarrow> publisher_config \<Rightarrow> 's publisher" where
  "NewPublisher repo deliver cfg = \<lparr>pb_repo = repo, pb_deliver = deliver, pb_cfg = pub_withDefaults cfg\<rparr>"

text \<open>
  What surrounds a publisher: the state its outbox and its handler share, how often the clock and the
  random source were read, every handler call with what it returned, and what the observer was told.
  \<open>pn_Float64 n\<close> is the numerator of the n-th \<open>rand.Float64()\<close>, over \<open>2 ^ 53\<close>.
\<close>

record pub_env =
  pn_Now :: "nat \<Rightarrow> time"
  pn_Float64 :: "nat \<Rightarrow> int"
  pn_Err :: "op_error \<Rightarrow> string"

record 's pub_state =
  pu_state :: 's
  pu_now :: nat
  pu_rand :: nat
  pu_calls :: "(event \<times> handled) list"
  pu_observed :: "string list"

definition on_state :: "('s \<Rightarrow> 'a \<times> 's) \<Rightarrow> 's pub_state \<Rightarrow> 'a \<times> 's pub_state" where
  "on_state f w = (case f (pu_state w) of (x, s) \<Rightarrow> (x, w\<lparr>pu_state := s\<rparr>))"

definition pub_now :: "pub_env \<Rightarrow> 's pub_state \<Rightarrow> time \<times> 's pub_state" where
  "pub_now env w = (pn_Now env (pu_now w), w\<lparr>pu_now := pu_now w + 1\<rparr>)"

definition observe :: "string \<Rightarrow> 's pub_state \<Rightarrow> 's pub_state" where
  "observe r w = w\<lparr>pu_observed := pu_observed w @ [r]\<rparr>"

section \<open>Backoff\<close>

definition clamp_attempts :: "int \<Rightarrow> int" where
  "clamp_attempts n = (let m = (if n < 0 then 0 else n) in if m > 20 then 20 else m)"

definition jittered :: "publisher_config \<Rightarrow> int \<Rightarrow> int \<Rightarrow> mag" where
  "jittered cfg attempts k =
    (let delay = f_mul (f_int (pc_BaseBackoff cfg)) (f_pow2 (clamp_attempts attempts));
         capped = (if f_less (f_int (pc_MaxBackoff cfg)) delay then f_int (pc_MaxBackoff cfg) else delay)
     in f_add (f_half capped) (f_mul (Some (k, -53)) (f_half capped)))"

text \<open>
  \<open>time.Duration\<close> of an infinity is left to the machine; \<open>backoff_bounds\<close> shows that it is never asked.
\<close>

definition backoff :: "publisher_config \<Rightarrow> int \<Rightarrow> int \<Rightarrow> duration option" where
  "backoff cfg attempts k = map_option f_trunc (jittered cfg attempts k)"

section \<open>Draining\<close>

text \<open>The call of the handler, as it returned or panicked, and what the publisher makes of it.\<close>

definition call_handler :: "'s publisher \<Rightarrow> event \<Rightarrow> 's pub_state \<Rightarrow> handled \<times> 's pub_state" where
  "call_handler p e w =
    (case on_state (pb_deliver p e) w of (r, w1) \<Rightarrow> (r, w1\<lparr>pu_calls := pu_calls w1 @ [(e, r)]\<rparr>))"

definition handle :: "'s publisher \<Rightarrow> event \<Rightarrow> 's pub_state \<Rightarrow> string option \<times> 's pub_state" where
  "handle p e w =
    (case call_handler p e w of
       (r, w1) \<Rightarrow>
         (case r of
            Took \<Rightarrow> None
          | Failed_with t \<Rightarrow> Some t
          | Panicked v \<Rightarrow> Some (''messaging: handler panicked: '' @ v), w1))"

definition event_of :: "pending_event \<Rightarrow> time \<Rightarrow> event" where
  "event_of ev t = \<lparr>ev_ID = pe_EventID ev, ev_Subject = pe_Subject ev, ev_OperationID = pe_OperationID ev,
     ev_CorrelationID = pe_CorrelationID ev, ev_OccurredAt = t, ev_Payload = pe_Payload ev\<rparr>"

definition publishOne :: "pub_env \<Rightarrow> 's publisher \<Rightarrow> pending_event \<Rightarrow> 's pub_state \<Rightarrow> 's pub_state" where
  "publishOne env p ev w =
    (let (t, w1) = pub_now env w;
         (err, w2) = handle p (event_of ev t) w1
     in case err of
          Some cause \<Rightarrow>
            (let delay = (case backoff (pb_cfg p) (int (pe_Attempts ev)) (pn_Float64 env (pu_rand w2)) of
                            None \<Rightarrow> 0 | Some d \<Rightarrow> d);
                 (now, w3) = pub_now env (w2\<lparr>pu_rand := pu_rand w2 + 1\<rparr>);
                 (mErr, w4) = on_state (or_MarkFailed (pb_repo p) (pe_EventID ev) (now + delay) cause) w3
             in observe PublishFailed w4)
        | None \<Rightarrow>
            (let (now, w3) = pub_now env w2;
                 (mErr, w4) = on_state (or_MarkPublished (pb_repo p) (pe_EventID ev) now) w3
             in observe (if mErr = None then PublishDelivered else PublishUnmarked) w4))"

text \<open>The context is looked at before every event of the batch, \<open>n\<close> counts how often.\<close>

fun publish_each :: "pub_env \<Rightarrow> 's publisher \<Rightarrow> (nat \<Rightarrow> bool) \<Rightarrow> nat \<Rightarrow> pending_event list
    \<Rightarrow> 's pub_state \<Rightarrow> 's pub_state" where
  "publish_each env p ended n [] w = w"
| "publish_each env p ended n (ev # evs) w =
    (if ended n then w else publish_each env p ended (n + 1) evs (publishOne env p ev w))"

definition drain :: "pub_env \<Rightarrow> 's publisher \<Rightarrow> (nat \<Rightarrow> bool) \<Rightarrow> 's pub_state \<Rightarrow> 's pub_state" where
  "drain env p ended w =
    (let (now, w1) = pub_now env w;
         (res, w2) = on_state (or_Pending (pb_repo p) now (pc_BatchSize (pb_cfg p))) w1
     in case res of Inl e \<Rightarrow> w2 | Inr pending \<Rightarrow> publish_each env p ended 0 pending w2)"

text \<open>
  A run: a drain at the start, one at every wake-up by the ticker or by a notification, and a last one,
  under a context of its own, when the context of the run ends.
\<close>

fun drains :: "pub_env \<Rightarrow> 's publisher \<Rightarrow> (nat \<Rightarrow> bool) list \<Rightarrow> 's pub_state \<Rightarrow> 's pub_state" where
  "drains env p [] w = w"
| "drains env p (ended # wakes) w = drains env p wakes (drain env p ended w)"

definition Run :: "pub_env \<Rightarrow> 's publisher \<Rightarrow> (nat \<Rightarrow> bool) \<Rightarrow> (nat \<Rightarrow> bool) list \<Rightarrow> (nat \<Rightarrow> bool)
    \<Rightarrow> 's pub_state \<Rightarrow> 's pub_state" where
  "Run env p startup wakes deadline w =
    drain env p deadline (drains env p wakes (drain env p startup w))"

section \<open>The bounds of the backoff\<close>

lemma half_representable: "representable v \<Longrightarrow> 1 \<le> v \<Longrightarrow> representable (v / 2)"
proof -
  assume "representable v" and v1: "1 \<le> v"
  then obtain x y where xy: "v = of_int x * 2 powi y" "0 \<le> x" "x < 2 ^ 53" "-1074 \<le> y" "y \<le> 900"
    by (auto simp: representable_def)
  have "-1074 < y"
  proof (rule ccontr)
    assume "\<not> -1074 < y"
    then have "y = -1074" using xy by simp
    then have "v < 2 ^ 53 * 2 powi (-1074)" using xy by simp
    also have "\<dots> \<le> 1" by (simp add: power_int_minus)
    finally show False using v1 by simp
  qed
  moreover have "v / 2 = of_int x * 2 powi (y - 1)" by (simp add: xy power_int_diff)
  ultimately show ?thesis using xy unfolding representable_def by (intro exI [of _ x] exI [of _ "y - 1"]) simp
qed

lemma representable_int: "0 \<le> k \<Longrightarrow> k < 2 ^ 53 \<Longrightarrow> representable (of_int k)"
  unfolding representable_def by (intro exI [of _ k] exI [of _ 0]) simp

lemma representable_shift: "0 \<le> k \<Longrightarrow> k < 2 ^ 53 \<Longrightarrow> 0 \<le> a \<Longrightarrow> a \<le> 900 \<Longrightarrow> representable (of_int k * 2 powi a)"
  unfolding representable_def by (intro exI [of _ k] exI [of _ a]) simp

definition capped_delay :: "publisher_config \<Rightarrow> int \<Rightarrow> int" where
  "capped_delay cfg attempts = min (pc_BaseBackoff cfg * 2 ^ nat (clamp_attempts attempts)) (pc_MaxBackoff cfg)"

lemma clamp_range: "0 \<le> clamp_attempts n \<and> clamp_attempts n \<le> 20"
  by (simp add: clamp_attempts_def Let_def)

lemma f_int_exact:
  assumes "0 \<le> k" and "k < 2 ^ 53"
  obtains r where "f_int k = Some r" and "fval r = of_int k" and "proper r"
proof -
  have "representable (of_int k * 2 powi 0)" using representable_int [OF assms] by simp
  then obtain r where r: "f_int k = Some r" "fval r = of_int k * 2 powi 0"
    unfolding f_int_def by (rule fl_exact [OF assms(1)])
  moreover have "proper r" using r(2) assms(1) by (simp add: proper_fval)
  ultimately show ?thesis using that by simp
qed

text \<open>A product or a sum of proper numbers is the rounding of the exact one.\<close>

lemma f_mul_exact:
  assumes "proper x" and "proper y" and "representable (fval x * fval y)"
  obtains r where "f_mul (Some x) (Some y) = Some r" and "fval r = fval x * fval y" and "proper r"
proof -
  have nn: "0 \<le> fst x * fst y" using assms(1,2) by (simp add: proper_def)
  have eq: "of_int (fst x * fst y) * 2 powi (snd x + snd y) = fval x * fval y" using f_mul_fl by blast
  obtain r where "fl (fst x * fst y) (snd x + snd y) = Some r" "fval r = fval x * fval y"
    using fl_exact [OF nn, of "snd x + snd y"] assms(3) eq by metis
  then show ?thesis using that [of r] f_mul_fl [of x y] assms(1,2) by (simp add: proper_fval)
qed

lemma f_mul_below:
  assumes "proper x" and "proper y" and "representable v" and "fval x * fval y \<le> v"
  obtains r where "f_mul (Some x) (Some y) = Some r" and "fval r \<le> v" and "proper r"
proof -
  have nn: "0 \<le> fst x * fst y" using assms(1,2) by (simp add: proper_def)
  have eq: "of_int (fst x * fst y) * 2 powi (snd x + snd y) = fval x * fval y" using f_mul_fl by blast
  obtain r where r: "fl (fst x * fst y) (snd x + snd y) = Some r" "fval r \<le> v"
    using fl_below [OF nn assms(3), of "snd x + snd y"] assms(4) eq by metis
  moreover have "0 \<le> fval r"
    by (rule fl_above [OF nn r(1)]) (use assms(1,2) eq representable_int [of 0] in \<open>simp_all add: proper_fval\<close>)
  ultimately show ?thesis using that [of r] f_mul_fl [of x y] by (simp add: proper_fval)
qed

lemma f_add_between:
  assumes "proper x" and "proper y" and "representable u" "u \<le> fval x + fval y"
    and "representable v" "fval x + fval y \<le> v"
  obtains r where "f_add (Some x) (Some y) = Some r" and "u \<le> fval r" and "fval r \<le> v"
proof -
  obtain m g where mg: "f_add (Some x) (Some y) = fl m g" "of_int m * 2 powi g = fval x + fval y"
      "proper x \<Longrightarrow> proper y \<Longrightarrow> 0 \<le> m"
    by (rule f_add_fl [of x y]) blast
  then have nn: "0 \<le> m" using assms(1,2) by simp
  obtain r where r: "fl m g = Some r" "fval r \<le> v" using fl_below [OF nn assms(5), of g] mg(2) assms(6) by metis
  have "u \<le> fval r" using fl_above [OF nn r(1) assms(3)] mg(2) assms(4) by simp
  then show ?thesis using that r mg(1) by simp
qed

text \<open>The delay before jitter, exactly.\<close>

lemma capped_exact:
  assumes "0 < pc_BaseBackoff cfg" "pc_BaseBackoff cfg < 2 ^ 53" "0 < pc_MaxBackoff cfg" "pc_MaxBackoff cfg < 2 ^ 53"
  obtains c where "(let delay = f_mul (f_int (pc_BaseBackoff cfg)) (f_pow2 (clamp_attempts n));
         capped = (if f_less (f_int (pc_MaxBackoff cfg)) delay then f_int (pc_MaxBackoff cfg) else delay)
     in capped) = Some c" and "fval c = of_int (capped_delay cfg n)" and "proper c"
proof -
  define a where "a = clamp_attempts n"
  have a: "0 \<le> a" "a \<le> 20" using clamp_range [of n] by (simp_all add: a_def)
  obtain b where b: "f_int (pc_BaseBackoff cfg) = Some b" "fval b = of_int (pc_BaseBackoff cfg)" "proper b"
    by (rule f_int_exact [of "pc_BaseBackoff cfg"]) (use assms in auto)
  obtain m where m: "f_int (pc_MaxBackoff cfg) = Some m" "fval m = of_int (pc_MaxBackoff cfg)" "proper m"
    by (rule f_int_exact [of "pc_MaxBackoff cfg"]) (use assms in auto)
  have "representable (of_int 1 * 2 powi a)" using a by (intro representable_shift) auto
  then obtain p where p: "f_pow2 a = Some p" "fval p = of_int 1 * 2 powi a"
    unfolding f_pow2_def using fl_exact [of 1 a] by auto
  then have pp: "proper p" by (simp add: proper_fval)
  have "representable (fval b * fval p)" using representable_shift [of "pc_BaseBackoff cfg" a] a assms b(2) p(2) by simp
  then obtain d where d: "f_mul (f_int (pc_BaseBackoff cfg)) (f_pow2 a) = Some d" "fval d = fval b * fval p" "proper d"
    using f_mul_exact [OF b(3) pp] b(1) p(1) by metis
  have dv: "fval d = of_int (pc_BaseBackoff cfg * 2 ^ nat a)"
    using a by (simp add: d(2) b(2) p(2) power_int_def)
  show ?thesis
  proof (cases "pc_MaxBackoff cfg < pc_BaseBackoff cfg * 2 ^ nat a")
    case True
    then have "f_less (Some m) (Some d)" by (simp only: f_less_fval m(2) dv of_int_less_iff)
    then show ?thesis using that [of m] True m d by (simp add: Let_def a_def capped_delay_def)
  next
    case False
    then have "\<not> f_less (Some m) (Some d)" by (simp only: f_less_fval m(2) dv of_int_less_iff not_False_eq_True)
    then show ?thesis using that [of d] False m d dv by (simp add: Let_def a_def capped_delay_def)
  qed
qed

text \<open>
  C38. A retry waits at least half and at most all of the delay it is due, which doubles with every attempt
  up to the twentieth and never passes the cap: the floating-point computation is exact as far as the cap
  and rounds within the bounds after it. No attempt count, however large, gives a negative delay.
\<close>
theorem backoff_bounds:
  assumes "0 < pc_BaseBackoff cfg" "pc_BaseBackoff cfg < 2 ^ 53" "0 < pc_MaxBackoff cfg" "pc_MaxBackoff cfg < 2 ^ 53"
    and "0 \<le> k" "k < 2 ^ 53"
  shows "\<exists>d. backoff cfg attempts k = Some d \<and> capped_delay cfg attempts div 2 \<le> d \<and> d \<le> capped_delay cfg attempts"
proof -
  let ?D = "capped_delay cfg attempts"
  obtain c where c: "(let delay = f_mul (f_int (pc_BaseBackoff cfg)) (f_pow2 (clamp_attempts attempts));
         capped = (if f_less (f_int (pc_MaxBackoff cfg)) delay then f_int (pc_MaxBackoff cfg) else delay)
     in capped) = Some c" "fval c = of_int ?D" "proper c"
    by (rule capped_exact [OF assms(1-4)])
  have "0 < pc_BaseBackoff cfg * 2 ^ nat (clamp_attempts attempts)" using assms(1) by simp
  then have D: "1 \<le> ?D" "?D < 2 ^ 53" using assms(3,4) by (simp_all add: capped_delay_def)
  have rep: "representable (of_int ?D)" using D by (intro representable_int) auto
  have rep2: "representable (of_int ?D / 2)" using half_representable [OF rep] D by simp
  have "fval (1, -1) = 1 / 2" by (simp add: fval_def power_int_minus)
  then have half: "fval c * fval (1, -1) = of_int ?D / 2" "proper (1, -1)"
    by (simp_all add: c(2) proper_def)
  obtain h where h: "f_half (Some c) = Some h" "fval h = of_int ?D / 2" "proper h"
    unfolding f_half_def using f_mul_exact [OF c(3) half(2)] half(1) rep2 by metis
  have r: "proper (k, -53)" "0 \<le> fval (k, -53)" "fval (k, -53) \<le> 1"
    using assms(5,6) by (simp_all add: proper_def fval_def power_int_minus divide_simps)
  have "fval (k, -53) * fval h \<le> 1 * fval h" using r(3) h(2) D by (intro mult_right_mono) auto
  then obtain j where j: "f_mul (Some (k, -53)) (Some h) = Some j" "fval j \<le> of_int ?D / 2" "proper j"
    using f_mul_below [OF r(1) h(3) rep2] h(2) by auto
  have lo: "of_int ?D / 2 \<le> fval h + fval j" using h(2) j(3) by (simp add: proper_fval)
  have hi: "fval h + fval j \<le> of_int ?D" using h(2) j(2) by simp
  obtain s where s: "f_add (Some h) (Some j) = Some s" "of_int ?D / 2 \<le> fval s" "fval s \<le> of_int ?D"
    by (rule f_add_between [OF h(3) j(3) rep2 lo rep hi])
  have "jittered cfg attempts k = Some s" using c(1) h(1) j(1) s(1) by (simp add: jittered_def Let_def)
  then have "backoff cfg attempts k = Some \<lfloor>fval s\<rfloor>" by (simp add: backoff_def f_trunc_floor)
  moreover have "?D div 2 \<le> \<lfloor>fval s\<rfloor>" using s(2) by (simp add: le_floor_iff)
  moreover have "\<lfloor>fval s\<rfloor> \<le> ?D" using s(3) by (simp add: floor_le_iff)
  ultimately show ?thesis by blast
qed

definition default_config :: publisher_config where
  "default_config = pub_withDefaults \<lparr>pc_BatchSize = 0, pc_PollInterval = 0, pc_BaseBackoff = 0, pc_MaxBackoff = 0\<rparr>"

theorem backoff_bounds_witness:
  "\<exists>d. backoff default_config 3 (2 ^ 52) = Some d \<and> 4 * Second \<le> d \<and> d \<le> 8 * Second"
proof -
  have "capped_delay default_config 3 = 8 * Second"
    by (simp add: capped_delay_def default_config_def pub_withDefaults_def clamp_attempts_def)
  then show ?thesis
    using backoff_bounds [of default_config "2 ^ 52" 3]
    by (simp add: default_config_def pub_withDefaults_def)
qed

end
