(* ===== verification/Delivery.thy ===== *)
theory Delivery
  imports Publisher Workflow
begin

text \<open>
  What the publisher guarantees about the outbox. Three contracts: \<open>waits_until_taken\<close>, which allows every
  error, says which events still wait, and gives that none is lost; \<open>outbox_contract\<close>, the one the SQLite
  outbox meets, describes the table itself, leaves every statement free to fail, and gives the first;
  \<open>steady_outbox\<close> adds that no statement fails and gives that a backlog drains in order. All are met by
  the SQLite outbox with \<open>dispatchEvent\<close> behind it. Whether an event was taken is read from what the
  handler returned, not from what the publisher made of it.
\<close>

section \<open>No event is lost\<close>

text \<open>A handler call for the event has returned nil.\<close>

definition taken :: "string \<Rightarrow> (event \<times> handled) list \<Rightarrow> bool" where
  "taken i calls \<longleftrightarrow> list_ex (\<lambda>(e, r). ev_ID e = i \<and> r = Took) calls"

lemma taken_append [simp]: "taken i (xs @ ys) \<longleftrightarrow> taken i xs \<or> taken i ys"
  by (simp add: taken_def)

lemma on_state_eq: "on_state f w = (x, w') \<Longrightarrow> \<exists>s. f (pu_state w) = (x, s) \<and> w' = w\<lparr>pu_state := s\<rparr>"
  by (auto simp: on_state_def split: prod.splits)

locale waits_until_taken =
  fixes p :: "'s publisher" and waits :: "'s \<Rightarrow> string set"
  assumes pending_waits: "or_Pending (pb_repo p) now limit s = (r, s') \<Longrightarrow> waits s \<subseteq> waits s'"
    and published_waits: "or_MarkPublished (pb_repo p) i now s = (e, s') \<Longrightarrow> waits s - {i} \<subseteq> waits s'"
    and failed_waits: "or_MarkFailed (pb_repo p) i now cause s = (e, s') \<Longrightarrow> waits s \<subseteq> waits s'"
    and handler_waits: "pb_deliver p ev s = (h, s') \<Longrightarrow> waits s \<subseteq> waits s'"
begin

definition safe :: "string \<Rightarrow> 's pub_state \<Rightarrow> bool" where
  "safe i w \<longleftrightarrow> i \<in> waits (pu_state w) \<or> taken i (pu_calls w)"

lemma safe_mono:
  "safe i w \<Longrightarrow> waits (pu_state w) \<subseteq> waits (pu_state w') \<Longrightarrow> pu_calls w' = pu_calls w \<Longrightarrow> safe i w'"
  by (auto simp: safe_def)

lemma publishOne_safe:
  assumes "safe i w"
  shows "safe i (publishOne env p ev w)"
proof -
  obtain t w1 where t: "pub_now env w = (t, w1)" by fastforce
  have s1: "safe i w1" using t by (intro safe_mono [OF assms]) (auto simp: pub_now_def)
  obtain err w2 where h: "handle p (event_of ev t) w1 = (err, w2)" by fastforce
  obtain r s where r: "pb_deliver p (event_of ev t) (pu_state w1) = (r, s)"
    and w2: "pu_state w2 = s" "pu_calls w2 = pu_calls w1 @ [(event_of ev t, r)]" "err = None \<longleftrightarrow> r = Took"
    using h by (auto simp: handle_def call_handler_def dest!: on_state_eq split: prod.splits handled.splits)
  have s2: "safe i w2" using s1 handler_waits [OF r] w2 by (auto simp: safe_def)
  obtain now w3 where n: "pub_now env (if err = None then w2 else w2\<lparr>pu_rand := pu_rand w2 + 1\<rparr>) = (now, w3)"
    by fastforce
  then have w3: "pu_state w3 = pu_state w2" "pu_calls w3 = pu_calls w2" by (auto simp: pub_now_def split: if_splits)
  show ?thesis
  proof (cases err)
    case (Some cause)
    define d where "d = (case backoff (pb_cfg p) (int (pe_Attempts ev)) (pn_Float64 env (pu_rand w2)) of
        None \<Rightarrow> 0 | Some d \<Rightarrow> d)"
    obtain e w4 where m: "on_state (or_MarkFailed (pb_repo p) (pe_EventID ev) (now + d) cause) w3 = (e, w4)" by fastforce
    then have "safe i w4" using s2 w3
      by (auto simp: safe_def dest!: on_state_eq failed_waits)
    then show ?thesis
      using t h n m Some by (auto simp: publishOne_def Let_def d_def [symmetric] observe_def intro: safe_mono)
  next
    case None
    obtain e w4 where m: "on_state (or_MarkPublished (pb_repo p) (pe_EventID ev) now) w3 = (e, w4)" by fastforce
    then obtain s' where "or_MarkPublished (pb_repo p) (pe_EventID ev) now (pu_state w3) = (e, s')"
        "w4 = w3\<lparr>pu_state := s'\<rparr>"
      by (auto dest!: on_state_eq)
    then have "waits (pu_state w2) - {pe_EventID ev} \<subseteq> waits (pu_state w4)" "pu_calls w4 = pu_calls w2"
      using published_waits w3 by auto
    moreover have "taken (pe_EventID ev) (pu_calls w2)" using w2(3) None by (simp add: w2(2) taken_def event_of_def)
    ultimately have "safe i w4" using s2 by (auto simp: safe_def)
    then show ?thesis
      using t h n m None by (auto simp: publishOne_def Let_def observe_def intro: safe_mono)
  qed
qed

lemma publish_each_safe: "safe i w \<Longrightarrow> safe i (publish_each env p ended n evs w)"
  by (induction evs arbitrary: n w) (auto simp: publishOne_safe)

lemma drain_safe:
  assumes "safe i w"
  shows "safe i (drain env p ended w)"
proof -
  obtain now w1 where n: "pub_now env w = (now, w1)" by fastforce
  obtain r w2 where r: "on_state (or_Pending (pb_repo p) now (pc_BatchSize (pb_cfg p))) w1 = (r, w2)" by fastforce
  have "safe i w1" using n by (intro safe_mono [OF assms]) (auto simp: pub_now_def)
  then have "safe i w2" by (rule safe_mono) (use r in \<open>auto dest!: on_state_eq pending_waits\<close>)
  then show ?thesis using n r by (auto simp: drain_def Let_def publish_each_safe split: sum.splits)
qed

lemma drains_safe: "safe i w \<Longrightarrow> safe i (drains env p es w)"
  by (induction es arbitrary: w) (auto simp: drain_safe)

lemma Run_safe: "safe i w \<Longrightarrow> safe i (Run env p startup wakes deadline w)"
  by (simp add: Run_def drain_safe drains_safe)

end

section \<open>The table behind the outbox\<close>

locale outbox_contract =
  fixes p :: "'s publisher" and view :: "'s \<Rightarrow> database"
  assumes reads: "or_Pending (pb_repo p) now limit s = (r, s')
      \<Longrightarrow> queued (view s) (view s') \<and> (r = Inr (Pending now limit (view s')) \<or> (\<exists>e. r = Inl e))"
    and publishes: "or_MarkPublished (pb_repo p) i now s = (e, s')
      \<Longrightarrow> \<exists>d. queued (view s) d \<and> view s' = (if e = None then snd (MarkPublished i now d) else d)"
    and fails: "or_MarkFailed (pb_repo p) i now cause s = (e, s')
      \<Longrightarrow> \<exists>d. queued (view s) d \<and> view s' = (if e = None then snd (MarkFailed i now cause d) else d)"
    and delivers: "pb_deliver p ev s = (h, s') \<Longrightarrow> queued (view s) (view s')"

text \<open>An outbox none of whose statements fails.\<close>

locale steady_outbox = outbox_contract +
  assumes read_succeeds: "or_Pending (pb_repo p) now limit s = (r, s') \<Longrightarrow> \<exists>evs. r = Inr evs"
    and mark_succeeds: "or_MarkPublished (pb_repo p) i now s = (e, s') \<Longrightarrow> e = None"

lemma waiting_ids_queued: "queued d d' \<Longrightarrow> ob_event_id ` set (waiting d) \<subseteq> ob_event_id ` set (waiting d')"
  by (auto dest!: queued_waiting)

sublocale outbox_contract \<subseteq> waits_until_taken p "\<lambda>s. ob_event_id ` set (waiting (view s))"
proof (unfold_locales, goal_cases)
  case (1 now limit s r s')
  then show ?case by (auto dest!: reads waiting_ids_queued)
next
  case (2 i now s e s')
  then obtain d where d: "queued (view s) d" "view s' = (if e = None then snd (MarkPublished i now d) else d)"
    using publishes by blast
  show ?case using waiting_ids_queued [OF d(1)] by (auto simp: d(2) waiting_published)
next
  case (3 i now cause s e s')
  then obtain d where d: "queued (view s) d" "view s' = (if e = None then snd (MarkFailed i now cause d) else d)"
    using fails by blast
  have "ob_event_id ` set (update_where q (failed_until now cause) rs) = ob_event_id ` set rs" for q rs
    by (metis list.set_map update_where_keeps marks_keep(4))
  then show ?case using waiting_ids_queued [OF d(1)] by (auto simp: d(2) waiting_failed)
next
  case (4 ev s h s')
  then show ?case using delivers waiting_ids_queued by blast
qed

section \<open>A backlog drains\<close>

definition ids_of :: "(event \<times> handled) list \<Rightarrow> string list" where
  "ids_of calls = map (\<lambda>(e, r). ev_ID e) calls"

lemma ids_of_append [simp]: "ids_of (xs @ ys) = ids_of xs @ ids_of ys"
  by (simp add: ids_of_def)

definition due_from :: "pub_env \<Rightarrow> nat \<Rightarrow> outbox_row list \<Rightarrow> bool" where
  "due_from env n rows \<longleftrightarrow> (\<forall>k\<ge>n. list_all (\<lambda>r. ob_next_attempt_at r \<le> UnixMilli (pn_Now env k)) rows)"

lemma due_from_mono: "due_from env n rows \<Longrightarrow> n \<le> m \<Longrightarrow> set rows' \<subseteq> set rows \<Longrightarrow> due_from env m rows'"
  by (auto simp: due_from_def list_all_iff)

lemma due_from_fresh: "(\<And>k. n \<le> k \<Longrightarrow> 0 \<le> UnixMilli (pn_Now env k)) \<Longrightarrow> list_all fresh_row rows \<Longrightarrow> due_from env n rows"
  by (auto simp: due_from_def list_all_iff fresh_row_def)

lemma due_from_append: "due_from env n (a @ b) \<longleftrightarrow> due_from env n a \<and> due_from env n b"
  by (auto simp: due_from_def)

lemma waiting_distinct: "outbox_ok db \<Longrightarrow> distinct (map ob_event_id (waiting db))"
  by (simp add: outbox_ok_def waiting_def distinct_map_filter)

text \<open>What has come in between two states of the table: fresh rows, under identifiers it did not have.\<close>

definition table_ids :: "database \<Rightarrow> string set" where
  "table_ids db = ob_event_id ` set (db_outbox db)"

definition arrived :: "database \<Rightarrow> database \<Rightarrow> outbox_row list \<Rightarrow> bool" where
  "arrived d d' new \<longleftrightarrow> list_all fresh_row new \<and> table_ids d \<subseteq> table_ids d' \<and> outbox_ok d'
     \<and> ob_event_id ` set new \<inter> table_ids d = {}"

lemma arrived_none: "outbox_ok d \<Longrightarrow> arrived d d []"
  by (simp add: arrived_def)

lemma arrived_trans: "arrived a b new \<Longrightarrow> arrived b c new' \<Longrightarrow> arrived a c (new @ new')"
  unfolding arrived_def by (auto simp: image_Un)

lemma arrived_disjoint: "arrived a b new \<Longrightarrow> ob_event_id ` set new \<inter> ob_event_id ` set (waiting a) = {}"
  by (auto simp: arrived_def table_ids_def waiting_def)

lemma arrived_subset: "arrived a b new \<Longrightarrow> set new' \<subseteq> set new \<Longrightarrow> arrived a b new'"
  unfolding arrived_def list_all_iff by blast

lemma queued_arrived:
  assumes "outbox_ok d" and "queued d d'"
  obtains new where "waiting d' = waiting d @ new" and "arrived d d' new"
proof -
  obtain new where new: "db_outbox d' = db_outbox d @ new" "list_all fresh_row new"
    using assms(2) by (auto simp: queued_def)
  have ok: "outbox_ok d'" using assms by (simp add: queued_def)
  have "filter unpublished new = new" using new(2) by (auto simp: list_all_iff fresh_row_def intro!: filter_True)
  then have "waiting d' = waiting d @ new" by (simp add: waiting_def new(1))
  moreover have "arrived d d' new"
    using ok new by (auto simp: arrived_def table_ids_def outbox_ok_def)
  ultimately show ?thesis by (rule that)
qed

lemma table_ids_published [simp]: "table_ids (snd (MarkPublished i t d)) = table_ids d"
proof -
  have "ob_event_id ` set (update_where q (published_at t) rs) = ob_event_id ` set rs" for q rs
    by (metis list.set_map update_where_keeps marks_keep(2))
  then show ?thesis by (simp add: table_ids_def MarkPublished_def WriteTx_def)
qed

context steady_outbox
begin

text \<open>One event that is taken: it leaves the head of what waits.\<close>

lemma publishOne_takes:
  assumes w: "waiting (view (pu_state w)) = r # rest" and ok: "outbox_ok (view (pu_state w))"
    and takes: "\<And>ev s. fst (pb_deliver p ev s) = Took"
  obtains new where "arrived (view (pu_state w)) (view (pu_state (publishOne env p (scanPending r) w))) new"
    and "waiting (view (pu_state (publishOne env p (scanPending r) w))) = rest @ new"
    and "ids_of (pu_calls (publishOne env p (scanPending r) w)) = ids_of (pu_calls w) @ [ob_event_id r]"
    and "pu_now w \<le> pu_now (publishOne env p (scanPending r) w)"
proof -
  let ?ev = "scanPending r"
  obtain t w1 where t: "pub_now env w = (t, w1)" by fastforce
  then have w1: "pu_state w1 = pu_state w" "pu_calls w1 = pu_calls w" "pu_now w1 = pu_now w + 1"
    by (auto simp: pub_now_def)
  obtain s where s: "pb_deliver p (event_of ?ev t) (pu_state w) = (Took, s)" using takes by (metis prod.collapse)
  define w2 where "w2 = w1\<lparr>pu_state := s, pu_calls := pu_calls w1 @ [(event_of ?ev t, Took)]\<rparr>"
  have h: "handle p (event_of ?ev t) w1 = (None, w2)" using s w1 by (simp add: handle_def call_handler_def on_state_def w2_def)
  define now where "now = pn_Now env (pu_now w2)"
  define w3 where "w3 = w2\<lparr>pu_now := pu_now w2 + 1\<rparr>"
  have n: "pub_now env w2 = (now, w3)" by (simp add: pub_now_def now_def w3_def)
  obtain e s' where m: "or_MarkPublished (pb_repo p) (ob_event_id r) now s = (e, s')" by fastforce
  obtain d where d: "e = None" "queued (view s) d" "view s' = snd (MarkPublished (ob_event_id r) now d)"
    using publishes [OF m] mark_succeeds [OF m] by auto
  obtain new where new: "waiting d = (r # rest) @ new" "arrived (view (pu_state w)) d new"
    using queued_arrived [OF ok queued_trans [OF delivers [OF s] d(2)]] w by metis
  then have okd: "outbox_ok d" by (simp add: arrived_def)
  then have "ob_event_id r \<notin> ob_event_id ` set (rest @ new)"
    using waiting_distinct [OF okd] new by (auto simp: image_Un)
  then have "filter (\<lambda>x. ob_event_id x \<noteq> ob_event_id r) (rest @ new) = rest @ new"
    unfolding filter_id_conv by (metis imageI)
  then have wait: "waiting (view s') = rest @ new" using new by (simp add: d(3) waiting_published)
  have arr: "arrived (view (pu_state w)) (view s') new" using new(2) by (simp add: arrived_def d(3))
  have "publishOne env p ?ev w = observe PublishDelivered (w3\<lparr>pu_state := s'\<rparr>)"
    using t h n m d(1) by (simp add: publishOne_def on_state_def w3_def w2_def scanPending_def)
  then show ?thesis
    using wait arr w1
    by (intro that [of new]) (simp_all add: observe_def w3_def w2_def ids_of_def event_of_def scanPending_def)
qed

lemma publish_each_takes:
  assumes "waiting (view (pu_state w)) = rows @ rest" and "outbox_ok (view (pu_state w))"
    and takes: "\<And>ev s. fst (pb_deliver p ev s) = Took" and live: "\<And>m. \<not> ended m"
  shows "\<exists>new. arrived (view (pu_state w)) (view (pu_state (publish_each env p ended n (map scanPending rows) w))) new
      \<and> waiting (view (pu_state (publish_each env p ended n (map scanPending rows) w))) = rest @ new
      \<and> ids_of (pu_calls (publish_each env p ended n (map scanPending rows) w))
          = ids_of (pu_calls w) @ map ob_event_id rows
      \<and> pu_now w \<le> pu_now (publish_each env p ended n (map scanPending rows) w)"
  using assms(1,2)
proof (induction rows arbitrary: w rest n)
  case Nil
  then show ?case by (intro exI [of _ "[]"]) (simp add: arrived_none)
next
  case (Cons r rows)
  let ?w1 = "publishOne env p (scanPending r) w"
  have w: "waiting (view (pu_state w)) = r # (rows @ rest)" using Cons.prems(1) by simp
  obtain new where new: "arrived (view (pu_state w)) (view (pu_state ?w1)) new"
      "waiting (view (pu_state ?w1)) = (rows @ rest) @ new"
      "ids_of (pu_calls ?w1) = ids_of (pu_calls w) @ [ob_event_id r]" "pu_now w \<le> pu_now ?w1"
    by (rule publishOne_takes [OF w Cons.prems(2) takes, of env])
  let ?w2 = "publish_each env p ended (n + 1) (map scanPending rows) ?w1"
  obtain new' where "arrived (view (pu_state ?w1)) (view (pu_state ?w2)) new'"
      "waiting (view (pu_state ?w2)) = (rest @ new) @ new'"
      "ids_of (pu_calls ?w2) = ids_of (pu_calls ?w1) @ map ob_event_id rows" "pu_now ?w1 \<le> pu_now ?w2"
    using Cons.IH [of ?w1 "rest @ new" "n + 1"] new(1,2) by (auto simp: arrived_def)
  moreover have "publish_each env p ended n (map scanPending (r # rows)) w = ?w2" using live [of n] by simp
  ultimately show ?case using new(3,4) arrived_trans [OF new(1)] by (intro exI [of _ "new @ new'"]) simp
qed

text \<open>One drain takes the first batch of what waits.\<close>

lemma drain_takes:
  assumes ok: "outbox_ok (view (pu_state w))"
    and takes: "\<And>ev s. fst (pb_deliver p ev s) = Took" and live: "\<And>m. \<not> ended m"
    and clock: "\<And>k. pu_now w \<le> k \<Longrightarrow> 0 \<le> UnixMilli (pn_Now env k)"
    and due: "due_from env (pu_now w) (waiting (view (pu_state w)))"
  shows "\<exists>old new. arrived (view (pu_state w)) (view (pu_state (drain env p ended w))) (old @ new)
      \<and> waiting (view (pu_state (drain env p ended w)))
          = drop (batch (pc_BatchSize (pb_cfg p))) (waiting (view (pu_state w)) @ old) @ new
      \<and> ids_of (pu_calls (drain env p ended w)) = ids_of (pu_calls w)
          @ map ob_event_id (take (batch (pc_BatchSize (pb_cfg p))) (waiting (view (pu_state w)) @ old))
      \<and> pu_now w \<le> pu_now (drain env p ended w)"
proof -
  let ?b = "batch (pc_BatchSize (pb_cfg p))" and ?W = "waiting (view (pu_state w))"
  define now where "now = pn_Now env (pu_now w)"
  obtain r s where r: "or_Pending (pb_repo p) now (pc_BatchSize (pb_cfg p)) (pu_state w) = (r, s)" by fastforce
  have q: "queued (view (pu_state w)) (view s)" and res: "r = Inr (Pending now (pc_BatchSize (pb_cfg p)) (view s))"
    using reads [OF r] read_succeeds [OF r] by auto
  obtain old where old: "waiting (view s) = ?W @ old" "arrived (view (pu_state w)) (view s) old"
    by (rule queued_arrived [OF ok q])
  have ok1: "outbox_ok (view s)" "list_all fresh_row old" using old(2) by (simp_all add: arrived_def)
  have "due_from env (pu_now w) (?W @ old)" using due due_from_fresh [OF clock ok1(2)] by (simp add: due_from_append)
  then have "filter (\<lambda>r. ob_next_attempt_at r \<le> UnixMilli now) (?W @ old) = ?W @ old"
    unfolding now_def due_from_def list_all_iff by (intro filter_True) blast
  then have pend: "Pending now (pc_BatchSize (pb_cfg p)) (view s) = map scanPending (take ?b (?W @ old))"
    by (simp add: Pending_waiting [OF ok1(1)] old(1))
  define w1 where "w1 = w\<lparr>pu_now := pu_now w + 1, pu_state := s\<rparr>"
  have split: "waiting (view (pu_state w1)) = take ?b (?W @ old) @ drop ?b (?W @ old)"
    by (simp only: append_take_drop_id) (simp add: w1_def old(1))
  let ?w2 = "publish_each env p ended 0 (map scanPending (take ?b (?W @ old))) w1"
  have "outbox_ok (view (pu_state w1))" using ok1 by (simp add: w1_def)
  then obtain new where new: "arrived (view (pu_state w1)) (view (pu_state ?w2)) new"
      "waiting (view (pu_state ?w2)) = drop ?b (?W @ old) @ new"
      "ids_of (pu_calls ?w2) = ids_of (pu_calls w1) @ map ob_event_id (take ?b (?W @ old))" "pu_now w1 \<le> pu_now ?w2"
    using publish_each_takes [OF split, where env = env and n = 0 and ended = ended] takes live by blast
  have "drain env p ended w = ?w2"
    using r res pend by (simp add: drain_def pub_now_def on_state_def Let_def now_def w1_def)
  moreover have "arrived (view (pu_state w)) (view (pu_state ?w2)) (old @ new)"
    using arrived_trans [OF old(2)] new(1) by (simp add: w1_def)
  ultimately show ?thesis using new(2-4) by (intro exI [of _ old] exI [of _ new]) (simp add: w1_def)
qed

lemma drains_take:
  assumes "outbox_ok (view (pu_state w))"
    and takes: "\<And>ev s. fst (pb_deliver p ev s) = Took" and live: "\<forall>ended\<in>set es. \<forall>m. \<not> ended m"
    and clock: "\<And>k. pu_now w \<le> k \<Longrightarrow> 0 \<le> UnixMilli (pn_Now env k)"
    and "due_from env (pu_now w) (waiting (view (pu_state w)))"
  shows "\<exists>new others. arrived (view (pu_state w)) (view (pu_state (drains env p es w))) new
      \<and> waiting (view (pu_state (drains env p es w)))
          = drop (length es * batch (pc_BatchSize (pb_cfg p))) (waiting (view (pu_state w))) @ new
      \<and> ids_of (pu_calls (drains env p es w)) = ids_of (pu_calls w)
          @ map ob_event_id (take (length es * batch (pc_BatchSize (pb_cfg p))) (waiting (view (pu_state w)))) @ others"
  using assms
proof (induction es arbitrary: w)
  case Nil
  then show ?case by (intro exI [of _ "[]"]) (simp add: arrived_none)
next
  case (Cons e es)
  let ?b = "batch (pc_BatchSize (pb_cfg p))" and ?W = "waiting (view (pu_state w))" and ?w1 = "drain env p e w"
  have live: "\<not> e m" for m using Cons.prems(3) by simp
  obtain old new where o: "arrived (view (pu_state w)) (view (pu_state ?w1)) (old @ new)"
      "waiting (view (pu_state ?w1)) = drop ?b (?W @ old) @ new"
      "ids_of (pu_calls ?w1) = ids_of (pu_calls w) @ map ob_event_id (take ?b (?W @ old))" "pu_now w \<le> pu_now ?w1"
    using drain_takes [where env = env and ended = e, OF Cons.prems(1) Cons.prems(2) live Cons.prems(4,5)] by blast
  have ok1: "outbox_ok (view (pu_state ?w1))" "list_all fresh_row (old @ new)" using o(1) by (simp_all add: arrived_def)
  have clock1: "0 \<le> UnixMilli (pn_Now env k)" if "pu_now ?w1 \<le> k" for k using Cons.prems(4) o(4) that by simp
  have "due_from env (pu_now ?w1) (?W @ (old @ new))"
    using due_from_mono [OF Cons.prems(5) o(4) subset_refl] due_from_fresh [OF clock1 ok1(2)]
    by (simp add: due_from_append)
  then have due1: "due_from env (pu_now ?w1) (waiting (view (pu_state ?w1)))"
    unfolding o(2) by (rule due_from_mono) (auto dest: in_set_dropD)
  let ?w2 = "drains env p es ?w1"
  obtain new' others where i: "arrived (view (pu_state ?w1)) (view (pu_state ?w2)) new'"
      "waiting (view (pu_state ?w2)) = drop (length es * ?b) (waiting (view (pu_state ?w1))) @ new'"
      "ids_of (pu_calls ?w2) = ids_of (pu_calls ?w1)
          @ map ob_event_id (take (length es * ?b) (waiting (view (pu_state ?w1)))) @ others"
    using Cons.IH [OF ok1(1) Cons.prems(2) _ clock1 due1] Cons.prems(3) by auto
  define x where "x = drop (?b - length ?W) old @ new"
  define y where "y = drop (length es * ?b - (length ?W - ?b)) x"
  have W1: "waiting (view (pu_state ?w1)) = drop ?b ?W @ x" by (simp add: o(2) x_def)
  have "set y \<subseteq> set (old @ new)" by (auto simp: y_def x_def dest!: in_set_dropD)
  then have arr: "arrived (view (pu_state w)) (view (pu_state ?w2)) (y @ new')"
    by (intro arrived_subset [OF arrived_trans [OF o(1) i(1)]]) auto
  have "drop (length es * ?b) (drop ?b ?W @ x) = drop (length (e # es) * ?b) ?W @ y"
    by (simp add: y_def add.commute)
  moreover have "\<exists>os. map ob_event_id (take ?b (?W @ old)) @ map ob_event_id (take (length es * ?b) (drop ?b ?W @ x)) @ others
      = map ob_event_id (take (length (e # es) * ?b) ?W) @ os"
  proof (cases "length ?W \<le> ?b")
    case True
    then show ?thesis by simp
  next
    case False
    then show ?thesis by (intro exI [of _ "map ob_event_id (take (length es * ?b - (length ?W - ?b)) x) @ others"])
        (simp add: take_add)
  qed
  ultimately show ?case using i(2,3) W1 o(3) arr by (auto intro!: exI [of _ "y @ new'"])
qed

end

section \<open>The wiring\<close>

text \<open>
  The adapter over \<open>OutboxStore\<close>, with everybody else at work on the store between any two calls, and
  \<open>dispatchEvent\<close> of \<open>app.go\<close>. A statement may fail, as one whose context has ended does: \<open>fails n\<close> is
  the error of the n-th, which then changes nothing. Plugin code behind \<open>dispatchEvent\<close> may panic:
  \<open>crash\<close> says at which of its calls, with what value and leaving the upstream system how.
\<close>

definition sql_mark :: "(string \<Rightarrow> bool) \<Rightarrow> rival_calls \<Rightarrow> (nat \<Rightarrow> op_error option)
    \<Rightarrow> (database \<Rightarrow> op_error option \<times> database) \<Rightarrow> sql_state \<Rightarrow> op_error option \<times> sql_state" where
  "sql_mark jv others fails f s =
    (let db = run_calls jv (others (ss_calls s)) (ss_db s);
         (e, db') = (case fails (ss_calls s) of None \<Rightarrow> f db | Some e \<Rightarrow> (Some e, db))
     in (e, \<lparr>ss_db = db', ss_calls = ss_calls s + 1\<rparr>))"

definition sqlite_outbox :: "(string \<Rightarrow> bool) \<Rightarrow> rival_calls \<Rightarrow> (nat \<Rightarrow> op_error option)
    \<Rightarrow> (sql_state, 'm) host_scheme outbox_reader" where
  "sqlite_outbox jv others fails = \<lparr>
     or_Pending = (\<lambda>now limit. call_repo (\<lambda>s. sql_read jv others (\<lambda>db.
       case fails (ss_calls s) of None \<Rightarrow> Inr (Pending now limit db) | Some e \<Rightarrow> Inl e) s)),
     or_MarkPublished = (\<lambda>i t. call_repo (sql_mark jv others fails (MarkPublished i t))),
     or_MarkFailed = (\<lambda>i t cause. call_repo (sql_mark jv others fails (MarkFailed i t cause)))\<rparr>"

type_synonym ('s, 'u) crashes = "event \<Rightarrow> ('s, 'u) exec_host \<Rightarrow> (panic_point \<times> string \<times> 'u) option"

definition dispatchEvent :: "pub_env \<Rightarrow> environment \<Rightarrow> 's repository \<Rightarrow> ('u, 'h) mutation_runner \<Rightarrow> call_context
    \<Rightarrow> executor_config \<Rightarrow> ('s, 'u) crashes \<Rightarrow> event \<Rightarrow> ('s, 'u) exec_host \<Rightarrow> handled \<times> ('s, 'u) exec_host" where
  "dispatchEvent penv env repo runner ctx cfg crash e h =
    (let completed = (case Execute env repo runner ctx cfg (ev_OperationID e) h of
            (None, h') \<Rightarrow> (Took, h')
          | (Some err, h') \<Rightarrow> (Failed_with (pn_Err penv err), h'))
     in if ev_Subject e \<noteq> SubjectOperationApproved \<or> ev_OperationID e = '''' then (Took, h)
        else case crash e h of
          None \<Rightarrow> completed
        | Some (point, value, u) \<Rightarrow>
            (case Execute_upto env repo runner ctx cfg point (ev_OperationID e) h of
               None \<Rightarrow> completed | Some h' \<Rightarrow> (Panicked value, h'\<lparr>x_up := u\<rparr>)))"

definition app_publisher :: "pub_env \<Rightarrow> environment \<Rightarrow> (string \<Rightarrow> bool) \<Rightarrow> rival_calls \<Rightarrow> (nat \<Rightarrow> nat \<Rightarrow> time)
    \<Rightarrow> (nat \<Rightarrow> op_error option) \<Rightarrow> (sql_state, 'u) crashes
    \<Rightarrow> ('u, 'h) mutation_runner \<Rightarrow> call_context \<Rightarrow> executor_config \<Rightarrow> (sql_state, 'u) exec_host publisher" where
  "app_publisher penv env jv others clk fails crash runner ctx cfg =
    NewPublisher (sqlite_outbox jv others fails) (dispatchEvent penv env (sqlite jv others clk) runner ctx cfg crash)
      \<lparr>pc_BatchSize = 0, pc_PollInterval = 0, pc_BaseBackoff = 0, pc_MaxBackoff = 0\<rparr>"

abbreviation db_of :: "(sql_state, 'm) host_scheme \<Rightarrow> database" where
  "db_of h \<equiv> ss_db (h_store h)"

text \<open>No part of an execution takes an event out of the outbox.\<close>

definition after :: "database \<Rightarrow> (sql_state, 'm) host_scheme \<Rightarrow> bool" where
  "after db h \<longleftrightarrow> queued db (db_of h)"

lemma after_host [simp]:
  "after db (h\<lparr>h_now := a\<rparr>) = after db h" "after db (h\<lparr>h_ids := b\<rparr>) = after db h"
  "after db (h\<lparr>h_policy := c\<rparr>) = after db h" "after db (h\<lparr>h_woken := d\<rparr>) = after db h"
  by (simp_all add: after_def)

lemma after_store: "h_store h' = h_store h \<Longrightarrow> after db h \<Longrightarrow> after db h'"
  by (simp add: after_def)

lemma read_after: "call_repo (sql_read jv others f) h = (x, h') \<Longrightarrow> after db h \<Longrightarrow> after db h'"
  by (auto simp: call_repo_def sql_read_def Let_def after_def split: prod.splits
      intro: queued_trans [OF _ run_calls_queued])

lemma write_after: "call_repo (sql_write jv others clk c) h = (x, h') \<Longrightarrow> after db h \<Longrightarrow> after db h'"
proof -
  assume c: "call_repo (sql_write jv others clk c) h = (x, h')" and a: "after db h"
  let ?d = "run_calls jv (others (ss_calls (h_store h))) (db_of h)"
  have "db_of h' = snd (exec_call jv (clk (ss_calls (h_store h))) c ?d)"
    using c by (auto simp: call_repo_def sql_write_def Let_def split: prod.splits)
  then show ?thesis
    using a run_calls_queued exec_call_queued queued_trans unfolding after_def by metis
qed

lemma settle_after: "after db h \<Longrightarrow>
    after db (snd (exec_settle env (sqlite jv others clk) op att to obs ver ref code detail h))"
  by (auto simp: exec_settle_def host_defs Let_def split: sum.splits prod.splits dest!: write_after)

lemma settleFailure_after:
  "after db h \<Longrightarrow> after db (snd (settleFailure env (sqlite jv others clk) op code detail h))"
  by (auto simp: settleFailure_def host_defs Let_def split: sum.splits prod.splits dest!: write_after)

lemma exec_apply_after:
  assumes "after db h"
  shows "after db (snd (exec_apply env (sqlite jv others clk) runner ctx cfg op att plan h))"
proof -
  have keep: "after db (snd (exec_settle env (sqlite jv others clk) op att to obs ver ref code detail h'))"
    if "h_store h' = h_store h" for h' :: "(sql_state, 'a) exec_host" and to obs ver ref code detail
    using settle_after [OF after_store [OF that assms]] .
  have v: "h_store h2 = h_store h1" if "exec_verify runner ctx cfg op plan h1 = (x, h2)"
    for x and h1 h2 :: "(sql_state, 'a) exec_host"
    using that verify_store [of runner ctx cfg op] unfolding exec_verify_def Let_def by (metis snd_conv)
  show ?thesis
    by (auto simp: exec_apply_def Let_def split: prod.splits option.splits run_error.splits
        intro!: keep dest!: call_up_store v)
qed

lemma exec_claim_after:
  "exec_claim env (sqlite jv others clk) cfg op drift h = (res, att, h') \<Longrightarrow> after db h \<Longrightarrow> after db h'"
  by (auto simp: exec_claim_def host_defs Let_def split: prod.splits dest!: write_after)

lemma Execute_after:
  assumes "after db h"
  shows "after db (snd (Execute env (sqlite jv others clk) runner ctx cfg i h))"
proof -
  have chk: "after db h2" if "exec_check runner op h1 = (x, h2)" "after db h1"
    for op x and h1 h2 :: "(sql_state, 'a) exec_host"
    using after_store [OF exec_check_store [OF that(1)] that(2)] .
  have app: "after db (snd (exec_apply env (sqlite jv others clk) runner ctx cfg claimed att plan (notify h3)))"
    if "exec_claim env (sqlite jv others clk) cfg op drift h2 = (Inr claimed, att, h3)" "after db h2"
    for op drift claimed att plan and h2 h3 :: "(sql_state, 'a) exec_host"
    using exec_claim_after [OF that] by (intro exec_apply_after) (simp add: notify_def)
  show ?thesis
    using assms
    by (auto simp: Execute_def split: prod.splits sum.splits checked.splits
        dest!: read_after chk intro!: settleFailure_after app dest: exec_claim_after)
qed

lemma Execute_upto_after:
  assumes "after db h" and "Execute_upto env (sqlite jv others clk) runner ctx cfg point i h = Some h'"
  shows "after db h'"
proof -
  have chk: "after db h2" if "exec_check runner op h1 = (x, h2)" "after db h1"
    for op x and h1 h2 :: "(sql_state, 'a) exec_host"
    using after_store [OF exec_check_store [OF that(1)] that(2)] .
  have v: "h_store h2 = h_store h1" if "exec_verify runner ctx cfg' op plan h1 = (x, h2)"
    for x cfg' op plan and h1 h2 :: "(sql_state, 'a) exec_host"
    using that verify_store [of runner ctx cfg' op] unfolding exec_verify_def Let_def by (metis snd_conv)
  have read: "after db h1" if "call_repo (sql_read jv others f) h = (x, h1)" for f x h1
    using read_after [OF that assms(1)] .
  have claim: "after db h4" if "exec_claim env (sqlite jv others clk) cfg op drift h2 = (res, att, h3)" "after db h2"
      "h_store h4 = h_store h3" for op drift res att and h2 h3 h4 :: "(sql_state, 'a) exec_host"
    using after_store [OF that(3) exec_claim_after [OF that(1,2)]] .
  show ?thesis
    using assms(2)
    by (auto simp: Execute_upto_def Let_def split: if_splits prod.splits sum.splits checked.splits panic_point.splits
        option.splits dest!: read chk v call_up_store intro: claim simp: notify_def)
qed

lemma dispatchEvent_queued:
  assumes "dispatchEvent penv env (sqlite jv others clk) runner ctx cfg crash e h = (r, h')"
  shows "queued (db_of h) (db_of h')"
proof -
  have a: "after (db_of h) h" by (simp add: after_def)
  then have "after (db_of h) (snd (Execute env (sqlite jv others clk) runner ctx cfg (ev_OperationID e) h))"
    by (rule Execute_after)
  moreover have "after (db_of h) (h2\<lparr>x_up := u\<rparr>)"
    if "Execute_upto env (sqlite jv others clk) runner ctx cfg point (ev_OperationID e) h = Some h2" for point h2 u
    using Execute_upto_after [OF a that] by (simp add: after_def)
  ultimately have "after (db_of h) h'"
    using assms a by (auto simp: dispatchEvent_def Let_def split: if_splits prod.splits option.splits)
  then show ?thesis by (simp add: after_def)
qed

lemma sqlite_contract:
  assumes "\<And>ev s. queued (db_of s) (db_of (snd (deliver ev s)))"
  shows "outbox_contract (NewPublisher (sqlite_outbox jv others fails) deliver cfg) db_of"
proof (unfold_locales, goal_cases)
  case (1 now limit s r s')
  then show ?case
    by (auto simp: NewPublisher_def sqlite_outbox_def call_repo_def sql_read_def Let_def run_calls_queued split: option.splits)
next
  case (2 i now s e s')
  then show ?case
    by (auto simp: NewPublisher_def sqlite_outbox_def call_repo_def sql_mark_def Let_def
        MarkPublished_def WriteTx_def intro!: exI [of _ "run_calls jv (others (ss_calls (h_store s))) (db_of s)"]
        run_calls_queued split: option.splits)
next
  case (3 i now cause s e s')
  then show ?case
    by (auto simp: NewPublisher_def sqlite_outbox_def call_repo_def sql_mark_def Let_def
        MarkFailed_def WriteTx_def intro!: exI [of _ "run_calls jv (others (ss_calls (h_store s))) (db_of s)"]
        run_calls_queued split: option.splits)
next
  case (4 ev s h s')
  then show ?case using assms [of s ev] by (simp add: NewPublisher_def)
qed

lemma sqlite_steady:
  assumes "\<And>ev s. queued (db_of s) (db_of (snd (deliver ev s)))"
  shows "steady_outbox (NewPublisher (sqlite_outbox jv others (\<lambda>n. None)) deliver cfg) db_of"
proof (rule steady_outbox.intro [OF sqlite_contract [OF assms]], unfold_locales, goal_cases)
  case (1 now limit s r s')
  then show ?case by (auto simp: NewPublisher_def sqlite_outbox_def call_repo_def sql_read_def Let_def)
next
  case (2 i now s e s')
  then show ?case
    by (auto simp: NewPublisher_def sqlite_outbox_def call_repo_def sql_mark_def Let_def MarkPublished_def WriteTx_def)
qed

lemma dispatch_queued: "queued (db_of s) (db_of (snd (dispatchEvent penv env (sqlite jv others clk) runner ctx cfg crash ev s)))"
  by (rule dispatchEvent_queued) (rule prod.collapse [symmetric])

interpretation app: outbox_contract "app_publisher penv env jv others clk fails crash runner ctx cfg" db_of
  for penv env jv others clk fails crash runner ctx cfg
  unfolding app_publisher_def by (rule sqlite_contract) (rule dispatch_queued)

interpretation app_steady: steady_outbox "app_publisher penv env jv others clk (\<lambda>n. None) crash runner ctx cfg" db_of
  for penv env jv others clk crash runner ctx cfg
  unfolding app_publisher_def by (rule sqlite_steady) (rule dispatch_queued)

section \<open>The guarantees\<close>

text \<open>
  C18. No event is lost. Over any run of the publisher, with the executor behind it, other components at
  work on the store, contexts that end, statements that fail and plugin code that fails or panics: an
  event that waited at the start still waits at the end, or a call of the handler for it has returned nil
  (what the handler returned, not what the publisher made of it).
\<close>
theorem no_event_lost:
  "let w' = Run penv (app_publisher penv env jv others clk fails crash runner ctx cfg) startup wakes deadline (w\<lparr>pu_calls := []\<rparr>)
   in ob_event_id ` set (waiting (db_of (pu_state w)))
        \<subseteq> ob_event_id ` set (waiting (db_of (pu_state w'))) \<union> {i. taken i (pu_calls w')}"
proof -
  let ?w = "w\<lparr>pu_calls := []\<rparr>" and ?p = "app_publisher penv env jv others clk fails crash runner ctx cfg"
  have "app.safe i (Run penv ?p startup wakes deadline ?w)" if "i \<in> ob_event_id ` set (waiting (db_of (pu_state w)))" for i
    by (rule app.Run_safe) (use that in \<open>simp add: app.safe_def\<close>)
  then show ?thesis by (auto simp: Let_def app.safe_def)
qed

text \<open>
  C19. A backlog drains, in order. Let every event that waits at the start be due (none of them failed and
  is still in its backoff), let the handler take events, contexts live, no statement of the outbox fail and
  the clock stand after 1970. Then as many drains as the backlog has batches hand over every event that
  waited at the start, in the order the events were committed, whatever is queued meanwhile, and leave
  none of them waiting.
\<close>
theorem backlog_drains:
  fixes deliver :: "event \<Rightarrow> (sql_state, 'm) host_scheme \<Rightarrow> handled \<times> (sql_state, 'm) host_scheme"
  assumes "outbox_ok (db_of (pu_state w))"
    and "\<And>ev s. queued (db_of s) (db_of (snd (deliver ev s)))"
    and "\<And>ev s. fst (deliver ev s) = Took" and "\<forall>ended\<in>set es. \<forall>m. \<not> ended m"
    and "\<And>k. pu_now w \<le> k \<Longrightarrow> 0 \<le> UnixMilli (pn_Now env k)"
    and "due_from env (pu_now w) (waiting (db_of (pu_state w)))"
    and "length (waiting (db_of (pu_state w))) \<le> length es * nat (pc_BatchSize (pub_withDefaults cfg))"
  shows "let w' = drains env (NewPublisher (sqlite_outbox jv others (\<lambda>n. None)) deliver cfg) es w; backlog = map ob_event_id (waiting (db_of (pu_state w))) in
    set (map ob_event_id (waiting (db_of (pu_state w')))) \<inter> set backlog = {}
    \<and> (\<exists>later. ids_of (pu_calls w') = ids_of (pu_calls w) @ backlog @ later)"
proof -
  let ?p = "NewPublisher (sqlite_outbox jv others (\<lambda>n. None)) deliver cfg"
  have c: "steady_outbox ?p db_of" by (rule sqlite_steady) (rule assms(2))
  have "batch (pc_BatchSize (pb_cfg ?p)) = nat (pc_BatchSize (pub_withDefaults cfg))"
    by (simp add: NewPublisher_def batch_def pub_withDefaults_def)
  moreover have "\<And>ev s. fst (pb_deliver ?p ev s) = Took" using assms(3) by (simp add: NewPublisher_def)
  ultimately obtain new later where "arrived (db_of (pu_state w)) (db_of (pu_state (drains env ?p es w))) new"
      "waiting (db_of (pu_state (drains env ?p es w))) = new"
      "ids_of (pu_calls (drains env ?p es w))
        = ids_of (pu_calls w) @ map ob_event_id (waiting (db_of (pu_state w))) @ later"
    using steady_outbox.drains_take [OF c assms(1) _ assms(4,5,6)] assms(7) by auto
  then show ?thesis using arrived_disjoint by (simp add: Let_def)
qed

definition two_events :: "(string \<Rightarrow> bool) \<Rightarrow> database" where
  "two_events jv = (case and_then (EnqueueEvent jv ''evt_a'' 0 ''mcp.operation.executing'' ''op_1'' '''' ''{}'' empty_db)
       (EnqueueEvent jv ''evt_b'' 0 ''mcp.operation.succeeded'' ''op_1'' '''' ''{}'') of
     Inr db \<Rightarrow> db | Inl e \<Rightarrow> empty_db)"

definition two_host :: "sql_state host" where
  "two_host = fresh_host\<lparr>h_store := \<lparr>ss_db = two_events (\<lambda>s. True), ss_calls = 0\<rparr>\<rparr>"

definition two_waiting :: "sql_state host pub_state" where
  "two_waiting = \<lparr>pu_state = two_host, pu_now = 0, pu_rand = 0, pu_calls = [], pu_observed = []\<rparr>"

lemma two_events_rows: "map ob_event_id (waiting (two_events (\<lambda>s. True))) = [''evt_a'', ''evt_b'']"
  "outbox_ok (two_events (\<lambda>s. True))" "list_all fresh_row (waiting (two_events (\<lambda>s. True)))"
  by code_simp+

definition still_clock :: pub_env where
  "still_clock = \<lparr>pn_Now = (\<lambda>n. 0), pn_Float64 = (\<lambda>n. 0), pn_Err = (\<lambda>e. '''')\<rparr>"

theorem backlog_drains_witness:
  "\<exists>later. ids_of (pu_calls (drains still_clock (NewPublisher (sqlite_outbox (\<lambda>s. True) (\<lambda>n. []) (\<lambda>n. None)) (\<lambda>ev s. (Took, s))
      default_config) [\<lambda>m. False] two_waiting)) = [''evt_a'', ''evt_b''] @ later"
proof -
  have "length (map ob_event_id (waiting (two_events (\<lambda>s. True)))) = 2" by (simp only: two_events_rows) simp
  then have len: "length (waiting (two_events (\<lambda>s. True))) = 2" by simp
  have "due_from still_clock 0 (waiting (two_events (\<lambda>s. True)))"
    by (rule due_from_fresh [OF _ two_events_rows(3)]) (simp add: still_clock_def UnixMilli_def)
  then show ?thesis
    using backlog_drains [of two_waiting "\<lambda>ev s. (Took, s)" "[\<lambda>m. False]" still_clock default_config] len
    by (simp add: two_waiting_def two_host_def two_events_rows still_clock_def UnixMilli_def Let_def ids_of_def
        default_config_def pub_withDefaults_def)
qed

text \<open>
  A retry is overtaken. When the handler fails on one event once, a later event of the same operation
  is delivered before it: here a consumer is told that an operation succeeded before it is told that it
  started, which the ordering of the drain query is said to exclude.
\<close>
theorem retry_is_overtaken:
  "let fails_first = (\<lambda>ev h. if ev_ID ev = ''evt_a'' \<and> h_woken h = 0 then (Failed_with ''down'', notify h) else (Took, h));
       later = \<lparr>pn_Now = (\<lambda>n. if n < 5 then 0 else Minute), pn_Float64 = (\<lambda>n. 0), pn_Err = (\<lambda>e. '''')\<rparr>;
       w' = drains later (NewPublisher (sqlite_outbox (\<lambda>s. True) (\<lambda>n. []) (\<lambda>n. None)) fails_first default_config)
              [\<lambda>m. False, \<lambda>m. False] two_waiting
   in map (\<lambda>(e, r). (ev_ID e, ev_Subject e, r)) (pu_calls w')
      = [(''evt_a'', ''mcp.operation.executing'', Failed_with ''down''), (''evt_b'', ''mcp.operation.succeeded'', Took),
         (''evt_a'', ''mcp.operation.executing'', Took)]"
  by code_simp

end
