(* ===== verification/Grant_Codec.thy ===== *)
theory Grant_Codec
  imports Permissions Json
begin

text \<open>
  How permissions and grants are written into a column and read back
  (\<open>internal/auth/permissions.go\<close>): \<open>Permissions.MarshalJSON\<close> and \<open>UnmarshalJSON\<close>,
  \<open>EncodeGrants\<close> and \<open>DecodeGrants\<close>.
\<close>

section \<open>Permissions\<close>

text \<open>
  The verb \<open>%q\<close>. Every caller writes a normalised set, whose areas and levels are plain lower-case
  words, and on these it adds the quotes.
\<close>

definition quoted :: "string \<Rightarrow> string" where
  "quoted s = [CHR 0x22] @ s @ [CHR 0x22]"

definition marshal_permissions :: "permissions \<Rightarrow> string" where
  "marshal_permissions ps =
    ''{'' @ join_comma (concat (map (\<lambda>a. case map_of ps a of
        None \<Rightarrow> []
      | Some l \<Rightarrow> if l = LevelNone then []
                  else [quoted (area_String a) @ '':'' @ quoted (level_String l)]) Areas)) @ ''}''"

text \<open>The value of an entry of a \<open>map[string]string\<close>; null leaves the zero value.\<close>

fun string_entry :: "json \<Rightarrow> string option" where
  "string_entry (JStr s) = Some s"
| "string_entry JNull = Some ''''"
| "string_entry _ = None"

definition unmarshal_permissions :: "string \<Rightarrow> permissions option" where
  "unmarshal_permissions data =
    (case Unmarshal data of
       Some JNull \<Rightarrow> Some []
     | Some (JObj es) \<Rightarrow>
         if list_all (\<lambda>(k, v). string_entry v \<noteq> None) es
         then Some (Normalize_permissions
           (map (\<lambda>(k, v). (area_of_string k, level_of_string (the (string_entry v)))) (last_wins es)))
         else None
     | _ \<Rightarrow> None)"

section \<open>Grants\<close>

definition encode_grant :: "grant \<Rightarrow> string" where
  "encode_grant g = ''{'' @ quoted ''plugin'' @ '':'' @ quote_string (g_Plugin g) @ '',''
     @ quoted ''level'' @ '':'' @ quote_string (level_String (g_Level g)) @ ''}''"

definition marshal_grants :: "grants \<Rightarrow> string" where
  "marshal_grants gs = ''['' @ join_comma (map encode_grant gs) @ '']''"

definition EncodeGrants :: "grants \<Rightarrow> string" where
  "EncodeGrants gs = marshal_grants (Normalize_grants gs)"

text \<open>A member fills the field it names, exactly or in another case; other members are ignored.\<close>

fun grant_fields :: "grant \<Rightarrow> (string \<times> json) list \<Rightarrow> grant option" where
  "grant_fields g [] = Some g"
| "grant_fields g ((k, v) # es) =
    (if foldName k = ''PLUGIN'' then
       (case v of JStr s \<Rightarrow> grant_fields (g\<lparr>g_Plugin := s\<rparr>) es
        | JNull \<Rightarrow> grant_fields g es | _ \<Rightarrow> None)
     else if foldName k = ''LEVEL'' then
       (case v of JStr s \<Rightarrow> grant_fields (g\<lparr>g_Level := level_of_string s\<rparr>) es
        | JNull \<Rightarrow> grant_fields g es | _ \<Rightarrow> None)
     else grant_fields g es)"

definition zero_grant :: grant where
  "zero_grant = \<lparr>g_Plugin = '''', g_Level = LevelUnset\<rparr>"

fun decode_grant :: "json \<Rightarrow> grant option" where
  "decode_grant (JObj es) = grant_fields zero_grant es"
| "decode_grant JNull = Some zero_grant"
| "decode_grant _ = None"

fun decode_each :: "json list \<Rightarrow> grants option" where
  "decode_each [] = Some []"
| "decode_each (v # vs) =
    (case (decode_grant v, decode_each vs) of
       (Some g, Some gs) \<Rightarrow> Some (g # gs) | _ \<Rightarrow> None)"

definition DecodeGrants :: "string \<Rightarrow> grants" where
  "DecodeGrants encoded =
    (case Unmarshal encoded of
       Some (JArr vs) \<Rightarrow> (case decode_each vs of Some gs \<Rightarrow> Normalize_grants gs | None \<Rightarrow> [])
     | _ \<Rightarrow> [])"

end
