(* ===== verification/Labels.thy ===== *)
theory Labels
  imports Json
begin

text \<open>
  The checks on what a person types: names and descriptions (\<open>internal/auth/labels.go\<close>), display
  names and passwords (\<open>internal/auth/users/users.go\<close>), with what they use of packages
  \<open>unicode\<close> and \<open>unicode/utf8\<close>. \<open>mail.ParseAddress\<close> and \<open>strings.ToLower\<close> beyond ASCII are
  parameters of \<open>NormalizeEmail\<close>.
\<close>

section \<open>Runes\<close>

text \<open>What \<open>for _, r := range text\<close> visits: each code point with its width.\<close>

function runes :: "string \<Rightarrow> (nat \<times> nat) list" where
  "runes s =
    (if s = [] then []
     else (case DecodeRune s of (r, width) \<Rightarrow> (r, width) # runes (drop (max 1 width) s)))"
  by pat_completeness auto
termination by (relation "measure length") auto

declare runes.simps [simp del]

definition ValidString :: "string \<Rightarrow> bool" where
  "ValidString s \<longleftrightarrow> list_all (\<lambda>(r, width). \<not> (r = 65533 \<and> width = 1)) (runes s)"

definition RuneCountInString :: "string \<Rightarrow> nat" where
  "RuneCountInString s = length (runes s)"

definition IsControl :: "nat \<Rightarrow> bool" where
  "IsControl r \<longleftrightarrow> r < 32 \<or> (127 \<le> r \<and> r < 160)"

text \<open>The ranges of \<open>unicode.Cf\<close>, the invisible formatting characters.\<close>

definition Cf_ranges :: "(nat \<times> nat) list" where
  "Cf_ranges = [(0xAD, 0xAD), (0x600, 0x605), (0x61C, 0x61C), (0x6DD, 0x6DD), (0x70F, 0x70F),
     (0x890, 0x891), (0x8E2, 0x8E2), (0x180E, 0x180E), (0x200B, 0x200F), (0x202A, 0x202E),
     (0x2060, 0x2064), (0x2066, 0x206F), (0xFEFF, 0xFEFF), (0xFFF9, 0xFFFB), (0x110BD, 0x110BD),
     (0x110CD, 0x110CD), (0x13430, 0x1343F), (0x1BCA0, 0x1BCA3), (0x1D173, 0x1D17A),
     (0xE0001, 0xE0001), (0xE0020, 0xE007F)]"

definition IsCf :: "nat \<Rightarrow> bool" where
  "IsCf r \<longleftrightarrow> list_ex (\<lambda>(lo, hi). lo \<le> r \<and> r \<le> hi) Cf_ranges"

section \<open>Labels\<close>

datatype label_error = LabelRequired string | LabelNotUTF8 string | LabelControl string
  | LabelInvisible string | LabelTooLong string nat

definition MaxLabelRunes :: nat where "MaxLabelRunes = 64"

fun label_runes :: "string \<Rightarrow> (nat \<times> nat) list \<Rightarrow> label_error option" where
  "label_runes noun [] = None"
| "label_runes noun ((r, width) # rs) =
    (if IsControl r then Some (LabelControl noun)
     else if IsCf r then Some (LabelInvisible noun)
     else label_runes noun rs)"

definition ValidateText :: "string \<Rightarrow> string \<Rightarrow> nat \<Rightarrow> label_error + string" where
  "ValidateText noun raw maxRunes =
    (let text = TrimSpace raw
     in if text = '''' then Inl (LabelRequired noun)
        else if \<not> ValidString text then Inl (LabelNotUTF8 noun)
        else case label_runes noun (runes text) of
          Some e \<Rightarrow> Inl e
        | None \<Rightarrow>
            if RuneCountInString text > maxRunes then Inl (LabelTooLong noun maxRunes)
            else Inr text)"

definition ValidateLabel :: "string \<Rightarrow> string \<Rightarrow> label_error + string" where
  "ValidateLabel noun raw = ValidateText noun raw MaxLabelRunes"

definition maxDescriptionRunes :: nat where "maxDescriptionRunes = 200"

definition validateDescription :: "string \<Rightarrow> label_error + string" where
  "validateDescription raw =
    (if TrimSpace raw = '''' then Inr '''' else ValidateText ''description'' raw maxDescriptionRunes)"

definition MaxDisplayNameRunes :: nat where "MaxDisplayNameRunes = 64"

definition ValidateDisplayName :: "string \<Rightarrow> label_error + string" where
  "ValidateDisplayName raw =
    (let name = TrimSpace raw
     in if name = '''' then Inr ''''
        else if \<not> ValidString name then Inl (LabelNotUTF8 ''display name'')
        else case label_runes ''display name'' (runes name) of
          Some e \<Rightarrow> Inl e
        | None \<Rightarrow>
            if RuneCountInString name > MaxDisplayNameRunes
              then Inl (LabelTooLong ''display name'' MaxDisplayNameRunes)
            else Inr name)"

definition SafeDisplayName :: "string \<Rightarrow> string" where
  "SafeDisplayName raw = (case ValidateDisplayName raw of Inl _ \<Rightarrow> '''' | Inr name \<Rightarrow> name)"

section \<open>Passwords and addresses\<close>

datatype password_error = PasswordTooShort | PasswordTooLong

definition ValidatePassword :: "string \<Rightarrow> password_error option" where
  "ValidatePassword p =
    (if length p < 12 then Some PasswordTooShort
     else if length p > 72 then Some PasswordTooLong
     else None)"

datatype email_error = EmailRequired | EmailInvalid string

definition NormalizeEmail ::
  "(string \<Rightarrow> string option) \<Rightarrow> (string \<Rightarrow> string) \<Rightarrow> string \<Rightarrow> email_error + string" where
  "NormalizeEmail parse lower raw =
    (let trimmed = TrimSpace raw
     in if trimmed = '''' then Inl EmailRequired
        else case parse trimmed of
          None \<Rightarrow> Inl (EmailInvalid trimmed)
        | Some addr \<Rightarrow> Inr (lower addr))"

text \<open>SQLite's \<open>lower()\<close> changes the twenty-six ASCII letters and nothing else.\<close>

definition lower_byte :: "char \<Rightarrow> char" where
  "lower_byte c = (if 65 \<le> byte c \<and> byte c \<le> 90 then char_of (byte c + 32) else c)"

definition sql_lower :: "string \<Rightarrow> string" where
  "sql_lower s = map lower_byte s"

lemma sql_lower_Nil [simp]: "sql_lower [] = []" "sql_lower s = [] \<longleftrightarrow> s = []"
  by (simp_all add: sql_lower_def)

lemma lower_byte_idem [simp]: "lower_byte (lower_byte c) = lower_byte c"
proof (cases "65 \<le> byte c \<and> byte c \<le> 90")
  case True
  then have "byte (char_of (byte c + 32)) = byte c + 32"
    by (simp add: byte_def)
  moreover have "lower_byte c = char_of (byte c + 32)" using True by (simp add: lower_byte_def)
  ultimately show ?thesis using True by (simp add: lower_byte_def [of "char_of (byte c + 32)"])
next
  case False
  then have "lower_byte c = c" by (auto simp: lower_byte_def)
  then show ?thesis by simp
qed

lemma sql_lower_idem [simp]: "sql_lower (sql_lower s) = sql_lower s"
  by (simp add: sql_lower_def)

section \<open>What a label that passed looks like\<close>

definition readable_label :: "nat \<Rightarrow> string \<Rightarrow> bool" where
  "readable_label n s \<longleftrightarrow> TrimSpace s = s \<and> ValidString s \<and> RuneCountInString s \<le> n
     \<and> (\<forall>(r, width)\<in>set (runes s). \<not> IsControl r \<and> \<not> IsCf r)"

lemma label_runes_None:
  "label_runes noun rs = None \<longleftrightarrow> (\<forall>(r, width)\<in>set rs. \<not> IsControl r \<and> \<not> IsCf r)"
  by (induction noun rs rule: label_runes.induct) auto

lemma ValidateText_Inr:
  "ValidateText noun raw n = Inr s \<longleftrightarrow> s = TrimSpace raw \<and> s \<noteq> [] \<and> readable_label n s"
  by (cases "label_runes noun (runes (TrimSpace raw))")
     (auto simp: ValidateText_def readable_label_def Let_def label_runes_None [symmetric, where noun = noun])

lemma ValidateDisplayName_Inr:
  "ValidateDisplayName raw = Inr s \<longleftrightarrow> s = TrimSpace raw \<and> readable_label MaxDisplayNameRunes s"
  by (cases "label_runes ''display name'' (runes (TrimSpace raw))")
     (auto simp: ValidateDisplayName_def readable_label_def Let_def runes.simps [of "[]"]
        label_runes_None [symmetric, where noun = "''display name''"] ValidString_def [of "[]"]
        RuneCountInString_def [of "[]"])

lemma ValidateText_again: "ValidateText noun raw n = Inr s \<Longrightarrow> ValidateText noun' s n = Inr s"
  by (auto simp: ValidateText_Inr readable_label_def)

lemma ValidateText_nonempty: "ValidateText noun raw n = Inr s \<Longrightarrow> s \<noteq> ''''"
  by (auto simp: ValidateText_Inr)

lemma ValidateLabel_nonempty: "ValidateLabel noun raw = Inr s \<Longrightarrow> s \<noteq> ''''"
  by (auto simp: ValidateLabel_def ValidateText_Inr)

end
