(* ===== verification/Access_Db.thy ===== *)
theory Access_Db
  imports Grant_Codec Labels Audit_Trail Principal
begin

text \<open>
  The tables that say who may do what (\<open>internal/storage/sqlite/migrations\<close> 0015, 0025, 0027,
  0030), the errors of the packages that keep them, their transactions, and what they take from
  outside: the random identifiers, \<open>bcrypt\<close>, the address parser. A table is its rows in insertion
  order; an expiry is in milliseconds. Constraints no statement of the modelled code can meet are
  left out.
\<close>

section \<open>Rows\<close>

record role_row =
  ro_id :: string
  ro_name :: string
  ro_description :: string
  ro_builtin :: bool
  ro_permissions_json :: string
  ro_created_by :: string
  ro_created_at :: millis
  ro_updated_at :: millis

record user_row =
  us_id :: string
  us_email :: string
  us_password_hash :: string
  us_display_name :: string
  us_role_id :: string
  us_grants_json :: string
  us_disabled :: bool
  us_status :: string
  us_invite_provider :: string
  us_invite_expires_at :: "millis option"
  us_created_at :: millis
  us_updated_at :: millis
  us_last_login_at :: "millis option"

record key_row =
  ke_id :: string
  ke_name :: string
  ke_secret_hash :: string
  ke_previous_secret_hash :: "string option"
  ke_previous_until :: "millis option"
  ke_role_id :: string
  ke_grants_json :: string
  ke_created_by :: string
  ke_created_at :: millis
  ke_updated_at :: millis
  ke_expires_at :: "millis option"
  ke_last_used_at :: "millis option"
  ke_revoked_at :: "millis option"
  ke_revoked_by :: "string option"

record group_row =
  gr_id :: string
  gr_name :: string
  gr_description :: string
  gr_role_id :: string
  gr_grants_json :: string
  gr_created_by :: string
  gr_created_at :: millis
  gr_updated_at :: millis

record member_row =
  gm_group_id :: string
  gm_user_id :: "string option"
  gm_key_id :: "string option"
  gm_added_by :: string
  gm_added_at :: millis

record session_row =
  se_session_hash :: string
  se_id :: string
  se_user_id :: string
  se_csrf_token :: string
  se_created_at :: millis
  se_expires_at :: millis
  se_last_seen_at :: millis

record identity_row =
  ui_provider :: string
  ui_subject :: string
  ui_user_id :: string
  ui_email :: string
  ui_linked_by :: string
  ui_created_at :: millis

record link_row =
  li_token_hash :: string
  li_provider :: string
  li_subject :: string
  li_email :: string
  li_display_name :: string
  li_user_id :: string
  li_binding_hash :: string
  li_failures :: nat
  li_created_at :: millis
  li_expires_at :: millis

text \<open>
  \<open>ad_chatgpt_roles\<close> is the column \<open>role_id\<close> of \<open>chatgpt_accounts\<close>, all that is read of that table
  here. \<open>ad_db\<close> holds the tables of the approval workflow, the audit trail among them: it is one
  database file.
\<close>

record access_db =
  ad_roles :: "role_row list"
  ad_users :: "user_row list"
  ad_keys :: "key_row list"
  ad_groups :: "group_row list"
  ad_members :: "member_row list"
  ad_sessions :: "session_row list"
  ad_identities :: "identity_row list"
  ad_links :: "link_row list"
  ad_chatgpt_roles :: "string list"
  ad_db :: database

section \<open>What the packages take from outside\<close>

text \<open>
  \<open>en_event_id\<close> gives the random identifier drawn for the audit entry that will have a given
  sequence number; \<open>en_bcrypt\<close> and \<open>en_bcrypt_ok\<close> are \<open>bcrypt.GenerateFromPassword\<close> (with whatever
  salt it draws) and \<open>CompareHashAndPassword(...) == nil\<close>.
\<close>

record host_env =
  en_json_valid :: "string \<Rightarrow> bool"
  en_event_id :: "int \<Rightarrow> string"
  en_parse_address :: "string \<Rightarrow> string option"
  en_to_lower :: "string \<Rightarrow> string"
  en_bcrypt :: "string \<Rightarrow> string option"
  en_bcrypt_ok :: "string \<Rightarrow> string \<Rightarrow> bool"
  en_dummy_hash :: string

section \<open>Errors\<close>

datatype access_error =
    RefusedLabel label_error
  | RefusedEmail email_error
  | RefusedPassword password_error
  | RefusedGrants auth_error
  | RefusedText string
  | RoleNotFound | RoleBuiltin | RoleAssigned | RoleDuplicateName | RoleLastAdmin
  | GroupNotFound | GroupLastAdmin | GroupDuplicateName | NoSuchMember | GroupNoSuchRole
  | KeyNotFound | KeyRevoked | KeyExpired | KeyAlreadyRevoked | KeyNoSuchRole
  | UserNotFound | InvalidCredentials | DuplicateEmail | UserLastAdmin | UserNoSuchRole
  | AlreadyClaimed | NameCollides | ErrNoPassword | NotPending | IdentityLinked | Unclaimed
  | RegistrationClosed | DomainNotAllowed | AlreadySignsIn | InviteExpired | AddressTaken
  | LastCredential
  | Unauthenticated
  | UnreadableRole string
  | AccessSql sql_error
  | AccessAudit op_error

definition unique_violation :: "access_error \<Rightarrow> bool" where
  "unique_violation e =
    (case e of
       AccessSql s \<Rightarrow> str_contains (sql_text s) ''UNIQUE constraint failed''
     | AccessAudit (ErrConstraint t) \<Rightarrow> str_contains t ''UNIQUE constraint failed''
     | _ \<Rightarrow> False)"

text \<open>\<open>if isUniqueViolation(err) { return other }\<close>.\<close>

definition or_duplicate :: "access_error \<Rightarrow> access_error + 'a \<Rightarrow> access_error + 'a" where
  "or_duplicate other r =
    (case r of Inl e \<Rightarrow> Inl (if unique_violation e then other else e) | Inr x \<Rightarrow> Inr x)"

definition labelled :: "label_error + 'a \<Rightarrow> access_error + 'a" where
  "labelled r = (case r of Inl e \<Rightarrow> Inl (RefusedLabel e) | Inr x \<Rightarrow> Inr x)"

definition checked_grants :: "grants \<Rightarrow> access_error + grants" where
  "checked_grants gs =
    (case Validate_grants gs of Some e \<Rightarrow> Inl (RefusedGrants e) | None \<Rightarrow> Inr (Normalize_grants gs))"

section \<open>Transactions\<close>

text \<open>
  \<open>WriteTx\<close> with what its callback leaves in the variables it closes over: its changes are kept when
  it returns nil and rolled back when it returns an error.
\<close>

definition access_tx ::
  "(access_db \<Rightarrow> access_error + 'a \<times> access_db) \<Rightarrow> access_db \<Rightarrow> (access_error + 'a) \<times> access_db" where
  "access_tx fn db = (case fn db of Inl e \<Rightarrow> (Inl e, db) | Inr (x, db') \<Rightarrow> (Inr x, db'))"

definition require :: "bool \<Rightarrow> access_error \<Rightarrow> access_error + unit" where
  "require ok e = (if ok then Inr () else Inl e)"

definition Audit :: "host_env \<Rightarrow> millis \<Rightarrow> admin_act \<Rightarrow> access_db \<Rightarrow> access_error + access_db" where
  "Audit en now a db =
    (case AppendAudit (en_json_valid en) now (en_event_id en (sq_audit (ad_db db))) a (ad_db db) of
       Inl e \<Rightarrow> Inl (AccessAudit e)
     | Inr d \<Rightarrow> Inr (db\<lparr>ad_db := d\<rparr>))"

text \<open>A value that is rendered already is copied into the entry as it is.\<close>

definition rendered :: "string \<Rightarrow> json" where
  "rendered text = JNum text"

definition act :: "string \<Rightarrow> string \<Rightarrow> string \<Rightarrow> string \<Rightarrow> (string \<times> json) list \<Rightarrow> admin_act" where
  "act kind actor subject action detail =
    \<lparr>aa_Kind = kind, aa_Actor = actor, aa_Subject = subject, aa_Action = action,
     aa_Detail = JObj detail\<rparr>"

text \<open>\<open>json_extract(doc, '$.key') = value\<close>.\<close>

definition json_extract_is :: "string \<Rightarrow> string \<Rightarrow> string \<Rightarrow> bool" where
  "json_extract_is doc key v =
    (case Unmarshal doc of
       Some (JObj es) \<Rightarrow> (case map_of es key of Some (JStr s) \<Rightarrow> s = v | _ \<Rightarrow> False)
     | _ \<Rightarrow> False)"

text \<open>\<open>sha256\<close> in hex: the stored form of a secret.\<close>

definition digest :: "string \<Rightarrow> string" where
  "digest secret = sha256_hex secret"

text \<open>\<open>base64.RawURLEncoding.EncodeToString\<close>, six bits to a character and no padding.\<close>

definition base64_char :: "nat \<Rightarrow> char" where
  "base64_char d =
    (if d < 26 then char_of (65 + d) else if d < 52 then char_of (71 + d)
     else if d < 62 then char_of (d - 4) else if d = 62 then CHR ''-'' else CHR ''_'')"

fun RawURLEncoding :: "nat list \<Rightarrow> string" where
  "RawURLEncoding [] = []"
| "RawURLEncoding [a] = [base64_char (a div 4), base64_char (a mod 4 * 16)]"
| "RawURLEncoding [a, b] =
    [base64_char (a div 4), base64_char (a mod 4 * 16 + b div 16), base64_char (b mod 16 * 4)]"
| "RawURLEncoding (a # b # c # rest) =
    [base64_char (a div 4), base64_char (a mod 4 * 16 + b div 16),
     base64_char (b mod 16 * 4 + c div 64), base64_char (c mod 64)] @ RawURLEncoding rest"

section \<open>Lemmas\<close>

lemma access_tx_cases:
  assumes "access_tx fn db = (r, db')"
  obtains e where "r = Inl e" and "db' = db" and "fn db = Inl e"
  | x where "r = Inr x" and "fn db = Inr (x, db')"
  using assms by (auto simp: access_tx_def split: sum.splits)

lemma access_tx_Inr: "access_tx fn db = (Inr x, db') \<longleftrightarrow> fn db = Inr (x, db')"
  by (auto simp: access_tx_def split: sum.splits)

lemma access_tx_state: "snd (access_tx fn db) = (case fn db of Inl _ \<Rightarrow> db | Inr (_, d) \<Rightarrow> d)"
  by (auto simp: access_tx_def split: sum.splits)

lemma require_Inr [simp]: "require ok e = Inr u \<longleftrightarrow> ok"
  by (simp add: require_def)

lemma Audit_Inr:
  "Audit en now a db = Inr db' \<Longrightarrow> \<exists>d. db' = db\<lparr>ad_db := d\<rparr>"
  by (auto simp: Audit_def split: sum.splits)

lemma Audit_tables:
  assumes "Audit en now a db = Inr db'"
  shows "ad_roles db' = ad_roles db" "ad_users db' = ad_users db" "ad_keys db' = ad_keys db"
    "ad_groups db' = ad_groups db" "ad_members db' = ad_members db"
    "ad_sessions db' = ad_sessions db" "ad_identities db' = ad_identities db"
    "ad_links db' = ad_links db" "ad_chatgpt_roles db' = ad_chatgpt_roles db"
  using Audit_Inr [OF assms] by auto

end
