(* ===== verification/Access_Roles.thy ===== *)
theory Access_Roles
  imports Access_Db
begin

text \<open>
  The store of roles and the question it owns, who still administers this host
  (\<open>internal/auth/roles/roles.go\<close>). The random bytes of
  a new identifier are the argument \<open>b\<close>.
\<close>

section \<open>The last administrator\<close>

definition role_writes_access :: "role_row list \<Rightarrow> string \<Rightarrow> bool" where
  "role_writes_access roles rid \<longleftrightarrow>
     list_ex (\<lambda>r. ro_id r = rid \<and> json_extract_is (ro_permissions_json r) ''access'' ''write'') roles"

definition group_writes_access :: "access_db \<Rightarrow> user_row \<Rightarrow> bool" where
  "group_writes_access db u \<longleftrightarrow>
     list_ex (\<lambda>m. gm_user_id m = Some (us_id u)
       \<and> list_ex (\<lambda>g. gr_id g = gm_group_id m \<and> role_writes_access (ad_roles db) (gr_role_id g))
           (ad_groups db)) (ad_members db)"

definition administers :: "access_db \<Rightarrow> user_row \<Rightarrow> bool" where
  "administers db u \<longleftrightarrow> \<not> us_disabled u \<and> us_status u \<noteq> ''pending'' \<and> us_invite_provider u = ''''
     \<and> (role_writes_access (ad_roles db) (us_role_id u) \<or> group_writes_access db u)"

definition CountAdministrators :: "access_db \<Rightarrow> nat" where
  "CountAdministrators db = count_where (administers db) (ad_users db)"

definition GuardAdminRemains :: "access_db \<Rightarrow> nat \<Rightarrow> access_error \<Rightarrow> access_error + unit" where
  "GuardAdminRemains db before e =
    (if before = 0 then Inr ()
     else if CountAdministrators db = 0 then Inl e
     else Inr ())"

section \<open>Reading\<close>

record stored_role = role +
  r_CreatedBy :: string
  r_CreatedAt :: time
  r_UpdatedAt :: time
  r_Assigned :: nat

definition role_assigned :: "access_db \<Rightarrow> string \<Rightarrow> nat" where
  "role_assigned db rid =
    count_where (\<lambda>u. us_role_id u = rid) (ad_users db)
    + count_where (\<lambda>k. ke_role_id k = rid \<and> ke_revoked_at k = None) (ad_keys db)
    + count_where (\<lambda>a. a = rid) (ad_chatgpt_roles db)
    + count_where (\<lambda>g. gr_role_id g = rid) (ad_groups db)"

text \<open>A column of permissions this build cannot read holds nothing.\<close>

definition scanRole :: "access_db \<Rightarrow> role_row \<Rightarrow> stored_role" where
  "scanRole db r =
    \<lparr>r_ID = ro_id r, r_Name = ro_name r, r_Description = ro_description r, r_Builtin = ro_builtin r,
     r_Permissions = (case unmarshal_permissions (ro_permissions_json r) of
        Some ps \<Rightarrow> ps | None \<Rightarrow> []),
     r_CreatedBy = ro_created_by r, r_CreatedAt = time_UnixMilli (ro_created_at r),
     r_UpdatedAt = time_UnixMilli (ro_updated_at r), r_Assigned = role_assigned db (ro_id r)\<rparr>"

definition role_ByID :: "string \<Rightarrow> access_db \<Rightarrow> access_error + stored_role" where
  "role_ByID rid db =
    (case find (\<lambda>r. ro_id r = rid) (ad_roles db) of
       None \<Rightarrow> Inl RoleNotFound | Some r \<Rightarrow> Inr (scanRole db r))"

definition role_ByName :: "string \<Rightarrow> access_db \<Rightarrow> access_error + stored_role" where
  "role_ByName name db =
    (let trimmed = TrimSpace name
     in if trimmed = '''' then Inl RoleNotFound
        else case find (\<lambda>r. sql_lower (ro_name r) = sql_lower trimmed) (ad_roles db) of
          None \<Rightarrow> Inl RoleNotFound | Some r \<Rightarrow> Inr (scanRole db r))"

text \<open>\<open>ORDER BY builtin DESC\<close>, the built-ins in their own order, then \<open>lower(name)\<close>.\<close>

definition role_rank :: "role_row \<Rightarrow> nat" where
  "role_rank r =
    (if ro_id r = RoleReader then 0 else if ro_id r = RoleOperator then 1
     else if ro_id r = RoleAdministrator then 2 else 3)"

definition role_le :: "role_row \<Rightarrow> role_row \<Rightarrow> bool" where
  "role_le a b =
    (if ro_builtin a \<noteq> ro_builtin b then ro_builtin a
     else if role_rank a \<noteq> role_rank b then role_rank a < role_rank b
     else sql_lower (ro_name a) \<le> sql_lower (ro_name b))"

definition role_List :: "access_db \<Rightarrow> stored_role list" where
  "role_List db = map (scanRole db) (sort_by role_le (ad_roles db))"

definition role_Exists :: "access_db \<Rightarrow> string \<Rightarrow> bool" where
  "role_Exists db rid \<longleftrightarrow> count_where (\<lambda>r. ro_id r = rid) (ad_roles db) > 0"

section \<open>The built-in roles\<close>

text \<open>The upsert of one built-in role; \<open>lower(name)\<close> is unique over the table.\<close>

definition builtin_row :: "millis \<Rightarrow> role \<Rightarrow> role_row" where
  "builtin_row now r =
    \<lparr>ro_id = r_ID r, ro_name = r_Name r, ro_description = r_Description r, ro_builtin = True,
     ro_permissions_json = marshal_permissions (r_Permissions r), ro_created_by = ''system'',
     ro_created_at = now, ro_updated_at = now\<rparr>"

definition reapply_builtin :: "role_row \<Rightarrow> role_row \<Rightarrow> role_row" where
  "reapply_builtin new old =
    old\<lparr>ro_name := ro_name new, ro_description := ro_description new, ro_builtin := True,
        ro_permissions_json := ro_permissions_json new,
        ro_updated_at := (if ro_permissions_json old = ro_permissions_json new
                          then ro_updated_at old else ro_updated_at new)\<rparr>"

definition upsert_builtin :: "millis \<Rightarrow> role \<Rightarrow> access_db \<Rightarrow> access_error + access_db" where
  "upsert_builtin now r db =
    (if list_ex (\<lambda>q. ro_id q \<noteq> r_ID r \<and> sql_lower (ro_name q) = sql_lower (r_Name r)) (ad_roles db)
       then Inl (AccessSql (UniqueFailed (''index '' @ [CHR 0x27] @ ''ux_roles_name'' @ [CHR 0x27])))
     else if role_Exists db (r_ID r)
       then Inr (db\<lparr>ad_roles := update_where (\<lambda>q. ro_id q = r_ID r)
                      (reapply_builtin (builtin_row now r)) (ad_roles db)\<rparr>)
     else Inr (db\<lparr>ad_roles := ad_roles db @ [builtin_row now r]\<rparr>))"

fun upsert_builtins :: "millis \<Rightarrow> role list \<Rightarrow> access_db \<Rightarrow> access_error + access_db" where
  "upsert_builtins now [] db = Inr db"
| "upsert_builtins now (r # rs) db = and_then (upsert_builtin now r db) (upsert_builtins now rs)"

definition EnsureBuiltins :: "time \<Rightarrow> access_db \<Rightarrow> (access_error + unit) \<times> access_db" where
  "EnsureBuiltins now =
    access_tx (\<lambda>db. and_then (upsert_builtins (UnixMilli now) BuiltinRoles db) (\<lambda>d. Inr ((), d)))"

section \<open>Changing roles\<close>

definition role_newID :: "nat list \<Rightarrow> string" where
  "role_newID b = ''role_'' @ hex_encode b"

record role_create =
  rc_Name :: string
  rc_Description :: string
  rc_Permissions :: permissions

definition checked_permissions :: "permissions \<Rightarrow> access_error + permissions" where
  "checked_permissions ps =
    (case Validate_permissions ps of
       Some e \<Rightarrow> Inl (RefusedGrants e) | None \<Rightarrow> Inr (Normalize_permissions ps))"

definition role_named :: "string \<Rightarrow> access_db \<Rightarrow> bool" where
  "role_named name db \<longleftrightarrow> list_ex (\<lambda>r. sql_lower (ro_name r) = sql_lower name) (ad_roles db)"

definition role_create_tx ::
  "host_env \<Rightarrow> millis \<Rightarrow> string \<Rightarrow> string \<Rightarrow> string \<Rightarrow> string \<Rightarrow> permissions \<Rightarrow> access_db
     \<Rightarrow> access_error + unit \<times> access_db" where
  "role_create_tx en now actor rid name description perms db =
    (if role_named name db then Inl RoleDuplicateName
     else if role_Exists db rid then Inl (AccessSql (UniqueFailed ''roles.id''))
     else
       (let row = \<lparr>ro_id = rid, ro_name = name, ro_description = description, ro_builtin = False,
              ro_permissions_json = marshal_permissions perms, ro_created_by = actor,
              ro_created_at = now, ro_updated_at = now\<rparr>
        in and_then
             (Audit en now (act ''role.created'' actor name ''create''
                [(''role'', JStr rid), (''permissions'', rendered (marshal_permissions perms))])
                (db\<lparr>ad_roles := ad_roles db @ [row]\<rparr>))
             (\<lambda>d. Inr ((), d))))"

definition role_Create ::
  "host_env \<Rightarrow> time \<Rightarrow> string \<Rightarrow> nat list \<Rightarrow> role_create \<Rightarrow> access_db
     \<Rightarrow> (access_error + stored_role) \<times> access_db" where
  "role_Create en now actor b req db =
    (case labelled (ValidateLabel ''role name'' (rc_Name req)) of Inl e \<Rightarrow> (Inl e, db) | Inr name \<Rightarrow>
     case labelled (validateDescription (rc_Description req)) of Inl e \<Rightarrow> (Inl e, db) | Inr description \<Rightarrow>
     case checked_permissions (rc_Permissions req) of Inl e \<Rightarrow> (Inl e, db) | Inr perms \<Rightarrow>
     case access_tx (role_create_tx en (UnixMilli now) actor (role_newID b) name description perms) db of
       (r, db') \<Rightarrow> (and_then (or_duplicate RoleDuplicateName r) (\<lambda>_. role_ByID (role_newID b) db'), db'))"

record role_update =
  ru_Name :: "string option"
  ru_Description :: "string option"
  ru_Permissions :: "permissions option"

definition set_field :: "'v option \<Rightarrow> ('v \<Rightarrow> 'r \<Rightarrow> 'r) \<Rightarrow> 'r \<Rightarrow> 'r" where
  "set_field v f r = (case v of None \<Rightarrow> r | Some x \<Rightarrow> f x r)"

definition members_if :: "'v option \<Rightarrow> ('v \<Rightarrow> (string \<times> json) list) \<Rightarrow> (string \<times> json) list" where
  "members_if v f = (case v of None \<Rightarrow> [] | Some x \<Rightarrow> f x)"

definition check_field ::
  "'v option \<Rightarrow> ('v \<Rightarrow> access_error + 'w) \<Rightarrow> access_error + 'w option" where
  "check_field v f = (case v of None \<Rightarrow> Inr None | Some x \<Rightarrow> and_then (f x) (\<lambda>y. Inr (Some y)))"

definition role_sets ::
  "millis \<Rightarrow> string option \<Rightarrow> string option \<Rightarrow> permissions option \<Rightarrow> role_row \<Rightarrow> role_row" where
  "role_sets now name description perms r =
    set_field perms (\<lambda>ps r. r\<lparr>ro_permissions_json := marshal_permissions ps\<rparr>)
      (set_field description (\<lambda>d r. r\<lparr>ro_description := d\<rparr>)
        (set_field name (\<lambda>n r. r\<lparr>ro_name := n\<rparr>) (r\<lparr>ro_updated_at := now\<rparr>)))"

definition role_update_tx ::
  "host_env \<Rightarrow> millis \<Rightarrow> string \<Rightarrow> string \<Rightarrow> string option \<Rightarrow> string option \<Rightarrow> permissions option
     \<Rightarrow> access_db \<Rightarrow> access_error + unit \<times> access_db" where
  "role_update_tx en now actor rid name description perms db =
    (case find (\<lambda>r. ro_id r = rid) (ad_roles db) of
       None \<Rightarrow> Inl RoleNotFound
     | Some was \<Rightarrow>
         if ro_builtin was then Inl RoleBuiltin
         else
           (let before = CountAdministrators db;
                taken = (case name of None \<Rightarrow> False
                  | Some n \<Rightarrow> list_ex (\<lambda>q. ro_id q \<noteq> rid \<and> sql_lower (ro_name q) = sql_lower n) (ad_roles db));
                hit = (\<lambda>r. ro_id r = rid \<and> \<not> ro_builtin r \<and> \<not> taken);
                db1 = db\<lparr>ad_roles := update_where hit (role_sets now name description perms) (ad_roles db)\<rparr>;
                subject = (case name of Some n \<Rightarrow> if n \<noteq> '''' then n else ro_name was
                           | None \<Rightarrow> ro_name was);
                detail = [(''role'', JStr rid)]
                  @ members_if name (\<lambda>_. [(''renamed_from'', JStr (ro_name was))])
                  @ members_if perms (\<lambda>ps. [(''permissions'', rendered (marshal_permissions ps)),
                       (''permissions_before'', rendered (ro_permissions_json was))])
            in if count_where hit (ad_roles db) = 0 then Inl RoleDuplicateName
               else and_then (GuardAdminRemains db1 before RoleLastAdmin) (\<lambda>_.
                 and_then (Audit en now (act ''role.updated'' actor subject ''update'' detail) db1)
                   (\<lambda>d. Inr ((), d)))))"

definition role_Update ::
  "host_env \<Rightarrow> time \<Rightarrow> string \<Rightarrow> string \<Rightarrow> role_update \<Rightarrow> access_db
     \<Rightarrow> (access_error + stored_role) \<times> access_db" where
  "role_Update en now actor rid req db =
    (if ru_Name req = None \<and> ru_Description req = None \<and> ru_Permissions req = None
       then (role_ByID rid db, db)
     else if IsBuiltinRole rid then (Inl RoleBuiltin, db)
     else
       (case check_field (ru_Name req) (\<lambda>n. labelled (ValidateLabel ''role name'' n)) of
          Inl e \<Rightarrow> (Inl e, db) | Inr name \<Rightarrow>
        case check_field (ru_Description req) (\<lambda>d. labelled (validateDescription d)) of
          Inl e \<Rightarrow> (Inl e, db) | Inr description \<Rightarrow>
        case check_field (ru_Permissions req) checked_permissions of
          Inl e \<Rightarrow> (Inl e, db) | Inr perms \<Rightarrow>
        case access_tx (role_update_tx en (UnixMilli now) actor rid name description perms) db of
          (r, db') \<Rightarrow> (and_then (or_duplicate RoleDuplicateName r) (\<lambda>_. role_ByID rid db'), db')))"

definition role_held :: "access_db \<Rightarrow> string \<Rightarrow> bool" where
  "role_held db rid \<longleftrightarrow>
     list_ex (\<lambda>u. us_role_id u = rid) (ad_users db)
     \<or> list_ex (\<lambda>k. ke_role_id k = rid \<and> ke_revoked_at k = None) (ad_keys db)
     \<or> list_ex (\<lambda>a. a = rid) (ad_chatgpt_roles db)
     \<or> list_ex (\<lambda>g. gr_role_id g = rid) (ad_groups db)"

definition role_delete_tx ::
  "host_env \<Rightarrow> millis \<Rightarrow> string \<Rightarrow> string \<Rightarrow> access_db \<Rightarrow> access_error + unit \<times> access_db" where
  "role_delete_tx en now actor rid db =
    (case find (\<lambda>r. ro_id r = rid) (ad_roles db) of
       None \<Rightarrow> Inl RoleNotFound
     | Some was \<Rightarrow>
         if ro_builtin was then Inl RoleBuiltin
         else
           (let hit = (\<lambda>r. ro_id r = rid \<and> \<not> ro_builtin r \<and> \<not> role_held db rid);
                db1 = db\<lparr>ad_roles := filter (\<lambda>r. \<not> hit r) (ad_roles db)\<rparr>
            in if count_where hit (ad_roles db) = 0 then Inl RoleAssigned
               else and_then
                 (Audit en now (act ''role.deleted'' actor (ro_name was) ''delete''
                    [(''role'', JStr rid)]) db1)
                 (\<lambda>d. Inr ((), d))))"

definition role_Delete ::
  "host_env \<Rightarrow> time \<Rightarrow> string \<Rightarrow> string \<Rightarrow> access_db \<Rightarrow> (access_error + unit) \<times> access_db" where
  "role_Delete en now actor rid db =
    (if IsBuiltinRole rid then (Inl RoleBuiltin, db)
     else access_tx (role_delete_tx en (UnixMilli now) actor rid) db)"

end
