(* ===== verification/Access_Groups.thy ===== *)
theory Access_Groups
  imports Access_Roles
begin

text \<open>
  Groups, their membership, and the one place a subject's effective access is computed
  (\<open>internal/auth/groups/groups.go\<close>). The random bytes of a new identifier are
  the argument \<open>b\<close>.
\<close>

section \<open>Subjects\<close>

datatype kind = KindUser | KindKey | KindOther string

fun kind_String :: "kind \<Rightarrow> string" where
  "kind_String KindUser = ''user''"
| "kind_String KindKey = ''key''"
| "kind_String (KindOther s) = s"

fun kind_Valid :: "kind \<Rightarrow> bool" where
  "kind_Valid KindUser = True"
| "kind_Valid KindKey = True"
| "kind_Valid (KindOther _) = False"

record subject =
  sub_Kind :: kind
  sub_ID :: string

definition User :: "string \<Rightarrow> subject" where "User uid = \<lparr>sub_Kind = KindUser, sub_ID = uid\<rparr>"
definition Key :: "string \<Rightarrow> subject" where "Key kid = \<lparr>sub_Kind = KindKey, sub_ID = kid\<rparr>"

text \<open>The column of a membership that names a subject of this kind.\<close>

fun member_of_kind :: "kind \<Rightarrow> member_row \<Rightarrow> string option" where
  "member_of_kind KindUser m = gm_user_id m"
| "member_of_kind KindKey m = gm_key_id m"
| "member_of_kind (KindOther _) m = None"

definition names_subject :: "subject \<Rightarrow> member_row \<Rightarrow> bool" where
  "names_subject s m \<longleftrightarrow> member_of_kind (sub_Kind s) m = Some (sub_ID s)"

section \<open>Effective access\<close>

record resolved =
  rs_RoleID :: string
  rs_RoleName :: string
  rs_Permissions :: permissions
  rs_Grants :: grants

text \<open>A row of \<open>resolveQuery\<close>: \<open>is_group\<close>, the role's id, its row when there is one, the grants.\<close>

type_synonym access_source = "bool \<times> string \<times> role_row option \<times> string"

definition joined_role :: "access_db \<Rightarrow> string \<Rightarrow> role_row option" where
  "joined_role db rid = find (\<lambda>r. ro_id r = rid) (ad_roles db)"

definition own_sources :: "subject \<Rightarrow> access_db \<Rightarrow> access_source list" where
  "own_sources s db =
    (case sub_Kind s of
       KindUser \<Rightarrow> map (\<lambda>u. (False, us_role_id u, joined_role db (us_role_id u), us_grants_json u))
         (filter (\<lambda>u. us_id u = sub_ID s) (ad_users db))
     | KindKey \<Rightarrow> map (\<lambda>k. (False, ke_role_id k, joined_role db (ke_role_id k), ke_grants_json k))
         (filter (\<lambda>k. ke_id k = sub_ID s) (ad_keys db))
     | KindOther _ \<Rightarrow> [])"

definition groups_joined :: "subject \<Rightarrow> access_db \<Rightarrow> group_row list" where
  "groups_joined s db =
    concat (map (\<lambda>g. map (\<lambda>_. g)
      (filter (\<lambda>m. gm_group_id m = gr_id g \<and> names_subject s m) (ad_members db))) (ad_groups db))"

definition group_sources :: "subject \<Rightarrow> access_db \<Rightarrow> access_source list" where
  "group_sources s db =
    map (\<lambda>g. (True, gr_role_id g, joined_role db (gr_role_id g), gr_grants_json g))
      (groups_joined s db)"

definition no_access :: resolved where
  "no_access = \<lparr>rs_RoleID = '''', rs_RoleName = '''', rs_Permissions = [], rs_Grants = []\<rparr>"

fun resolve_rows ::
  "resolved \<Rightarrow> grants list \<Rightarrow> access_source list \<Rightarrow> access_error + resolved \<times> grants list" where
  "resolve_rows out gs [] = Inr (out, gs)"
| "resolve_rows out gs ((isGroup, rid, role, encoded) # rows) =
    (let out1 = (if isGroup then out
                 else out\<lparr>rs_RoleID := rid,
                          rs_RoleName := (case role of Some r \<Rightarrow> ro_name r | None \<Rightarrow> '''')\<rparr>)
     in case role of
          None \<Rightarrow> resolve_rows out1 (gs @ [DecodeGrants encoded]) rows
        | Some r \<Rightarrow>
            (case unmarshal_permissions (ro_permissions_json r) of
               None \<Rightarrow> Inl (UnreadableRole rid)
             | Some ps \<Rightarrow>
                 resolve_rows (out1\<lparr>rs_Permissions := Merge (rs_Permissions out1) ps\<rparr>)
                   (gs @ [DecodeGrants encoded]) rows))"

definition Resolve :: "subject \<Rightarrow> access_db \<Rightarrow> access_error + resolved" where
  "Resolve s db =
    (if \<not> kind_Valid (sub_Kind s) \<or> TrimSpace (sub_ID s) = '''' then Inr no_access
     else case resolve_rows no_access [] (own_sources s db @ group_sources s db) of
       Inl e \<Rightarrow> Inl e
     | Inr (out, gs) \<Rightarrow> Inr (out\<lparr>rs_Grants := UnionGrants gs\<rparr>))"

definition Effective :: "subject \<Rightarrow> access_db \<Rightarrow> access_error + grants" where
  "Effective s db = and_then (Resolve s db) (\<lambda>r. Inr (rs_Grants r))"

section \<open>Reading groups\<close>

record group_view =
  gp_ID :: string
  gp_Name :: string
  gp_Description :: string
  gp_RoleID :: string
  gp_RoleName :: string
  gp_Grants :: grants
  gp_CreatedBy :: string
  gp_CreatedAt :: time
  gp_UpdatedAt :: time
  gp_Members :: nat

definition role_name_or_blank :: "access_db \<Rightarrow> string \<Rightarrow> string" where
  "role_name_or_blank db rid = (case joined_role db rid of Some r \<Rightarrow> ro_name r | None \<Rightarrow> '''')"

definition scanGroup :: "access_db \<Rightarrow> group_row \<Rightarrow> group_view" where
  "scanGroup db g =
    \<lparr>gp_ID = gr_id g, gp_Name = gr_name g, gp_Description = gr_description g,
     gp_RoleID = gr_role_id g, gp_RoleName = role_name_or_blank db (gr_role_id g),
     gp_Grants = DecodeGrants (gr_grants_json g), gp_CreatedBy = gr_created_by g,
     gp_CreatedAt = time_UnixMilli (gr_created_at g), gp_UpdatedAt = time_UnixMilli (gr_updated_at g),
     gp_Members = count_where (\<lambda>m. gm_group_id m = gr_id g) (ad_members db)\<rparr>"

definition group_le :: "group_row \<Rightarrow> group_row \<Rightarrow> bool" where
  "group_le a b \<longleftrightarrow> sql_lower (gr_name a) \<le> sql_lower (gr_name b)"

definition group_List :: "access_db \<Rightarrow> group_view list" where
  "group_List db = map (scanGroup db) (sort_by group_le (ad_groups db))"

definition group_ByID :: "string \<Rightarrow> access_db \<Rightarrow> access_error + group_view" where
  "group_ByID gid db =
    (case find (\<lambda>g. gr_id g = gid) (ad_groups db) of
       None \<Rightarrow> Inl GroupNotFound | Some g \<Rightarrow> Inr (scanGroup db g))"

definition group_ByName :: "string \<Rightarrow> access_db \<Rightarrow> access_error + group_view" where
  "group_ByName name db =
    (let trimmed = TrimSpace name
     in if trimmed = '''' then Inl GroupNotFound
        else case find (\<lambda>g. sql_lower (gr_name g) = sql_lower trimmed) (ad_groups db) of
          None \<Rightarrow> Inl GroupNotFound | Some g \<Rightarrow> Inr (scanGroup db g))"

definition groups_Of :: "subject \<Rightarrow> access_db \<Rightarrow> group_view list" where
  "groups_Of s db =
    (if \<not> kind_Valid (sub_Kind s) then []
     else map (scanGroup db) (sort_by group_le (groups_joined s db)))"

record member_view =
  mb_Kind :: kind
  mb_ID :: string
  mb_Label :: string
  mb_AddedBy :: string
  mb_AddedAt :: time

definition scanMember :: "access_db \<Rightarrow> member_row \<Rightarrow> member_view" where
  "scanMember db m =
    \<lparr>mb_Kind = (if gm_user_id m = None then KindKey else KindUser),
     mb_ID = (case gm_user_id m of Some u \<Rightarrow> u | None \<Rightarrow> coalesce (gm_key_id m)),
     mb_Label =
       (case find (\<lambda>u. Some (us_id u) = gm_user_id m) (ad_users db) of
          Some u \<Rightarrow> us_email u
        | None \<Rightarrow> (case find (\<lambda>k. Some (ke_id k) = gm_key_id m) (ad_keys db) of
            Some k \<Rightarrow> ke_name k | None \<Rightarrow> '''')),
     mb_AddedBy = gm_added_by m, mb_AddedAt = time_UnixMilli (gm_added_at m)\<rparr>"

definition member_le :: "member_view \<Rightarrow> member_view \<Rightarrow> bool" where
  "member_le a b =
    (if mb_Kind a \<noteq> mb_Kind b then kind_String (mb_Kind a) \<le> kind_String (mb_Kind b)
     else mb_Label a \<le> mb_Label b)"

definition Members :: "string \<Rightarrow> access_db \<Rightarrow> member_view list" where
  "Members gid db =
    sort_by member_le (map (scanMember db) (filter (\<lambda>m. gm_group_id m = gid) (ad_members db)))"

definition groupName :: "string \<Rightarrow> access_db \<Rightarrow> access_error + string" where
  "groupName gid db =
    (case find (\<lambda>g. gr_id g = gid) (ad_groups db) of
       None \<Rightarrow> Inl GroupNotFound | Some g \<Rightarrow> Inr (gr_name g))"

definition cmpName :: "string \<Rightarrow> string \<Rightarrow> string" where
  "cmpName new was = (if new \<noteq> '''' then new else was)"

section \<open>Changing groups\<close>

definition group_newID :: "nat list \<Rightarrow> string" where
  "group_newID b = ''grp_'' @ hex_encode b"

record group_create =
  gc_Name :: string
  gc_Description :: string
  gc_RoleID :: string
  gc_Grants :: grants

definition group_named :: "string \<Rightarrow> access_db \<Rightarrow> bool" where
  "group_named name db \<longleftrightarrow> list_ex (\<lambda>g. sql_lower (gr_name g) = sql_lower name) (ad_groups db)"

definition group_create_tx ::
  "host_env \<Rightarrow> millis \<Rightarrow> string \<Rightarrow> string \<Rightarrow> string \<Rightarrow> string \<Rightarrow> string \<Rightarrow> grants \<Rightarrow> access_db
     \<Rightarrow> access_error + unit \<times> access_db" where
  "group_create_tx en now actor gid name description rid gs db =
    (if rid \<noteq> '''' \<and> \<not> role_Exists db rid then Inl GroupNoSuchRole
     else if group_named name db then Inl GroupDuplicateName
     else if list_ex (\<lambda>g. gr_id g = gid) (ad_groups db) then Inl (AccessSql (UniqueFailed ''groups.id''))
     else
       (let row = \<lparr>gr_id = gid, gr_name = name, gr_description = description, gr_role_id = rid,
              gr_grants_json = EncodeGrants gs, gr_created_by = actor, gr_created_at = now,
              gr_updated_at = now\<rparr>
        in and_then
             (Audit en now (act ''group.created'' actor name ''create''
                [(''group'', JStr gid), (''role'', JStr rid), (''grants'', rendered (marshal_grants gs))])
                (db\<lparr>ad_groups := ad_groups db @ [row]\<rparr>))
             (\<lambda>d. Inr ((), d))))"

definition group_Create ::
  "host_env \<Rightarrow> time \<Rightarrow> string \<Rightarrow> nat list \<Rightarrow> group_create \<Rightarrow> access_db
     \<Rightarrow> (access_error + group_view) \<times> access_db" where
  "group_Create en now actor b req db =
    (case labelled (ValidateLabel ''group name'' (gc_Name req)) of Inl e \<Rightarrow> (Inl e, db) | Inr name \<Rightarrow>
     case labelled (validateDescription (gc_Description req)) of Inl e \<Rightarrow> (Inl e, db) | Inr description \<Rightarrow>
     case checked_grants (gc_Grants req) of Inl e \<Rightarrow> (Inl e, db) | Inr gs \<Rightarrow>
     case access_tx (group_create_tx en (UnixMilli now) actor (group_newID b) name description
            (TrimSpace (gc_RoleID req)) gs) db of
       (r, db') \<Rightarrow> (and_then (or_duplicate GroupDuplicateName r) (\<lambda>_. group_ByID (group_newID b) db'), db'))"

record group_update =
  gu_Name :: "string option"
  gu_Description :: "string option"
  gu_RoleID :: "string option"
  gu_Grants :: "grants option"

definition group_sets ::
  "millis \<Rightarrow> string option \<Rightarrow> string option \<Rightarrow> string option \<Rightarrow> grants option \<Rightarrow> group_row \<Rightarrow> group_row"
  where
  "group_sets now name description rid gs g =
    set_field gs (\<lambda>v g. g\<lparr>gr_grants_json := EncodeGrants v\<rparr>)
      (set_field rid (\<lambda>v g. g\<lparr>gr_role_id := v\<rparr>)
        (set_field description (\<lambda>v g. g\<lparr>gr_description := v\<rparr>)
          (set_field name (\<lambda>v g. g\<lparr>gr_name := v\<rparr>) (g\<lparr>gr_updated_at := now\<rparr>))))"

definition group_update_tx ::
  "host_env \<Rightarrow> millis \<Rightarrow> string \<Rightarrow> string \<Rightarrow> string option \<Rightarrow> string option \<Rightarrow> string option
     \<Rightarrow> grants option \<Rightarrow> access_db \<Rightarrow> access_error + unit \<times> access_db" where
  "group_update_tx en now actor gid name description rid gs db =
    (case find (\<lambda>g. gr_id g = gid) (ad_groups db) of
       None \<Rightarrow> Inl GroupNotFound
     | Some was \<Rightarrow>
         (let before = CountAdministrators db;
              taken = (case name of None \<Rightarrow> False
                | Some n \<Rightarrow> list_ex (\<lambda>q. gr_id q \<noteq> gid \<and> sql_lower (gr_name q) = sql_lower n) (ad_groups db));
              missing = (case rid of None \<Rightarrow> False | Some r \<Rightarrow> r \<noteq> '''' \<and> \<not> role_Exists db r);
              hit = (\<lambda>g. gr_id g = gid \<and> \<not> taken);
              db1 = db\<lparr>ad_groups := update_where hit (group_sets now name description rid gs) (ad_groups db)\<rparr>;
              detail = [(''group'', JStr gid)]
                @ members_if name (\<lambda>_. [(''renamed_from'', JStr (gr_name was))])
                @ members_if rid (\<lambda>r. [(''role'', JStr r), (''role_before'', JStr (gr_role_id was))])
                @ members_if gs (\<lambda>v. [(''grants'', rendered (marshal_grants v)),
                     (''grants_before'', rendered (marshal_grants (DecodeGrants (gr_grants_json was))))])
          in if missing then Inl GroupNoSuchRole
             else if count_where hit (ad_groups db) = 0 then Inl GroupDuplicateName
             else and_then (GuardAdminRemains db1 before GroupLastAdmin) (\<lambda>_.
               and_then (Audit en now (act ''group.updated'' actor
                     (cmpName (case name of Some n \<Rightarrow> n | None \<Rightarrow> '''') (gr_name was)) ''update'' detail) db1)
                 (\<lambda>d. Inr ((), d)))))"

definition group_Update ::
  "host_env \<Rightarrow> time \<Rightarrow> string \<Rightarrow> string \<Rightarrow> group_update \<Rightarrow> access_db
     \<Rightarrow> (access_error + group_view) \<times> access_db" where
  "group_Update en now actor gid req db =
    (if gu_Name req = None \<and> gu_Description req = None \<and> gu_RoleID req = None \<and> gu_Grants req = None
       then (group_ByID gid db, db)
     else
       (case check_field (gu_Name req) (\<lambda>n. labelled (ValidateLabel ''group name'' n)) of
          Inl e \<Rightarrow> (Inl e, db) | Inr name \<Rightarrow>
        case check_field (gu_Description req) (\<lambda>d. labelled (validateDescription d)) of
          Inl e \<Rightarrow> (Inl e, db) | Inr description \<Rightarrow>
        case check_field (gu_Grants req) checked_grants of
          Inl e \<Rightarrow> (Inl e, db) | Inr gs \<Rightarrow>
        case access_tx (group_update_tx en (UnixMilli now) actor gid name description
               (map_option TrimSpace (gu_RoleID req)) gs) db of
          (r, db') \<Rightarrow> (and_then (or_duplicate GroupDuplicateName r) (\<lambda>_. group_ByID gid db'), db')))"

definition group_delete_tx ::
  "host_env \<Rightarrow> millis \<Rightarrow> string \<Rightarrow> string \<Rightarrow> access_db \<Rightarrow> access_error + unit \<times> access_db" where
  "group_delete_tx en now actor gid db =
    (case find (\<lambda>g. gr_id g = gid) (ad_groups db) of
       None \<Rightarrow> Inl GroupNotFound
     | Some was \<Rightarrow>
         (let members = count_where (\<lambda>m. gm_group_id m = gid) (ad_members db);
              before = CountAdministrators db;
              db1 = db\<lparr>ad_members := filter (\<lambda>m. gm_group_id m \<noteq> gid) (ad_members db),
                       ad_groups := filter (\<lambda>g. gr_id g \<noteq> gid) (ad_groups db)\<rparr>
          in and_then (GuardAdminRemains db1 before GroupLastAdmin) (\<lambda>_.
               and_then (Audit en now (act ''group.deleted'' actor (gr_name was) ''delete''
                   [(''group'', JStr gid), (''role'', JStr (gr_role_id was)),
                    (''grants'', rendered (marshal_grants (DecodeGrants (gr_grants_json was)))),
                    (''members'', JNum (show_nat members))]) db1)
                 (\<lambda>d. Inr ((), d)))))"

definition group_Delete ::
  "host_env \<Rightarrow> time \<Rightarrow> string \<Rightarrow> string \<Rightarrow> access_db \<Rightarrow> (access_error + unit) \<times> access_db" where
  "group_Delete en now actor gid = access_tx (group_delete_tx en (UnixMilli now) actor gid)"

section \<open>Membership\<close>

definition subject_exists :: "subject \<Rightarrow> access_db \<Rightarrow> bool" where
  "subject_exists s db =
    (case sub_Kind s of
       KindUser \<Rightarrow> list_ex (\<lambda>u. us_id u = sub_ID s) (ad_users db)
     | KindKey \<Rightarrow> list_ex (\<lambda>k. ke_id k = sub_ID s) (ad_keys db)
     | KindOther _ \<Rightarrow> False)"

definition is_member :: "string \<Rightarrow> subject \<Rightarrow> access_db \<Rightarrow> bool" where
  "is_member gid s db \<longleftrightarrow> list_ex (\<lambda>m. gm_group_id m = gid \<and> names_subject s m) (ad_members db)"

definition member_row_of :: "string \<Rightarrow> string \<Rightarrow> subject \<Rightarrow> millis \<Rightarrow> member_row" where
  "member_row_of actor gid s now =
    \<lparr>gm_group_id = gid,
     gm_user_id = (if sub_Kind s = KindUser then Some (sub_ID s) else None),
     gm_key_id = (if sub_Kind s = KindKey then Some (sub_ID s) else None),
     gm_added_by = actor, gm_added_at = now\<rparr>"

definition AddMemberTx ::
  "string \<Rightarrow> string \<Rightarrow> subject \<Rightarrow> millis \<Rightarrow> access_db \<Rightarrow> access_error + bool \<times> access_db" where
  "AddMemberTx actor gid s now db =
    (if \<not> kind_Valid (sub_Kind s) then Inl NoSuchMember
     else if list_ex (\<lambda>g. gr_id g = gid) (ad_groups db) \<and> subject_exists s db \<and> \<not> is_member gid s db
       then Inr (True, db\<lparr>ad_members := ad_members db @ [member_row_of actor gid s now]\<rparr>)
     else if is_member gid s db then Inr (False, db)
     else and_then (groupName gid db) (\<lambda>_. Inl NoSuchMember))"

definition member_detail :: "string \<Rightarrow> subject \<Rightarrow> (string \<times> json) list" where
  "member_detail gid s = [(''group'', JStr gid), (''kind'', JStr (kind_String (sub_Kind s))),
     (''id'', JStr (sub_ID s))]"

definition AddMemberAudited ::
  "host_env \<Rightarrow> string \<Rightarrow> string \<Rightarrow> subject \<Rightarrow> millis \<Rightarrow> access_db \<Rightarrow> access_error + access_db" where
  "AddMemberAudited en actor gid s now db =
    and_then (groupName gid db) (\<lambda>name.
      and_then (AddMemberTx actor gid s now db) (\<lambda>(added, db1).
        if \<not> added then Inr db1
        else Audit en now (act ''group.member_added'' actor name ''add_member'' (member_detail gid s)) db1))"

text \<open>The loop that joins several groups, one entry each.\<close>

fun AddMembers ::
  "host_env \<Rightarrow> string \<Rightarrow> string list \<Rightarrow> subject \<Rightarrow> millis \<Rightarrow> access_db \<Rightarrow> access_error + access_db" where
  "AddMembers en actor [] s now db = Inr db"
| "AddMembers en actor (gid # gids) s now db =
    and_then (AddMemberAudited en actor gid s now db) (AddMembers en actor gids s now)"

definition AddMember ::
  "host_env \<Rightarrow> time \<Rightarrow> string \<Rightarrow> string \<Rightarrow> subject \<Rightarrow> access_db \<Rightarrow> (access_error + unit) \<times> access_db" where
  "AddMember en now actor gid s db =
    (if \<not> kind_Valid (sub_Kind s) \<or> TrimSpace (sub_ID s) = '''' then (Inl NoSuchMember, db)
     else access_tx (\<lambda>d. and_then (AddMemberAudited en actor gid s (UnixMilli now) d)
            (\<lambda>d. Inr ((), d))) db)"

definition without_member :: "string \<Rightarrow> subject \<Rightarrow> access_db \<Rightarrow> access_db" where
  "without_member gid s db =
    db\<lparr>ad_members := filter (\<lambda>m. \<not> (gm_group_id m = gid \<and> names_subject s m)) (ad_members db)\<rparr>"

definition RemoveMemberAudited ::
  "host_env \<Rightarrow> string \<Rightarrow> string \<Rightarrow> subject \<Rightarrow> millis \<Rightarrow> access_db \<Rightarrow> access_error + access_db" where
  "RemoveMemberAudited en actor gid s now db =
    (if \<not> kind_Valid (sub_Kind s) then Inl NoSuchMember
     else and_then (groupName gid db) (\<lambda>name.
       if \<not> is_member gid s db then Inr db
       else Audit en now (act ''group.member_removed'' actor name ''remove_member'' (member_detail gid s))
              (without_member gid s db)))"

definition remove_member_tx ::
  "host_env \<Rightarrow> millis \<Rightarrow> string \<Rightarrow> string \<Rightarrow> subject \<Rightarrow> access_db \<Rightarrow> access_error + unit \<times> access_db" where
  "remove_member_tx en now actor gid s db =
    and_then (groupName gid db) (\<lambda>name.
      let before = CountAdministrators db; db1 = without_member gid s db
      in if \<not> is_member gid s db then Inl NoSuchMember
         else and_then (GuardAdminRemains db1 before GroupLastAdmin) (\<lambda>_.
           and_then (Audit en now (act ''group.member_removed'' actor name ''remove_member''
               (member_detail gid s)) db1)
             (\<lambda>d. Inr ((), d))))"

definition RemoveMember ::
  "host_env \<Rightarrow> time \<Rightarrow> string \<Rightarrow> string \<Rightarrow> subject \<Rightarrow> access_db \<Rightarrow> (access_error + unit) \<times> access_db" where
  "RemoveMember en now actor gid s db =
    (if \<not> kind_Valid (sub_Kind s) then (Inl NoSuchMember, db)
     else access_tx (remove_member_tx en (UnixMilli now) actor gid s) db)"

end
