(* ===== verification/Accounts.thy ===== *)
theory Accounts
  imports Access_Groups
begin

text \<open>
  The accounts that sign in to the dashboard (\<open>internal/auth/users/users.go\<close> and the first half of
  \<open>store.go\<close>): creating, claiming the host, editing, passwords, deleting and signing in. Random bytes
  are arguments; where the code reads the clock twice there are two arguments.
\<close>

section \<open>Accounts\<close>

definition StatusActiveUser :: string where "StatusActiveUser = ''active''"
definition StatusPendingUser :: string where "StatusPendingUser = ''pending''"

definition status_Valid :: "string \<Rightarrow> bool" where
  "status_Valid s \<longleftrightarrow> s = StatusActiveUser \<or> s = StatusPendingUser"

type_synonym provider = string

definition ProviderGoogle :: provider where "ProviderGoogle = ''google''"
definition ProviderGitHub :: provider where "ProviderGitHub = ''github''"
definition ProviderEntra :: provider where "ProviderEntra = ''entra''"
definition ProviderOIDC :: provider where "ProviderOIDC = ''oidc''"

definition provider_Valid :: "provider \<Rightarrow> bool" where
  "provider_Valid p \<longleftrightarrow>
     p = ProviderGoogle \<or> p = ProviderGitHub \<or> p = ProviderEntra \<or> p = ProviderOIDC"

definition NoPassword :: string where "NoPassword = ''!''"

record user_view =
  uv_ID :: string
  uv_Email :: string
  uv_PasswordHash :: string
  uv_DisplayName :: string
  uv_RoleID :: string
  uv_Grants :: grants
  uv_Disabled :: bool
  uv_Status :: string
  uv_InviteProvider :: provider
  uv_InviteExpiresAt :: "time option"
  uv_CreatedAt :: time
  uv_UpdatedAt :: time
  uv_LastLoginAt :: "time option"

definition HasPassword :: "user_view \<Rightarrow> bool" where
  "HasPassword u \<longleftrightarrow> uv_PasswordHash u \<noteq> NoPassword \<and> uv_PasswordHash u \<noteq> ''''"

definition Invited :: "user_view \<Rightarrow> bool" where
  "Invited u \<longleftrightarrow> uv_InviteProvider u \<noteq> ''''"

definition user_Pending :: "user_view \<Rightarrow> bool" where
  "user_Pending u \<longleftrightarrow> uv_Status u = StatusPendingUser"

definition user_Name :: "user_view \<Rightarrow> string" where
  "user_Name u =
    (case ValidateDisplayName (uv_DisplayName u) of
       Inr name \<Rightarrow> if name \<noteq> '''' then name else uv_Email u
     | Inl _ \<Rightarrow> uv_Email u)"

definition user_Principal :: "user_view \<Rightarrow> string \<Rightarrow> resolved \<Rightarrow> principal" where
  "user_Principal u sessionID access =
    \<lparr>p_ID = ''user:'' @ uv_Email u, p_DisplayName = user_Name u, p_RoleID = uv_RoleID u,
     p_RoleName = rs_RoleName access, p_Permissions = rs_Permissions access,
     p_Grants = rs_Grants access, p_TokenID = sessionID, p_Pending = user_Pending u\<rparr>"

text \<open>A status or a provider this build does not know is read as pending, and as no invitation.\<close>

definition scanUser :: "user_row \<Rightarrow> user_view" where
  "scanUser r =
    \<lparr>uv_ID = us_id r, uv_Email = us_email r, uv_PasswordHash = us_password_hash r,
     uv_DisplayName = us_display_name r, uv_RoleID = us_role_id r,
     uv_Grants = DecodeGrants (us_grants_json r), uv_Disabled = us_disabled r,
     uv_Status = (if status_Valid (us_status r) then us_status r else StatusPendingUser),
     uv_InviteProvider = (if provider_Valid (us_invite_provider r) then us_invite_provider r else ''''),
     uv_InviteExpiresAt = timeOrNil (us_invite_expires_at r),
     uv_CreatedAt = time_UnixMilli (us_created_at r), uv_UpdatedAt = time_UnixMilli (us_updated_at r),
     uv_LastLoginAt = timeOrNil (us_last_login_at r)\<rparr>"

section \<open>Credentials\<close>

definition HashPassword :: "host_env \<Rightarrow> string \<Rightarrow> access_error + string" where
  "HashPassword en plaintext =
    (case ValidatePassword plaintext of
       Some e \<Rightarrow> Inl (RefusedPassword e)
     | None \<Rightarrow> (case en_bcrypt en plaintext of
         None \<Rightarrow> Inl (RefusedText ''users: hash password'') | Some h \<Rightarrow> Inr h))"

definition generateSecret :: "nat list \<Rightarrow> string" where
  "generateSecret b = RawURLEncoding b"

definition newID :: "string \<Rightarrow> nat list \<Rightarrow> string" where
  "newID pre b = pre @ hex_encode b"

definition normalized :: "host_env \<Rightarrow> string \<Rightarrow> access_error + string" where
  "normalized en raw =
    (case NormalizeEmail (en_parse_address en) (en_to_lower en) raw of
       Inl e \<Rightarrow> Inl (RefusedEmail e) | Inr s \<Rightarrow> Inr s)"

section \<open>Reading\<close>

definition user_ByEmail :: "host_env \<Rightarrow> string \<Rightarrow> access_db \<Rightarrow> access_error + user_view" where
  "user_ByEmail en email db =
    (case normalized en email of
       Inl _ \<Rightarrow> Inl UserNotFound
     | Inr e \<Rightarrow> (case find (\<lambda>u. us_email u = e) (ad_users db) of
         None \<Rightarrow> Inl UserNotFound | Some u \<Rightarrow> Inr (scanUser u)))"

definition user_ByID :: "string \<Rightarrow> access_db \<Rightarrow> access_error + user_view" where
  "user_ByID uid db =
    (case find (\<lambda>u. us_id u = uid) (ad_users db) of
       None \<Rightarrow> Inl UserNotFound | Some u \<Rightarrow> Inr (scanUser u))"

definition user_List :: "access_db \<Rightarrow> user_view list" where
  "user_List db = map scanUser (sort_by (\<lambda>a b. us_email a \<le> us_email b) (ad_users db))"

definition user_Count :: "access_db \<Rightarrow> nat" where
  "user_Count db = length (ad_users db)"

definition user_Resolve :: "string \<Rightarrow> access_db \<Rightarrow> access_error + resolved" where
  "user_Resolve uid db = Resolve (User uid) db"

section \<open>Creating accounts\<close>

definition InviteTTL :: duration where "InviteTTL = 14 * 24 * Hour"

text \<open>INSERT INTO users, with its two keys.\<close>

definition insert_user :: "user_row \<Rightarrow> access_db \<Rightarrow> access_error + access_db" where
  "insert_user r db =
    (if list_ex (\<lambda>u. us_id u = us_id r) (ad_users db) then Inl (AccessSql (UniqueFailed ''users.id''))
     else if list_ex (\<lambda>u. us_email u = us_email r) (ad_users db)
       then Inl (AccessSql (UniqueFailed ''users.email''))
     else Inr (db\<lparr>ad_users := ad_users db @ [r]\<rparr>))"

definition name_collides :: "string \<Rightarrow> string \<Rightarrow> access_db \<Rightarrow> bool" where
  "name_collides email displayName db \<longleftrightarrow>
     list_ex (\<lambda>u. sql_lower (us_display_name u) = email) (ad_users db)
     \<or> \<not> (displayName = '''' \<or> \<not> list_ex (\<lambda>u. us_email u = sql_lower displayName) (ad_users db))"

definition fresh_user ::
  "string \<Rightarrow> string \<Rightarrow> string \<Rightarrow> string \<Rightarrow> string \<Rightarrow> grants \<Rightarrow> string \<Rightarrow> provider \<Rightarrow> millis option
     \<Rightarrow> millis \<Rightarrow> user_row" where
  "fresh_user uid email hash name rid gs status invite inviteExpires now =
    \<lparr>us_id = uid, us_email = email, us_password_hash = hash, us_display_name = name,
     us_role_id = rid, us_grants_json = EncodeGrants gs, us_disabled = False, us_status = status,
     us_invite_provider = invite, us_invite_expires_at = inviteExpires, us_created_at = now,
     us_updated_at = now, us_last_login_at = None\<rparr>"

text \<open>The value returned beside the row: its status is the zero value unless the caller sets it.\<close>

definition created_view :: "user_row \<Rightarrow> string \<Rightarrow> grants \<Rightarrow> time option \<Rightarrow> user_view" where
  "created_view r status gs inviteExpires =
    (scanUser r)\<lparr>uv_Grants := gs, uv_Status := status, uv_InviteProvider := us_invite_provider r,
                 uv_InviteExpiresAt := inviteExpires\<rparr>"

record user_create =
  uc_Email :: string
  uc_Password :: string
  uc_DisplayName :: string
  uc_RoleID :: string
  uc_Grants :: grants
  uc_InviteProvider :: provider
  uc_Groups :: "string list"
  uc_Actor :: string

definition create_credential :: "host_env \<Rightarrow> user_create \<Rightarrow> access_error + string" where
  "create_credential en req =
    (if uc_InviteProvider req \<noteq> '''' then
       (if \<not> provider_Valid (uc_InviteProvider req)
          then Inl (RefusedText ''users: not a provider this build knows'')
        else if uc_Password req \<noteq> ''''
          then Inl (RefusedText ''an invited account signs in with the provider, so it takes no password'')
        else Inr NoPassword)
     else HashPassword en (uc_Password req))"

definition user_create_tx ::
  "host_env \<Rightarrow> millis \<Rightarrow> string \<Rightarrow> string list \<Rightarrow> user_row \<Rightarrow> access_db \<Rightarrow> access_error + unit \<times> access_db"
  where
  "user_create_tx en now actor gids r db =
    (if \<not> role_Exists db (us_role_id r) then Inl UserNoSuchRole
     else if name_collides (us_email r) (us_display_name r) db then Inl NameCollides
     else and_then (insert_user r db) (\<lambda>db1.
       and_then (AddMembers en (if actor = '''' then ''system'' else actor) gids (User (us_id r)) now db1)
         (\<lambda>d. Inr ((), d))))"

definition user_Create ::
  "host_env \<Rightarrow> time \<Rightarrow> time \<Rightarrow> nat list \<Rightarrow> user_create \<Rightarrow> access_db
     \<Rightarrow> (access_error + user_view) \<times> access_db" where
  "user_Create en now now2 b req db =
    (case normalized en (uc_Email req) of Inl e \<Rightarrow> (Inl e, db) | Inr email \<Rightarrow>
     let rid = TrimSpace (uc_RoleID req)
     in if rid = '''' then (Inl (RefusedText ''a role is required''), db)
     else case checked_grants (uc_Grants req) of Inl e \<Rightarrow> (Inl e, db) | Inr gs \<Rightarrow>
     case labelled (ValidateDisplayName (uc_DisplayName req)) of Inl e \<Rightarrow> (Inl e, db) | Inr displayName \<Rightarrow>
     case create_credential en req of Inl e \<Rightarrow> (Inl e, db) | Inr hash \<Rightarrow>
     let invite = uc_InviteProvider req;
         expires = (if invite \<noteq> '''' then Some (now2 + InviteTTL) else None);
         r = fresh_user (newID ''usr_'' b) email hash displayName rid gs StatusActiveUser invite
               (map_option UnixMilli expires) (UnixMilli now)
     in case access_tx (user_create_tx en (UnixMilli now) (uc_Actor req) (uc_Groups req) r) db of
       (res, db') \<Rightarrow> (and_then (or_duplicate DuplicateEmail res)
                       (\<lambda>_. Inr (created_view r '''' gs expires)), db'))"

definition create_first_tx :: "user_row \<Rightarrow> access_db \<Rightarrow> access_error + unit \<times> access_db" where
  "create_first_tx r db =
    (if length (ad_users db) > 0 then Inl AlreadyClaimed
     else and_then (insert_user r db) (\<lambda>d. Inr ((), d)))"

definition CreateFirst ::
  "host_env \<Rightarrow> time \<Rightarrow> nat list \<Rightarrow> string \<Rightarrow> string \<Rightarrow> string \<Rightarrow> access_db
     \<Rightarrow> (access_error + user_view) \<times> access_db" where
  "CreateFirst en now b email password displayName db =
    (case normalized en email of Inl e \<Rightarrow> (Inl e, db) | Inr addr \<Rightarrow>
     case HashPassword en password of Inl e \<Rightarrow> (Inl e, db) | Inr hash \<Rightarrow>
     case labelled (ValidateDisplayName displayName) of Inl e \<Rightarrow> (Inl e, db) | Inr name \<Rightarrow>
     let gs = GrantsAt [Wildcard] LevelWrite;
         r = fresh_user (newID ''usr_'' b) addr hash name RoleAdministrator gs StatusActiveUser '''' None
               (UnixMilli now)
     in case access_tx (create_first_tx r) db of
       (res, db') \<Rightarrow> (and_then res (\<lambda>_. Inr (created_view r '''' gs None)), db'))"

section \<open>Editing\<close>

record user_update =
  uu_DisplayName :: "string option"
  uu_RoleID :: "string option"
  uu_Grants :: "grants option"
  uu_Disabled :: "bool option"
  uu_InviteProvider :: "provider option"

definition user_sets ::
  "millis \<Rightarrow> string option \<Rightarrow> string option \<Rightarrow> grants option \<Rightarrow> bool option \<Rightarrow> user_row \<Rightarrow> user_row"
  where
  "user_sets now name rid gs disabled u =
    set_field disabled (\<lambda>v u. u\<lparr>us_disabled := v\<rparr>)
      (set_field gs (\<lambda>v u. u\<lparr>us_grants_json := EncodeGrants v\<rparr>)
        (set_field rid (\<lambda>v u. u\<lparr>us_role_id := v\<rparr>)
          (set_field name (\<lambda>v u. u\<lparr>us_display_name := v\<rparr>) (u\<lparr>us_updated_at := now\<rparr>))))"

definition has_identity :: "access_db \<Rightarrow> string \<Rightarrow> bool" where
  "has_identity db uid \<longleftrightarrow> list_ex (\<lambda>i. ui_user_id i = uid) (ad_identities db)"

text \<open>The second statement of the edit, which offers an invitation again.\<close>

definition reinvite ::
  "millis \<Rightarrow> time \<Rightarrow> string \<Rightarrow> provider option \<Rightarrow> access_db \<Rightarrow> access_error + access_db" where
  "reinvite now now2 uid provider db =
    (case provider of
       None \<Rightarrow> Inr db
     | Some p \<Rightarrow>
         (let hit = (\<lambda>u. us_id u = uid \<and> us_password_hash u = NoPassword \<and> \<not> us_disabled u
                \<and> \<not> has_identity db (us_id u))
          in if count_where hit (ad_users db) = 0 then Inl AlreadySignsIn
             else Inr (db\<lparr>ad_users := update_where hit
               (\<lambda>u. u\<lparr>us_invite_provider := p,
                     us_invite_expires_at := Some (UnixMilli (now2 + InviteTTL)),
                     us_updated_at := now\<rparr>) (ad_users db)\<rparr>)))"

definition end_sessions :: "string \<Rightarrow> access_db \<Rightarrow> access_db" where
  "end_sessions uid db = db\<lparr>ad_sessions := filter (\<lambda>s. se_user_id s \<noteq> uid) (ad_sessions db)\<rparr>"

definition user_update_tx ::
  "millis \<Rightarrow> time \<Rightarrow> string \<Rightarrow> string option \<Rightarrow> string option \<Rightarrow> grants option \<Rightarrow> bool option
     \<Rightarrow> provider option \<Rightarrow> access_db \<Rightarrow> access_error + unit \<times> access_db" where
  "user_update_tx now now2 uid name rid gs disabled invite db =
    (if count_where (\<lambda>u. us_id u = uid) (ad_users db) = 0 then Inl UserNotFound
     else
       (let before = CountAdministrators db;
            missing = (case rid of None \<Rightarrow> False | Some r \<Rightarrow> \<not> role_Exists db r);
            taken = (case name of None \<Rightarrow> False
              | Some n \<Rightarrow> n \<noteq> '''' \<and> list_ex (\<lambda>q. us_id q \<noteq> uid \<and> us_email q = sql_lower n) (ad_users db));
            hit = (\<lambda>u. us_id u = uid \<and> \<not> taken);
            db1 = db\<lparr>ad_users := update_where hit (user_sets now name rid gs disabled) (ad_users db)\<rparr>
        in if missing then Inl UserNoSuchRole
           else if count_where hit (ad_users db) = 0 then Inl NameCollides
           else and_then (GuardAdminRemains db1 before UserLastAdmin) (\<lambda>_.
             and_then (reinvite now now2 uid invite db1) (\<lambda>db2.
               Inr ((), if disabled \<noteq> None \<or> rid \<noteq> None \<or> gs \<noteq> None then end_sessions uid db2 else db2)))))"

definition validated_grants :: "grants \<Rightarrow> access_error + grants" where
  "validated_grants gs =
    (case Validate_grants gs of Some e \<Rightarrow> Inl (RefusedGrants e) | None \<Rightarrow> Inr gs)"

definition user_Update ::
  "time \<Rightarrow> time \<Rightarrow> string \<Rightarrow> user_update \<Rightarrow> access_db \<Rightarrow> (access_error + user_view) \<times> access_db" where
  "user_Update now now2 uid req db =
    (if (case uu_RoleID req of Some r \<Rightarrow> TrimSpace r = '''' | None \<Rightarrow> False)
       then (Inl (RefusedText ''a role is required''), db)
     else case check_field (uu_Grants req) validated_grants of Inl e \<Rightarrow> (Inl e, db) | Inr gs \<Rightarrow>
     if (case uu_InviteProvider req of Some p \<Rightarrow> \<not> provider_Valid p | None \<Rightarrow> False)
       then (Inl (RefusedText ''users: not a provider this build knows''), db)
     else case check_field (uu_DisplayName req) (\<lambda>n. labelled (ValidateDisplayName n)) of
       Inl e \<Rightarrow> (Inl e, db) | Inr name \<Rightarrow>
     case access_tx (user_update_tx (UnixMilli now) now2 uid name
            (map_option TrimSpace (uu_RoleID req)) gs (uu_Disabled req) (uu_InviteProvider req)) db of
       (r, db') \<Rightarrow> (and_then r (\<lambda>_. user_ByID uid db'), db'))"

definition set_password_tx ::
  "millis \<Rightarrow> string \<Rightarrow> string \<Rightarrow> access_db \<Rightarrow> access_error + unit \<times> access_db" where
  "set_password_tx now uid hash db =
    (if count_where (\<lambda>u. us_id u = uid) (ad_users db) = 0 then Inl UserNotFound
     else Inr ((), end_sessions uid (db\<lparr>ad_users := update_where (\<lambda>u. us_id u = uid)
       (\<lambda>u. u\<lparr>us_password_hash := hash, us_invite_provider := '''', us_invite_expires_at := None,
             us_updated_at := now\<rparr>) (ad_users db)\<rparr>)))"

definition SetPassword ::
  "host_env \<Rightarrow> time \<Rightarrow> string \<Rightarrow> string \<Rightarrow> access_db \<Rightarrow> (access_error + unit) \<times> access_db" where
  "SetPassword en now uid password db =
    (case HashPassword en password of
       Inl e \<Rightarrow> (Inl e, db)
     | Inr hash \<Rightarrow> access_tx (set_password_tx (UnixMilli now) uid hash) db)"

section \<open>Deleting\<close>

text \<open>
  Deleting rows of \<open>users\<close> takes the rows that refer to them along (\<open>ON DELETE CASCADE\<close>, with
  foreign keys on): sessions, linked identities, offers and memberships.
\<close>

definition delete_users :: "(user_row \<Rightarrow> bool) \<Rightarrow> access_db \<Rightarrow> access_db" where
  "delete_users doomed db =
    (let gone = (\<lambda>uid. list_ex (\<lambda>u. us_id u = uid \<and> doomed u) (ad_users db))
     in db\<lparr>ad_users := filter (\<lambda>u. \<not> doomed u) (ad_users db),
           ad_sessions := filter (\<lambda>s. \<not> gone (se_user_id s)) (ad_sessions db),
           ad_identities := filter (\<lambda>i. \<not> gone (ui_user_id i)) (ad_identities db),
           ad_links := filter (\<lambda>l. \<not> gone (li_user_id l)) (ad_links db),
           ad_members := filter (\<lambda>m. case gm_user_id m of Some uid \<Rightarrow> \<not> gone uid | None \<Rightarrow> True)
             (ad_members db)\<rparr>)"

definition user_delete_tx :: "string \<Rightarrow> access_db \<Rightarrow> access_error + unit \<times> access_db" where
  "user_delete_tx uid db =
    (if count_where (\<lambda>u. us_id u = uid) (ad_users db) = 0 then Inl UserNotFound
     else
       (let before = CountAdministrators db;
            db1 = db\<lparr>ad_sessions := filter (\<lambda>s. se_user_id s \<noteq> uid) (ad_sessions db),
                     ad_identities := filter (\<lambda>i. ui_user_id i \<noteq> uid) (ad_identities db),
                     ad_links := filter (\<lambda>l. li_user_id l \<noteq> uid) (ad_links db),
                     ad_members := filter (\<lambda>m. gm_user_id m \<noteq> Some uid) (ad_members db)\<rparr>;
            db2 = delete_users (\<lambda>u. us_id u = uid) db1
        in and_then (GuardAdminRemains db2 before UserLastAdmin) (\<lambda>_. Inr ((), db2))))"

definition user_Delete :: "string \<Rightarrow> access_db \<Rightarrow> (access_error + unit) \<times> access_db" where
  "user_Delete uid = access_tx (user_delete_tx uid)"

section \<open>Signing in\<close>

definition Authenticate ::
  "host_env \<Rightarrow> string \<Rightarrow> string \<Rightarrow> access_db \<Rightarrow> access_error + user_view" where
  "Authenticate en email password db =
    (let found = (case user_ByEmail en email db of Inr u \<Rightarrow> Some u | Inl _ \<Rightarrow> None);
         hash = (case found of
             Some u \<Rightarrow> if \<not> uv_Disabled u \<and> HasPassword u then uv_PasswordHash u else en_dummy_hash en
           | None \<Rightarrow> en_dummy_hash en);
         matched = en_bcrypt_ok en hash password
     in case found of
          None \<Rightarrow> Inl InvalidCredentials
        | Some u \<Rightarrow>
            if uv_Disabled u then Inl InvalidCredentials
            else if \<not> HasPassword u then Inl ErrNoPassword
            else if \<not> matched then Inl InvalidCredentials
            else Inr u)"

definition RecordLogin :: "time \<Rightarrow> string \<Rightarrow> access_db \<Rightarrow> (access_error + unit) \<times> access_db" where
  "RecordLogin now uid =
    access_tx (\<lambda>db. Inr ((), db\<lparr>ad_users := update_where (\<lambda>u. us_id u = uid)
      (\<lambda>u. u\<lparr>us_last_login_at := Some (UnixMilli now)\<rparr>) (ad_users db)\<rparr>))"

end
