(* ===== verification/Registration.thy ===== *)
theory Registration
  imports Accounts
begin

text \<open>
  Self-registration, identity providers, approval and invitations
  (\<open>internal/auth/users/registration.go\<close>). Where the code reads before it opens its transaction, the
  database it read is an argument of its own: another writer may commit in between.
\<close>

section \<open>Policy\<close>

definition DefaultGroupActor :: string where "DefaultGroupActor = ''system:registration''"

record registration_policy =
  rp_Enabled :: bool
  rp_RequireApproval :: bool
  rp_AllowedDomains :: "string list"
  rp_DefaultGroup :: string

definition StatusFor :: "registration_policy \<Rightarrow> bool \<Rightarrow> string" where
  "StatusFor p addressProved =
    (if \<not> addressProved \<or> rp_RequireApproval p then StatusPendingUser else StatusActiveUser)"

text \<open>What follows the last \<open>@\<close>, if there is one.\<close>

fun after_last_at :: "string \<Rightarrow> string option" where
  "after_last_at [] = None"
| "after_last_at (c # cs) =
    (case after_last_at cs of
       Some d \<Rightarrow> Some d
     | None \<Rightarrow> if c = CHR 0x40 then Some cs else None)"

definition trim_prefix_char :: "char \<Rightarrow> string \<Rightarrow> string" where
  "trim_prefix_char c s = (case s of [] \<Rightarrow> [] | d # ds \<Rightarrow> if d = c then ds else s)"

definition wanted_domain :: "host_env \<Rightarrow> string \<Rightarrow> string" where
  "wanted_domain en allowed =
    trim_prefix_char (CHR ''.'') (trim_prefix_char (CHR 0x40) (en_to_lower en (TrimSpace allowed)))"

definition policy_Allows :: "host_env \<Rightarrow> registration_policy \<Rightarrow> string \<Rightarrow> access_error option" where
  "policy_Allows en p email =
    (if \<not> rp_Enabled p then Some RegistrationClosed
     else if rp_AllowedDomains p = [] then None
     else case after_last_at email of
       None \<Rightarrow> Some DomainNotAllowed
     | Some d \<Rightarrow>
         (let dom = en_to_lower en (TrimSpace d)
          in if list_ex (\<lambda>a. wanted_domain en a \<noteq> '''' \<and> wanted_domain en a = dom) (rp_AllowedDomains p)
             then None else Some DomainNotAllowed))"

section \<open>Identities\<close>

record identity =
  in_Provider :: provider
  in_Subject :: string
  in_UserID :: string
  in_Email :: string
  in_LinkedBy :: string
  in_LinkedAt :: time

definition insertIdentity :: "identity \<Rightarrow> millis \<Rightarrow> access_db \<Rightarrow> access_error + access_db" where
  "insertIdentity i now db =
    (if \<not> list_ex (\<lambda>u. us_id u = in_UserID i) (ad_users db) then Inl (AccessSql ForeignKeyFailed)
     else if list_ex (\<lambda>r. ui_provider r = in_Provider i \<and> ui_subject r = in_Subject i) (ad_identities db)
       then Inl (AccessSql (UniqueFailed ''user_identities.provider, user_identities.subject''))
     else if list_ex (\<lambda>r. ui_provider r = in_Provider i \<and> ui_user_id r = in_UserID i) (ad_identities db)
       then Inl (AccessSql (UniqueFailed ''user_identities.provider, user_identities.user_id''))
     else Inr (db\<lparr>ad_identities := ad_identities db @ [\<lparr>ui_provider = in_Provider i,
       ui_subject = in_Subject i, ui_user_id = in_UserID i, ui_email = in_Email i,
       ui_linked_by = in_LinkedBy i, ui_created_at = now\<rparr>]\<rparr>))"

definition UserByIdentity :: "provider \<Rightarrow> string \<Rightarrow> access_db \<Rightarrow> access_error + user_view" where
  "UserByIdentity provider subject db =
    (if \<not> provider_Valid provider \<or> subject = '''' then Inl UserNotFound
     else case find (\<lambda>u. list_ex (\<lambda>i. ui_user_id i = us_id u \<and> ui_provider i = provider
                 \<and> ui_subject i = subject) (ad_identities db)) (ad_users db) of
       None \<Rightarrow> Inl UserNotFound | Some u \<Rightarrow> Inr (scanUser u))"

definition scanIdentity :: "identity_row \<Rightarrow> identity" where
  "scanIdentity r =
    \<lparr>in_Provider = ui_provider r, in_Subject = ui_subject r, in_UserID = ui_user_id r,
     in_Email = ui_email r, in_LinkedBy = ui_linked_by r,
     in_LinkedAt = time_UnixMilli (ui_created_at r)\<rparr>"

definition IdentitiesFor :: "string \<Rightarrow> access_db \<Rightarrow> identity list" where
  "IdentitiesFor uid db =
    map scanIdentity (sort_by (\<lambda>a b. ui_provider a \<le> ui_provider b)
      (filter (\<lambda>i. ui_user_id i = uid) (ad_identities db)))"

section \<open>Registering\<close>

record register_request =
  rr_Email :: string
  rr_DisplayName :: string
  rr_Password :: string
  rr_Identity :: "identity option"
  rr_Policy :: registration_policy

definition joinDefaultGroup ::
  "host_env \<Rightarrow> string \<Rightarrow> string \<Rightarrow> millis \<Rightarrow> access_db \<Rightarrow> access_error + string list \<times> access_db" where
  "joinDefaultGroup en uid name now db =
    (if TrimSpace name = '''' then Inr ([], db)
     else case find (\<lambda>g. sql_lower (gr_name g) = sql_lower (TrimSpace name)) (ad_groups db) of
       None \<Rightarrow> Inr ([], db)
     | Some g \<Rightarrow> and_then (AddMemberAudited en DefaultGroupActor (gr_id g) (User uid) now db)
                   (\<lambda>d. Inr ([gr_id g], d)))"

definition providerName :: "identity option \<Rightarrow> string" where
  "providerName i = (case i of None \<Rightarrow> ''password'' | Some x \<Rightarrow> in_Provider x)"

text \<open>The conditions of the INSERT, and which of them failed.\<close>

definition registrable :: "user_row \<Rightarrow> access_db \<Rightarrow> bool" where
  "registrable r db \<longleftrightarrow> ad_users db \<noteq> [] \<and> \<not> list_ex (\<lambda>u. us_email u = us_email r) (ad_users db)
     \<and> \<not> name_collides (us_email r) (us_display_name r) db"

definition not_registrable :: "user_row \<Rightarrow> access_db \<Rightarrow> access_error" where
  "not_registrable r db =
    (if length (ad_users db) = 0 then Unclaimed
     else if count_where (\<lambda>u. us_email u = us_email r) (ad_users db) > 0 then AddressTaken
     else NameCollides)"

definition register_tx ::
  "host_env \<Rightarrow> millis \<Rightarrow> identity option \<Rightarrow> string \<Rightarrow> user_row \<Rightarrow> access_db
     \<Rightarrow> access_error + unit \<times> access_db" where
  "register_tx en now ident grp r db =
    (let actor = ''self:'' @ us_email r
     in if \<not> registrable r db then Inl (not_registrable r db)
        else and_then (insert_user r db) (\<lambda>db1.
          and_then (case ident of
              None \<Rightarrow> Inr db1
            | Some i \<Rightarrow> insertIdentity (i\<lparr>in_UserID := us_id r, in_LinkedBy := actor\<rparr>) now db1) (\<lambda>db2.
          and_then (joinDefaultGroup en (us_id r) grp now db2) (\<lambda>(joined, db3).
          and_then (Audit en now (act ''account.registered'' actor (us_email r) ''register''
              [(''status'', JStr (us_status r)), (''role'', JStr (us_role_id r)),
               (''provider'', JStr (providerName ident)), (''groups'', JArr (map JStr joined))]) db3)
            (\<lambda>d. Inr ((), d))))))"

definition register_name :: "register_request \<Rightarrow> access_error + string" where
  "register_name req =
    (if rr_Identity req \<noteq> None then Inr (SafeDisplayName (rr_DisplayName req))
     else labelled (ValidateDisplayName (rr_DisplayName req)))"

definition register_credential :: "host_env \<Rightarrow> register_request \<Rightarrow> access_error + string" where
  "register_credential en req =
    (case rr_Identity req of
       None \<Rightarrow> HashPassword en (rr_Password req)
     | Some i \<Rightarrow>
         if \<not> provider_Valid (in_Provider i)
           then Inl (RefusedText ''users: not a provider this build knows'')
         else if TrimSpace (in_Subject i) = ''''
           then Inl (RefusedText ''users: a provider identity needs a subject'')
         else Inr NoPassword)"

definition Register ::
  "host_env \<Rightarrow> time \<Rightarrow> nat list \<Rightarrow> register_request \<Rightarrow> access_db
     \<Rightarrow> (access_error + user_view) \<times> access_db" where
  "Register en now b req db =
    (case normalized en (rr_Email req) of Inl e \<Rightarrow> (Inl e, db) | Inr email \<Rightarrow>
     case policy_Allows en (rr_Policy req) email of Some e \<Rightarrow> (Inl e, db) | None \<Rightarrow>
     case register_name req of Inl e \<Rightarrow> (Inl e, db) | Inr displayName \<Rightarrow>
     case register_credential en req of Inl e \<Rightarrow> (Inl e, db) | Inr hash \<Rightarrow>
     let status = StatusFor (rr_Policy req) (rr_Identity req \<noteq> None);
         r = fresh_user (newID ''usr_'' b) email hash displayName RoleOperator [] status '''' None
               (UnixMilli now)
     in case access_tx (register_tx en (UnixMilli now) (rr_Identity req)
               (rp_DefaultGroup (rr_Policy req)) r) db of
       (res, db') \<Rightarrow> (and_then (or_duplicate IdentityLinked res)
                       (\<lambda>_. Inr (created_view r status [] None)), db'))"

section \<open>Linking and unlinking\<close>

definition link_tx ::
  "host_env \<Rightarrow> millis \<Rightarrow> string \<Rightarrow> identity \<Rightarrow> access_db \<Rightarrow> access_error + unit \<times> access_db" where
  "link_tx en now actor i db =
    (if count_where (\<lambda>u. us_id u = in_UserID i) (ad_users db) = 0 then Inl UserNotFound
     else and_then (insertIdentity (i\<lparr>in_LinkedBy := actor\<rparr>) now db) (\<lambda>db1.
       and_then (Audit en now (act ''account.identity_linked'' actor (in_Email i) ''link''
           [(''provider'', JStr (in_Provider i)), (''account'', JStr (in_UserID i))]) db1)
         (\<lambda>d. Inr ((), d))))"

definition LinkIdentity ::
  "host_env \<Rightarrow> time \<Rightarrow> string \<Rightarrow> identity \<Rightarrow> access_db \<Rightarrow> (access_error + unit) \<times> access_db" where
  "LinkIdentity en now actor i db =
    (if \<not> provider_Valid (in_Provider i)
       then (Inl (RefusedText ''users: not a provider this build knows''), db)
     else if TrimSpace (in_Subject i) = '''' \<or> TrimSpace (in_UserID i) = ''''
       then (Inl (RefusedText ''users: a link needs a subject and an account''), db)
     else case access_tx (link_tx en (UnixMilli now) actor i) db of
       (r, db') \<Rightarrow> (or_duplicate IdentityLinked r, db'))"

definition unlink_tx ::
  "host_env \<Rightarrow> millis \<Rightarrow> string \<Rightarrow> string \<Rightarrow> provider \<Rightarrow> access_db \<Rightarrow> access_error + unit \<times> access_db"
  where
  "unlink_tx en now actor uid provider db =
    (case find (\<lambda>u. us_id u = uid) (ad_users db) of
       None \<Rightarrow> Inl UserNotFound
     | Some u \<Rightarrow>
         (let hash = us_password_hash u;
              other = list_ex (\<lambda>i. ui_user_id i = uid \<and> ui_provider i \<noteq> provider) (ad_identities db);
              linked = (\<lambda>i. ui_user_id i = uid \<and> ui_provider i = provider);
              hit = (\<lambda>i. linked i \<and> ((hash \<noteq> NoPassword \<and> hash \<noteq> '''') \<or> other));
              db1 = db\<lparr>ad_identities := filter (\<lambda>i. \<not> hit i) (ad_identities db)\<rparr>
          in if count_where hit (ad_identities db) = 0 then
               (if count_where linked (ad_identities db) = 0 then Inl UserNotFound
                else Inl LastCredential)
             else and_then (Audit en now (act ''account.identity_unlinked'' actor uid ''unlink''
                 [(''provider'', JStr provider)]) db1)
               (\<lambda>d. Inr ((), d))))"

definition UnlinkIdentity ::
  "host_env \<Rightarrow> time \<Rightarrow> string \<Rightarrow> string \<Rightarrow> provider \<Rightarrow> access_db
     \<Rightarrow> (access_error + unit) \<times> access_db" where
  "UnlinkIdentity en now actor uid provider =
    access_tx (unlink_tx en (UnixMilli now) actor uid provider)"

section \<open>Approving and rejecting\<close>

definition PendingRegistrations :: "access_db \<Rightarrow> user_view list" where
  "PendingRegistrations db =
    map scanUser (sort_by (\<lambda>a b. us_created_at a \<le> us_created_at b)
      (filter (\<lambda>u. us_status u = StatusPendingUser) (ad_users db)))"

definition approve_tx ::
  "host_env \<Rightarrow> millis \<Rightarrow> string \<Rightarrow> string \<Rightarrow> string list \<Rightarrow> access_db \<Rightarrow> access_error + unit \<times> access_db"
  where
  "approve_tx en now actor uid gids db =
    (case find (\<lambda>u. us_id u = uid) (ad_users db) of
       None \<Rightarrow> Inl UserNotFound
     | Some was \<Rightarrow>
         (let hit = (\<lambda>u. us_id u = uid \<and> us_status u = StatusPendingUser);
              db1 = db\<lparr>ad_users := update_where hit
                (\<lambda>u. u\<lparr>us_status := StatusActiveUser, us_updated_at := now\<rparr>) (ad_users db)\<rparr>
          in if count_where hit (ad_users db) = 0 then Inl NotPending
             else and_then (AddMembers en actor gids (User uid) now db1) (\<lambda>db2.
               and_then (Audit en now (act ''account.approved'' actor (us_email was) ''approve''
                   [(''account'', JStr uid), (''role'', JStr (us_role_id was)),
                    (''groups'', JArr (map JStr gids))]) db2)
                 (\<lambda>d. Inr ((), d)))))"

definition ApproveRegistration ::
  "host_env \<Rightarrow> time \<Rightarrow> string \<Rightarrow> string \<Rightarrow> string list \<Rightarrow> access_db
     \<Rightarrow> (access_error + user_view) \<times> access_db" where
  "ApproveRegistration en now actor uid gids db =
    (case access_tx (approve_tx en (UnixMilli now) actor uid gids) db of
       (r, db') \<Rightarrow> (and_then r (\<lambda>_. user_ByID uid db'), db'))"

definition reject_tx ::
  "host_env \<Rightarrow> millis \<Rightarrow> string \<Rightarrow> string \<Rightarrow> access_db \<Rightarrow> access_error + unit \<times> access_db" where
  "reject_tx en now actor uid db =
    (case find (\<lambda>u. us_id u = uid) (ad_users db) of
       None \<Rightarrow> Inl UserNotFound
     | Some was \<Rightarrow>
         (let hit = (\<lambda>u. us_id u = uid \<and> us_status u = StatusPendingUser);
              gone = (\<lambda>x. list_ex (\<lambda>u. us_id u = x \<and> hit u) (ad_users db));
              db1 = db\<lparr>ad_identities := filter (\<lambda>i. \<not> gone (ui_user_id i)) (ad_identities db),
                ad_members := filter (\<lambda>m. case gm_user_id m of Some x \<Rightarrow> \<not> gone x | None \<Rightarrow> True)
                  (ad_members db)\<rparr>
          in if count_where hit (ad_users db) = 0 then Inl NotPending
             else and_then (Audit en now (act ''account.rejected'' actor (us_email was) ''reject''
                 [(''account'', JStr uid)]) (delete_users hit db1))
               (\<lambda>d. Inr ((), d))))"

definition RejectRegistration ::
  "host_env \<Rightarrow> time \<Rightarrow> string \<Rightarrow> string \<Rightarrow> access_db \<Rightarrow> (access_error + unit) \<times> access_db" where
  "RejectRegistration en now actor uid = access_tx (reject_tx en (UnixMilli now) actor uid)"

section \<open>Invitations\<close>

definition claimable :: "millis \<Rightarrow> string \<Rightarrow> provider \<Rightarrow> access_db \<Rightarrow> user_row \<Rightarrow> bool" where
  "claimable now uid p db u \<longleftrightarrow> us_id u = uid \<and> us_invite_provider u = p
     \<and> us_password_hash u = NoPassword \<and> \<not> us_disabled u
     \<and> (case us_invite_expires_at u of None \<Rightarrow> True | Some e \<Rightarrow> e > now)
     \<and> \<not> has_identity db (us_id u)"

definition claim_refusal :: "millis \<Rightarrow> string \<Rightarrow> provider \<Rightarrow> access_db \<Rightarrow> access_error" where
  "claim_refusal now uid p db =
    (case find (\<lambda>u. us_id u = uid) (ad_users db) of
       None \<Rightarrow> RefusedText ''sql: no rows in result set''
     | Some u \<Rightarrow>
         if us_invite_provider u = p
            \<and> (case us_invite_expires_at u of Some e \<Rightarrow> e \<le> now | None \<Rightarrow> False)
           then InviteExpired else UserNotFound)"

definition claim_invite_tx ::
  "host_env \<Rightarrow> millis \<Rightarrow> string \<Rightarrow> string \<Rightarrow> identity \<Rightarrow> access_db \<Rightarrow> access_error + unit \<times> access_db"
  where
  "claim_invite_tx en now uid email i db =
    (let hit = claimable now uid (in_Provider i) db;
         db1 = db\<lparr>ad_users := update_where hit
           (\<lambda>u. u\<lparr>us_invite_provider := '''', us_invite_expires_at := None, us_updated_at := now\<rparr>)
           (ad_users db)\<rparr>;
         actor = ''self:'' @ email
     in if count_where hit (ad_users db) = 0 then Inl (claim_refusal now uid (in_Provider i) db)
        else and_then (insertIdentity (i\<lparr>in_UserID := uid, in_LinkedBy := actor\<rparr>) now db1) (\<lambda>db2.
          and_then (Audit en now (act ''account.invitation_claimed'' actor email ''claim''
              [(''provider'', JStr (in_Provider i)), (''account'', JStr uid)]) db2)
            (\<lambda>d. Inr ((), d))))"

text \<open>\<open>seen\<close> is the database the lookup before the transaction read.\<close>

definition ClaimInvite ::
  "host_env \<Rightarrow> time \<Rightarrow> identity \<Rightarrow> access_db \<Rightarrow> access_db \<Rightarrow> (access_error + user_view) \<times> access_db" where
  "ClaimInvite en now i seen db =
    (if \<not> provider_Valid (in_Provider i)
       then (Inl (RefusedText ''users: not a provider this build knows''), db)
     else if TrimSpace (in_Subject i) = ''''
       then (Inl (RefusedText ''users: a provider identity needs a subject''), db)
     else case normalized en (in_Email i) of Inl _ \<Rightarrow> (Inl UserNotFound, db) | Inr email \<Rightarrow>
     case find (\<lambda>u. us_email u = email) (ad_users seen) of
       None \<Rightarrow> (Inl UserNotFound, db)
     | Some u \<Rightarrow>
         if us_invite_provider u = '''' then (Inl UserNotFound, db)
         else case access_tx (claim_invite_tx en (UnixMilli now) (us_id u) email i) db of
           (r, db') \<Rightarrow> (and_then (or_duplicate IdentityLinked r) (\<lambda>_. user_ByID (us_id u) db'), db'))"

end
