(* ===== verification/Account_Sessions.thy ===== *)
theory Account_Sessions
  imports Accounts
begin

text \<open>
  Browser sessions (the second half of \<open>internal/auth/users/store.go\<close>): issuing, resolving,
  touching, ending and purging them. The token, the CSRF token and the identifier are drawn from the
  random bytes given as arguments.
\<close>

section \<open>Sessions\<close>

record session_view =
  sv_ID :: string
  sv_UserID :: string
  sv_CSRFToken :: string
  sv_CreatedAt :: time
  sv_ExpiresAt :: time
  sv_LastSeenAt :: time
  sv_IdleDeadline :: time

definition EndsAt :: "session_view \<Rightarrow> time" where
  "EndsAt s =
    (if \<not> IsZero (sv_IdleDeadline s) \<and> sv_IdleDeadline s < sv_ExpiresAt s then sv_IdleDeadline s
     else sv_ExpiresAt s)"

text \<open>\<open>Duration.Milliseconds\<close> rounds towards zero.\<close>

definition Milliseconds :: "duration \<Rightarrow> int" where
  "Milliseconds d = (if d < 0 then - ((- d) div 1000000) else d div 1000000)"

definition new_session_tx :: "session_row \<Rightarrow> access_db \<Rightarrow> access_error + unit \<times> access_db" where
  "new_session_tx r db =
    (if \<not> list_ex (\<lambda>u. us_id u = se_user_id r) (ad_users db) then Inl (AccessSql ForeignKeyFailed)
     else if list_ex (\<lambda>s. se_session_hash s = se_session_hash r) (ad_sessions db)
       then Inl (AccessSql (UniqueFailed ''user_sessions.session_hash''))
     else if list_ex (\<lambda>s. se_id s = se_id r) (ad_sessions db)
       then Inl (AccessSql (UniqueFailed ''user_sessions.id''))
     else Inr ((), db\<lparr>ad_sessions := ad_sessions db @ [r]\<rparr>))"

definition NewSession ::
  "time \<Rightarrow> nat list \<Rightarrow> nat list \<Rightarrow> nat list \<Rightarrow> string \<Rightarrow> duration \<Rightarrow> access_db
     \<Rightarrow> (access_error + string \<times> session_view) \<times> access_db" where
  "NewSession now tokenBytes csrfBytes b uid ttl db =
    (let life = (if ttl \<le> 0 then 12 * Hour else ttl);
         token = generateSecret tokenBytes;
         csrf = generateSecret csrfBytes;
         sid = newID ''ses_'' b;
         expires = now + life;
         r = \<lparr>se_session_hash = digest token, se_id = sid, se_user_id = uid, se_csrf_token = csrf,
              se_created_at = UnixMilli now, se_expires_at = UnixMilli expires,
              se_last_seen_at = UnixMilli now\<rparr>
     in case access_tx (new_session_tx r) db of
       (res, db') \<Rightarrow> (and_then res (\<lambda>_. Inr (token,
          \<lparr>sv_ID = sid, sv_UserID = uid, sv_CSRFToken = csrf, sv_CreatedAt = now,
           sv_ExpiresAt = expires, sv_LastSeenAt = now, sv_IdleDeadline = zero_time\<rparr>)), db'))"

definition ResolveSession ::
  "time \<Rightarrow> string \<Rightarrow> duration \<Rightarrow> access_db \<Rightarrow> access_error + user_view \<times> session_view" where
  "ResolveSession now token idle db =
    (if token = '''' then Inl UserNotFound
     else case find (\<lambda>s. se_session_hash s = digest token \<and> se_expires_at s > UnixMilli now)
            (ad_sessions db) of
       None \<Rightarrow> Inl UserNotFound
     | Some r \<Rightarrow>
         (let lastSeen = time_UnixMilli (se_last_seen_at r);
              deadline = (if idle > 0 then lastSeen + idle else zero_time);
              sess = \<lparr>sv_ID = se_id r, sv_UserID = se_user_id r, sv_CSRFToken = se_csrf_token r,
                sv_CreatedAt = time_UnixMilli (se_created_at r),
                sv_ExpiresAt = time_UnixMilli (se_expires_at r), sv_LastSeenAt = lastSeen,
                sv_IdleDeadline = deadline\<rparr>
          in if idle > 0 \<and> \<not> now < deadline then Inl UserNotFound
             else and_then (user_ByID (se_user_id r) db) (\<lambda>u.
               if uv_Disabled u then Inl UserNotFound else Inr (u, sess))))"

definition touchable :: "time \<Rightarrow> string \<Rightarrow> duration \<Rightarrow> duration \<Rightarrow> session_row \<Rightarrow> bool" where
  "touchable now token every idle s \<longleftrightarrow>
     se_session_hash s = digest token \<and> se_expires_at s > UnixMilli now
     \<and> se_last_seen_at s \<le> UnixMilli (now - every)
     \<and> (Milliseconds idle = 0 \<or> se_last_seen_at s > UnixMilli (now - idle))"

definition TouchSession ::
  "time \<Rightarrow> string \<Rightarrow> duration \<Rightarrow> duration \<Rightarrow> access_db \<Rightarrow> (access_error + bool) \<times> access_db" where
  "TouchSession now token every idle db =
    (if token = '''' then (Inr False, db)
     else access_tx (\<lambda>db.
       let hit = touchable now token every idle
       in Inr (count_where hit (ad_sessions db) > 0,
               db\<lparr>ad_sessions := update_where hit (\<lambda>s. s\<lparr>se_last_seen_at := UnixMilli now\<rparr>)
                                   (ad_sessions db)\<rparr>)) db)"

definition DeleteSession :: "string \<Rightarrow> access_db \<Rightarrow> (access_error + unit) \<times> access_db" where
  "DeleteSession token =
    access_tx (\<lambda>db. Inr ((), db\<lparr>ad_sessions :=
      filter (\<lambda>s. se_session_hash s \<noteq> digest token) (ad_sessions db)\<rparr>))"

definition stale_session :: "time \<Rightarrow> duration \<Rightarrow> session_row \<Rightarrow> bool" where
  "stale_session now idle s \<longleftrightarrow> se_expires_at s < UnixMilli now
     \<or> (Milliseconds idle > 0 \<and> se_last_seen_at s \<le> UnixMilli (now - idle))"

definition PurgeExpiredSessions ::
  "time \<Rightarrow> duration \<Rightarrow> access_db \<Rightarrow> (access_error + unit) \<times> access_db" where
  "PurgeExpiredSessions now idle =
    access_tx (\<lambda>db. Inr ((), db\<lparr>ad_sessions :=
      filter (\<lambda>s. \<not> stale_session now idle s) (ad_sessions db)\<rparr>))"

section \<open>What a session opens\<close>

lemma ResolveSession_Inr:
  assumes "ResolveSession now token idle db = Inr (u, sess)"
  shows "\<exists>r \<in> set (ad_sessions db). se_session_hash r = digest token
     \<and> UnixMilli now < se_expires_at r
     \<and> (idle > 0 \<longrightarrow> now < time_UnixMilli (se_last_seen_at r) + idle)
     \<and> (\<exists>row \<in> set (ad_users db). us_id row = se_user_id r \<and> \<not> us_disabled row \<and> u = scanUser row)"
  using assms
  by (auto simp: ResolveSession_def Let_def and_then_Inr user_ByID_def scanUser_def
      dest!: find_SomeD split: option.splits if_splits)

text \<open>A touch never revives a session: whatever does not resolve before it does not resolve after.\<close>

lemma touch_moves_only_live:
  assumes "touchable now token every idle s"
  shows "UnixMilli now < se_expires_at s"
    and "Milliseconds idle = 0 \<or> UnixMilli (now - idle) < se_last_seen_at s"
  using assms by (auto simp: touchable_def)

end
