(* ===== verification/Pending_Links.thy ===== *)
theory Pending_Links
  imports Registration Account_Sessions
begin

text \<open>
  Offers to link a provider to an account that already holds the address, confirmed with the account's
  own password (\<open>internal/auth/users/pendinglink.go\<close>), and the housekeeper that sweeps sessions and
  offers. A claim reads, compares and then writes; the database of each step is an argument.
\<close>

definition PendingLinkTTL :: duration where "PendingLinkTTL = 10 * Minute"
definition MaxPendingLinkFailures :: nat where "MaxPendingLinkFailures = 3"

record pending_link =
  pl_Provider :: provider
  pl_Subject :: string
  pl_Email :: string
  pl_Name :: string
  pl_UserID :: string

section \<open>Offering\<close>

definition offer_tx :: "millis \<Rightarrow> link_row \<Rightarrow> access_db \<Rightarrow> access_error + unit \<times> access_db" where
  "offer_tx now r db =
    (let kept = filter (\<lambda>l. \<not> li_expires_at l < now \<and> li_user_id l \<noteq> li_user_id r) (ad_links db)
     in if \<not> list_ex (\<lambda>u. us_id u = li_user_id r) (ad_users db) then Inl (AccessSql ForeignKeyFailed)
        else if list_ex (\<lambda>l. li_token_hash l = li_token_hash r) kept
          then Inl (AccessSql (UniqueFailed ''sso_pending_links.token_hash''))
        else Inr ((), db\<lparr>ad_links := kept @ [r]\<rparr>))"

definition OfferLink ::
  "time \<Rightarrow> nat list \<Rightarrow> nat list \<Rightarrow> pending_link \<Rightarrow> access_db
     \<Rightarrow> (access_error + string \<times> string) \<times> access_db" where
  "OfferLink now tokenBytes bindingBytes link db =
    (if \<not> provider_Valid (pl_Provider link)
       then (Inl (RefusedText ''users: not a provider this build knows''), db)
     else if TrimSpace (pl_Subject link) = '''' \<or> TrimSpace (pl_UserID link) = ''''
       then (Inl (RefusedText ''users: an offered link needs a subject and an account''), db)
     else
       (let token = generateSecret tokenBytes; binding = generateSecret bindingBytes;
            r = \<lparr>li_token_hash = digest token, li_provider = pl_Provider link,
                 li_subject = pl_Subject link, li_email = pl_Email link,
                 li_display_name = SafeDisplayName (pl_Name link), li_user_id = pl_UserID link,
                 li_binding_hash = digest binding, li_failures = 0, li_created_at = UnixMilli now,
                 li_expires_at = UnixMilli (now + PendingLinkTTL)\<rparr>
        in case access_tx (offer_tx (UnixMilli now) r) db of
          (res, db') \<Rightarrow> (and_then res (\<lambda>_. Inr (token, binding)), db')))"

section \<open>Reading an offer\<close>

definition live_offer :: "string \<Rightarrow> string \<Rightarrow> millis \<Rightarrow> link_row \<Rightarrow> bool" where
  "live_offer tokenHash bindingHash now l \<longleftrightarrow>
     li_token_hash l = tokenHash \<and> li_binding_hash l = bindingHash
     \<and> li_expires_at l > now \<and> li_failures l < MaxPendingLinkFailures"

definition offer_account :: "access_db \<Rightarrow> link_row \<Rightarrow> user_row option" where
  "offer_account db l =
     find (\<lambda>u. us_id u = li_user_id l \<and> \<not> us_disabled u \<and> us_password_hash u \<noteq> NoPassword)
       (ad_users db)"

definition PendingLinkFor ::
  "time \<Rightarrow> string \<Rightarrow> string \<Rightarrow> access_db \<Rightarrow> access_error + provider \<times> string" where
  "PendingLinkFor now token binding db =
    (if token = '''' \<or> binding = '''' then Inl UserNotFound
     else case find (\<lambda>l. live_offer (digest token) (digest binding) (UnixMilli now) l
                  \<and> offer_account db l \<noteq> None) (ad_links db) of
       None \<Rightarrow> Inl UserNotFound
     | Some l \<Rightarrow> Inr (li_provider l, us_email (the (offer_account db l))))"

section \<open>Confirming\<close>

definition linked_to :: "access_db \<Rightarrow> string \<Rightarrow> provider \<Rightarrow> bool" where
  "linked_to db uid p \<longleftrightarrow>
     list_ex (\<lambda>i. ui_user_id i = uid \<and> ui_provider i = p) (ad_identities db)"

definition claim_read ::
  "string \<Rightarrow> string \<Rightarrow> millis \<Rightarrow> access_db \<Rightarrow> (link_row \<times> user_row) option" where
  "claim_read tokenHash bindingHash now db =
    (case find (\<lambda>l. live_offer tokenHash bindingHash now l \<and> offer_account db l \<noteq> None
              \<and> \<not> linked_to db (li_user_id l) (li_provider l)) (ad_links db) of
       None \<Rightarrow> None
     | Some l \<Rightarrow> Some (l, the (offer_account db l)))"

definition recordLinkFailure ::
  "string \<Rightarrow> string \<Rightarrow> access_db \<Rightarrow> (access_error + unit) \<times> access_db" where
  "recordLinkFailure tokenHash bindingHash =
    access_tx (\<lambda>db.
      let counted = update_where (\<lambda>l. li_token_hash l = tokenHash \<and> li_binding_hash l = bindingHash)
            (\<lambda>l. l\<lparr>li_failures := li_failures l + 1\<rparr>) (ad_links db)
      in Inr ((), db\<lparr>ad_links := filter (\<lambda>l. \<not> (li_token_hash l = tokenHash
           \<and> MaxPendingLinkFailures \<le> li_failures l)) counted\<rparr>))"

definition claim_link_tx ::
  "host_env \<Rightarrow> millis \<Rightarrow> string \<Rightarrow> string \<Rightarrow> link_row \<Rightarrow> string \<Rightarrow> string \<Rightarrow> access_db
     \<Rightarrow> access_error + unit \<times> access_db" where
  "claim_link_tx en now tokenHash bindingHash l actor passwordHash db =
    (let hit = live_offer tokenHash bindingHash now;
         db1 = db\<lparr>ad_links := filter (\<lambda>x. \<not> hit x) (ad_links db)\<rparr>;
         i = \<lparr>in_Provider = li_provider l, in_Subject = li_subject l, in_UserID = li_user_id l,
              in_Email = li_email l, in_LinkedBy = actor, in_LinkedAt = zero_time\<rparr>
     in if count_where hit (ad_links db) = 0 then Inl UserNotFound
        else if \<not> (list_ex (\<lambda>u. us_id u = li_user_id l \<and> \<not> us_disabled u
                       \<and> us_password_hash u = passwordHash) (ad_users db1)
                  \<and> \<not> linked_to db1 (li_user_id l) (li_provider l)) then
          (if linked_to db1 (li_user_id l) (li_provider l) then Inl IdentityLinked else Inl UserNotFound)
        else and_then (insertIdentity i now db1) (\<lambda>db2.
          and_then (Audit en now (act ''account.identity_linked'' actor (li_email l) ''link''
              [(''provider'', JStr (li_provider l)), (''account'', JStr (li_user_id l)),
               (''confirmed'', JStr ''password'')]) db2)
            (\<lambda>d. Inr ((), d))))"

text \<open>
  \<open>seen\<close> is the database the offer was read from, at \<open>readAt\<close>; the comparison takes its time, and the
  transaction starts at \<open>now\<close> on \<open>db\<close>.
\<close>

definition ClaimPendingLink ::
  "host_env \<Rightarrow> time \<Rightarrow> time \<Rightarrow> string \<Rightarrow> string \<Rightarrow> string \<Rightarrow> access_db \<Rightarrow> access_db
     \<Rightarrow> (access_error + user_view) \<times> access_db" where
  "ClaimPendingLink en readAt now token binding password seen db =
    (if token = '''' \<or> binding = '''' then (Inl UserNotFound, db)
     else case claim_read (digest token) (digest binding) (UnixMilli readAt) seen of
       None \<Rightarrow> (Inl UserNotFound, db)
     | Some (l, u) \<Rightarrow>
         if \<not> en_bcrypt_ok en (us_password_hash u) password then
           (case recordLinkFailure (digest token) (digest binding) db of
              (Inl e, db') \<Rightarrow> (Inl e, db')
            | (Inr _, db') \<Rightarrow> (Inl InvalidCredentials, db'))
         else case access_tx (claim_link_tx en (UnixMilli now) (digest token) (digest binding) l
                     (''user:'' @ us_email u) (us_password_hash u)) db of
           (r, db') \<Rightarrow> (and_then (or_duplicate IdentityLinked r) (\<lambda>_. user_ByID (li_user_id l) db'), db'))"

section \<open>Retiring offers\<close>

definition DiscardPendingLink ::
  "string \<Rightarrow> string \<Rightarrow> access_db \<Rightarrow> (access_error + unit) \<times> access_db" where
  "DiscardPendingLink token binding db =
    (if token = '''' \<or> binding = '''' then (Inr (), db)
     else access_tx (\<lambda>db. Inr ((), db\<lparr>ad_links := filter (\<lambda>l. \<not> (li_token_hash l = digest token
       \<and> li_binding_hash l = digest binding)) (ad_links db)\<rparr>)) db)"

definition PurgeExpiredPendingLinks :: "time \<Rightarrow> access_db \<Rightarrow> (access_error + unit) \<times> access_db" where
  "PurgeExpiredPendingLinks now =
    access_tx (\<lambda>db. Inr ((), db\<lparr>ad_links :=
      filter (\<lambda>l. \<not> li_expires_at l < UnixMilli now) (ad_links db)\<rparr>))"

text \<open>A tick of the housekeeper, with the idle window it reads and the two readings of the clock.\<close>

definition housekeep :: "duration \<Rightarrow> time \<Rightarrow> time \<Rightarrow> access_db \<Rightarrow> (access_error + unit) \<times> access_db" where
  "housekeep idle now now2 db =
    (case PurgeExpiredSessions now idle db of
       (Inl e, db') \<Rightarrow> (Inl e, db')
     | (Inr _, db') \<Rightarrow> PurgeExpiredPendingLinks now2 db')"

end
