(* ===== verification/Api_Keys.thy ===== *)
theory Api_Keys
  imports Access_Groups
begin

text \<open>
  The bearer credentials this host issues: creating, re-scoping, rotating, revoking and verifying
  them (\<open>internal/auth/apikeys/apikeys.go\<close>), and the static credentials that are tried before them
  (\<open>internal/auth/authentication.go\<close>). The random bytes of an identifier and of a secret are arguments.
\<close>

section \<open>Keys\<close>

definition SecretPrefix :: string where "SecretPrefix = ''mcpd_''"
definition IDPrefix :: string where "IDPrefix = ''key_''"
definition MaxGrace :: duration where "MaxGrace = 7 * 24 * Hour"
definition lastUsedResolution :: duration where "lastUsedResolution = Minute"

datatype key_status = StatusActive | StatusExpired | StatusRevoked

record key_view =
  ky_ID :: string
  ky_Name :: string
  ky_RoleID :: string
  ky_RoleName :: string
  ky_Grants :: grants
  ky_CreatedBy :: string
  ky_CreatedAt :: time
  ky_UpdatedAt :: time
  ky_ExpiresAt :: "time option"
  ky_LastUsedAt :: "time option"
  ky_RevokedAt :: "time option"
  ky_RevokedBy :: string
  ky_PreviousUntil :: "time option"
  ky_groups :: "group_view list"

definition key_Status :: "key_view \<Rightarrow> time \<Rightarrow> key_status" where
  "key_Status k t =
    (if ky_RevokedAt k \<noteq> None then StatusRevoked
     else case ky_ExpiresAt k of
       Some e \<Rightarrow> if \<not> t < e then StatusExpired else StatusActive
     | None \<Rightarrow> StatusActive)"

definition GenerateSecret :: "nat list \<Rightarrow> string" where
  "GenerateSecret b = SecretPrefix @ RawURLEncoding b"

definition key_newID :: "nat list \<Rightarrow> string" where
  "key_newID b = IDPrefix @ hex_encode b"

definition expiryDetail :: "time option \<Rightarrow> json" where
  "expiryDetail t = (case t of None \<Rightarrow> JNull | Some e \<Rightarrow> JStr (format_RFC3339 e))"

text \<open>\<open>groups\<close> is what the caller loaded into the cache.\<close>

definition scanKey :: "access_db \<Rightarrow> group_view list \<Rightarrow> key_row \<Rightarrow> key_view" where
  "scanKey db gs k =
    \<lparr>ky_ID = ke_id k, ky_Name = ke_name k, ky_RoleID = ke_role_id k,
     ky_RoleName = role_name_or_blank db (ke_role_id k),
     ky_Grants = DecodeGrants (ke_grants_json k), ky_CreatedBy = ke_created_by k,
     ky_CreatedAt = time_UnixMilli (ke_created_at k), ky_UpdatedAt = time_UnixMilli (ke_updated_at k),
     ky_ExpiresAt = timeOrNil (ke_expires_at k), ky_LastUsedAt = timeOrNil (ke_last_used_at k),
     ky_RevokedAt = timeOrNil (ke_revoked_at k), ky_RevokedBy = coalesce (ke_revoked_by k),
     ky_PreviousUntil = timeOrNil (ke_previous_until k), ky_groups = gs\<rparr>"

definition key_ByID :: "string \<Rightarrow> access_db \<Rightarrow> access_error + key_view" where
  "key_ByID kid db =
    (case find (\<lambda>k. ke_id k = kid) (ad_keys db) of
       None \<Rightarrow> Inl KeyNotFound
     | Some k \<Rightarrow> Inr (scanKey db (groups_Of (Key (ke_id k)) db) k))"

definition newest_key :: "key_row \<Rightarrow> key_row \<Rightarrow> bool" where
  "newest_key a b \<longleftrightarrow> ke_created_at b \<le> ke_created_at a"

definition key_List :: "access_db \<Rightarrow> key_view list" where
  "key_List db =
    map (\<lambda>k. scanKey db (groups_Of (Key (ke_id k)) db) k) (sort_by newest_key (ad_keys db))"

section \<open>Creating\<close>

text \<open>The two unique indexes over the stored digests.\<close>

definition secrets_unique :: "key_row list \<Rightarrow> sql_error option" where
  "secrets_unique keys =
    (if \<not> unique_keys (map (\<lambda>k. Some (ke_secret_hash k)) keys)
       then Some (UniqueFailed ''api_keys.secret_hash'')
     else if \<not> unique_keys (map ke_previous_secret_hash keys)
       then Some (UniqueFailed ''api_keys.previous_secret_hash'')
     else None)"

definition with_keys :: "key_row list \<Rightarrow> access_db \<Rightarrow> access_error + access_db" where
  "with_keys keys db =
    (case secrets_unique keys of
       Some e \<Rightarrow> Inl (AccessSql e) | None \<Rightarrow> Inr (db\<lparr>ad_keys := keys\<rparr>))"

record key_create =
  kc_Name :: string
  kc_RoleID :: string
  kc_Grants :: grants
  kc_Groups :: "string list"
  kc_ExpiresAt :: "time option"

definition fresh_key ::
  "string \<Rightarrow> string \<Rightarrow> string \<Rightarrow> string \<Rightarrow> grants \<Rightarrow> string \<Rightarrow> millis \<Rightarrow> millis option \<Rightarrow> key_row" where
  "fresh_key kid name hash rid gs actor now expires =
    \<lparr>ke_id = kid, ke_name = name, ke_secret_hash = hash, ke_previous_secret_hash = None,
     ke_previous_until = None, ke_role_id = rid, ke_grants_json = EncodeGrants gs,
     ke_created_by = actor, ke_created_at = now, ke_updated_at = now, ke_expires_at = expires,
     ke_last_used_at = None, ke_revoked_at = None, ke_revoked_by = None\<rparr>"

definition key_create_tx ::
  "host_env \<Rightarrow> millis \<Rightarrow> string \<Rightarrow> string \<Rightarrow> string \<Rightarrow> string \<Rightarrow> string \<Rightarrow> grants \<Rightarrow> string list
     \<Rightarrow> time option \<Rightarrow> access_db \<Rightarrow> access_error + unit \<times> access_db" where
  "key_create_tx en now actor kid name secret rid gs gids expires db =
    (if \<not> role_Exists db rid then Inl KeyNoSuchRole
     else if list_ex (\<lambda>k. ke_id k = kid) (ad_keys db) then Inl (AccessSql (UniqueFailed ''api_keys.id''))
     else
       and_then (with_keys (ad_keys db @ [fresh_key kid name (digest secret) rid gs actor now
                                            (map_option UnixMilli expires)]) db) (\<lambda>db1.
       and_then (AddMembers en actor gids (Key kid) now db1) (\<lambda>db2.
       and_then (Audit en now (act ''apikey.created'' actor kid ''create''
           [(''name'', JStr name), (''role'', JStr rid), (''grants'', rendered (marshal_grants gs)),
            (''groups'', JArr (map JStr gids)), (''expires_at'', expiryDetail expires)]) db2)
         (\<lambda>d. Inr ((), d)))))"

definition key_Create ::
  "host_env \<Rightarrow> time \<Rightarrow> string \<Rightarrow> nat list \<Rightarrow> nat list \<Rightarrow> key_create \<Rightarrow> access_db
     \<Rightarrow> (access_error + key_view \<times> string) \<times> access_db" where
  "key_Create en now actor b secretBytes req db =
    (case labelled (ValidateLabel ''key name'' (kc_Name req)) of Inl e \<Rightarrow> (Inl e, db) | Inr name \<Rightarrow>
     let rid = TrimSpace (kc_RoleID req)
     in if rid = '''' then (Inl (RefusedText ''a role is required''), db)
     else case checked_grants (kc_Grants req) of Inl e \<Rightarrow> (Inl e, db) | Inr gs \<Rightarrow>
     let kid = key_newID b; secret = GenerateSecret secretBytes
     in if (case kc_ExpiresAt req of Some e \<Rightarrow> \<not> now < e | None \<Rightarrow> False)
          then (Inl (RefusedText ''an expiry in the past would issue a key that is already dead''), db)
     else case access_tx (key_create_tx en (UnixMilli now) actor kid name secret rid gs
                 (kc_Groups req) (kc_ExpiresAt req)) db of
       (r, db') \<Rightarrow> (and_then r (\<lambda>_. and_then (key_ByID kid db') (\<lambda>k. Inr (k, secret))), db'))"

section \<open>Re-scoping\<close>

record key_update =
  ku_Name :: "string option"
  ku_RoleID :: "string option"
  ku_Grants :: "grants option"
  ku_Groups :: "string list option"
  ku_ExpiresAt :: "time option option"

definition key_sets ::
  "millis \<Rightarrow> string option \<Rightarrow> string option \<Rightarrow> grants option \<Rightarrow> time option option \<Rightarrow> key_row \<Rightarrow> key_row"
  where
  "key_sets now name rid gs expires k =
    set_field expires (\<lambda>v k. k\<lparr>ke_expires_at := map_option UnixMilli v\<rparr>)
      (set_field gs (\<lambda>v k. k\<lparr>ke_grants_json := EncodeGrants v\<rparr>)
        (set_field rid (\<lambda>v k. k\<lparr>ke_role_id := v\<rparr>)
          (set_field name (\<lambda>v k. k\<lparr>ke_name := v\<rparr>) (k\<lparr>ke_updated_at := now\<rparr>))))"

fun RemoveMembers ::
  "host_env \<Rightarrow> string \<Rightarrow> string list \<Rightarrow> subject \<Rightarrow> millis \<Rightarrow> access_db \<Rightarrow> access_error + access_db" where
  "RemoveMembers en actor [] s now db = Inr db"
| "RemoveMembers en actor (gid # gids) s now db =
    and_then (RemoveMemberAudited en actor gid s now db) (RemoveMembers en actor gids s now)"

text \<open>Leaving every group that is not listed, then joining every one that is.\<close>

definition set_groups ::
  "host_env \<Rightarrow> string \<Rightarrow> string \<Rightarrow> string list option \<Rightarrow> millis \<Rightarrow> access_db \<Rightarrow> access_error + access_db" where
  "set_groups en actor kid wanted now db =
    (case wanted of
       None \<Rightarrow> Inr db
     | Some gids \<Rightarrow>
         and_then (RemoveMembers en actor
             (filter (\<lambda>g. g \<notin> set gids) (map gp_ID (groups_Of (Key kid) db))) (Key kid) now db)
           (AddMembers en actor gids (Key kid) now))"

definition key_update_detail ::
  "key_row \<Rightarrow> string option \<Rightarrow> string option \<Rightarrow> grants option \<Rightarrow> string list option
     \<Rightarrow> time option option \<Rightarrow> (string \<times> json) list" where
  "key_update_detail was name rid gs gids expires =
     members_if name (\<lambda>n. [(''name'', JStr n), (''name_before'', JStr (ke_name was))])
     @ members_if rid (\<lambda>r. [(''role'', JStr r), (''role_before'', JStr (ke_role_id was))])
     @ members_if gs (\<lambda>v. [(''grants'', rendered (marshal_grants v)),
          (''grants_before'', rendered (marshal_grants (DecodeGrants (ke_grants_json was))))])
     @ members_if expires (\<lambda>v. [(''expires_at'', expiryDetail v),
          (''expires_at_before'', expiryDetail (timeOrNil (ke_expires_at was)))])
     @ members_if gids (\<lambda>v. [(''groups'', JArr (map JStr v))])"

definition key_update_tx ::
  "host_env \<Rightarrow> time \<Rightarrow> string \<Rightarrow> string \<Rightarrow> string option \<Rightarrow> string option \<Rightarrow> grants option
     \<Rightarrow> string list option \<Rightarrow> time option option \<Rightarrow> access_db \<Rightarrow> access_error + unit \<times> access_db" where
  "key_update_tx en now actor kid name rid gs gids expires db =
    (case find (\<lambda>k. ke_id k = kid) (ad_keys db) of
       None \<Rightarrow> Inl KeyNotFound
     | Some was \<Rightarrow>
         if ke_revoked_at was \<noteq> None then Inl KeyRevoked
         else if (case rid of None \<Rightarrow> False | Some r \<Rightarrow> \<not> role_Exists db r) then Inl KeyNoSuchRole
         else if (case expires of Some (Some e) \<Rightarrow> \<not> now < e | _ \<Rightarrow> False)
           then Inl (RefusedText ''an expiry in the past would kill the key it is set on'')
         else
           and_then (set_groups en actor kid gids (UnixMilli now) db) (\<lambda>db1.
             let detail = key_update_detail was name rid gs gids expires;
                 hit = (\<lambda>k. ke_id k = kid \<and> ke_revoked_at k = None)
             in if detail = [] then Inr ((), db1)
                else if count_where hit (ad_keys db1) = 0 then Inl KeyRevoked
                else and_then (Audit en (UnixMilli now) (act ''apikey.rescoped'' actor kid ''rescope'' detail)
                       (db1\<lparr>ad_keys := update_where hit (key_sets (UnixMilli now) name rid gs expires)
                                        (ad_keys db1)\<rparr>))
                     (\<lambda>d. Inr ((), d))))"

definition key_Update ::
  "host_env \<Rightarrow> time \<Rightarrow> string \<Rightarrow> string \<Rightarrow> key_update \<Rightarrow> access_db
     \<Rightarrow> (access_error + key_view) \<times> access_db" where
  "key_Update en now actor kid req db =
    (case check_field (ku_Name req) (\<lambda>n. labelled (ValidateLabel ''key name'' n)) of
       Inl e \<Rightarrow> (Inl e, db) | Inr name \<Rightarrow>
     if (case ku_RoleID req of Some r \<Rightarrow> TrimSpace r = '''' | None \<Rightarrow> False)
       then (Inl (RefusedText ''a role is required''), db)
     else case check_field (ku_Grants req) checked_grants of
       Inl e \<Rightarrow> (Inl e, db) | Inr gs \<Rightarrow>
     case access_tx (key_update_tx en now actor kid name (map_option TrimSpace (ku_RoleID req)) gs
            (ku_Groups req) (ku_ExpiresAt req)) db of
       (r, db') \<Rightarrow> (and_then r (\<lambda>_. key_ByID kid db'), db'))"

section \<open>Rotating and revoking\<close>

definition rotate_tx ::
  "host_env \<Rightarrow> time \<Rightarrow> string \<Rightarrow> string \<Rightarrow> duration \<Rightarrow> string \<Rightarrow> access_db
     \<Rightarrow> access_error + unit \<times> access_db" where
  "rotate_tx en now actor kid grace secret db =
    (case find (\<lambda>k. ke_id k = kid) (ad_keys db) of
       None \<Rightarrow> Inl KeyNotFound
     | Some was \<Rightarrow>
         if ke_revoked_at was \<noteq> None then Inl KeyRevoked
         else
           (let current = ke_secret_hash was;
                previous = (if grace > 0 then Some current else None);
                until = (if grace > 0 then Some (UnixMilli (now + grace)) else None);
                hit = (\<lambda>k. ke_id k = kid \<and> ke_revoked_at k = None \<and> ke_secret_hash k = current);
                keys = update_where hit
                  (\<lambda>k. k\<lparr>ke_secret_hash := digest secret, ke_previous_secret_hash := previous,
                        ke_previous_until := until, ke_updated_at := UnixMilli now\<rparr>) (ad_keys db)
            in and_then (with_keys keys db) (\<lambda>db1.
               if count_where hit (ad_keys db) = 0 then Inl KeyRevoked
               else and_then (Audit en (UnixMilli now) (act ''apikey.rotated'' actor kid ''rotate''
                      [(''name'', JStr (ke_name was)),
                       (''grace_seconds'', JNum (show_int (grace div Second)))]) db1)
                 (\<lambda>d. Inr ((), d)))))"

definition Rotate ::
  "host_env \<Rightarrow> time \<Rightarrow> string \<Rightarrow> string \<Rightarrow> duration \<Rightarrow> nat list \<Rightarrow> access_db
     \<Rightarrow> (access_error + key_view \<times> string) \<times> access_db" where
  "Rotate en now actor kid grace secretBytes db =
    (if grace < 0 \<or> grace > MaxGrace
       then (Inl (RefusedText ''the grace period must be between none and 7 days''), db)
     else
       (let secret = GenerateSecret secretBytes
        in case access_tx (rotate_tx en now actor kid grace secret) db of
          (r, db') \<Rightarrow> (and_then r (\<lambda>_. and_then (key_ByID kid db') (\<lambda>k. Inr (k, secret))), db')))"

definition revoke_tx ::
  "host_env \<Rightarrow> millis \<Rightarrow> string \<Rightarrow> string \<Rightarrow> access_db \<Rightarrow> access_error + unit \<times> access_db" where
  "revoke_tx en now actor kid db =
    (case find (\<lambda>k. ke_id k = kid) (ad_keys db) of
       None \<Rightarrow> Inl KeyNotFound
     | Some was \<Rightarrow>
         (let hit = (\<lambda>k. ke_id k = kid \<and> ke_revoked_at k = None);
              db1 = db\<lparr>ad_keys := update_where hit
                (\<lambda>k. k\<lparr>ke_revoked_at := Some now, ke_revoked_by := Some actor, ke_updated_at := now,
                      ke_previous_secret_hash := None, ke_previous_until := None\<rparr>) (ad_keys db)\<rparr>
          in if count_where hit (ad_keys db) = 0 then Inl KeyAlreadyRevoked
             else and_then (Audit en now (act ''apikey.revoked'' actor kid ''revoke''
                      [(''name'', JStr (ke_name was))]) db1)
               (\<lambda>d. Inr ((), d))))"

definition Revoke ::
  "host_env \<Rightarrow> time \<Rightarrow> string \<Rightarrow> string \<Rightarrow> access_db \<Rightarrow> (access_error + unit) \<times> access_db" where
  "Revoke en now actor kid = access_tx (revoke_tx en (UnixMilli now) actor kid)"

section \<open>Verifying\<close>

definition opens :: "string \<Rightarrow> millis \<Rightarrow> key_row \<Rightarrow> bool" where
  "opens hash now k \<longleftrightarrow> ke_secret_hash k = hash
     \<or> (ke_previous_secret_hash k = Some hash
        \<and> (case ke_previous_until k of Some until \<Rightarrow> now < until | None \<Rightarrow> False))"

definition touch :: "key_view \<Rightarrow> time \<Rightarrow> access_db \<Rightarrow> access_db" where
  "touch k now db =
    (if (case ky_LastUsedAt k of Some t \<Rightarrow> now - t < lastUsedResolution | None \<Rightarrow> False) then db
     else db\<lparr>ad_keys := update_where
       (\<lambda>r. ke_id r = ky_ID k \<and> (case ke_last_used_at r of None \<Rightarrow> True
          | Some t \<Rightarrow> t \<le> UnixMilli (now - lastUsedResolution)))
       (\<lambda>r. r\<lparr>ke_last_used_at := Some (UnixMilli now)\<rparr>) (ad_keys db)\<rparr>)"

definition key_Verify ::
  "time \<Rightarrow> string \<Rightarrow> access_db \<Rightarrow> (access_error + principal) \<times> access_db" where
  "key_Verify now secret db =
    (if \<not> has_prefix secret SecretPrefix then (Inl KeyNotFound, db)
     else case find (opens (digest secret) (UnixMilli now)) (ad_keys db) of
       None \<Rightarrow> (Inl KeyNotFound, db)
     | Some found \<Rightarrow>
         (let k = scanKey db [] found
          in case key_Status k now of
               StatusRevoked \<Rightarrow> (Inl KeyRevoked, db)
             | StatusExpired \<Rightarrow> (Inl KeyExpired, db)
             | StatusActive \<Rightarrow>
                 (case Resolve (Key (ky_ID k)) db of
                    Inl e \<Rightarrow> (Inl e, db)
                  | Inr access \<Rightarrow>
                      (Inr \<lparr>p_ID = ''key:'' @ ky_ID k, p_DisplayName = ky_Name k, p_RoleID = ky_RoleID k,
                         p_RoleName = rs_RoleName access, p_Permissions = rs_Permissions access,
                         p_Grants = rs_Grants access, p_TokenID = ky_ID k, p_Pending = False\<rparr>,
                       touch k now db))))"

text \<open>
  The static credentials of the configuration (\<open>internal/auth/authentication.go\<close>): a token too short or
  without a name is refused, a name given twice too, and the last token that matches is the one answered.
\<close>

record static_token =
  st_ID :: string
  st_digest :: string
  st_Principal :: principal

datatype static_error = TokenNoID | TokenTooShort string | TokenPrincipal principal_error | DuplicateToken string

definition NewStaticToken :: "string \<Rightarrow> string \<Rightarrow> principal \<Rightarrow> static_error + static_token" where
  "NewStaticToken i plaintext p =
    (if TrimSpace i = '''' then Inl TokenNoID
     else if length plaintext < 32 then Inl (TokenTooShort i)
     else (let p1 = p\<lparr>p_TokenID := i\<rparr>
           in case Validate_principal (Some p1) of
                Some e \<Rightarrow> Inl (TokenPrincipal e)
              | None \<Rightarrow> Inr \<lparr>st_ID = i, st_digest = digest plaintext, st_Principal = p1\<rparr>))"

fun no_id_twice :: "string list \<Rightarrow> static_token list \<Rightarrow> static_error option" where
  "no_id_twice seen [] = None"
| "no_id_twice seen (t # ts) =
    (if st_ID t \<in> set seen then Some (DuplicateToken (st_ID t)) else no_id_twice (st_ID t # seen) ts)"

definition NewStaticVerifier :: "static_token list \<Rightarrow> static_error + static_token list" where
  "NewStaticVerifier tokens = (case no_id_twice [] tokens of Some e \<Rightarrow> Inl e | None \<Rightarrow> Inr tokens)"

definition StaticVerifier_Verify :: "static_token list \<Rightarrow> string \<Rightarrow> access_error + principal" where
  "StaticVerifier_Verify tokens token =
    (if token = '''' then Inl Unauthenticated
     else case fold (\<lambda>t matched. if st_digest t = digest token then Some t else matched) tokens None of
       None \<Rightarrow> Inl Unauthenticated
     | Some t \<Rightarrow> Inr (st_Principal t))"

text \<open>The static tokens are tried first; \<open>hasStore\<close> says whether there is a key store.\<close>

definition Verifier_Verify ::
  "(string \<Rightarrow> access_error + principal) option \<Rightarrow> bool \<Rightarrow> time \<Rightarrow> string \<Rightarrow> access_db
     \<Rightarrow> (access_error + principal) \<times> access_db" where
  "Verifier_Verify static hasStore now token db =
    (case map_option (\<lambda>f. f token) static of
       Some (Inr p) \<Rightarrow> (Inr p, db)
     | _ \<Rightarrow>
         if \<not> hasStore then (Inl Unauthenticated, db)
         else case key_Verify now token db of
           (Inl e, db') \<Rightarrow> (Inl Unauthenticated, db')
         | (Inr p, db') \<Rightarrow> (Inr p, db'))"

definition Verifier_Scheme :: "string option \<Rightarrow> string" where
  "Verifier_Scheme static = (case static of None \<Rightarrow> ''key'' | Some s \<Rightarrow> s @ ''+key'')"

end
