(* ===== verification/Access_Rows.thy ===== *)
theory Access_Rows
  imports Pending_Links Api_Keys
begin

text \<open>
  The access tables as a state machine of their rows: every transaction of the roles, groups, keys and
  accounts stores is a sequence of these elementary changes. \<open>mild\<close> ones leave every administrator an
  administrator; \<open>harsh\<close> ones may not, and the code runs its guard after them. The invariant of the
  tables is proved once, on the elementary changes.
\<close>

section \<open>Elementary changes\<close>

definition usable :: "string \<Rightarrow> bool" where
  "usable hash \<longleftrightarrow> hash \<noteq> NoPassword \<and> hash \<noteq> ''''"

definition user_exists :: "access_db \<Rightarrow> string \<Rightarrow> bool" where
  "user_exists db uid \<longleftrightarrow> uid \<in> us_id ` set (ad_users db)"

definition link_ok :: "access_db \<Rightarrow> link_row \<Rightarrow> bool" where
  "link_ok db l \<longleftrightarrow> user_exists db (li_user_id l) \<and> provider_Valid (li_provider l)"

definition key_exists :: "access_db \<Rightarrow> string \<Rightarrow> bool" where
  "key_exists db kid \<longleftrightarrow> kid \<in> ke_id ` set (ad_keys db)"

definition group_exists :: "access_db \<Rightarrow> string \<Rightarrow> bool" where
  "group_exists db gid \<longleftrightarrow> gid \<in> gr_id ` set (ad_groups db)"

definition identity_free :: "access_db \<Rightarrow> identity_row \<Rightarrow> bool" where
  "identity_free db i \<longleftrightarrow> provider_Valid (ui_provider i) \<and>
     (\<forall>r\<in>set (ad_identities db). \<not> (ui_provider r = ui_provider i
        \<and> (ui_subject r = ui_subject i \<or> ui_user_id r = ui_user_id i)))"

text \<open>What an update of an account never touches, and what it never touches while mild.\<close>

definition keeps_account :: "(user_row \<Rightarrow> user_row) \<Rightarrow> bool" where
  "keeps_account f \<longleftrightarrow> (\<forall>u. us_id (f u) = us_id u \<and> us_email (f u) = us_email u
     \<and> us_password_hash (f u) = us_password_hash u \<and> us_status (f u) = us_status u
     \<and> us_invite_provider (f u) = us_invite_provider u)"

definition keeps_rights :: "(user_row \<Rightarrow> user_row) \<Rightarrow> bool" where
  "keeps_rights f \<longleftrightarrow> (\<forall>u. us_role_id (f u) = us_role_id u \<and> us_disabled (f u) = us_disabled u)"

definition keeps_key :: "(key_row \<Rightarrow> bool) \<Rightarrow> (key_row \<Rightarrow> key_row) \<Rightarrow> bool" where
  "keeps_key p f \<longleftrightarrow> (\<forall>k. p k \<longrightarrow> ke_id (f k) = ke_id k \<and> (ke_revoked_at k \<noteq> None \<longrightarrow> ke_revoked_at (f k) = ke_revoked_at k)
     \<and> ((ke_previous_secret_hash k = None) = (ke_previous_until k = None)
          \<longrightarrow> (ke_previous_secret_hash (f k) = None) = (ke_previous_until (f k) = None)))"

definition well_shaped :: "access_db \<Rightarrow> member_row \<Rightarrow> bool" where
  "well_shaped db m \<longleftrightarrow> group_exists db (gm_group_id m) \<and>
     (case (gm_user_id m, gm_key_id m) of
        (Some u, None) \<Rightarrow> user_exists db u
      | (None, Some k) \<Rightarrow> key_exists db k
      | _ \<Rightarrow> False)"

definition member_key :: "member_row \<Rightarrow> string \<times> string option \<times> string option" where
  "member_key m = (gm_group_id m, gm_user_id m, gm_key_id m)"

inductive mild :: "access_db \<Rightarrow> access_db \<Rightarrow> bool" where
  audited: "mild db (db\<lparr>ad_db := d\<rparr>)"
| role_added: "\<not> role_Exists db (ro_id r) \<Longrightarrow> mild db (db\<lparr>ad_roles := ad_roles db @ [r]\<rparr>)"
| role_dropped: "mild db (db\<lparr>ad_roles :=
    filter (\<lambda>r. \<not> (ro_id r = rid \<and> \<not> ro_builtin r \<and> \<not> role_held db rid)) (ad_roles db)\<rparr>)"
| builtin_reapplied: "r \<in> set BuiltinRoles \<Longrightarrow> mild db (db\<lparr>ad_roles :=
    update_where (\<lambda>q. ro_id q = r_ID r) (reapply_builtin (builtin_row now r)) (ad_roles db)\<rparr>)"
| group_added: "\<not> group_exists db (gr_id g) \<Longrightarrow> gr_role_id g = '''' \<or> role_Exists db (gr_role_id g) \<Longrightarrow>
    mild db (db\<lparr>ad_groups := ad_groups db @ [g]\<rparr>)"
| member_added: "well_shaped db m \<Longrightarrow> member_key m \<notin> member_key ` set (ad_members db) \<Longrightarrow>
    mild db (db\<lparr>ad_members := ad_members db @ [m]\<rparr>)"
| key_left: "mild db (without_member gid (Key kid) db)"
| key_added: "\<not> key_exists db (ke_id k) \<Longrightarrow> role_Exists db (ke_role_id k) \<Longrightarrow>
    ke_previous_secret_hash k = None \<Longrightarrow> ke_previous_until k = None \<Longrightarrow>
    secrets_unique (ad_keys db @ [k]) = None \<Longrightarrow> mild db (db\<lparr>ad_keys := ad_keys db @ [k]\<rparr>)"
| keys_updated: "keeps_key p f \<Longrightarrow> (\<And>k. p k \<Longrightarrow> ke_role_id (f k) = ke_role_id k \<or> role_Exists db (ke_role_id (f k))) \<Longrightarrow>
    secrets_unique (update_where p f (ad_keys db)) = None \<Longrightarrow>
    mild db (db\<lparr>ad_keys := update_where p f (ad_keys db)\<rparr>)"
| user_added: "\<not> user_exists db (us_id u) \<Longrightarrow> us_email u \<notin> us_email ` set (ad_users db) \<Longrightarrow>
    role_Exists db (us_role_id u) \<Longrightarrow> status_Valid (us_status u) \<Longrightarrow>
    (us_invite_provider u \<noteq> '''' \<and> us_password_hash u = NoPassword)
      \<or> (us_invite_provider u = '''' \<and> usable (us_password_hash u)) \<Longrightarrow>
    mild db (db\<lparr>ad_users := ad_users db @ [u]\<rparr>)"
| user_joined: "\<not> user_exists db (us_id u) \<Longrightarrow> us_email u \<notin> us_email ` set (ad_users db) \<Longrightarrow>
    role_Exists db (us_role_id u) \<Longrightarrow> status_Valid (us_status u) \<Longrightarrow> us_invite_provider u = '''' \<Longrightarrow>
    ui_user_id i = us_id u \<Longrightarrow> identity_free db i \<Longrightarrow>
    mild db (db\<lparr>ad_users := ad_users db @ [u], ad_identities := ad_identities db @ [i]\<rparr>)"
| user_touched: "keeps_account f \<Longrightarrow> keeps_rights f \<Longrightarrow>
    mild db (db\<lparr>ad_users := update_where p f (ad_users db)\<rparr>)"
| password_set: "usable hash \<Longrightarrow> mild db (db\<lparr>ad_users := update_where p
    (\<lambda>u. u\<lparr>us_password_hash := hash, us_invite_provider := '''', us_invite_expires_at := None,
          us_updated_at := now\<rparr>) (ad_users db)\<rparr>)"
| approved: "mild db (db\<lparr>ad_users := update_where p
    (\<lambda>u. u\<lparr>us_status := StatusActiveUser, us_updated_at := now\<rparr>) (ad_users db)\<rparr>)"
| invited: "provider_Valid pr \<Longrightarrow> mild db (db\<lparr>ad_users := update_where
    (\<lambda>u. us_id u = uid \<and> us_password_hash u = NoPassword \<and> \<not> us_disabled u \<and> \<not> has_identity db (us_id u))
    (\<lambda>u. u\<lparr>us_invite_provider := pr, us_invite_expires_at := e, us_updated_at := now\<rparr>) (ad_users db)\<rparr>)"
| invitation_taken: "user_exists db uid \<Longrightarrow> ui_user_id i = uid \<Longrightarrow> identity_free db i \<Longrightarrow>
    (\<And>u. p u \<Longrightarrow> us_id u = uid) \<Longrightarrow>
    mild db (db\<lparr>ad_users := update_where p
      (\<lambda>u. u\<lparr>us_invite_provider := '''', us_invite_expires_at := None, us_updated_at := now\<rparr>) (ad_users db),
      ad_identities := ad_identities db @ [i]\<rparr>)"
| identity_added: "user_exists db (ui_user_id i) \<Longrightarrow> identity_free db i \<Longrightarrow>
    mild db (db\<lparr>ad_identities := ad_identities db @ [i]\<rparr>)"
| identity_dropped: "(\<forall>u\<in>set (ad_users db). us_id u = uid \<longrightarrow> usable (us_password_hash u))
      \<or> (\<exists>i\<in>set (ad_identities db). ui_user_id i = uid \<and> ui_provider i \<noteq> pr) \<Longrightarrow>
    mild db (db\<lparr>ad_identities :=
      filter (\<lambda>i. \<not> (ui_user_id i = uid \<and> ui_provider i = pr)) (ad_identities db)\<rparr>)"
| pending_dropped: "(\<And>u. doomed u \<Longrightarrow> us_status u = StatusPendingUser) \<Longrightarrow>
    mild db (delete_users doomed db)"
| sessions_changed: "(\<And>s. s \<in> set ss \<Longrightarrow> user_exists db (se_user_id s)) \<Longrightarrow>
    mild db (db\<lparr>ad_sessions := ss\<rparr>)"
| links_changed: "(\<And>l. l \<in> set ls \<Longrightarrow> link_ok db l) \<Longrightarrow>
    mild db (db\<lparr>ad_links := ls\<rparr>)"

inductive harsh :: "access_db \<Rightarrow> access_db \<Rightarrow> bool" where
  role_edited: "(\<And>r. p r \<Longrightarrow> \<not> ro_builtin r) \<Longrightarrow> harsh db (db\<lparr>ad_roles :=
    update_where p (role_sets now name description perms) (ad_roles db)\<rparr>)"
| group_edited: "(\<And>r. rid = Some r \<Longrightarrow> r = '''' \<or> role_Exists db r) \<Longrightarrow> harsh db (db\<lparr>ad_groups :=
    update_where p (group_sets now name description rid gs) (ad_groups db)\<rparr>)"
| group_dropped: "harsh db (db\<lparr>ad_members := filter (\<lambda>m. gm_group_id m \<noteq> gid) (ad_members db),
    ad_groups := filter (\<lambda>g. gr_id g \<noteq> gid) (ad_groups db)\<rparr>)"
| member_left: "harsh db (without_member gid s db)"
| user_edited: "keeps_account f \<Longrightarrow> (\<And>u. p u \<Longrightarrow> us_role_id (f u) = us_role_id u \<or> role_Exists db (us_role_id (f u))) \<Longrightarrow>
    harsh db (db\<lparr>ad_users := update_where p f (ad_users db)\<rparr>)"
| user_dropped: "harsh db (delete_users doomed db)"

section \<open>The invariant of the tables\<close>

definition ids_ok :: "access_db \<Rightarrow> bool" where
  "ids_ok db \<longleftrightarrow> distinct (map ro_id (ad_roles db)) \<and> distinct (map us_id (ad_users db))
     \<and> distinct (map us_email (ad_users db)) \<and> distinct (map ke_id (ad_keys db))
     \<and> distinct (map gr_id (ad_groups db)) \<and> distinct (map member_key (ad_members db))
     \<and> secrets_unique (ad_keys db) = None"

definition builtins_ok :: "access_db \<Rightarrow> bool" where
  "builtins_ok db \<longleftrightarrow> (\<forall>b\<in>set BuiltinRoles. \<exists>r\<in>set (ad_roles db). ro_id r = r_ID b \<and> ro_builtin r
     \<and> ro_permissions_json r = marshal_permissions (r_Permissions b))"

definition account_ok :: "access_db \<Rightarrow> user_row \<Rightarrow> bool" where
  "account_ok db u \<longleftrightarrow> status_Valid (us_status u) \<and> role_Exists db (us_role_id u)
     \<and> (us_invite_provider u \<noteq> '''' \<longrightarrow> us_password_hash u = NoPassword)
     \<and> (us_invite_provider u = '''' \<longrightarrow> usable (us_password_hash u) \<or> has_identity db (us_id u))"

definition key_ok :: "access_db \<Rightarrow> key_row \<Rightarrow> bool" where
  "key_ok db k \<longleftrightarrow> (ke_revoked_at k = None \<longrightarrow> role_Exists db (ke_role_id k))
     \<and> (ke_previous_secret_hash k = None) = (ke_previous_until k = None)"

definition group_ok :: "access_db \<Rightarrow> group_row \<Rightarrow> bool" where
  "group_ok db g \<longleftrightarrow> gr_role_id g = '''' \<or> role_Exists db (gr_role_id g)"

definition identities_ok :: "access_db \<Rightarrow> bool" where
  "identities_ok db \<longleftrightarrow>
     (\<forall>i\<in>set (ad_identities db). user_exists db (ui_user_id i) \<and> provider_Valid (ui_provider i))
     \<and> distinct (map (\<lambda>i. (ui_provider i, ui_subject i)) (ad_identities db))
     \<and> distinct (map (\<lambda>i. (ui_provider i, ui_user_id i)) (ad_identities db))"

definition owners_ok :: "access_db \<Rightarrow> bool" where
  "owners_ok db \<longleftrightarrow> (\<forall>s\<in>set (ad_sessions db). user_exists db (se_user_id s))
     \<and> (\<forall>l\<in>set (ad_links db). link_ok db l)"

definition access_ok :: "access_db \<Rightarrow> bool" where
  "access_ok db \<longleftrightarrow> ids_ok db \<and> builtins_ok db \<and> (\<forall>u\<in>set (ad_users db). account_ok db u)
     \<and> (\<forall>k\<in>set (ad_keys db). key_ok db k) \<and> (\<forall>g\<in>set (ad_groups db). group_ok db g)
     \<and> (\<forall>m\<in>set (ad_members db). well_shaped db m) \<and> identities_ok db \<and> owners_ok db"

section \<open>Every elementary change keeps it\<close>

lemma role_Exists_iff: "role_Exists db rid \<longleftrightarrow> rid \<in> ro_id ` set (ad_roles db)"
  by (auto simp: role_Exists_def count_where_def filter_empty_conv)

lemma has_identity_iff: "has_identity db uid \<longleftrightarrow> uid \<in> ui_user_id ` set (ad_identities db)"
  by (auto simp: has_identity_def list_ex_iff)

lemma map_update_where_same:
  "(\<And>x. p x \<Longrightarrow> key (f x) = key x) \<Longrightarrow> map key (update_where p f xs) = map key xs"
  by (induction xs) auto

lemma image_update_where_same:
  "(\<And>x. p x \<Longrightarrow> key (f x) = key x) \<Longrightarrow> key ` set (update_where p f xs) = key ` set xs"
  by (metis list.set_map map_update_where_same)

lemma distinct_map_filter_key: "distinct (map key xs) \<Longrightarrow> distinct (map key (filter p xs))"
  by (simp add: distinct_map_filter)

lemma sets_fields [simp]:
  "ro_id (role_sets now n d ps r) = ro_id r" "ro_builtin (role_sets now n d ps r) = ro_builtin r"
  "gr_id (group_sets now n d rid gs g) = gr_id g"
  "gr_role_id (group_sets now n d rid gs g) = (case rid of None \<Rightarrow> gr_role_id g | Some r \<Rightarrow> r)"
  by (auto simp: role_sets_def group_sets_def set_field_def split: option.splits)

lemma reapply_fields [simp]: "ro_id (reapply_builtin new old) = ro_id old"
  by (simp add: reapply_builtin_def)

lemma delete_users_tables [simp]:
  "ad_roles (delete_users d db) = ad_roles db" "ad_keys (delete_users d db) = ad_keys db"
  "ad_groups (delete_users d db) = ad_groups db" "ad_db (delete_users d db) = ad_db db"
  "ad_users (delete_users d db) = filter (\<lambda>u. \<not> d u) (ad_users db)"
  by (simp_all add: delete_users_def Let_def)

lemma without_member_tables [simp]:
  "ad_roles (without_member g s db) = ad_roles db" "ad_keys (without_member g s db) = ad_keys db"
  "ad_groups (without_member g s db) = ad_groups db" "ad_db (without_member g s db) = ad_db db"
  "ad_users (without_member g s db) = ad_users db" "ad_sessions (without_member g s db) = ad_sessions db"
  "ad_links (without_member g s db) = ad_links db"
  "ad_identities (without_member g s db) = ad_identities db"
  by (simp_all add: without_member_def)

lemmas keeps_simps = keeps_account_def keeps_rights_def keeps_key_def

text \<open>A role that something holds stays.\<close>

lemma mild_role_Exists:
  assumes "mild db db'" and "role_Exists db rid" and "role_held db rid"
  shows "role_Exists db' rid"
  using assms(1)
proof (cases rule: mild.cases)
  case (builtin_reapplied r now)
  then show ?thesis using assms(2) by (simp add: role_Exists_iff image_update_where_same)
qed (use assms(2,3) in \<open>auto simp: role_Exists_iff\<close>)

lemma harsh_role_Exists: "harsh db db' \<Longrightarrow> role_Exists db' rid = role_Exists db rid"
  by (induction rule: harsh.induct) (auto simp: role_Exists_iff image_update_where_same)

lemma secrets_unique_iff:
  "secrets_unique ks = None \<longleftrightarrow> unique_keys (map (\<lambda>k. Some (ke_secret_hash k)) ks)
     \<and> unique_keys (map ke_previous_secret_hash ks)"
  by (simp add: secrets_unique_def)

lemma mild_ids_ok:
  assumes "ids_ok db" and "mild db db'"
  shows "ids_ok db'"
  using assms(2)
proof (cases rule: mild.cases)
  case (builtin_reapplied r now)
  then show ?thesis using assms(1) by (simp add: ids_ok_def map_update_where_same)
next
  case (keys_updated p f)
  then show ?thesis using assms(1) by (simp add: ids_ok_def map_update_where_same keeps_simps)
next
  case (user_touched f p)
  then show ?thesis using assms(1) by (simp add: ids_ok_def map_update_where_same keeps_simps)
next
  case (pending_dropped doomed)
  then show ?thesis using assms(1)
    by (simp add: ids_ok_def delete_users_def Let_def distinct_map_filter_key)
qed (use assms(1) in \<open>auto simp: ids_ok_def map_update_where_same role_Exists_iff user_exists_def
      key_exists_def group_exists_def distinct_map_filter_key without_member_def\<close>)

lemma harsh_ids_ok:
  assumes "ids_ok db" and "harsh db db'"
  shows "ids_ok db'"
  using assms(2)
proof (cases rule: harsh.cases)
  case (user_edited f p)
  then show ?thesis using assms(1) by (simp add: ids_ok_def map_update_where_same keeps_simps)
next
  case (user_dropped doomed)
  then show ?thesis using assms(1)
    by (simp add: ids_ok_def delete_users_def Let_def distinct_map_filter_key)
qed (use assms(1) in \<open>auto simp: ids_ok_def map_update_where_same distinct_map_filter_key
      without_member_def\<close>)

lemma map_ID_BuiltinRoles: "map r_ID BuiltinRoles = [RoleReader, RoleOperator, RoleAdministrator]"
  by (simp add: BuiltinRoles_def Let_def)

lemma BuiltinRoles_distinct: "distinct (map r_ID BuiltinRoles)"
  by (simp add: map_ID_BuiltinRoles RoleReader_def RoleOperator_def RoleAdministrator_def)

lemma BuiltinRoles_ids: "b \<in> set BuiltinRoles \<Longrightarrow> c \<in> set BuiltinRoles \<Longrightarrow> r_ID b = r_ID c \<Longrightarrow> b = c"
  using BuiltinRoles_distinct unfolding distinct_map by (metis inj_onD)

lemma builtins_okI:
  assumes "builtins_ok db"
    and "\<And>r b. r \<in> set (ad_roles db) \<Longrightarrow> b \<in> set BuiltinRoles \<Longrightarrow> ro_id r = r_ID b \<Longrightarrow> ro_builtin r \<Longrightarrow>
       ro_permissions_json r = marshal_permissions (r_Permissions b) \<Longrightarrow>
       \<exists>r'\<in>set (ad_roles db'). ro_id r' = r_ID b \<and> ro_builtin r'
         \<and> ro_permissions_json r' = marshal_permissions (r_Permissions b)"
  shows "builtins_ok db'"
  using assms unfolding builtins_ok_def by blast

lemma builtins_ok_mono:
  "builtins_ok db \<Longrightarrow> set (ad_roles db) \<subseteq> set (ad_roles db') \<Longrightarrow> builtins_ok db'"
  unfolding builtins_ok_def by blast

lemma mild_builtins_ok:
  assumes "builtins_ok db" and "mild db db'"
  shows "builtins_ok db'"
  using assms(2)
proof (cases rule: mild.cases)
  case (builtin_reapplied c now)
  show ?thesis
  proof (rule builtins_okI [OF assms(1)])
    fix r b assume r: "r \<in> set (ad_roles db)" "b \<in> set BuiltinRoles" "ro_id r = r_ID b" "ro_builtin r"
      "ro_permissions_json r = marshal_permissions (r_Permissions b)"
    let ?r = "if ro_id r = r_ID c then reapply_builtin (builtin_row now c) r else r"
    have "?r \<in> set (ad_roles db')" using r(1) builtin_reapplied(1) by (auto simp: set_update_where)
    moreover have "ro_id ?r = r_ID b \<and> ro_builtin ?r
        \<and> ro_permissions_json ?r = marshal_permissions (r_Permissions b)"
      using r builtin_reapplied(2) BuiltinRoles_ids [of b c]
      by (auto simp: reapply_builtin_def builtin_row_def)
    ultimately show "\<exists>r'\<in>set (ad_roles db'). ro_id r' = r_ID b \<and> ro_builtin r'
         \<and> ro_permissions_json r' = marshal_permissions (r_Permissions b)" by blast
  qed
next
  case (role_dropped rid)
  then show ?thesis by (intro builtins_okI [OF assms(1)]) fastforce
qed (use builtins_ok_mono [OF assms(1), of db'] in auto)

lemma harsh_builtins_ok:
  assumes "builtins_ok db" and "harsh db db'"
  shows "builtins_ok db'"
  using assms(2)
proof (cases rule: harsh.cases)
  case (role_edited p now name description perms)
  then show ?thesis by (intro builtins_okI [OF assms(1)]) (force simp: set_update_where)
qed (use builtins_ok_mono [OF assms(1), of db'] in auto)

section \<open>Accounts, keys, groups\<close>

lemma role_heldI:
  "u \<in> set (ad_users db) \<Longrightarrow> role_held db (us_role_id u)"
  "k \<in> set (ad_keys db) \<Longrightarrow> ke_revoked_at k = None \<Longrightarrow> role_held db (ke_role_id k)"
  "g \<in> set (ad_groups db) \<Longrightarrow> role_held db (gr_role_id g)"
  by (auto simp: role_held_def list_ex_iff)

lemma group_ok_mild:
  assumes "\<forall>g\<in>set (ad_groups db). group_ok db g" and "mild db db'"
  shows "\<forall>g\<in>set (ad_groups db'). group_ok db' g"
proof
  fix g assume g: "g \<in> set (ad_groups db')"
  show "group_ok db' g"
  proof (cases "g \<in> set (ad_groups db)")
    case True
    then show ?thesis
      using assms mild_role_Exists [OF assms(2), of "gr_role_id g"] role_heldI(3) [OF True]
      by (auto simp: group_ok_def)
  next
    case False
    with assms(2) g show ?thesis
      by (cases rule: mild.cases) (auto simp: group_ok_def role_Exists_iff)
  qed
qed

lemma group_ok_harsh:
  assumes "\<forall>g\<in>set (ad_groups db). group_ok db g" and "harsh db db'"
  shows "\<forall>g\<in>set (ad_groups db'). group_ok db' g"
  using assms(2)
proof (cases rule: harsh.cases)
  case (group_edited rid p now name description gs)
  have "group_ok db' (group_sets now name description rid gs g)" if "g \<in> set (ad_groups db)" for g
    using that assms(1) group_edited(2) harsh_role_Exists [OF assms(2)]
    by (cases rid) (auto simp: group_ok_def)
  moreover have "group_ok db' g" if "g \<in> set (ad_groups db)" for g
    using that assms(1) harsh_role_Exists [OF assms(2)] by (auto simp: group_ok_def)
  ultimately show ?thesis using group_edited(1) by (auto simp: set_update_where)
qed (use assms(1) harsh_role_Exists [OF assms(2)] in \<open>auto simp: group_ok_def\<close>)

lemma key_ok_mild:
  assumes "\<forall>k\<in>set (ad_keys db). key_ok db k" and "mild db db'"
  shows "\<forall>k\<in>set (ad_keys db'). key_ok db' k"
  using assms(2)
proof (cases rule: mild.cases)
  case (keys_updated p f)
  have "key_ok db' (f k)" if "p k" and k: "k \<in> set (ad_keys db)" for k
  proof -
    have ok: "key_ok db k" using assms(1) k by blast
    have "role_Exists db (ke_role_id (f k))" if "ke_revoked_at (f k) = None"
    proof -
      have "ke_revoked_at k = None"
        using that keys_updated(2) \<open>p k\<close> unfolding keeps_simps by metis
      then have "role_Exists db (ke_role_id k)" using ok by (simp add: key_ok_def)
      then show ?thesis using keys_updated(3) [OF \<open>p k\<close>] by metis
    qed
    then show ?thesis using ok keys_updated(1,2) \<open>p k\<close>
      by (auto simp: key_ok_def keeps_simps role_Exists_iff)
  qed
  moreover have "key_ok db' k" if "k \<in> set (ad_keys db)" for k
    using assms(1) that keys_updated(1) by (auto simp: key_ok_def role_Exists_iff)
  ultimately show ?thesis using keys_updated(1) by (auto simp: set_update_where)
next
  case (key_added k)
  then show ?thesis using assms(1) by (auto simp: key_ok_def role_Exists_iff)
next
  case (role_dropped rid)
  then show ?thesis
    using assms mild_role_Exists [OF assms(2)] role_heldI(2) by (auto simp: key_ok_def)
next
  case (builtin_reapplied r now)
  then show ?thesis
    using assms mild_role_Exists [OF assms(2)] role_heldI(2) by (auto simp: key_ok_def)
qed (use assms(1) in \<open>auto simp: key_ok_def role_Exists_iff\<close>)

lemma key_ok_harsh:
  assumes "\<forall>k\<in>set (ad_keys db). key_ok db k" and "harsh db db'"
  shows "\<forall>k\<in>set (ad_keys db'). key_ok db' k"
  using assms(2)
  by (cases rule: harsh.cases)
     (use assms(1) harsh_role_Exists [OF assms(2)] in \<open>auto simp: key_ok_def\<close>)

section \<open>Accounts and their credentials\<close>

lemma same_user:
  "ids_ok db \<Longrightarrow> u \<in> set (ad_users db) \<Longrightarrow> v \<in> set (ad_users db) \<Longrightarrow> us_id u = us_id v \<Longrightarrow> u = v"
  unfolding ids_ok_def distinct_map by (metis inj_onD)

lemma status_active_Valid [simp]: "status_Valid StatusActiveUser"
  by (simp add: status_Valid_def)

lemma provider_Valid_nonempty: "provider_Valid p \<Longrightarrow> p \<noteq> ''''"
  by (auto simp: provider_Valid_def ProviderGoogle_def ProviderGitHub_def ProviderEntra_def
      ProviderOIDC_def)

lemma gone_kept:
  assumes "ids_ok db" and "u \<in> set (ad_users db)" and "\<not> doomed u"
  shows "\<not> list_ex (\<lambda>v. us_id v = us_id u \<and> doomed v) (ad_users db)"
  using assms same_user [OF assms(1)] by (auto simp: list_ex_iff)

lemma has_identity_delete_users:
  assumes "ids_ok db" and "u \<in> set (ad_users db)" and "\<not> doomed u"
  shows "has_identity (delete_users doomed db) (us_id u) = has_identity db (us_id u)"
proof -
  have "list_ex (\<lambda>v. us_id v = us_id u \<and> doomed v) (ad_users db) = False"
    using gone_kept [of db u doomed] assms by simp
  then show ?thesis by (auto simp: has_identity_def delete_users_def Let_def list_ex_iff)
qed

lemma account_ok_cong:
  "us_status v = us_status u \<Longrightarrow> us_invite_provider v = us_invite_provider u \<Longrightarrow>
   us_password_hash v = us_password_hash u \<Longrightarrow> us_id v = us_id u \<Longrightarrow> role_Exists db' (us_role_id v) \<Longrightarrow>
   (has_identity db (us_id u) \<Longrightarrow> has_identity db' (us_id u)) \<Longrightarrow> account_ok db u \<Longrightarrow> account_ok db' v"
  by (auto simp: account_ok_def)

lemma account_ok_keep:
  "account_ok db u \<Longrightarrow> role_Exists db' (us_role_id u) \<Longrightarrow>
   (has_identity db (us_id u) \<Longrightarrow> has_identity db' (us_id u)) \<Longrightarrow> account_ok db' u"
  by (auto simp: account_ok_def)

lemma accounts_updated:
  assumes "\<forall>u\<in>set (ad_users db). account_ok db u"
    and "ad_users db' = update_where p f (ad_users db)"
    and "ad_roles db' = ad_roles db" and "set (ad_identities db) \<subseteq> set (ad_identities db')"
    and "\<And>u. u \<in> set (ad_users db) \<Longrightarrow> p u \<Longrightarrow> account_ok db u \<Longrightarrow> account_ok db' (f u)"
  shows "\<forall>u\<in>set (ad_users db'). account_ok db' u"
proof -
  have "account_ok db' u" if "u \<in> set (ad_users db)" for u
    using assms(1,3,4) that by (auto simp: account_ok_def role_Exists_iff has_identity_iff)
  then show ?thesis using assms by (auto simp: set_update_where)
qed

lemma accounts_updated_only:
  assumes "\<forall>u\<in>set (ad_users db). account_ok db u"
    and "db' = db\<lparr>ad_users := update_where p f (ad_users db)\<rparr>"
    and "\<And>u. u \<in> set (ad_users db) \<Longrightarrow> p u \<Longrightarrow> account_ok db u \<Longrightarrow> account_ok db' (f u)"
  shows "\<forall>u\<in>set (ad_users db'). account_ok db' u"
  by (rule accounts_updated [OF assms(1), where p = p and f = f]) (use assms(2,3) in auto)

lemma account_ok_mild:
  assumes "ids_ok db" and "\<forall>u\<in>set (ad_users db). account_ok db u" and "mild db db'"
  shows "\<forall>u\<in>set (ad_users db'). account_ok db' u"
  using assms(3)
proof (cases rule: mild.cases)
  case (user_touched f p)
  then show ?thesis
    by (intro accounts_updated_only [OF assms(2) user_touched(1)])
       (auto simp: account_ok_def keeps_simps role_Exists_iff has_identity_iff)
next
  case (password_set hash p now)
  then show ?thesis
    by (intro accounts_updated_only [OF assms(2) password_set(1)]) (auto simp: account_ok_def role_Exists_iff)
next
  case (approved p now)
  then show ?thesis
    by (intro accounts_updated_only [OF assms(2) approved(1)]) (auto simp: account_ok_def role_Exists_iff has_identity_iff)
next
  case (invited pr uid e now)
  show ?thesis using invited provider_Valid_nonempty [OF invited(2)]
    by (intro accounts_updated_only [OF assms(2) invited(1)])
       (auto simp: account_ok_def role_Exists_iff)
next
  case (invitation_taken uid i p now)
  then show ?thesis
    by (intro accounts_updated [OF assms(2), where p = p and f = "\<lambda>u. u\<lparr>us_invite_provider := [],
          us_invite_expires_at := None, us_updated_at := now\<rparr>"])
       (auto simp: account_ok_def role_Exists_iff has_identity_iff)
next
  case (identity_dropped uid pr)
  have "account_ok db' u" if u: "u \<in> set (ad_users db)" for u
  proof (cases "usable (us_password_hash u) \<or> us_id u \<noteq> uid")
    case True
    then have "usable (us_password_hash u) \<or> has_identity db' (us_id u) = has_identity db (us_id u)"
      using identity_dropped(1) by (auto simp: has_identity_def list_ex_iff)
    then show ?thesis using assms(2) u identity_dropped(1)
      by (auto simp: account_ok_def role_Exists_iff)
  next
    case False
    then have "has_identity db' (us_id u)" using u identity_dropped by (auto simp: has_identity_def list_ex_iff)
    then show ?thesis using assms(2) u identity_dropped(1) by (auto simp: account_ok_def role_Exists_iff)
  qed
  then show ?thesis using identity_dropped(1) by simp
next
  case (pending_dropped doomed)
  then show ?thesis
    using assms(2) has_identity_delete_users [OF assms(1)] by (auto simp: account_ok_def role_Exists_iff)
next
  case (role_dropped rid)
  then show ?thesis
    using assms mild_role_Exists [OF assms(3)] role_heldI(1) by (auto simp: account_ok_def has_identity_iff)
next
  case (builtin_reapplied r now)
  then show ?thesis
    using assms mild_role_Exists [OF assms(3)] role_heldI(1) by (auto simp: account_ok_def has_identity_iff)
qed (use assms(2) in \<open>auto simp: account_ok_def role_Exists_iff has_identity_iff\<close>)

lemma account_ok_harsh:
  assumes "ids_ok db" and "\<forall>u\<in>set (ad_users db). account_ok db u" and "harsh db db'"
  shows "\<forall>u\<in>set (ad_users db'). account_ok db' u"
  using assms(3)
proof (cases rule: harsh.cases)
  case (user_edited f p)
  have "account_ok db' (f u)" if "u \<in> set (ad_users db)" and "p u" for u
    using user_edited(1,2) user_edited(3) [OF that(2)] assms(2) that(1)
    by (auto simp: account_ok_def keeps_simps role_Exists_iff has_identity_iff)
  then show ?thesis by (intro accounts_updated_only [OF assms(2) user_edited(1)])
next
  case (user_dropped doomed)
  then show ?thesis
    using assms(2) has_identity_delete_users [OF assms(1)] by (auto simp: account_ok_def role_Exists_iff)
next
  case (role_edited p now name description perms)
  then show ?thesis
    using assms harsh_role_Exists [OF assms(3)] by (auto simp: account_ok_def has_identity_iff)
qed (use assms(2) in \<open>auto simp: account_ok_def role_Exists_iff has_identity_iff\<close>)

section \<open>Memberships, identities, owners\<close>

lemma subjects_kept:
  "mild db db' \<Longrightarrow> key_exists db k \<Longrightarrow> key_exists db' k"
  "mild db db' \<Longrightarrow> group_exists db g \<Longrightarrow> group_exists db' g"
  by (auto simp: key_exists_def group_exists_def image_update_where_same keeps_simps
      elim!: mild.cases)

lemma user_exists_update [simp]:
  "keeps_account f \<Longrightarrow> user_exists (db\<lparr>ad_users := update_where p f (ad_users db)\<rparr>) uid = user_exists db uid"
  by (simp add: user_exists_def image_update_where_same keeps_simps)

lemma user_kept:
  assumes "mild db db'" and "user_exists db uid"
    and "\<And>doomed. db' = delete_users doomed db \<Longrightarrow> \<not> list_ex (\<lambda>u. us_id u = uid \<and> doomed u) (ad_users db)"
  shows "user_exists db' uid"
  using assms(1)
proof (cases rule: mild.cases)
  case (pending_dropped doomed)
  then show ?thesis using assms(2,3) by (auto simp: user_exists_def list_ex_iff)
qed (use assms(2) in \<open>auto simp: user_exists_def image_update_where_same keeps_simps\<close>)

lemma well_shaped_mono:
  "well_shaped db m \<Longrightarrow> group_exists db' (gm_group_id m) \<Longrightarrow>
   (\<And>k. gm_key_id m = Some k \<Longrightarrow> key_exists db k \<Longrightarrow> key_exists db' k) \<Longrightarrow>
   (\<And>u. gm_user_id m = Some u \<Longrightarrow> user_exists db u \<Longrightarrow> user_exists db' u) \<Longrightarrow> well_shaped db' m"
  by (auto simp: well_shaped_def split: option.splits)

lemma members_ok_mild:
  assumes "\<forall>m\<in>set (ad_members db). well_shaped db m" and "mild db db'"
  shows "\<forall>m\<in>set (ad_members db'). well_shaped db' m"
proof
  fix m assume m: "m \<in> set (ad_members db')"
  have old: "well_shaped db m"
    using assms(2) m assms(1)
    by (cases rule: mild.cases) (auto simp: delete_users_def Let_def without_member_def)
  show "well_shaped db' m"
  proof (rule well_shaped_mono [OF old])
    show "group_exists db' (gm_group_id m)"
      using old subjects_kept(2) [OF assms(2)] by (simp add: well_shaped_def)
    show "user_exists db' u" if "gm_user_id m = Some u" and "user_exists db u" for u
    proof (rule user_kept [OF assms(2) that(2)])
      show "\<not> list_ex (\<lambda>v. us_id v = u \<and> doomed v) (ad_users db)" if "db' = delete_users doomed db" for doomed
        using m that \<open>gm_user_id m = Some u\<close> by (auto simp: delete_users_def Let_def)
    qed
  qed (use subjects_kept(1) [OF assms(2)] in auto)
qed

lemma members_shrink:
  assumes "\<forall>m\<in>set (ad_members db). well_shaped db m"
    and "\<And>m. m \<in> set (ad_members db') \<Longrightarrow> m \<in> set (ad_members db)"
    and "\<And>m. m \<in> set (ad_members db') \<Longrightarrow> group_exists db (gm_group_id m) \<Longrightarrow> group_exists db' (gm_group_id m)"
    and "\<And>k. key_exists db k \<Longrightarrow> key_exists db' k"
    and "\<And>u. user_exists db u \<Longrightarrow> user_exists db' u"
  shows "\<forall>m\<in>set (ad_members db'). well_shaped db' m"
proof
  fix m assume m: "m \<in> set (ad_members db')"
  then have old: "well_shaped db m" using assms(1,2) by blast
  then have "group_exists db' (gm_group_id m)" using assms(3) [OF m] by (simp add: well_shaped_def)
  then show "well_shaped db' m" by (rule well_shaped_mono [OF old]) (use assms(4,5) in auto)
qed

lemma members_ok_harsh:
  assumes "\<forall>m\<in>set (ad_members db). well_shaped db m" and "harsh db db'"
  shows "\<forall>m\<in>set (ad_members db'). well_shaped db' m"
  using assms(2)
proof (cases rule: harsh.cases)
  case (user_dropped doomed)
  show ?thesis
  proof
    fix m assume m: "m \<in> set (ad_members db')"
    have old: "well_shaped db m" using m assms(1) user_dropped by (auto simp: delete_users_def Let_def)
    show "well_shaped db' m"
      using m user_dropped
      by (intro well_shaped_mono [OF old])
         (use old in \<open>auto simp: well_shaped_def group_exists_def key_exists_def user_exists_def
            delete_users_def Let_def list_ex_iff\<close>)
  qed
next
  case (user_edited f p)
  have "well_shaped db' m" if "well_shaped db m" for m
    by (rule well_shaped_mono [OF that])
       (use that user_edited(1,2) in \<open>simp_all add: well_shaped_def group_exists_def key_exists_def\<close>)
  then show ?thesis using assms(1) user_edited(1) by simp
qed (rule members_shrink [OF assms(1)];
    auto simp: group_exists_def key_exists_def user_exists_def image_update_where_same without_member_def)+

lemma identities_ok_mild:
  assumes "identities_ok db" and "mild db db'"
  shows "identities_ok db'"
proof -
  have owners: "user_exists db' (ui_user_id i)" if "i \<in> set (ad_identities db')" for i
  proof (cases "i \<in> set (ad_identities db)")
    case True
    show ?thesis
    proof (rule user_kept [OF assms(2)])
      show "user_exists db (ui_user_id i)" using assms(1) True by (simp add: identities_ok_def)
      show "\<not> list_ex (\<lambda>u. us_id u = ui_user_id i \<and> doomed u) (ad_users db)"
        if "db' = delete_users doomed db" for doomed
        using \<open>i \<in> set (ad_identities db')\<close> that by (auto simp: delete_users_def Let_def)
    qed
  next
    case False
    with assms(2) that show ?thesis
      by (cases rule: mild.cases)
         (auto simp: user_exists_def image_update_where_same delete_users_def Let_def)
  qed
  show ?thesis
    using assms(2)
  proof (cases rule: mild.cases)
    case (pending_dropped doomed)
    then show ?thesis using assms(1) owners
      by (auto simp: identities_ok_def delete_users_def Let_def distinct_map_filter_key)
  qed (use assms(1) owners in \<open>auto simp: identities_ok_def identity_free_def distinct_map_filter_key\<close>)
qed

lemma identities_ok_harsh:
  assumes "identities_ok db" and "harsh db db'"
  shows "identities_ok db'"
  using assms(2)
proof (cases rule: harsh.cases)
  case (user_dropped doomed)
  then show ?thesis using assms(1)
    by (auto simp: identities_ok_def delete_users_def Let_def distinct_map_filter_key user_exists_def
        list_ex_iff)
qed (use assms(1) in \<open>auto simp: identities_ok_def user_exists_def image_update_where_same keeps_simps\<close>)

lemma owners_ok_mild:
  assumes "owners_ok db" and "mild db db'"
  shows "owners_ok db'"
  using assms(2)
proof (cases rule: mild.cases)
  case (pending_dropped doomed)
  then show ?thesis using assms(1)
    by (auto simp: owners_ok_def link_ok_def delete_users_def Let_def user_exists_def list_ex_iff)
qed (use assms(1) in \<open>auto simp: owners_ok_def link_ok_def user_exists_def image_update_where_same keeps_simps\<close>)

lemma owners_ok_harsh:
  assumes "owners_ok db" and "harsh db db'"
  shows "owners_ok db'"
  using assms(2)
proof (cases rule: harsh.cases)
  case (user_dropped doomed)
  then show ?thesis using assms(1)
    by (auto simp: owners_ok_def link_ok_def delete_users_def Let_def user_exists_def list_ex_iff)
qed (use assms(1) in \<open>auto simp: owners_ok_def link_ok_def user_exists_def image_update_where_same keeps_simps\<close>)

lemma access_okD:
  assumes "access_ok db"
  shows "ids_ok db" "builtins_ok db" "\<forall>u\<in>set (ad_users db). account_ok db u"
    "\<forall>k\<in>set (ad_keys db). key_ok db k" "\<forall>g\<in>set (ad_groups db). group_ok db g"
    "\<forall>m\<in>set (ad_members db). well_shaped db m" "identities_ok db" "owners_ok db"
  using assms by (simp_all add: access_ok_def)

lemma access_ok_mild:
  assumes "access_ok db" and "mild db db'"
  shows "access_ok db'"
proof -
  note d = access_okD [OF assms(1)]
  show ?thesis
    unfolding access_ok_def
    by (intro conjI mild_ids_ok [OF d(1) assms(2)]
        mild_builtins_ok [OF d(2) assms(2)]
        account_ok_mild [OF d(1) d(3) assms(2)]
        key_ok_mild [OF d(4) assms(2)]
        group_ok_mild [OF d(5) assms(2)]
        members_ok_mild [OF d(6) assms(2)]
        identities_ok_mild [OF d(7) assms(2)]
        owners_ok_mild [OF d(8) assms(2)])
qed

lemma access_ok_harsh:
  assumes "access_ok db" and "harsh db db'"
  shows "access_ok db'"
proof -
  note d = access_okD [OF assms(1)]
  show ?thesis
    unfolding access_ok_def
    by (intro conjI harsh_ids_ok [OF d(1) assms(2)]
        harsh_builtins_ok [OF d(2) assms(2)]
        account_ok_harsh [OF d(1) d(3) assms(2)]
        key_ok_harsh [OF d(4) assms(2)]
        group_ok_harsh [OF d(5) assms(2)]
        members_ok_harsh [OF d(6) assms(2)]
        identities_ok_harsh [OF d(7) assms(2)]
        owners_ok_harsh [OF d(8) assms(2)])
qed

end
