(* ===== verification/Access_Steps.thy ===== *)
theory Access_Steps
  imports Access_Rows
begin

text \<open>
  Every operation of the access stores is a sequence of elementary changes of the rows, and none of
  them leaves a host that had an administrator without one.
\<close>

section \<open>Administrators under mild changes\<close>

lemma CountAdministrators_pos:
  "CountAdministrators db > 0 \<longleftrightarrow> (\<exists>u\<in>set (ad_users db). administers db u)"
  by (auto simp: CountAdministrators_def count_where_def filter_empty_conv)

lemma builtin_row_permissions:
  assumes "access_ok db" and "r \<in> set (ad_roles db)" and "b \<in> set BuiltinRoles" and "ro_id r = r_ID b"
  shows "ro_permissions_json r = marshal_permissions (r_Permissions b)"
proof -
  obtain q where q: "q \<in> set (ad_roles db)" "ro_id q = r_ID b"
      "ro_permissions_json q = marshal_permissions (r_Permissions b)"
    using access_okD(2) [OF assms(1)] assms(3) unfolding builtins_ok_def by blast
  have "distinct (map ro_id (ad_roles db))" using access_okD(1) [OF assms(1)] by (simp add: ids_ok_def)
  then have "r = q" using assms(2,4) q(1,2) unfolding distinct_map by (metis inj_onD)
  then show ?thesis using q(3) by simp
qed

lemma mild_role_writes:
  assumes "access_ok db" and "mild db db'" and "role_held db rid"
    and "role_writes_access (ad_roles db) rid"
  shows "role_writes_access (ad_roles db') rid"
proof -
  obtain r where r: "r \<in> set (ad_roles db)" "ro_id r = rid"
      "json_extract_is (ro_permissions_json r) ''access'' ''write''"
    using assms(4) by (auto simp: role_writes_access_def list_ex_iff)
  show ?thesis
    using assms(2)
  proof (cases rule: mild.cases)
    case (builtin_reapplied b now)
    let ?r = "if ro_id r = r_ID b then reapply_builtin (builtin_row now b) r else r"
    have "?r \<in> set (ad_roles db')" using r(1) builtin_reapplied(1) by (auto simp: set_update_where)
    moreover have "ro_id ?r = rid \<and> json_extract_is (ro_permissions_json ?r) ''access'' ''write''"
      using r builtin_row_permissions [OF assms(1) r(1) builtin_reapplied(2)]
      by (cases "rid = r_ID b") (simp_all add: reapply_builtin_def builtin_row_def)
    ultimately show ?thesis unfolding role_writes_access_def list_ex_iff by blast
  qed (use r assms(3) in \<open>auto simp: role_writes_access_def list_ex_iff\<close>)
qed

lemma mild_group_writes:
  assumes "access_ok db" and "mild db db'" and "user_exists db' (us_id u)" and "group_writes_access db u"
    and "us_id v = us_id u"
  shows "group_writes_access db' v"
proof -
  obtain m g where m: "m \<in> set (ad_members db)" "gm_user_id m = Some (us_id u)"
    and g: "g \<in> set (ad_groups db)" "gr_id g = gm_group_id m"
      "role_writes_access (ad_roles db) (gr_role_id g)"
    using assms(4) by (auto simp: group_writes_access_def list_ex_iff)
  have w: "role_writes_access (ad_roles db') (gr_role_id g)"
    by (rule mild_role_writes [OF assms(1,2) role_heldI(3) [OF g(1)] g(3)])
  have "gm_key_id m = None"
    using access_okD(6) [OF assms(1)] m by (force simp: well_shaped_def split: option.splits)
  note key = this
  have "m \<in> set (ad_members db')"
    using assms(2)
  proof (cases rule: mild.cases)
    case (pending_dropped doomed)
    have "\<not> list_ex (\<lambda>v. us_id v = us_id u \<and> doomed v) (ad_users db)"
      using assms(3) pending_dropped(1) same_user [OF access_okD(1) [OF assms(1)]]
      by (auto simp: list_ex_iff user_exists_def) metis
    then show ?thesis using m pending_dropped(1) by (simp add: delete_users_def Let_def)
  qed (use m key in \<open>auto simp: without_member_def names_subject_def Key_def\<close>)
  moreover have "g \<in> set (ad_groups db')"
    using assms(2) g(1) by (cases rule: mild.cases) auto
  ultimately show ?thesis
    unfolding group_writes_access_def list_ex_iff using m(2) g(2) w assms(5) by metis
qed

lemma administers_as:
  assumes "access_ok db" and "mild db db'" and "u \<in> set (ad_users db)" and "administers db u"
    and "v \<in> set (ad_users db')" and "us_id v = us_id u" and "us_role_id v = us_role_id u"
    and "us_disabled v = us_disabled u" and "us_status v \<noteq> ''pending''" and "us_invite_provider v = ''''"
  shows "administers db' v"
proof -
  have "role_writes_access (ad_roles db') (us_role_id u)" if "role_writes_access (ad_roles db) (us_role_id u)"
    by (rule mild_role_writes [OF assms(1,2) role_heldI(1) [OF assms(3)] that])
  moreover have "group_writes_access db' v" if "group_writes_access db u"
    by (rule mild_group_writes [OF assms(1,2) _ that assms(6)])
       (use assms(5) assms(6) [symmetric] in \<open>simp add: user_exists_def\<close>)
  ultimately show ?thesis using assms unfolding administers_def by auto
qed

lemma mild_user_stays:
  assumes "access_ok db" and "mild db db'" and "u \<in> set (ad_users db)" and "administers db u"
  shows "\<exists>v\<in>set (ad_users db'). us_id v = us_id u \<and> us_role_id v = us_role_id u
     \<and> us_disabled v = us_disabled u \<and> us_status v \<noteq> ''pending'' \<and> us_invite_provider v = ''''"
proof -
  have u: "us_status u \<noteq> ''pending''" "us_invite_provider u = ''''"
    using assms(4) by (simp_all add: administers_def)
  have stays: ?thesis if "ad_users db' = update_where p f (ad_users db)"
    and "\<And>u. us_id (f u) = us_id u \<and> us_role_id (f u) = us_role_id u \<and> us_disabled (f u) = us_disabled u"
    and "p u \<Longrightarrow> us_status (f u) \<noteq> ''pending'' \<and> us_invite_provider (f u) = ''''" for p f
  proof -
    have "(if p u then f u else u) \<in> set (ad_users db')"
      using that(1) assms(3) by (auto simp: set_update_where)
    moreover have "us_status (if p u then f u else u) \<noteq> ''pending''
        \<and> us_invite_provider (if p u then f u else u) = ''''"
      using that(3) u by simp
    moreover have "us_id (if p u then f u else u) = us_id u
        \<and> us_role_id (if p u then f u else u) = us_role_id u
        \<and> us_disabled (if p u then f u else u) = us_disabled u"
      using that(2) [of u] by simp
    ultimately show ?thesis by blast
  qed
  show ?thesis
    using assms(2)
  proof (cases rule: mild.cases)
    case (user_touched f p)
    then show ?thesis using u by (intro stays [of p f]) (auto simp: keeps_simps)
  next
    case (password_set hash p now)
    then show ?thesis using u
      by (intro stays [of p "\<lambda>u. u\<lparr>us_password_hash := hash, us_invite_provider := '''',
            us_invite_expires_at := None, us_updated_at := now\<rparr>"]) auto
  next
    case (approved p now)
    then show ?thesis using u
      by (intro stays [of p "\<lambda>u. u\<lparr>us_status := StatusActiveUser, us_updated_at := now\<rparr>"])
         (auto simp: StatusActiveUser_def)
  next
    case (invited pr uid e now)
    have "usable (us_password_hash u) \<or> has_identity db (us_id u)"
      using access_okD(3) [OF assms(1)] assms(3) u(2) by (auto simp: account_ok_def)
    then have "\<not> (us_password_hash u = NoPassword \<and> \<not> has_identity db (us_id u))"
      by (auto simp: usable_def)
    then show ?thesis using u invited(1) assms(3) by (auto simp: set_update_where intro!: bexI [of _ u])
  next
    case (invitation_taken uid i p now)
    then show ?thesis using u
      by (intro stays [of p "\<lambda>u. u\<lparr>us_invite_provider := '''', us_invite_expires_at := None,
            us_updated_at := now\<rparr>"]) auto
  next
    case (pending_dropped doomed)
    then show ?thesis using u assms(3) by (auto simp: StatusPendingUser_def intro!: bexI [of _ u])
  qed (use u assms(3) in \<open>auto intro!: bexI [of _ u]\<close>)
qed

theorem mild_keeps_an_administrator:
  assumes "access_ok db" and "mild db db'" and "CountAdministrators db > 0"
  shows "CountAdministrators db' > 0"
proof -
  obtain u where u: "u \<in> set (ad_users db)" "administers db u"
    using assms(3) by (auto simp: CountAdministrators_pos)
  then show ?thesis
    using mild_user_stays [OF assms(1,2) u] administers_as [OF assms(1,2) u]
    unfolding CountAdministrators_pos by metis
qed

section \<open>Operations as sequences of changes\<close>

abbreviation milds :: "access_db \<Rightarrow> access_db \<Rightarrow> bool" where "milds \<equiv> mild\<^sup>*\<^sup>*"

text \<open>Harsh changes, then the guard, then mild ones: the shape of every transaction.\<close>

definition lawful :: "access_db \<Rightarrow> access_db \<Rightarrow> bool" where
  "lawful db db' \<longleftrightarrow> (\<exists>d. (sup mild harsh)\<^sup>*\<^sup>* db d
     \<and> (CountAdministrators db > 0 \<longrightarrow> CountAdministrators d > 0) \<and> milds d db')"

lemma milds_ok: "milds db db' \<Longrightarrow> access_ok db \<Longrightarrow> access_ok db'"
  by (induction rule: rtranclp_induct) (auto intro: access_ok_mild)

lemma milds_administered:
  assumes "milds db db'" and "access_ok db" and "CountAdministrators db > 0"
  shows "CountAdministrators db' > 0"
  using assms(1)
proof (induction rule: rtranclp_induct)
  case base
  then show ?case by (rule assms(3))
next
  case (step d d')
  have "access_ok d" by (rule milds_ok [OF step.hyps(1) assms(2)])
  then show ?case by (rule mild_keeps_an_administrator [OF _ step.hyps(2) step.IH])
qed

lemma any_ok: "(sup mild harsh)\<^sup>*\<^sup>* db db' \<Longrightarrow> access_ok db \<Longrightarrow> access_ok db'"
  by (induction rule: rtranclp_induct) (auto intro: access_ok_mild access_ok_harsh)

lemma lawful_milds: "milds db db' \<Longrightarrow> lawful db db'"
  unfolding lawful_def by (intro exI [of _ db]) auto

lemma lawful_refl [simp]: "lawful db db"
  by (rule lawful_milds) simp

lemma lawful_ok: "lawful db db' \<Longrightarrow> access_ok db \<Longrightarrow> access_ok db'"
  unfolding lawful_def by (auto intro: any_ok milds_ok)

lemma lawful_administered:
  "lawful db db' \<Longrightarrow> access_ok db \<Longrightarrow> CountAdministrators db > 0 \<Longrightarrow> CountAdministrators db' > 0"
  unfolding lawful_def by (metis any_ok milds_administered)

lemma guarded_harsh:
  assumes "harsh db d" and "GuardAdminRemains d (CountAdministrators db) e = Inr ()" and "milds d db'"
  shows "lawful db db'"
  unfolding lawful_def
proof (intro exI conjI)
  show "(sup mild harsh)\<^sup>*\<^sup>* db d" using assms(1) by (auto intro: r_into_rtranclp)
  show "CountAdministrators db > 0 \<longrightarrow> CountAdministrators d > 0"
    using assms(2) by (auto simp: GuardAdminRemains_def split: if_splits)
qed (rule assms(3))

lemma guarded_then:
  "GuardAdminRemains d (CountAdministrators db) e = Inr () \<Longrightarrow> harsh db d \<Longrightarrow> milds d db' \<Longrightarrow> lawful db db'"
  by (rule guarded_harsh)

lemma audit_mild: "Audit en now a db = Inr db' \<Longrightarrow> mild db db'"
  using Audit_Inr mild.audited by metis

lemma milds_audit: "milds db d \<Longrightarrow> Audit en now a d = Inr db' \<Longrightarrow> milds db db'"
  by (blast intro: rtranclp.rtrancl_into_rtrancl audit_mild)

lemma mild_audit: "mild db d \<Longrightarrow> Audit en now a d = Inr db' \<Longrightarrow> milds db db'"
  by (blast intro: milds_audit r_into_rtranclp)

lemma audit_milds: "Audit en now a db = Inr db' \<Longrightarrow> milds db db'"
  by (blast intro: audit_mild r_into_rtranclp)

lemma milds_mild: "milds db d \<Longrightarrow> mild d db' \<Longrightarrow> milds db db'"
  by (rule rtranclp.rtrancl_into_rtrancl)

lemma tx_lawful:
  assumes "\<And>x d. fn db = Inr (x, d) \<Longrightarrow> lawful db d"
  shows "lawful db (snd (access_tx fn db))"
  using assms by (auto simp: access_tx_state split: sum.splits)

section \<open>Roles\<close>

lemma upsert_builtin_mild:
  assumes "upsert_builtin now r db = Inr db'" and "r \<in> set BuiltinRoles"
  shows "mild db db'"
  using assms mild.builtin_reapplied [OF assms(2), of db now]
    mild.role_added [of db "builtin_row now r"]
  by (auto simp: upsert_builtin_def builtin_row_def split: if_splits)

lemma upsert_builtins_milds:
  "upsert_builtins now rs db = Inr db' \<Longrightarrow> set rs \<subseteq> set BuiltinRoles \<Longrightarrow> milds db db'"
proof (induction now rs db rule: upsert_builtins.induct)
  case (2 now r rs db)
  then obtain d where "upsert_builtin now r db = Inr d" "upsert_builtins now rs d = Inr db'"
    by (auto simp: and_then_Inr)
  with 2 show ?case
    by (auto intro: converse_rtranclp_into_rtranclp upsert_builtin_mild)
qed simp

lemma EnsureBuiltins_lawful: "lawful db (snd (EnsureBuiltins now db))"
  unfolding EnsureBuiltins_def
  by (rule tx_lawful) (auto simp: and_then_Inr intro: lawful_milds upsert_builtins_milds)

lemma role_create_lawful: "lawful db (snd (role_Create en now actor b req db))"
proof -
  have "lawful db (snd (access_tx (role_create_tx en t actor rid name d ps) db))" for t rid name d ps
  proof (rule tx_lawful)
    fix x db' assume "role_create_tx en t actor rid name d ps db = Inr (x, db')"
    then show "lawful db db'"
      by (auto simp: role_create_tx_def and_then_Inr Let_def split: if_splits
          intro!: lawful_milds elim!: mild_audit [rotated] intro: mild.role_added)
  qed
  then show ?thesis by (simp add: role_Create_def case_prod_beta split: sum.split)
qed

lemma role_update_lawful: "lawful db (snd (role_Update en now actor rid req db))"
proof -
  have "lawful db (snd (access_tx (role_update_tx en t actor rid name d ps) db))" for t name d ps
  proof (rule tx_lawful)
    fix x db' assume "role_update_tx en t actor rid name d ps db = Inr (x, db')"
    then show "lawful db db'"
      by (auto simp: role_update_tx_def and_then_Inr Let_def split: if_splits option.splits
          elim!: guarded_then elim: audit_milds intro: harsh.role_edited)
  qed
  then show ?thesis by (simp add: role_Update_def case_prod_beta split: sum.split)
qed

lemma role_delete_lawful: "lawful db (snd (role_Delete en now actor rid db))"
proof -
  have "lawful db (snd (access_tx (role_delete_tx en t actor rid) db))" for t
  proof (rule tx_lawful)
    fix x db' assume "role_delete_tx en t actor rid db = Inr (x, db')"
    then show "lawful db db'"
      by (auto simp: role_delete_tx_def and_then_Inr Let_def simp del: de_Morgan_conj not_not
          split: if_splits option.splits
          intro!: lawful_milds elim!: mild_audit [OF mild.role_dropped])
  qed
  then show ?thesis by (simp add: role_Delete_def)
qed

section \<open>Groups and memberships\<close>

lemma group_create_lawful: "lawful db (snd (group_Create en now actor b req db))"
proof -
  have "lawful db (snd (access_tx (group_create_tx en t actor gid name d rid gs) db))" for t gid name d rid gs
  proof (rule tx_lawful)
    fix x db' assume "group_create_tx en t actor gid name d rid gs db = Inr (x, db')"
    then show "lawful db db'"
      by (auto simp: group_create_tx_def and_then_Inr Let_def list_ex_iff split: if_splits
          intro!: lawful_milds elim!: mild_audit [rotated])
         (rule mild.group_added; auto simp: group_exists_def)+
  qed
  then show ?thesis by (simp add: group_Create_def case_prod_beta split: sum.split)
qed

lemma group_update_lawful: "lawful db (snd (group_Update en now actor gid req db))"
proof -
  have "lawful db (snd (access_tx (group_update_tx en t actor gid name d rid gs) db))" for t name d rid gs
  proof (rule tx_lawful)
    fix x db' assume *: "group_update_tx en t actor gid name d rid gs db = Inr (x, db')"
    then have role: "rid = Some r \<Longrightarrow> r = '''' \<or> role_Exists db r" for r
      by (auto simp: group_update_tx_def Let_def split: if_splits option.splits)
    from * obtain was where "find (\<lambda>g. gr_id g = gid) (ad_groups db) = Some was"
      by (cases "find (\<lambda>g. gr_id g = gid) (ad_groups db)") (simp_all add: group_update_tx_def)
    with * show "lawful db db'"
      by (auto simp: group_update_tx_def and_then_Inr Let_def split: if_splits
          elim!: guarded_then elim: audit_milds intro: harsh.group_edited [OF role])
  qed
  then show ?thesis by (simp add: group_Update_def case_prod_beta split: sum.split)
qed

lemma group_delete_lawful: "lawful db (snd (group_Delete en now actor gid db))"
  unfolding group_Delete_def
proof (rule tx_lawful)
  fix x db' assume "group_delete_tx en (UnixMilli now) actor gid db = Inr (x, db')"
  then show "lawful db db'"
    by (auto simp: group_delete_tx_def and_then_Inr Let_def split: option.splits
        intro!: guarded_harsh [OF harsh.group_dropped] elim: audit_milds)
qed

lemma AddMemberTx_milds:
  assumes "AddMemberTx actor gid s now db = Inr (added, db')"
  shows "milds db db'"
proof (cases added)
  case True
  with assms have *: "group_exists db gid" "subject_exists s db" "\<not> is_member gid s db" "kind_Valid (sub_Kind s)"
    "db' = db\<lparr>ad_members := ad_members db @ [member_row_of actor gid s now]\<rparr>"
    by (auto simp: AddMemberTx_def group_exists_def list_ex_iff and_then_Inr split: if_splits)
  have "mild db db'"
    unfolding *(5)
  proof (rule mild.member_added)
    show "well_shaped db (member_row_of actor gid s now)"
      using *(1,2,4) by (cases "sub_Kind s")
        (force simp: well_shaped_def member_row_of_def subject_exists_def user_exists_def key_exists_def
          list_ex_iff)+
    show "member_key (member_row_of actor gid s now) \<notin> member_key ` set (ad_members db)"
      using *(3,4) by (cases "sub_Kind s")
        (auto simp: member_key_def member_row_of_def is_member_def names_subject_def list_ex_iff)
  qed
  then show ?thesis by blast
next
  case False
  with assms show ?thesis by (auto simp: AddMemberTx_def and_then_Inr split: if_splits)
qed

lemma AddMemberAudited_milds:
  assumes "AddMemberAudited en actor gid s now db = Inr db'"
  shows "milds db db'"
proof -
  from assms obtain name added d where "AddMemberTx actor gid s now db = Inr (added, d)"
    and r: "(if \<not> added then Inr d else Audit en now
        (act ''group.member_added'' actor name ''add_member'' (member_detail gid s)) d) = Inr db'"
    by (auto simp: AddMemberAudited_def and_then_Inr)
  then have m: "milds db d" by (blast intro: AddMemberTx_milds)
  show ?thesis using r m by (cases added) (auto intro: milds_audit [OF m])
qed

lemma AddMembers_milds: "AddMembers en actor gids s now db = Inr db' \<Longrightarrow> milds db db'"
proof (induction en actor gids s now db rule: AddMembers.induct)
  case (2 en actor gid gids s now db)
  then show ?case by (auto simp: and_then_Inr intro: rtranclp_trans AddMemberAudited_milds)
qed simp

lemma AddMember_lawful: "lawful db (snd (AddMember en now actor gid s db))"
proof -
  have "lawful db (snd (access_tx (\<lambda>d. and_then (AddMemberAudited en actor gid s t d) (\<lambda>d. Inr ((), d))) db))" for t
    by (rule tx_lawful) (auto simp: and_then_Inr intro: lawful_milds AddMemberAudited_milds)
  then show ?thesis by (simp add: AddMember_def)
qed

lemma RemoveMember_lawful: "lawful db (snd (RemoveMember en now actor gid s db))"
proof -
  have "lawful db (snd (access_tx (remove_member_tx en t actor gid s) db))" for t
  proof (rule tx_lawful)
    fix x db' assume "remove_member_tx en t actor gid s db = Inr (x, db')"
    then show "lawful db db'"
      by (auto simp: remove_member_tx_def and_then_Inr Let_def split: if_splits
          intro!: guarded_harsh [OF harsh.member_left] elim: audit_milds)
  qed
  then show ?thesis by (simp add: RemoveMember_def)
qed

lemma RemoveMembers_milds:
  "RemoveMembers en actor gids s now db = Inr db' \<Longrightarrow> s = Key kid \<Longrightarrow> milds db db'"
proof (induction en actor gids s now db rule: RemoveMembers.induct)
  case (2 en actor gid gids s now db)
  then obtain d where d: "RemoveMemberAudited en actor gid s now db = Inr d" and "milds d db'"
    by (auto simp: and_then_Inr)
  have "milds db d"
    using d 2(3) mild_audit [OF mild.key_left]
    by (auto simp: RemoveMemberAudited_def and_then_Inr split: if_splits)
  then show ?case using \<open>milds d db'\<close> by (rule rtranclp_trans)
qed simp

section \<open>Keys\<close>

lemma with_keys_Inr: "with_keys ks db = Inr d \<longleftrightarrow> secrets_unique ks = None \<and> d = db\<lparr>ad_keys := ks\<rparr>"
  by (auto simp: with_keys_def split: option.splits)

lemma key_create_lawful: "lawful db (snd (key_Create en now actor b sb req db))"
proof -
  have "lawful db (snd (access_tx (key_create_tx en t actor kid name secret rid gs gids e) db))"
    for t kid name secret rid gs gids e
  proof (rule tx_lawful)
    fix x db' assume *: "key_create_tx en t actor kid name secret rid gs gids e db = Inr (x, db')"
    let ?k = "fresh_key kid name (digest secret) rid gs actor t (map_option UnixMilli e)"
    from * obtain d2 where h: "role_Exists db rid" "\<not> key_exists db kid"
        "secrets_unique (ad_keys db @ [?k]) = None"
      and d2: "AddMembers en actor gids (Key kid) t (db\<lparr>ad_keys := ad_keys db @ [?k]\<rparr>) = Inr d2"
      and a: "\<exists>a. Audit en t a d2 = Inr db'"
      by (auto simp: key_create_tx_def and_then_Inr with_keys_Inr key_exists_def list_ex_iff
          split: if_splits)
    have "mild db (db\<lparr>ad_keys := ad_keys db @ [?k]\<rparr>)"
      by (rule mild.key_added) (use h in \<open>auto simp: fresh_key_def\<close>)
    then have "milds db d2"
      using AddMembers_milds [OF d2] by (rule converse_rtranclp_into_rtranclp)
    then show "lawful db db'" using a milds_audit lawful_milds by blast
  qed
  then show ?thesis by (simp add: key_Create_def case_prod_beta Let_def split: sum.split)
qed

lemma key_rows_updated:
  "keeps_key p f \<Longrightarrow> (\<And>k. p k \<Longrightarrow> ke_role_id (f k) = ke_role_id k \<or> role_Exists db (ke_role_id (f k))) \<Longrightarrow>
   (\<And>k. p k \<Longrightarrow> ke_secret_hash (f k) = ke_secret_hash k) \<Longrightarrow>
   (\<And>k. p k \<Longrightarrow> ke_previous_secret_hash (f k) = ke_previous_secret_hash k \<or> ke_previous_secret_hash (f k) = None) \<Longrightarrow>
   secrets_unique (ad_keys db) = None \<Longrightarrow> mild db (db\<lparr>ad_keys := update_where p f (ad_keys db)\<rparr>)"
proof (rule mild.keys_updated)
  assume h: "\<And>k. p k \<Longrightarrow> ke_secret_hash (f k) = ke_secret_hash k"
    "\<And>k. p k \<Longrightarrow> ke_previous_secret_hash (f k) = ke_previous_secret_hash k \<or> ke_previous_secret_hash (f k) = None"
    "secrets_unique (ad_keys db) = None"
  have "unique_keys (map ke_previous_secret_hash (update_where p f ks))"
    if "unique_keys (map ke_previous_secret_hash ks)" for ks
    using that
  proof (induction ks)
    case (Cons k ks)
    have sub: "ke_previous_secret_hash ` set (update_where p f ks)
        \<subseteq> insert None (ke_previous_secret_hash ` set ks)"
    proof (rule image_subsetI)
      fix q assume "q \<in> set (update_where p f ks)"
      then obtain r where r: "r \<in> set ks" "q = (if p r then f r else r)"
        by (auto simp: set_update_where)
      show "ke_previous_secret_hash q \<in> insert None (ke_previous_secret_hash ` set ks)"
        using h(2) [of r] r by (cases "p r") auto
    qed
    let ?k = "if p k then f k else k"
    have "ke_previous_secret_hash ?k = None \<or> ke_previous_secret_hash ?k = ke_previous_secret_hash k"
      using h(2) [of k] by auto
    moreover have "ke_previous_secret_hash k = None
        \<or> ke_previous_secret_hash k \<notin> ke_previous_secret_hash ` set ks"
      using Cons.prems by simp
    ultimately have "ke_previous_secret_hash ?k = None
        \<or> ke_previous_secret_hash ?k \<notin> ke_previous_secret_hash ` set (update_where p f ks)"
      using sub by (metis insertE subsetD)
    moreover have "unique_keys (map ke_previous_secret_hash (update_where p f ks))"
      using Cons by simp
    ultimately show ?case by simp
  qed simp
  then show "secrets_unique (update_where p f (ad_keys db)) = None"
    using h(1,3) by (simp add: secrets_unique_iff map_update_where_same)
qed auto

lemma set_groups_milds:
  assumes "set_groups en actor kid wanted now db = Inr db'"
  shows "milds db db'"
proof (cases wanted)
  case None
  with assms show ?thesis by (simp add: set_groups_def)
next
  case (Some gids)
  with assms obtain d where "RemoveMembers en actor
      (filter (\<lambda>g. g \<notin> set gids) (map gp_ID (groups_Of (Key kid) db))) (Key kid) now db = Inr d"
    and "AddMembers en actor gids (Key kid) now d = Inr db'"
    by (auto simp: set_groups_def and_then_Inr)
  then show ?thesis using RemoveMembers_milds [OF _ refl] AddMembers_milds rtranclp_trans by metis
qed

lemma Audit_roles: "Audit en now a db = Inr db' \<Longrightarrow> ad_roles db' = ad_roles db"
  by (rule Audit_tables(1))

lemma AddMembers_roles: "AddMembers en actor gids s now db = Inr db' \<Longrightarrow> ad_roles db' = ad_roles db"
  by (induction en actor gids s now db rule: AddMembers.induct)
     (auto simp: and_then_Inr AddMemberAudited_def AddMemberTx_def dest!: Audit_roles split: if_splits)

lemma RemoveMembers_roles: "RemoveMembers en actor gids s now db = Inr db' \<Longrightarrow> ad_roles db' = ad_roles db"
  by (induction en actor gids s now db rule: RemoveMembers.induct)
     (auto simp: and_then_Inr RemoveMemberAudited_def dest!: Audit_roles split: if_splits)

lemma set_groups_roles: "set_groups en actor kid wanted now db = Inr db' \<Longrightarrow> ad_roles db' = ad_roles db"
  by (auto simp: set_groups_def and_then_Inr dest!: AddMembers_roles RemoveMembers_roles
      split: option.splits)

lemma key_update_lawful:
  assumes "access_ok db"
  shows "lawful db (snd (key_Update en now actor kid req db))"
proof -
  have "lawful db (snd (access_tx (key_update_tx en now actor kid name rid gs gids e) db))"
    for name rid gs gids e
  proof (rule tx_lawful)
    fix x db' assume *: "key_update_tx en now actor kid name rid gs gids e db = Inr (x, db')"
    let ?f = "key_sets (UnixMilli now) name rid gs e"
    let ?p = "\<lambda>k. ke_id k = kid \<and> ke_revoked_at k = None"
    from * obtain d where role: "\<And>r. rid = Some r \<Longrightarrow> role_Exists db r"
      and d: "set_groups en actor kid gids (UnixMilli now) db = Inr d"
      and r: "db' = d \<or> (\<exists>a. Audit en (UnixMilli now) a
                (d\<lparr>ad_keys := update_where ?p ?f (ad_keys d)\<rparr>) = Inr db')"
      by (auto simp: key_update_tx_def and_then_Inr Let_def split: if_splits option.splits)
    note m = set_groups_milds [OF d]
    have ok: "access_ok d" by (rule milds_ok [OF m assms])
    have same: "ad_roles d = ad_roles db" using d set_groups_roles by simp
    have "mild d (d\<lparr>ad_keys := update_where ?p ?f (ad_keys d)\<rparr>)"
    proof (rule key_rows_updated)
      show "keeps_key ?p ?f"
        by (auto simp: keeps_simps key_sets_def set_field_def split: option.splits)
      show "ke_role_id (?f k) = ke_role_id k \<or> role_Exists d (ke_role_id (?f k))" for k
        using role same by (auto simp: key_sets_def set_field_def role_Exists_iff split: option.splits)
      show "secrets_unique (ad_keys d) = None" using access_okD(1) [OF ok] by (simp add: ids_ok_def)
    qed (auto simp: key_sets_def set_field_def split: option.splits)
    then have "milds db (d\<lparr>ad_keys := update_where ?p ?f (ad_keys d)\<rparr>)" by (rule milds_mild [OF m])
    then show "lawful db db'" using r m milds_audit lawful_milds by blast
  qed
  then show ?thesis by (simp add: key_Update_def case_prod_beta split: sum.split)
qed

lemma rotate_lawful: "lawful db (snd (Rotate en now actor kid grace sb db))"
proof -
  have "lawful db (snd (access_tx (rotate_tx en now actor kid grace secret) db))" for secret
  proof (rule tx_lawful)
    fix x db' assume *: "rotate_tx en now actor kid grace secret db = Inr (x, db')"
    then obtain cur prev til where
        s: "secrets_unique (update_where (\<lambda>k. ke_id k = kid \<and> ke_revoked_at k = None \<and> ke_secret_hash k = cur)
             (\<lambda>k. k\<lparr>ke_secret_hash := digest secret, ke_previous_secret_hash := prev,
                   ke_previous_until := til, ke_updated_at := UnixMilli now\<rparr>) (ad_keys db)) = None"
      and p: "(prev = None) = (til = None)"
      and a: "\<exists>a. Audit en (UnixMilli now) a (db\<lparr>ad_keys := update_where
             (\<lambda>k. ke_id k = kid \<and> ke_revoked_at k = None \<and> ke_secret_hash k = cur)
             (\<lambda>k. k\<lparr>ke_secret_hash := digest secret, ke_previous_secret_hash := prev,
                   ke_previous_until := til, ke_updated_at := UnixMilli now\<rparr>) (ad_keys db)\<rparr>) = Inr db'"
      by (auto simp: rotate_tx_def and_then_Inr with_keys_Inr Let_def split: if_splits option.splits)
    have "mild db (db\<lparr>ad_keys := update_where
             (\<lambda>k. ke_id k = kid \<and> ke_revoked_at k = None \<and> ke_secret_hash k = cur)
             (\<lambda>k. k\<lparr>ke_secret_hash := digest secret, ke_previous_secret_hash := prev,
                   ke_previous_until := til, ke_updated_at := UnixMilli now\<rparr>) (ad_keys db)\<rparr>)"
      by (rule mild.keys_updated [OF _ _ s]) (use p in \<open>auto simp: keeps_simps\<close>)
    then show "lawful db db'" using a mild_audit lawful_milds by blast
  qed
  then show ?thesis by (simp add: Rotate_def Let_def case_prod_beta)
qed

lemma revoke_lawful:
  assumes "access_ok db"
  shows "lawful db (snd (Revoke en now actor kid db))"
  unfolding Revoke_def
proof (rule tx_lawful)
  fix x db'
  let ?p = "\<lambda>k. ke_id k = kid \<and> ke_revoked_at k = None"
  let ?f = "\<lambda>k. k\<lparr>ke_revoked_at := Some (UnixMilli now), ke_revoked_by := Some actor,
     ke_updated_at := UnixMilli now, ke_previous_secret_hash := None, ke_previous_until := None\<rparr>"
  assume "revoke_tx en (UnixMilli now) actor kid db = Inr (x, db')"
  then have a: "\<exists>a. Audit en (UnixMilli now) a (db\<lparr>ad_keys := update_where ?p ?f (ad_keys db)\<rparr>) = Inr db'"
    by (auto simp: revoke_tx_def and_then_Inr Let_def split: if_splits option.splits)
  have "mild db (db\<lparr>ad_keys := update_where ?p ?f (ad_keys db)\<rparr>)"
    by (rule key_rows_updated) (use access_okD(1) [OF assms] in \<open>auto simp: keeps_simps ids_ok_def\<close>)
  then show "lawful db db'" using a mild_audit lawful_milds by blast
qed

lemma touch_lawful: "access_ok db \<Longrightarrow> lawful db (touch k now db)"
proof -
  assume ok: "access_ok db"
  let ?p = "\<lambda>r. ke_id r = ky_ID k \<and> (case ke_last_used_at r of None \<Rightarrow> True
          | Some t \<Rightarrow> t \<le> UnixMilli (now - lastUsedResolution))"
  have "mild db (db\<lparr>ad_keys := update_where ?p
      (\<lambda>r. r\<lparr>ke_last_used_at := Some (UnixMilli now)\<rparr>) (ad_keys db)\<rparr>)"
    by (rule key_rows_updated) (use access_okD(1) [OF ok] in \<open>auto simp: keeps_simps ids_ok_def\<close>)
  then show ?thesis unfolding touch_def by (simp add: lawful_milds r_into_rtranclp)
qed

lemma key_verify_lawful: "access_ok db \<Longrightarrow> lawful db (snd (key_Verify now secret db))"
  by (auto simp: key_Verify_def Let_def touch_lawful split: option.splits key_status.splits sum.splits)

lemma verifier_lawful: "access_ok db \<Longrightarrow> lawful db (snd (Verifier_Verify static st now token db))"
  using key_verify_lawful [of db now token]
  by (auto simp: Verifier_Verify_def split: option.splits sum.splits prod.splits)

section \<open>Accounts\<close>

definition hashes_usable :: "host_env \<Rightarrow> bool" where
  "hashes_usable en \<longleftrightarrow> (\<forall>p h. en_bcrypt en p = Some h \<longrightarrow> usable h)"

lemma HashPassword_usable: "hashes_usable en \<Longrightarrow> HashPassword en p = Inr h \<Longrightarrow> usable h"
  by (auto simp: HashPassword_def hashes_usable_def split: option.splits)

lemma list_ex_key: "list_ex (\<lambda>r. key r = k) rs \<longleftrightarrow> k \<in> key ` set rs"
  by (auto simp: list_ex_iff)

lemma insert_user_Inr:
  "insert_user r db = Inr d \<longleftrightarrow> \<not> user_exists db (us_id r) \<and> us_email r \<notin> us_email ` set (ad_users db)
     \<and> d = db\<lparr>ad_users := ad_users db @ [r]\<rparr>"
  by (auto simp add: insert_user_def user_exists_def list_ex_key simp del: list_ex_iff)

lemma user_create_lawful:
  assumes "hashes_usable en"
  shows "lawful db (snd (user_Create en now now2 b req db))"
proof -
  have "lawful db (snd (access_tx (user_create_tx en t actor gids r) db))"
    if "status_Valid (us_status r)" and "(us_invite_provider r \<noteq> '''' \<and> us_password_hash r = NoPassword)
      \<or> (us_invite_provider r = '''' \<and> usable (us_password_hash r))" for t actor gids r
  proof (rule tx_lawful)
    fix x db' assume "user_create_tx en t actor gids r db = Inr (x, db')"
    then have h: "role_Exists db (us_role_id r)" "\<not> user_exists db (us_id r)"
        "us_email r \<notin> us_email ` set (ad_users db)"
      and m: "AddMembers en (if actor = '''' then ''system'' else actor) gids (User (us_id r)) t
         (db\<lparr>ad_users := ad_users db @ [r]\<rparr>) = Inr db'"
      by (auto simp: user_create_tx_def and_then_Inr insert_user_Inr split: if_splits)
    have "mild db (db\<lparr>ad_users := ad_users db @ [r]\<rparr>)"
      by (rule mild.user_added) (use h that in auto)
    then have "milds db db'" using AddMembers_milds [OF m] by (rule converse_rtranclp_into_rtranclp)
    then show "lawful db db'" by (rule lawful_milds)
  qed
  then show ?thesis
    using HashPassword_usable [OF assms]
    by (auto simp: user_Create_def case_prod_beta Let_def fresh_user_def create_credential_def
        status_Valid_def split: sum.split if_splits)
qed

lemma create_first_lawful:
  assumes "hashes_usable en" and "access_ok db"
  shows "lawful db (snd (CreateFirst en now b email password name db))"
proof -
  have "role_Exists db RoleAdministrator"
    using access_okD(2) [OF assms(2)] map_ID_BuiltinRoles
    by (auto simp: builtins_ok_def role_Exists_iff) (metis image_eqI list.set_intros list.set_map)
  then have "lawful db (snd (access_tx (create_first_tx r) db))"
    if "status_Valid (us_status r)" and "us_invite_provider r = ''''" and "usable (us_password_hash r)"
      and "us_role_id r = RoleAdministrator" for r
    by (intro tx_lawful lawful_milds r_into_rtranclp)
       (use that mild.user_added [of db r] in \<open>auto simp: create_first_tx_def and_then_Inr
          insert_user_Inr split: if_splits\<close>)
  then show ?thesis
    using HashPassword_usable [OF assms(1)]
    by (auto simp: CreateFirst_def case_prod_beta Let_def fresh_user_def split: sum.split)
qed

lemma reinvite_milds:
  assumes "reinvite now now2 uid pr db = Inr db'" and "\<And>p. pr = Some p \<Longrightarrow> provider_Valid p"
  shows "milds db db'"
  using assms by (auto simp: reinvite_def Let_def split: option.splits if_splits intro: mild.invited)

lemma end_sessions_mild: "access_ok db \<Longrightarrow> mild db (end_sessions uid db)"
  unfolding end_sessions_def
  by (rule mild.sessions_changed) (auto simp: access_ok_def owners_ok_def link_ok_def)

lemma user_update_lawful:
  assumes "access_ok db"
  shows "lawful db (snd (user_Update now now2 uid req db))"
proof -
  have "lawful db (snd (access_tx (user_update_tx t now2 uid name rid gs dis pr) db))"
    if pr: "\<And>p. pr = Some p \<Longrightarrow> provider_Valid p" for t name rid gs dis pr
  proof (rule tx_lawful)
    fix x db' assume *: "user_update_tx t now2 uid name rid gs dis pr db = Inr (x, db')"
    let ?f = "user_sets t name rid gs dis"
    from * obtain p d2 where role: "\<And>r. rid = Some r \<Longrightarrow> role_Exists db r"
      and g: "GuardAdminRemains (db\<lparr>ad_users := update_where p ?f (ad_users db)\<rparr>)
                (CountAdministrators db) UserLastAdmin = Inr ()"
      and d2: "reinvite t now2 uid pr (db\<lparr>ad_users := update_where p ?f (ad_users db)\<rparr>) = Inr d2"
      and r: "db' = d2 \<or> db' = end_sessions uid d2"
      by (auto simp: user_update_tx_def and_then_Inr Let_def split: if_splits option.splits)
    have h: "harsh db (db\<lparr>ad_users := update_where p ?f (ad_users db)\<rparr>)"
    proof (rule harsh.user_edited)
      show "keeps_account ?f"
        by (auto simp: keeps_simps user_sets_def set_field_def split: option.splits)
      show "us_role_id (?f u) = us_role_id u \<or> role_Exists db (us_role_id (?f u))" for u
        using role by (auto simp: user_sets_def set_field_def split: option.splits)
    qed
    have m: "milds (db\<lparr>ad_users := update_where p ?f (ad_users db)\<rparr>) d2"
      by (rule reinvite_milds [OF d2 pr])
    have "access_ok d2" by (rule milds_ok [OF m access_ok_harsh [OF assms h]])
    then have "milds (db\<lparr>ad_users := update_where p ?f (ad_users db)\<rparr>) db'"
      using r m end_sessions_mild milds_mild by blast
    then show "lawful db db'" by (rule guarded_harsh [OF h g])
  qed
  note step = this
  show ?thesis
    by (auto simp: user_Update_def case_prod_beta split: sum.split option.splits if_splits
        intro!: step)
qed

lemma set_password_lawful:
  assumes "access_ok db" and "hashes_usable en"
  shows "lawful db (snd (SetPassword en now uid password db))"
proof -
  have "lawful db (snd (access_tx (set_password_tx t uid hash) db))" if "usable hash" for t hash
  proof (rule tx_lawful)
    fix x db' assume "set_password_tx t uid hash db = Inr (x, db')"
    then have r: "db' = end_sessions uid (db\<lparr>ad_users := update_where (\<lambda>u. us_id u = uid)
       (\<lambda>u. u\<lparr>us_password_hash := hash, us_invite_provider := '''', us_invite_expires_at := None,
             us_updated_at := t\<rparr>) (ad_users db)\<rparr>)"
      by (auto simp: set_password_tx_def split: if_splits)
    note m = mild.password_set [OF that, of db "\<lambda>u. us_id u = uid" t]
    have "milds db db'"
      unfolding r
      by (rule milds_mild [OF r_into_rtranclp [of mild, OF m]
            end_sessions_mild [OF access_ok_mild [OF assms(1) m]]])
    then show "lawful db db'" by (rule lawful_milds)
  qed
  then show ?thesis using HashPassword_usable [OF assms(2)]
    by (auto simp: SetPassword_def split: sum.split)
qed

lemma delete_user_explicit:
  assumes "user_exists db uid"
  shows "delete_users (\<lambda>u. us_id u = uid) (db\<lparr>ad_sessions := filter (\<lambda>s. se_user_id s \<noteq> uid) (ad_sessions db),
      ad_identities := filter (\<lambda>i. ui_user_id i \<noteq> uid) (ad_identities db),
      ad_links := filter (\<lambda>l. li_user_id l \<noteq> uid) (ad_links db),
      ad_members := filter (\<lambda>m. gm_user_id m \<noteq> Some uid) (ad_members db)\<rparr>)
    = delete_users (\<lambda>u. us_id u = uid) db"
proof -
  have "list_ex (\<lambda>u. us_id u = x \<and> us_id u = uid) (ad_users db) \<longleftrightarrow> x = uid" for x
    using assms by (auto simp: user_exists_def list_ex_iff)
  then show ?thesis
    by (auto simp: delete_users_def Let_def conj_commute intro!: filter_cong split: option.splits)
qed

lemma user_delete_lawful: "lawful db (snd (user_Delete uid db))"
  unfolding user_Delete_def
proof (rule tx_lawful)
  fix x db' assume *: "user_delete_tx uid db = Inr (x, db')"
  then have "user_exists db uid"
    by (auto simp: user_delete_tx_def user_exists_def count_where_def filter_empty_conv split: if_splits)
  then have d: "db' = delete_users (\<lambda>u. us_id u = uid) db"
    and "GuardAdminRemains (delete_users (\<lambda>u. us_id u = uid) db) (CountAdministrators db) UserLastAdmin = Inr ()"
    using * delete_user_explicit by (auto simp: user_delete_tx_def and_then_Inr Let_def split: if_splits)
  then show "lawful db db'" by (auto intro: guarded_harsh harsh.user_dropped)
qed

lemma record_login_lawful: "lawful db (snd (RecordLogin now uid db))"
  unfolding RecordLogin_def
  by (rule tx_lawful) (auto intro!: lawful_milds r_into_rtranclp mild.user_touched simp: keeps_simps)

section \<open>Sessions and offers\<close>

lemma sessions_lawful:
  assumes "access_ok db" and "\<And>s. s \<in> set ss \<Longrightarrow> s \<in> set (ad_sessions db) \<or> user_exists db (se_user_id s)"
  shows "lawful db (db\<lparr>ad_sessions := ss\<rparr>)"
proof (intro lawful_milds r_into_rtranclp mild.sessions_changed)
  have "\<forall>s\<in>set (ad_sessions db). user_exists db (se_user_id s)"
    using access_okD(8) [OF assms(1)] by (simp add: owners_ok_def link_ok_def)
  then show "user_exists db (se_user_id s)" if "s \<in> set ss" for s using assms(2) [OF that] by blast
qed

lemma links_lawful:
  assumes "access_ok db" and "\<And>l. l \<in> set ls \<Longrightarrow> l \<in> set (ad_links db) \<or> link_ok db l"
  shows "lawful db (db\<lparr>ad_links := ls\<rparr>)"
proof (intro lawful_milds r_into_rtranclp mild.links_changed)
  have "\<forall>s\<in>set (ad_links db). link_ok db s"
    using access_okD(8) [OF assms(1)] by (simp add: owners_ok_def)
  then show "link_ok db s" if "s \<in> set ls" for s using assms(2) [OF that] by blast
qed

lemma new_session_lawful:
  "access_ok db \<Longrightarrow> lawful db (snd (NewSession now tb cb b uid ttl db))"
  by (auto simp: NewSession_def Let_def case_prod_beta new_session_tx_def user_exists_def list_ex_key
      simp del: list_ex_iff split: if_splits intro!: tx_lawful sessions_lawful)

lemma touch_session_lawful:
  assumes "access_ok db"
  shows "lawful db (snd (TouchSession now token every idle db))"
proof -
  have "user_exists db (se_user_id s)"
    if "s \<in> set (update_where p (\<lambda>s. s\<lparr>se_last_seen_at := t\<rparr>) (ad_sessions db))" for s p t
    using that assms by (auto simp: set_update_where access_ok_def owners_ok_def link_ok_def)
  then show ?thesis
    by (auto simp: TouchSession_def Let_def intro!: tx_lawful sessions_lawful [OF assms])
qed

lemma delete_session_lawful: "access_ok db \<Longrightarrow> lawful db (snd (DeleteSession token db))"
  by (auto simp: DeleteSession_def intro!: tx_lawful sessions_lawful)

lemma offer_link_lawful: "access_ok db \<Longrightarrow> lawful db (snd (OfferLink now tb bb link db))"
  by (auto simp: OfferLink_def Let_def case_prod_beta offer_tx_def user_exists_def link_ok_def list_ex_key
      simp del: list_ex_iff split: if_splits intro!: tx_lawful links_lawful)

lemma discard_lawful: "access_ok db \<Longrightarrow> lawful db (snd (DiscardPendingLink token binding db))"
  by (auto simp: DiscardPendingLink_def intro!: tx_lawful links_lawful)

lemma access_tx_total: "(\<And>d. fn d = Inr ((), g d)) \<Longrightarrow> access_tx fn db = (Inr (), g db)"
  by (simp add: access_tx_def)

lemma housekeep_lawful:
  assumes "access_ok db"
  shows "lawful db (snd (housekeep idle now now2 db))"
proof -
  let ?d = "db\<lparr>ad_sessions := filter (\<lambda>s. \<not> stale_session now idle s) (ad_sessions db)\<rparr>"
  have 1: "PurgeExpiredSessions now idle db = (Inr (), ?d)"
    unfolding PurgeExpiredSessions_def by (rule access_tx_total) simp
  have 2: "PurgeExpiredPendingLinks now2 ?d = (Inr (), ?d\<lparr>ad_links :=
      filter (\<lambda>l. \<not> li_expires_at l < UnixMilli now2) (ad_links ?d)\<rparr>)"
    unfolding PurgeExpiredPendingLinks_def by (rule access_tx_total) simp
  have a: "mild db ?d" by (rule mild.sessions_changed) (use assms in \<open>auto simp: access_ok_def owners_ok_def link_ok_def\<close>)
  have b: "mild ?d (?d\<lparr>ad_links := filter (\<lambda>l. \<not> li_expires_at l < UnixMilli now2) (ad_links ?d)\<rparr>)"
    by (rule mild.links_changed) (use access_ok_mild [OF assms a] in \<open>auto simp: access_ok_def owners_ok_def link_ok_def\<close>)
  show ?thesis
    using 1 2 lawful_milds [OF milds_mild [OF r_into_rtranclp [of mild, OF a] b]] by (simp add: housekeep_def)
qed

section \<open>Registration, identities, invitations\<close>

definition identity_row_of :: "identity \<Rightarrow> millis \<Rightarrow> identity_row" where
  "identity_row_of i now = \<lparr>ui_provider = in_Provider i, ui_subject = in_Subject i,
     ui_user_id = in_UserID i, ui_email = in_Email i, ui_linked_by = in_LinkedBy i, ui_created_at = now\<rparr>"

lemma insertIdentity_Inr:
  assumes "insertIdentity i now db = Inr d" and "provider_Valid (in_Provider i)"
  shows "user_exists db (in_UserID i)" and "identity_free db (identity_row_of i now)"
    and "d = db\<lparr>ad_identities := ad_identities db @ [identity_row_of i now]\<rparr>"
  using assms
  by (force simp: insertIdentity_def user_exists_def identity_free_def identity_row_of_def list_ex_iff
      split: if_splits)+

lemma joinDefaultGroup_milds: "joinDefaultGroup en uid g now db = Inr (joined, d) \<Longrightarrow> milds db d"
  by (auto simp: joinDefaultGroup_def and_then_Inr split: if_splits option.splits
      intro: AddMemberAudited_milds)

lemma register_lawful:
  assumes "hashes_usable en" and "access_ok db"
  shows "lawful db (snd (Register en now b req db))"
proof -
  have op: "role_Exists db RoleOperator"
    using access_okD(2) [OF assms(2)] map_ID_BuiltinRoles
    by (auto simp: builtins_ok_def role_Exists_iff) (metis image_eqI list.set_intros list.set_map)
  have step: "lawful db (snd (access_tx (register_tx en t i g r) db))"
    if r: "status_Valid (us_status r)" "us_invite_provider r = ''''" "us_role_id r = RoleOperator"
      and cred: "i = None \<Longrightarrow> usable (us_password_hash r)"
        "\<And>x. i = Some x \<Longrightarrow> provider_Valid (in_Provider x)" for t i g r
  proof (rule tx_lawful)
    fix x db' assume *: "register_tx en t i g r db = Inr (x, db')"
    let ?d1 = "db\<lparr>ad_users := ad_users db @ [r]\<rparr>"
    let ?self = "''self:'' @ us_email r"
    let ?i = "\<lambda>y. y\<lparr>in_UserID := us_id r, in_LinkedBy := ?self\<rparr>"
    from * obtain d2 joined d3 where new: "\<not> user_exists db (us_id r)" "us_email r \<notin> us_email ` set (ad_users db)"
      and d2: "(case i of None \<Rightarrow> Inr ?d1 | Some y \<Rightarrow> insertIdentity (?i y) t ?d1) = Inr d2"
      and d3: "joinDefaultGroup en (us_id r) g t d2 = Inr (joined, d3)"
      and a: "\<exists>a. Audit en t a d3 = Inr db'"
      by (auto simp: register_tx_def and_then_Inr insert_user_Inr Let_def simp del: append.simps
          split: if_splits)
    have "mild db d2"
    proof (cases i)
      case None
      then show ?thesis using d2 new r op cred(1) mild.user_added [of db r] by simp
    next
      case (Some y)
      have ins: "insertIdentity (?i y) t ?d1 = Inr d2" using d2 Some by simp
      have v: "provider_Valid (in_Provider (?i y))" using cred(2) [OF Some] by simp
      note f = insertIdentity_Inr [OF ins v]
      have "d2 = db\<lparr>ad_users := ad_users db @ [r],
          ad_identities := ad_identities db @ [identity_row_of (?i y) t]\<rparr>"
        using f(3) by simp
      moreover have "identity_free db (identity_row_of (?i y) t)"
        using f(2) by (simp add: identity_free_def)
      ultimately show ?thesis
        using mild.user_joined [of db r "identity_row_of (?i y) t"] new r op
        by (simp add: identity_row_of_def)
    qed
    then have "milds db d3" using joinDefaultGroup_milds [OF d3] by (rule converse_rtranclp_into_rtranclp)
    then show "lawful db db'" using a milds_audit lawful_milds by blast
  qed
  show ?thesis
    using HashPassword_usable [OF assms(1)]
    by (auto simp: Register_def case_prod_beta Let_def fresh_user_def register_credential_def
        status_Valid_def StatusFor_def split: sum.split option.split option.splits if_splits intro!: step)
qed

lemma link_lawful: "lawful db (snd (LinkIdentity en now actor i db))"
proof -
  have step: "lawful db (snd (access_tx (link_tx en t actor i) db))" if v: "provider_Valid (in_Provider i)" for t
  proof (rule tx_lawful)
    fix x db' assume "link_tx en t actor i db = Inr (x, db')"
    then obtain d where d: "insertIdentity (i\<lparr>in_LinkedBy := actor\<rparr>) t db = Inr d"
      and a: "\<exists>a. Audit en t a d = Inr db'"
      by (auto simp: link_tx_def and_then_Inr split: if_splits)
    have v': "provider_Valid (in_Provider (i\<lparr>in_LinkedBy := actor\<rparr>))" using v by simp
    have "mild db d"
      using insertIdentity_Inr [OF d v'] mild.identity_added by (simp add: identity_row_of_def)
    then show "lawful db db'" using a mild_audit lawful_milds by blast
  qed
  show ?thesis by (auto simp: LinkIdentity_def case_prod_beta intro!: step)
qed

lemma unlink_lawful:
  assumes "access_ok db"
  shows "lawful db (snd (UnlinkIdentity en now actor uid p db))"
  unfolding UnlinkIdentity_def
proof (rule tx_lawful)
  fix x db' assume *: "unlink_tx en (UnixMilli now) actor uid p db = Inr (x, db')"
  from * obtain u where u: "find (\<lambda>u. us_id u = uid) (ad_users db) = Some u"
    by (auto simp: unlink_tx_def split: option.splits)
  let ?hit = "\<lambda>i. (ui_user_id i = uid \<and> ui_provider i = p)
     \<and> ((us_password_hash u \<noteq> NoPassword \<and> us_password_hash u \<noteq> '''')
        \<or> list_ex (\<lambda>i. ui_user_id i = uid \<and> ui_provider i \<noteq> p) (ad_identities db))"
  from * u have hit: "count_where ?hit (ad_identities db) \<noteq> 0"
    and a: "\<exists>a. Audit en (UnixMilli now) a (db\<lparr>ad_identities := filter (\<lambda>i. \<not> ?hit i) (ad_identities db)\<rparr>) = Inr db'"
    by (auto simp: unlink_tx_def and_then_Inr Let_def split: if_splits)
  have other: "(us_password_hash u \<noteq> NoPassword \<and> us_password_hash u \<noteq> '''')
     \<or> list_ex (\<lambda>i. ui_user_id i = uid \<and> ui_provider i \<noteq> p) (ad_identities db)"
    using hit by (auto simp: count_where_def filter_empty_conv)
  then have eq: "filter (\<lambda>i. \<not> ?hit i) (ad_identities db)
      = filter (\<lambda>i. \<not> (ui_user_id i = uid \<and> ui_provider i = p)) (ad_identities db)"
    by (intro filter_cong) auto
  have "v = u" if "v \<in> set (ad_users db)" and "us_id v = uid" for v
    using find_SomeD [OF u] that same_user [OF access_okD(1) [OF assms]] by auto
  then have "mild db (db\<lparr>ad_identities := filter (\<lambda>i. \<not> ?hit i) (ad_identities db)\<rparr>)"
    unfolding eq using other
    by (intro mild.identity_dropped) (auto simp: usable_def list_ex_iff)
  then show "lawful db db'" using a mild_audit lawful_milds by blast
qed

lemma approve_lawful: "lawful db (snd (ApproveRegistration en now actor uid gids db))"
proof -
  have "lawful db (snd (access_tx (approve_tx en t actor uid gids) db))" for t
  proof (rule tx_lawful)
    fix x db' assume "approve_tx en t actor uid gids db = Inr (x, db')"
    then obtain d where d: "AddMembers en actor gids (User uid) t (db\<lparr>ad_users := update_where
         (\<lambda>u. us_id u = uid \<and> us_status u = StatusPendingUser)
         (\<lambda>u. u\<lparr>us_status := StatusActiveUser, us_updated_at := t\<rparr>) (ad_users db)\<rparr>) = Inr d"
      and a: "\<exists>a. Audit en t a d = Inr db'"
      by (auto simp: approve_tx_def and_then_Inr Let_def split: if_splits option.splits)
    have "milds db d"
      using mild.approved AddMembers_milds [OF d] by (rule converse_rtranclp_into_rtranclp)
    then show "lawful db db'" using a milds_audit lawful_milds by blast
  qed
  then show ?thesis by (simp add: ApproveRegistration_def case_prod_beta)
qed

end
