(* ===== verification/Access_Ops.thy ===== *)
theory Access_Ops
  imports Access_Steps
begin

text \<open>
  The access stores as one machine: an operation for every exported method that writes, what it does
  to the tables, and the two facts every run of them keeps.
\<close>

section \<open>Rejection and the two claims\<close>

lemma delete_pending_explicit:
  "delete_users hit (db\<lparr>ad_identities := filter (\<lambda>i. \<not> list_ex (\<lambda>u. us_id u = ui_user_id i \<and> hit u) (ad_users db))
       (ad_identities db),
     ad_members := filter (\<lambda>m. case gm_user_id m of
         Some x \<Rightarrow> \<not> list_ex (\<lambda>u. us_id u = x \<and> hit u) (ad_users db) | None \<Rightarrow> True) (ad_members db)\<rparr>)
   = delete_users hit db"
  by (auto simp: delete_users_def Let_def intro!: filter_cong)

lemma reject_lawful: "lawful db (snd (RejectRegistration en now actor uid db))"
  unfolding RejectRegistration_def
proof (rule tx_lawful)
  fix x db' assume *: "reject_tx en (UnixMilli now) actor uid db = Inr (x, db')"
  let ?hit = "\<lambda>u. us_id u = uid \<and> us_status u = StatusPendingUser"
  from * obtain was where "find (\<lambda>u. us_id u = uid) (ad_users db) = Some was"
    by (auto simp: reject_tx_def split: option.splits)
  with * have "\<exists>a. Audit en (UnixMilli now) a (delete_users ?hit db) = Inr db'"
    by (auto simp only: reject_tx_def Let_def option.case delete_pending_explicit and_then_Inr
        sum.inject prod.inject simp_thms split: if_splits)
  moreover have "mild db (delete_users ?hit db)" by (rule mild.pending_dropped) simp
  ultimately show "lawful db db'" using mild_audit lawful_milds by blast
qed

lemma invitation_taken_mild:
  assumes "insertIdentity i t (db\<lparr>ad_users := update_where hit (\<lambda>u. u\<lparr>us_invite_provider := '''',
        us_invite_expires_at := None, us_updated_at := t\<rparr>) (ad_users db)\<rparr>) = Inr d"
    and "provider_Valid (in_Provider i)" and "\<And>u. hit u \<Longrightarrow> us_id u = in_UserID i"
  shows "mild db d"
proof -
  note f = insertIdentity_Inr [OF assms(1,2)]
  have "user_exists db (in_UserID i)" using f(1) by (simp add: user_exists_def image_update_where_same)
  moreover have "identity_free db (identity_row_of i t)" using f(2) by (simp add: identity_free_def)
  ultimately show ?thesis
    using mild.invitation_taken [of db "in_UserID i" "identity_row_of i t" hit t] assms(3) f(3)
    by (simp add: identity_row_of_def)
qed

lemma claim_invite_lawful: "lawful db (snd (ClaimInvite en now i seen db))"
proof -
  have step: "lawful db (snd (access_tx (claim_invite_tx en t uid email i) db))"
    if v: "provider_Valid (in_Provider i)" for t uid email
  proof (rule tx_lawful)
    fix x db' assume *: "claim_invite_tx en t uid email i db = Inr (x, db')"
    let ?hit = "claimable t uid (in_Provider i) db"
    let ?d1 = "db\<lparr>ad_users := update_where ?hit (\<lambda>u. u\<lparr>us_invite_provider := '''',
        us_invite_expires_at := None, us_updated_at := t\<rparr>) (ad_users db)\<rparr>"
    from * obtain d actor where d: "insertIdentity (i\<lparr>in_UserID := uid, in_LinkedBy := actor\<rparr>) t ?d1 = Inr d"
      and a: "\<exists>a. Audit en t a d = Inr db'"
      by (auto simp: claim_invite_tx_def and_then_Inr Let_def simp del: append.simps split: if_splits)
    have "mild db d" using invitation_taken_mild [OF d] v by (simp add: claimable_def)
    then show "lawful db db'" using a mild_audit lawful_milds by blast
  qed
  show ?thesis
    by (auto simp: ClaimInvite_def case_prod_beta split: sum.split option.split intro!: step)
qed

lemma claim_link_lawful:
  assumes "access_ok db" and "access_ok seen"
  shows "lawful db (snd (ClaimPendingLink en readAt now token binding password seen db))"
proof -
  have failure: "lawful db (snd (recordLinkFailure th bh db))" for th bh
  proof -
    have "link_ok db l"
      if "l \<in> set (update_where p (\<lambda>l. l\<lparr>li_failures := li_failures l + 1\<rparr>) (ad_links db))" for l p
      using that access_okD(8) [OF assms(1)] by (auto simp: set_update_where owners_ok_def link_ok_def)
    then show ?thesis
      by (auto simp: recordLinkFailure_def Let_def intro!: tx_lawful links_lawful [OF assms(1)])
  qed
  have step: "lawful db (snd (access_tx (claim_link_tx en t th bh l actor hash) db))"
    if v: "provider_Valid (li_provider l)" for t th bh l actor hash
  proof (rule tx_lawful)
    fix x db' assume *: "claim_link_tx en t th bh l actor hash db = Inr (x, db')"
    let ?d1 = "db\<lparr>ad_links := filter (\<lambda>x. \<not> live_offer th bh t x) (ad_links db)\<rparr>"
    let ?i = "\<lparr>in_Provider = li_provider l, in_Subject = li_subject l, in_UserID = li_user_id l,
              in_Email = li_email l, in_LinkedBy = actor, in_LinkedAt = zero_time\<rparr>"
    from * obtain d where d: "insertIdentity ?i t ?d1 = Inr d" and a: "\<exists>a. Audit en t a d = Inr db'"
      by (auto simp: claim_link_tx_def and_then_Inr Let_def split: if_splits)
    have "mild db ?d1"
      by (rule mild.links_changed) (use access_okD(8) [OF assms(1)] in \<open>auto simp: owners_ok_def\<close>)
    moreover have "mild ?d1 d"
      using insertIdentity_Inr [OF d] v mild.identity_added [of ?d1 "identity_row_of ?i t"]
      by (simp add: identity_row_of_def)
    ultimately have "milds db d" by (rule milds_mild [OF r_into_rtranclp [of mild]])
    then show "lawful db db'" using a milds_audit lawful_milds by blast
  qed
  have "\<forall>l\<in>set (ad_links seen). provider_Valid (li_provider l)"
    using access_okD(8) [OF assms(2)] by (simp add: owners_ok_def link_ok_def)
  then have v: "provider_Valid (li_provider l)" if "claim_read th bh t seen = Some (l, u)" for th bh t l u
    using that by (auto simp: claim_read_def dest!: find_SomeD split: option.splits)
  show ?thesis
    using failure [of "digest token" "digest binding"]
    by (auto simp: ClaimPendingLink_def case_prod_beta split: option.split sum.split prod.split intro!: step v)
qed

section \<open>One machine\<close>

text \<open>
  An operation carries what its caller and the host give it: the instants it reads, the random bytes it
  draws and its arguments. \<open>seen\<close> is the database that an operation reading before its transaction read.
\<close>

datatype access_op =
    OpEnsureBuiltins time
  | OpRoleCreate time string "nat list" role_create
  | OpRoleUpdate time string string role_update
  | OpRoleDelete time string string
  | OpGroupCreate time string "nat list" group_create
  | OpGroupUpdate time string string group_update
  | OpGroupDelete time string string
  | OpAddMember time string string subject
  | OpRemoveMember time string string subject
  | OpKeyCreate time string "nat list" "nat list" key_create
  | OpKeyUpdate time string string key_update
  | OpRotate time string string duration "nat list"
  | OpRevoke time string string
  | OpVerify "(string \<Rightarrow> access_error + principal) option" bool time string
  | OpUserCreate time time "nat list" user_create
  | OpCreateFirst time "nat list" string string string
  | OpUserUpdate time time string user_update
  | OpSetPassword time string string
  | OpUserDelete string
  | OpRecordLogin time string
  | OpNewSession time "nat list" "nat list" "nat list" string duration
  | OpTouchSession time string duration duration
  | OpDeleteSession string
  | OpRegister time "nat list" register_request
  | OpLinkIdentity time string identity
  | OpUnlinkIdentity time string string provider
  | OpApprove time string string "string list"
  | OpReject time string string
  | OpClaimInvite time identity
  | OpOfferLink time "nat list" "nat list" pending_link
  | OpClaimLink time time string string string
  | OpDiscardLink string string
  | OpHousekeep duration time time

fun perform :: "host_env \<Rightarrow> access_db \<Rightarrow> access_op \<Rightarrow> access_db \<Rightarrow> access_db" where
  "perform en seen (OpEnsureBuiltins now) db = snd (EnsureBuiltins now db)"
| "perform en seen (OpRoleCreate now actor b r) db = snd (role_Create en now actor b r db)"
| "perform en seen (OpRoleUpdate now actor rid r) db = snd (role_Update en now actor rid r db)"
| "perform en seen (OpRoleDelete now actor rid) db = snd (role_Delete en now actor rid db)"
| "perform en seen (OpGroupCreate now actor b r) db = snd (group_Create en now actor b r db)"
| "perform en seen (OpGroupUpdate now actor gid r) db = snd (group_Update en now actor gid r db)"
| "perform en seen (OpGroupDelete now actor gid) db = snd (group_Delete en now actor gid db)"
| "perform en seen (OpAddMember now actor gid s) db = snd (AddMember en now actor gid s db)"
| "perform en seen (OpRemoveMember now actor gid s) db = snd (RemoveMember en now actor gid s db)"
| "perform en seen (OpKeyCreate now actor b sb r) db = snd (key_Create en now actor b sb r db)"
| "perform en seen (OpKeyUpdate now actor kid r) db = snd (key_Update en now actor kid r db)"
| "perform en seen (OpRotate now actor kid grace sb) db = snd (Rotate en now actor kid grace sb db)"
| "perform en seen (OpRevoke now actor kid) db = snd (Revoke en now actor kid db)"
| "perform en seen (OpVerify static st now token) db = snd (Verifier_Verify static st now token db)"
| "perform en seen (OpUserCreate now now2 b r) db = snd (user_Create en now now2 b r db)"
| "perform en seen (OpCreateFirst now b email password name) db = snd (CreateFirst en now b email password name db)"
| "perform en seen (OpUserUpdate now now2 uid r) db = snd (user_Update now now2 uid r db)"
| "perform en seen (OpSetPassword now uid password) db = snd (SetPassword en now uid password db)"
| "perform en seen (OpUserDelete uid) db = snd (user_Delete uid db)"
| "perform en seen (OpRecordLogin now uid) db = snd (RecordLogin now uid db)"
| "perform en seen (OpNewSession now tb cb b uid ttl) db = snd (NewSession now tb cb b uid ttl db)"
| "perform en seen (OpTouchSession now token every idle) db = snd (TouchSession now token every idle db)"
| "perform en seen (OpDeleteSession token) db = snd (DeleteSession token db)"
| "perform en seen (OpRegister now b r) db = snd (Register en now b r db)"
| "perform en seen (OpLinkIdentity now actor i) db = snd (LinkIdentity en now actor i db)"
| "perform en seen (OpUnlinkIdentity now actor uid p) db = snd (UnlinkIdentity en now actor uid p db)"
| "perform en seen (OpApprove now actor uid gids) db = snd (ApproveRegistration en now actor uid gids db)"
| "perform en seen (OpReject now actor uid) db = snd (RejectRegistration en now actor uid db)"
| "perform en seen (OpClaimInvite now i) db = snd (ClaimInvite en now i seen db)"
| "perform en seen (OpOfferLink now tb bb link) db = snd (OfferLink now tb bb link db)"
| "perform en seen (OpClaimLink readAt now token binding password) db = snd (ClaimPendingLink en readAt now token binding password seen db)"
| "perform en seen (OpDiscardLink token binding) db = snd (DiscardPendingLink token binding db)"
| "perform en seen (OpHousekeep idle now now2) db = snd (housekeep idle now now2 db)"

text \<open>The tables of a database on its first start, after the build has written its own roles.\<close>

definition first_start :: "time \<Rightarrow> database \<Rightarrow> access_db" where
  "first_start now d = snd (EnsureBuiltins now \<lparr>ad_roles = [], ad_users = [], ad_keys = [], ad_groups = [],
     ad_members = [], ad_sessions = [], ad_identities = [], ad_links = [], ad_chatgpt_roles = [], ad_db = d\<rparr>)"

text \<open>
  What the host has been, newest first: any operation may follow any other, and one that reads before
  it writes may have read any database the host has been since it started.
\<close>

inductive access_history :: "host_env \<Rightarrow> access_db list \<Rightarrow> bool" for en where
  started: "access_history en [first_start now d]"
| performed: "access_history en (db # past) \<Longrightarrow> seen \<in> set (db # past) \<Longrightarrow>
    access_history en (perform en seen op db # db # past)"

lemma perform_lawful:
  assumes "hashes_usable en" and "access_ok db" and "access_ok seen"
  shows "lawful db (perform en seen op db)"
  using assms
  by (cases op) (simp_all only: perform.simps EnsureBuiltins_lawful role_create_lawful role_update_lawful
      role_delete_lawful group_create_lawful group_update_lawful group_delete_lawful AddMember_lawful
      RemoveMember_lawful key_create_lawful key_update_lawful rotate_lawful revoke_lawful verifier_lawful
      user_create_lawful create_first_lawful user_update_lawful set_password_lawful user_delete_lawful
      record_login_lawful new_session_lawful touch_session_lawful delete_session_lawful
      register_lawful link_lawful unlink_lawful approve_lawful reject_lawful claim_invite_lawful
      offer_link_lawful claim_link_lawful discard_lawful housekeep_lawful)

lemma upsert_builtins_fresh:
  assumes "distinct (map r_ID rs)" and "distinct (map (sql_lower \<circ> r_Name) rs)"
    and "\<forall>q\<in>set (ad_roles db). ro_id q \<notin> r_ID ` set rs
       \<and> sql_lower (ro_name q) \<notin> (sql_lower \<circ> r_Name) ` set rs"
  shows "upsert_builtins now rs db = Inr (db\<lparr>ad_roles := ad_roles db @ map (builtin_row now) rs\<rparr>)"
  using assms
proof (induction rs arbitrary: db)
  case (Cons r rs)
  have "upsert_builtin now r db = Inr (db\<lparr>ad_roles := ad_roles db @ [builtin_row now r]\<rparr>)"
    using Cons.prems(3) by (auto simp: upsert_builtin_def role_Exists_iff list_ex_iff)
  then show ?case
    using Cons.IH [of "db\<lparr>ad_roles := ad_roles db @ [builtin_row now r]\<rparr>"] Cons.prems
    by (auto simp: builtin_row_def and_then_def)
qed simp

lemma first_start_rows:
  "first_start now d = \<lparr>ad_roles = map (builtin_row (UnixMilli now)) BuiltinRoles, ad_users = [], ad_keys = [],
     ad_groups = [], ad_members = [], ad_sessions = [], ad_identities = [], ad_links = [],
     ad_chatgpt_roles = [], ad_db = d\<rparr>"
proof -
  have "map r_Name BuiltinRoles = [''Reader'', ''Operator'', ''Administrator'']"
    by (simp add: BuiltinRoles_def Let_def)
  moreover have "distinct (map sql_lower [''Reader'', ''Operator'', ''Administrator''])" by code_simp
  ultimately have "distinct (map (sql_lower \<circ> r_Name) BuiltinRoles)" by (metis map_map)
  then show ?thesis
    using upsert_builtins_fresh [OF BuiltinRoles_distinct]
    by (simp add: first_start_def EnsureBuiltins_def access_tx_def and_then_def)
qed

lemma first_start_ok: "access_ok (first_start now d)"
proof -
  have "distinct (map ro_id (map (builtin_row t) BuiltinRoles))" for t
    using BuiltinRoles_distinct by (simp add: builtin_row_def comp_def)
  then show ?thesis
    by (auto simp: first_start_rows access_ok_def ids_ok_def builtins_ok_def identities_ok_def owners_ok_def
        secrets_unique_iff builtin_row_def)
qed

lemma history_ok:
  assumes "access_history en dbs" and "hashes_usable en" and "db \<in> set dbs"
  shows "access_ok db"
  using assms
proof (induction arbitrary: db rule: access_history.induct)
  case (started now d)
  then show ?case by (simp add: first_start_ok)
next
  case (performed db0 past seen op)
  then show ?case using lawful_ok [OF perform_lawful] by (metis list.set_intros(1) set_ConsD)
qed

end
