(* ===== verification/Json_Facts.thy ===== *)
theory Json_Facts
  imports Json
begin

text \<open>
  Reading back what was written: \<open>json.Unmarshal\<close> on the text of a value without white space, as
  \<open>json.Marshal\<close> writes it, for values whose strings are ASCII.
\<close>

section \<open>Strings\<close>

definition ascii :: "string \<Rightarrow> bool" where
  "ascii s \<longleftrightarrow> (\<forall>c\<in>set s. byte c < 128)"

lemma ascii_simps [simp]: "ascii []" "ascii (c # s) \<longleftrightarrow> byte c < 128 \<and> ascii s"
  by (auto simp: ascii_def)

lemma escape_ascii_string: "ascii s \<Longrightarrow> escape_string s = concat (map escape_ascii s)"
  by (induction s) (simp_all add: escape_string.simps)

lemma byte_inject: "byte c = byte d \<longleftrightarrow> c = d"
  by (simp add: byte_def)

lemma byte_char [simp]: "n < 256 \<Longrightarrow> byte (char_of n) = n"
  by (simp add: byte_def)

lemma hex_val_digit: "d < 16 \<Longrightarrow> hex_val (hex_digit d) = Some d"
  by (auto simp: hex_val_def hex_digit_def Let_def)

definition short_chars :: "string" where
  "short_chars = [CHR 0x22, CHR 0x5C, CHR 0x08, CHR 0x0C, CHR 0x0A, CHR 0x0D, CHR 0x09]"

lemma short_escapes:
  "list_all (\<lambda>c. escape_ascii c = [CHR 0x5C, escape_ascii c ! 1] \<and> escapable (escape_ascii c ! 1)
     \<and> unescape_char (escape_ascii c ! 1) = Some c) short_chars"
  by code_simp

text \<open>The characters written as a short escape, as a code, and as themselves.\<close>

lemma escape_ascii_cases:
  obtains (short) e where "escape_ascii c = [CHR 0x5C, e]" and "escapable e" and "unescape_char e = Some c"
  | (code) "escape_ascii c = [CHR 0x5C, CHR ''u''] @ hex4 (byte c)"
  | (plain) "escape_ascii c = [c]" and "c \<noteq> CHR 0x22" and "c \<noteq> CHR 0x5C" and "32 \<le> byte c"
proof (cases "c \<in> set short_chars")
  case True
  then show ?thesis using short_escapes short unfolding list_all_iff by metis
next
  case False
  then have n: "c \<noteq> CHR 0x22" "c \<noteq> CHR 0x5C" "c \<noteq> CHR 0x08" "c \<noteq> CHR 0x0C" "c \<noteq> CHR 0x0A"
    "c \<noteq> CHR 0x0D" "c \<noteq> CHR 0x09"
    by (simp_all add: short_chars_def)
  show ?thesis
  proof (cases "byte c < 32 \<or> c = CHR ''<'' \<or> c = CHR ''>'' \<or> c = CHR ''&''")
    case True
    then have "escape_ascii c = [CHR 0x5C, CHR ''u''] @ hex4 (byte c)"
      using n by (simp only: escape_ascii_def if_False if_True simp_thms)
    then show ?thesis by (rule code)
  next
    case False
    then have "escape_ascii c = [c]"
      using n by (simp only: escape_ascii_def if_False if_True simp_thms)
    then show ?thesis using plain n False by simp
  qed
qed

lemma getu4_code:
  assumes "n < 128"
  shows "getu4 ([CHR 0x5C, CHR ''u''] @ hex4 n @ rest) = Some (n, rest)"
proof -
  have "n div 4096 = 0" "n div 256 = 0" "n div 16 < 16" using assms by auto
  moreover have "n div 16 * 16 + n mod 16 = n" by (rule div_mult_mod_eq)
  ultimately show ?thesis by (simp add: getu4_def hex4_def hex_val_digit)
qed

lemma unquote_escaped:
  assumes "byte c < 128"
  shows "unquote (escape_ascii c @ rest) = map_option ((#) c) (unquote rest)"
proof (cases c rule: escape_ascii_cases)
  case (short e)
  have "getu4 (CHR 0x5C # e # rest) = None"
    using short(2) by (auto simp: getu4_def escapable_def split: list.split)
  then show ?thesis using short by (simp add: unquote.simps [of "CHR 0x5C # e # rest"])
next
  case code
  let ?s = "[CHR 0x5C, CHR ''u''] @ hex4 (byte c) @ rest"
  have g: "getu4 ?s = Some (byte c, rest)" using assms by (intro getu4_code) simp
  have "unquote ?s = map_option ((@) (EncodeRune (byte c))) (unquote (drop 6 ?s))"
    using g assms by (subst unquote.simps) (simp add: is_surrogate_def)
  moreover have "drop 6 ?s = rest" by (simp add: hex4_def)
  moreover have "(@) (EncodeRune (byte c)) = (#) c" using assms by (auto simp: EncodeRune_def byte_def)
  ultimately show ?thesis using code by (simp only: append_assoc)
next
  case plain
  then show ?thesis using assms by (simp add: unquote.simps [of "c # rest"])
qed

lemma unquote_escape_string: "ascii s \<Longrightarrow> unquote (escape_string s) = Some s"
proof (induction s)
  case (Cons c s)
  then show ?case by (simp add: escape_ascii_string unquote_escaped)
qed (simp add: escape_string.simps unquote.simps)


section \<open>Scanning what was written\<close>

text \<open>Where the decoder goes on after a step, on the rest of the input.\<close>

definition resume :: "scan_result \<Rightarrow> string \<Rightarrow> (json \<times> string) option" where
  "resume r rest = (case r of
     SErr \<Rightarrow> None
   | SDone v True \<Rightarrow> Some (v, rest)
   | SDone v False \<Rightarrow> None
   | SMore fs st \<Rightarrow> decode_from fs st rest)"

lemma decode_step:
  "scan fs st c = SMore fs' st' \<Longrightarrow> decode_from fs st (c # cs) = decode_from fs' st' cs"
  "(\<forall>v. scan fs st c \<noteq> SDone v False) \<Longrightarrow> decode_from fs st (c # cs) = resume (scan fs st c) cs"
  by (auto simp: resume_def split: scan_result.split bool.split)

lemma push_value_whole [simp]: "push_value fs v \<noteq> SDone w False"
  by (induction fs v rule: push_value.induct) auto

lemma scan_escape:
  assumes "byte c < 128"
  shows "decode_from fs (InString acc) (escape_ascii c @ rest)
       = decode_from fs (InString (rev (escape_ascii c) @ acc)) rest
     \<and> decode_from fs (InKey acc) (escape_ascii c @ rest)
       = decode_from fs (InKey (rev (escape_ascii c) @ acc)) rest"
proof (cases c rule: escape_ascii_cases)
  case code
  have "hex_val (hex_digit (n mod 16)) = Some (n mod 16)" for n by (simp add: hex_val_digit)
  then show ?thesis using code by (simp add: hex4_def escapable_def)
qed simp_all

lemma scan_string:
  assumes "ascii s"
  shows "decode_from fs (InString acc) (escape_string s @ rest)
     = decode_from fs (InString (rev (escape_string s) @ acc)) rest"
    and "decode_from fs (InKey acc) (escape_string s @ rest)
     = decode_from fs (InKey (rev (escape_string s) @ acc)) rest"
  using assms
proof (induction s arbitrary: acc)
  case (Cons c s)
  have e: "escape_string (c # s) = escape_ascii c @ escape_string s" if "ascii (c # s)"
    using that by (simp add: escape_ascii_string)
  case 1
  then show ?case using Cons.IH(1) by (simp add: e scan_escape)
  case 2
  then show ?case using Cons.IH(2) by (simp add: e scan_escape)
qed (simp_all add: escape_string.simps)

lemma decode_quoted:
  assumes "ascii s"
  shows "decode_from fs BeginValue (quote_string s @ rest) = resume (push_value fs (JStr s)) rest"
    and "decode_from fs BeginValueOrEmpty (quote_string s @ rest) = resume (push_value fs (JStr s)) rest"
    and "decode_from fs BeginString (quote_string s @ rest) = decode_from fs (AfterKey s) rest"
    and "decode_from fs BeginStringOrEmpty (quote_string s @ rest) = decode_from fs (AfterKey s) rest"
proof -
  have v: "decode_from fs (InString []) (escape_string s @ CHR 0x22 # rest) = resume (push_value fs (JStr s)) rest"
    using assms
    by (subst scan_string(1)) (simp_all add: decode_step(2) unquote_escape_string del: decode_from.simps)
  have k: "decode_from fs (InKey []) (escape_string s @ CHR 0x22 # rest) = decode_from fs (AfterKey s) rest"
    using assms by (subst scan_string(2)) (simp_all add: unquote_escape_string)
  show "decode_from fs BeginValue (quote_string s @ rest) = resume (push_value fs (JStr s)) rest"
    and "decode_from fs BeginValueOrEmpty (quote_string s @ rest) = resume (push_value fs (JStr s)) rest"
    and "decode_from fs BeginString (quote_string s @ rest) = decode_from fs (AfterKey s) rest"
    and "decode_from fs BeginStringOrEmpty (quote_string s @ rest) = decode_from fs (AfterKey s) rest"
    using v k by (simp_all add: quote_string_def begin_value_def is_space_def)
qed


section \<open>Numbers\<close>

definition num_start :: "char \<Rightarrow> num_state option" where
  "num_start c = (if c = CHR ''-'' then Some NNeg else if c = CHR ''0'' then Some NZero
     else if is_digit c then Some NInt else None)"

fun num_run :: "num_state \<Rightarrow> string \<Rightarrow> num_state option" where
  "num_run n [] = Some n"
| "num_run n (c # cs) = (case num_next n c of None \<Rightarrow> None | Some m \<Rightarrow> num_run m cs)"

fun number_text :: "string \<Rightarrow> bool" where
  "number_text [] = False"
| "number_text (c # cs) = (case num_start c of None \<Rightarrow> False
     | Some n \<Rightarrow> (case num_run n cs of None \<Rightarrow> False | Some m \<Rightarrow> num_done m))"

text \<open>What may follow a value: the end of the input at the top, or a separator inside a container.\<close>

definition follows :: "frame list \<Rightarrow> string \<Rightarrow> bool" where
  "follows fs rest \<longleftrightarrow> (case rest of [] \<Rightarrow> fs = []
     | c # _ \<Rightarrow> c = CHR '','' \<or> c = CHR '']'' \<or> c = CHR ''}'')"

lemma not_digits [simp]:
  "\<not> is_digit (CHR '' '')" "\<not> is_digit (CHR 0x09)" "\<not> is_digit (CHR 0x0D)" "\<not> is_digit (CHR 0x0A)"
  "\<not> is_digit (CHR '','')" "\<not> is_digit (CHR '']'')" "\<not> is_digit (CHR ''}'')" "\<not> is_digit (CHR ''{'')"
  "\<not> is_digit (CHR ''['')" "\<not> is_digit (CHR 0x22)" "\<not> is_digit (CHR ''-'')"
  by (simp_all add: is_digit_def)

lemma separator_ends_number:
  assumes "c = CHR '','' \<or> c = CHR '']'' \<or> c = CHR ''}''"
  shows "num_next n c = None"
  using assms by (cases n) (auto simp: is_e_def)

lemma push_value_result:
  obtains "push_value fs v = SErr" | "push_value fs v = SDone v True"
  | fs' where "push_value fs v = SMore fs' EndValue"
  by (cases "(fs, v)" rule: push_value.cases) auto

lemma decode_number_tail:
  assumes "num_run n cs = Some m" and "num_done m" and "follows fs rest"
  shows "decode_from fs (InNumber n acc) (cs @ rest)
     = resume (push_value fs (JNum (rev (rev cs @ acc)))) rest"
  using assms
proof (induction cs arbitrary: n acc)
  case Nil
  show ?case
  proof (cases rest)
    case Nil
    then show ?thesis using Nil.prems \<open>num_run n [] = Some m\<close> by (simp add: follows_def resume_def)
  next
    case (Cons c rs)
    then have nx: "num_next n c = None"
      using Nil.prems by (intro separator_ends_number) (simp add: follows_def)
    then have "decode_from fs (InNumber n acc) (c # rs) = (case end_number fs acc c of
        SErr \<Rightarrow> None | SDone v True \<Rightarrow> Some (v, rs) | SDone v False \<Rightarrow> Some (v, c # rs)
      | SMore fs' st' \<Rightarrow> decode_from fs' st' rs)"
      using Nil.prems by (auto split: scan_result.split)
    moreover have "\<dots> = resume (push_value fs (JNum (rev acc))) (c # rs)"
      by (cases rule: push_value_result [of fs "JNum (rev acc)"])
        (simp_all add: resume_def end_number_def del: end_value.simps)
    ultimately show ?thesis using Cons by (simp only: append_Nil rev.simps)
  qed
next
  case (Cons c cs)
  then show ?case by (auto split: option.splits)
qed

lemma decode_number:
  assumes "number_text s" and "follows fs rest"
  shows "decode_from fs BeginValue (s @ rest) = resume (push_value fs (JNum s)) rest"
proof -
  obtain c cs n m where s: "s = c # cs" "num_start c = Some n" "num_run n cs = Some m" "num_done m"
    using assms(1) by (cases s) (auto split: option.splits)
  have "scan fs BeginValue c = SMore fs (InNumber n [c])"
  proof -
    consider "c = CHR ''-''" | "c = CHR ''0''" | (digit) "c \<noteq> CHR ''-''" "c \<noteq> CHR ''0''" by blast
    then show ?thesis
    proof cases
    case digit
    then have d: "is_digit c" and n: "n = NInt" using s(2) by (auto simp: num_start_def split: if_splits)
    have "c \<noteq> CHR '' ''" "c \<noteq> CHR 0x09" "c \<noteq> CHR 0x0D" "c \<noteq> CHR 0x0A" "c \<noteq> CHR ''{''"
      "c \<noteq> CHR ''[''" "c \<noteq> CHR 0x22"
      using d not_digits by metis+
    then show ?thesis using digit d n by (simp add: begin_value_def is_space_def)
    qed (use s(2) in \<open>simp_all add: num_start_def begin_value_def is_space_def\<close>)
  qed
  then show ?thesis using decode_number_tail [OF s(3,4) assms(2), of "[c]"] s(1) by simp
qed

section \<open>Values\<close>

fun depth :: "json \<Rightarrow> nat" where
  "depth (JArr vs) = Suc (fold max (map depth vs) 0)"
| "depth (JObj es) = Suc (fold max (map (\<lambda>(k, v). depth v) es) 0)"
| "depth _ = 0"

text \<open>The text of a value without white space, its members in the order it has them.\<close>

fun compact :: "json \<Rightarrow> string" where
  "compact (JArr vs) = CHR ''['' # join_comma (map compact vs) @ '']''"
| "compact (JObj es) =
    CHR ''{'' # join_comma (map (\<lambda>(k, v). quote_string k @ CHR '':'' # compact v) es) @ ''}''"
| "compact v = marshal v"

text \<open>Values that have such a text: ASCII strings, and number literals.\<close>

fun written :: "json \<Rightarrow> bool" where
  "written (JNum s) = number_text s"
| "written (JStr s) = ascii s"
| "written (JArr vs) = list_all written vs"
| "written (JObj es) = list_all (\<lambda>(k, v). ascii k \<and> written v) es"
| "written _ = True"

lemma number_first: "number_text s \<Longrightarrow> s \<noteq> [] \<and> (hd s = CHR ''-'' \<or> is_digit (hd s))"
  by (cases s) (auto simp: num_start_def is_digit_def [of "CHR ''0''"] split: option.splits if_splits)

lemma digit_first: "is_digit c \<Longrightarrow> \<not> is_space c \<and> c \<noteq> CHR '']''"
  by (auto simp: is_space_def)

lemma written_first:
  assumes "written v"
  obtains c cs where "compact v = c # cs" and "\<not> is_space c" and "c \<noteq> CHR '']''"
proof (cases v)
  case (JNum s)
  then show ?thesis using that assms number_first [of s]
    using digit_first [of "hd s"] by (cases s) (auto simp: is_space_def [of "CHR ''-''"])
next
  case (JBool b)
  then show ?thesis using that by (cases b) (simp_all add: is_space_def)
next
  case (JStr s)
  then show ?thesis using that by (simp add: quote_string_def is_space_def)
qed (use that in \<open>simp_all add: is_space_def\<close>)


lemma depth_le_fold: "v \<in> set vs \<Longrightarrow> depth v \<le> fold max (map depth vs) n"
proof -
  have "n \<le> fold max xs n" for xs and n :: nat
    by (induction xs arbitrary: n) (auto intro: order_trans [OF max.cobounded2])
  then show "v \<in> set vs \<Longrightarrow> depth v \<le> fold max (map depth vs) n"
    by (induction vs arbitrary: n) (auto intro: order_trans [OF max.cobounded1])
qed

abbreviation fits :: "frame list \<Rightarrow> json \<Rightarrow> bool" where
  "fits fs v \<equiv> length fs + depth v \<le> max_nesting"

text \<open>The decoder takes up a written value whatever comes after it.\<close>

definition reads_back :: "json \<Rightarrow> bool" where
  "reads_back v \<longleftrightarrow> (\<forall>fs rest. written v \<longrightarrow> fits fs v \<longrightarrow> follows fs rest \<longrightarrow>
     decode_from fs BeginValue (compact v @ rest) = resume (push_value fs v) rest)"

lemma resume_end_value:
  "resume (SMore (FArr vs # fs) EndValue) (CHR '','' # rest) = decode_from (FArr vs # fs) BeginValue rest"
  "resume (SMore (FArr vs # fs) EndValue) (CHR '']'' # rest) = resume (push_value fs (JArr (rev vs))) rest"
  "resume (SMore (FObj es # fs) EndValue) (CHR '','' # rest) = decode_from (FObj es # fs) BeginString rest"
  "resume (SMore (FObj es # fs) EndValue) (CHR ''}'' # rest) = resume (push_value fs (JObj (rev es))) rest"
  by (simp_all add: resume_def is_space_def split: scan_result.split bool.split)

lemma decode_elements:
  assumes "\<And>w. w \<in> set (v # vs) \<Longrightarrow> reads_back w \<and> written w \<and> Suc (length fs) + depth w \<le> max_nesting"
  shows "decode_from (FArr acc # fs) BeginValue (join_comma (map compact (v # vs)) @ CHR '']'' # rest)
     = resume (push_value fs (JArr (rev acc @ v # vs))) rest"
  using assms
proof (induction vs arbitrary: v acc)
  case Nil
  then show ?case by (simp add: reads_back_def follows_def resume_end_value del: decode_from.simps)
next
  case (Cons w ws)
  have "decode_from (FArr acc # fs) BeginValue (compact v @ CHR '','' # join_comma (map compact (w # ws)) @ CHR '']'' # rest)
     = resume (push_value (FArr acc # fs) v) (CHR '','' # join_comma (map compact (w # ws)) @ CHR '']'' # rest)"
    using Cons.prems [of v] by (simp add: reads_back_def follows_def del: decode_from.simps)
  also have "\<dots> = decode_from (FArr (v # acc) # fs) BeginValue (join_comma (map compact (w # ws)) @ CHR '']'' # rest)"
    by (simp add: resume_end_value del: decode_from.simps)
  also have "\<dots> = resume (push_value fs (JArr (rev (v # acc) @ w # ws))) rest"
    using Cons.IH [of w "v # acc"] Cons.prems by simp
  finally show ?case by simp
qed

abbreviation entry_text :: "string \<times> json \<Rightarrow> string" where
  "entry_text \<equiv> \<lambda>(k, v). quote_string k @ CHR '':'' # compact v"

lemma decode_entry:
  assumes "ascii k" and "reads_back v" and "written v" and "Suc (length fs) + depth v \<le> max_nesting"
    and "c = CHR '','' \<or> c = CHR ''}''"
  shows "decode_from (FObj acc # fs) BeginString (quote_string k @ CHR '':'' # compact v @ c # rest)
     = resume (SMore (FObj ((k, v) # acc) # fs) EndValue) (c # rest)"
    and "decode_from (FObj acc # fs) BeginStringOrEmpty (quote_string k @ CHR '':'' # compact v @ c # rest)
     = resume (SMore (FObj ((k, v) # acc) # fs) EndValue) (c # rest)"
proof -
  have "decode_from (FObj acc # fs) (AfterKey k) (CHR '':'' # compact v @ c # rest)
     = decode_from (FKey acc k # fs) BeginValue (compact v @ c # rest)"
    by (simp add: is_space_def)
  moreover have "\<dots> = resume (push_value (FKey acc k # fs) v) (c # rest)"
    using assms(2-5) by (auto simp: reads_back_def follows_def)
  ultimately show "decode_from (FObj acc # fs) BeginString (quote_string k @ CHR '':'' # compact v @ c # rest)
     = resume (SMore (FObj ((k, v) # acc) # fs) EndValue) (c # rest)"
    and "decode_from (FObj acc # fs) BeginStringOrEmpty (quote_string k @ CHR '':'' # compact v @ c # rest)
     = resume (SMore (FObj ((k, v) # acc) # fs) EndValue) (c # rest)"
    using assms(1) by (simp_all only: decode_quoted push_value.simps)
qed

lemma decode_entries:
  assumes "\<And>k v. (k, v) \<in> set (e # es) \<Longrightarrow>
     ascii k \<and> reads_back v \<and> written v \<and> Suc (length fs) + depth v \<le> max_nesting"
    and "st = BeginString \<or> st = BeginStringOrEmpty"
  shows "decode_from (FObj acc # fs) st (join_comma (map entry_text (e # es)) @ CHR ''}'' # rest)
     = resume (push_value fs (JObj (rev acc @ e # es))) rest"
  using assms
proof (induction es arbitrary: e acc st)
  case Nil
  obtain k v where e: "e = (k, v)" by (cases e)
  have "decode_from (FObj acc # fs) st (quote_string k @ CHR '':'' # compact v @ CHR ''}'' # rest)
      = resume (SMore (FObj ((k, v) # acc) # fs) EndValue) (CHR ''}'' # rest)"
    using Nil.prems(1) [of k v] Nil.prems(2) e decode_entry [of k v fs "CHR ''}''" acc rest] by auto
  then show ?case by (simp add: e resume_end_value del: decode_from.simps)
next
  case (Cons d ds)
  obtain k v where e: "e = (k, v)" by (cases e)
  have "decode_from (FObj acc # fs) st
       (quote_string k @ CHR '':'' # compact v @ CHR '','' # join_comma (map entry_text (d # ds)) @ CHR ''}'' # rest)
      = resume (SMore (FObj ((k, v) # acc) # fs) EndValue)
          (CHR '','' # join_comma (map entry_text (d # ds)) @ CHR ''}'' # rest)"
    using Cons.prems(1) [of k v] Cons.prems(2) e
      decode_entry [of k v fs "CHR '',''" acc "join_comma (map entry_text (d # ds)) @ CHR ''}'' # rest"]
    by auto
  also have "\<dots> = decode_from (FObj ((k, v) # acc) # fs) BeginString
      (join_comma (map entry_text (d # ds)) @ CHR ''}'' # rest)"
    by (simp add: resume_end_value del: decode_from.simps)
  also have "\<dots> = resume (push_value fs (JObj (rev ((k, v) # acc) @ d # ds))) rest"
    using Cons.IH [of d BeginString "(k, v) # acc"] Cons.prems(1) by auto
  finally show ?case by (simp add: e)
qed


lemma decode_container_first:
  assumes "written v"
  shows "decode_from fs BeginValueOrEmpty (compact v @ rest) = decode_from fs BeginValue (compact v @ rest)"
proof -
  obtain c cs where m: "compact v = c # cs" "\<not> is_space c" "c \<noteq> CHR '']''" by (rule written_first [OF assms])
  then show ?thesis by (simp add: begin_value_def)
qed

lemma decode_literal_end: "decode_from fs (InLit [c] v) (c # rest) = resume (push_value fs v) rest"
  using decode_step(2) [of fs "InLit [c] v" c rest] by (simp del: decode_from.simps)

lemma begin_literal:
  "scan fs BeginValue (CHR ''n'') = SMore fs (InLit ''ull'' JNull)"
  "scan fs BeginValue (CHR ''t'') = SMore fs (InLit ''rue'' (JBool True))"
  "scan fs BeginValue (CHR ''f'') = SMore fs (InLit ''alse'' (JBool False))"
  by (simp_all add: begin_value_def is_space_def is_digit_def)

lemma in_literal:
  "r \<noteq> [] \<Longrightarrow> decode_from fs (InLit (c # r) v) (c # cs) = decode_from fs (InLit r v) cs"
  by simp

lemma decode_literal:
  "decode_from fs BeginValue (compact JNull @ rest) = resume (push_value fs JNull) rest"
  "decode_from fs BeginValue (compact (JBool b) @ rest) = resume (push_value fs (JBool b)) rest"
  by (simp_all add: decode_step(1) [OF begin_literal(1)] decode_step(1) [OF begin_literal(2)]
      decode_step(1) [OF begin_literal(3)] in_literal decode_literal_end del: decode_from.simps)

lemma decode_empty:
  "decode_from (FArr [] # fs) BeginValueOrEmpty (CHR '']'' # rest) = resume (push_value fs (JArr [])) rest"
  "decode_from (FObj [] # fs) BeginStringOrEmpty (CHR ''}'' # rest) = resume (push_value fs (JObj [])) rest"
  using decode_step(2) [of "FArr [] # fs" BeginValueOrEmpty "CHR '']''" rest]
    decode_step(2) [of "FObj [] # fs" BeginStringOrEmpty "CHR ''}''" rest]
  by (simp_all add: is_space_def del: decode_from.simps)

lemma all_read_back: "reads_back v"
proof (induction v)
  case JNull
  show ?case unfolding reads_back_def using decode_literal by (simp only: compact.simps) blast
next
  case (JBool b)
  show ?case unfolding reads_back_def using decode_literal by (simp only: compact.simps) blast
next
  case (JNum s)
  then show ?case by (simp add: reads_back_def decode_number del: decode_from.simps)
next
  case (JStr s)
  then show ?case by (simp add: reads_back_def decode_quoted)
next
  case (JArr vs)
  show ?case unfolding reads_back_def
  proof (intro allI impI)
    fix fs rest assume w: "written (JArr vs)" and d: "fits fs (JArr vs)"
    have open_arr: "decode_from fs BeginValue (CHR ''['' # more) = decode_from (FArr [] # fs) BeginValueOrEmpty more" for more
      using d by (simp add: begin_value_def is_space_def open_frame_def)
    show "decode_from fs BeginValue (compact (JArr vs) @ rest) = resume (push_value fs (JArr vs)) rest"
    proof (cases vs)
      case Nil
      then show ?thesis
        by (simp add: open_arr decode_empty del: decode_from.simps)
    next
      case (Cons v ws)
      have each: "reads_back u \<and> written u \<and> Suc (length fs) + depth u \<le> max_nesting" if "u \<in> set (v # ws)" for u
        using JArr.IH that w d Cons depth_le_fold [of u vs 0] by (auto simp: list_all_iff)
      have "decode_from (FArr [] # fs) BeginValueOrEmpty (join_comma (map compact (v # ws)) @ CHR '']'' # rest)
          = decode_from (FArr [] # fs) BeginValue (join_comma (map compact (v # ws)) @ CHR '']'' # rest)"
        using decode_container_first [of v] each [of v] by (cases ws) (simp_all del: decode_from.simps)
      then show ?thesis
        using decode_elements [OF each, where acc = "[]" and rest = rest] Cons by (simp add: open_arr del: decode_from.simps)
    qed
  qed
next
  case (JObj es)
  show ?case unfolding reads_back_def
  proof (intro allI impI)
    fix fs rest assume w: "written (JObj es)" and d: "fits fs (JObj es)"
    have open_obj: "decode_from fs BeginValue (CHR ''{'' # more) = decode_from (FObj [] # fs) BeginStringOrEmpty more" for more
      using d by (simp add: begin_value_def is_space_def open_frame_def)
    show "decode_from fs BeginValue (compact (JObj es) @ rest) = resume (push_value fs (JObj es)) rest"
    proof (cases es)
      case Nil
      then show ?thesis
        by (simp add: open_obj decode_empty last_wins_def del: decode_from.simps)
    next
      case (Cons e ds)
      have each: "ascii k \<and> reads_back u \<and> written u \<and> Suc (length fs) + depth u \<le> max_nesting"
        if "(k, u) \<in> set (e # ds)" for k u
      proof -
        have m: "map depth (map snd es) = map (\<lambda>(k, v). depth v) es" by auto
        have e: "(k, u) \<in> set es" using that Cons by simp
        then have "u \<in> set (map snd es)" by force
        then have "depth u \<le> fold max (map (\<lambda>(k, v). depth v) es) 0"
          using depth_le_fold [of u "map snd es" 0] by (simp only: m)
        moreover have "reads_back u" using JObj.IH [OF e] by (simp add: snds.simps)
        ultimately show ?thesis
          using e w d
          by (fastforce simp: list_all_iff)
      qed
      have m: "compact (JObj es) = CHR ''{'' # join_comma (map entry_text (e # ds)) @ ''}''"
        using Cons by simp
      have "decode_from (FObj [] # fs) BeginStringOrEmpty (join_comma (map entry_text (e # ds)) @ CHR ''}'' # rest)
          = resume (push_value fs (JObj (rev [] @ e # ds))) rest"
        by (rule decode_entries) (use each in blast, simp)
      then show ?thesis unfolding m using Cons
        by (simp only: append.simps open_obj append_assoc rev.simps append_Nil)
    qed
  qed
qed

lemma Unmarshal_compact:
  assumes "written v" and "depth v \<le> max_nesting"
  shows "Unmarshal (compact v) = Some v"
proof -
  have "decode_from [] BeginValue (compact v @ []) = resume (push_value [] v) []"
  proof -
    have "follows [] []" and "fits [] v" using assms by (simp_all add: follows_def)
    then show ?thesis using all_read_back [of v] assms(1) unfolding reads_back_def by blast
  qed
  then show ?thesis by (simp add: Unmarshal_def Decode_def resume_def)
qed

section \<open>The order of maps\<close>

fun in_order :: "json \<Rightarrow> bool" where
  "in_order (JArr vs) = list_all in_order vs"
| "in_order (JObj es) = (sorted_wrt (<) (map fst es) \<and> list_all (\<lambda>(k, v). in_order v) es)"
| "in_order _ = True"

lemma marshal_object:
  assumes "sorted_wrt (<) (map fst es)"
  shows "marshal (JObj es) =
    CHR ''{'' # join_comma (map (\<lambda>(k, v). quote_string k @ CHR '':'' # marshal v) es) @ ''}''"
proof -
  let ?ms = "map (\<lambda>(k, v). (k, marshal v)) es"
  have k: "map fst ?ms = map fst es" by (induction es) auto
  have d: "distinct (map fst ?ms)" using assms unfolding k by (simp add: strict_sorted_iff)
  have "sort_by key_le ?ms = ?ms"
  proof (rule sort_by_unique [OF key_le_total])
    have "sorted_wrt (\<lambda>a b. fst a < fst b) ?ms" using assms k by (metis sorted_wrt_map)
    then show "sorted_wrt key_le ?ms" by (rule sorted_wrt_mono_rel [rotated]) (auto simp: key_le_def)
    show "x = y" if "x \<in> set ?ms" "y \<in> set ?ms" "key_le x y" "key_le y x" for x y
      using that d by (auto simp: key_le_def distinct_map inj_on_def)
  qed simp
  moreover have "map (\<lambda>(k, t). quote_string k @ CHR '':'' # t) ?ms
     = map (\<lambda>(k, v). quote_string k @ CHR '':'' # marshal v) es" by auto
  ultimately show ?thesis unfolding marshal.simps(6) last_wins_distinct [OF d] by metis
qed

lemma marshal_in_order: "in_order v \<Longrightarrow> marshal v = compact v"
proof (induction v)
  case (JArr vs)
  then have "map marshal vs = map compact vs" by (simp add: list_all_iff)
  then show ?case by (simp only: marshal.simps compact.simps)
next
  case (JObj es)
  have "quote_string k @ CHR '':'' # marshal v = quote_string k @ CHR '':'' # compact v" if "(k, v) \<in> set es" for k v
    using JObj.IH [OF that] JObj.prems that by (fastforce simp: list_all_iff)
  then have "map (\<lambda>(k, v). quote_string k @ CHR '':'' # marshal v) es
      = map (\<lambda>(k, v). quote_string k @ CHR '':'' # compact v) es" by auto
  then show ?case using JObj.prems marshal_object [of es] by (simp only: in_order.simps compact.simps)
qed simp_all

lemma Unmarshal_marshal:
  assumes "written v" and "in_order v" and "depth v \<le> max_nesting"
  shows "Unmarshal (marshal v) = Some v"
  using assms by (simp add: marshal_in_order Unmarshal_compact)

end
