(* ===== verification/Codec_Facts.thy ===== *)
theory Codec_Facts
  imports Grant_Codec Json_Facts
begin

text \<open>
  What is stored of permissions and grants is what is read back (\<open>internal/auth/permissions.go\<close>).
\<close>

section \<open>Permissions\<close>

definition permission_entries :: "permissions \<Rightarrow> permissions" where
  "permission_entries ps = concat (map (\<lambda>a. case map_of ps a of None \<Rightarrow> [] | Some l \<Rightarrow> [(a, l)]) Areas)"

lemma escape_plain:
  assumes "list_all (\<lambda>c. byte c < 128 \<and> escape_ascii c = [c]) s"
  shows "quote_string s = quoted s" and "ascii s"
proof -
  have "ascii s \<and> escape_string s = s"
    using assms by (induction s) (simp_all add: escape_string.simps)
  then show "quote_string s = quoted s" and "ascii s" by (simp_all add: quote_string_def quoted_def)
qed

lemma area_plain: "area_Valid a \<Longrightarrow> list_all (\<lambda>c. byte c < 128 \<and> escape_ascii c = [c]) (area_String a)"
proof -
  have "list_all (\<lambda>a. list_all (\<lambda>c. byte c < 128 \<and> escape_ascii c = [c]) (area_String a)) Areas" by code_simp
  then show "area_Valid a \<Longrightarrow> ?thesis" by (simp add: list_all_iff area_Valid_def)
qed

lemma level_plain: "level_Valid l \<Longrightarrow> list_all (\<lambda>c. byte c < 128 \<and> escape_ascii c = [c]) (level_String l)"
proof -
  have "list_all (\<lambda>l. list_all (\<lambda>c. byte c < 128 \<and> escape_ascii c = [c]) (level_String l))
      [LevelRead, LevelWrite, LevelDecide]" by code_simp
  then show "level_Valid l \<Longrightarrow> ?thesis" by (auto simp: level_Valid_def)
qed

lemma map_of_permission_entries: "map_of (permission_entries ps) a = (if a \<in> set Areas then map_of ps a else None)"
proof -
  have "map_of (concat (map (\<lambda>a. case map_of ps a of None \<Rightarrow> [] | Some l \<Rightarrow> [(a, l)]) as)) a
      = (if a \<in> set as then map_of ps a else None)" for as
    by (induction as) (auto split: option.split)
  then show ?thesis by (simp add: permission_entries_def)
qed

lemma permission_entries_distinct: "distinct (map fst (permission_entries ps))"
proof -
  have "set (map fst (concat (map (\<lambda>a. case map_of ps a of None \<Rightarrow> [] | Some l \<Rightarrow> [(a, l)]) as))) \<subseteq> set as
      \<and> (distinct as \<longrightarrow> distinct (map fst (concat (map (\<lambda>a. case map_of ps a of None \<Rightarrow> [] | Some l \<Rightarrow> [(a, l)]) as))))" for as
    by (induction as) (auto split: option.split)
  moreover have "distinct Areas" by (simp add: Areas_def)
  ultimately show ?thesis unfolding permission_entries_def by blast
qed

definition permission_object :: "permissions \<Rightarrow> (string \<times> json) list" where
  "permission_object ps = map (\<lambda>(a, l). (area_String a, JStr (level_String l))) (permission_entries ps)"

lemma marshal_permissions_compact:
  assumes "\<forall>e\<in>set ps. entry_ok e"
  shows "marshal_permissions ps = compact (JObj (permission_object ps))"
proof -
  have ok: "area_Valid a \<and> level_Valid l" if "map_of ps a = Some l" for a l
    using assms map_of_SomeD [OF that] by (auto simp: entry_ok_def)
  have "concat (map (\<lambda>a. case map_of ps a of None \<Rightarrow> [] | Some l \<Rightarrow> if l = LevelNone then []
        else [quoted (area_String a) @ '':'' @ quoted (level_String l)]) as)
     = map (\<lambda>(k, v). quote_string k @ CHR '':'' # compact v)
         (map (\<lambda>(a, l). (area_String a, JStr (level_String l)))
           (concat (map (\<lambda>a. case map_of ps a of None \<Rightarrow> [] | Some l \<Rightarrow> [(a, l)]) as)))" for as
    using ok escape_plain(1) [OF area_plain] escape_plain(1) [OF level_plain]
    by (induction as) (auto simp: level_Valid_def split: option.split)
  then show ?thesis
    by (simp add: marshal_permissions_def permission_object_def permission_entries_def)
qed

lemma permission_entries_ok:
  assumes "\<forall>e\<in>set ps. entry_ok e" and "(a, l) \<in> set (permission_entries ps)"
  shows "area_Valid a \<and> level_Valid l \<and> entry_ok (a, l)"
proof -
  have "map_of ps a = Some l" using assms(2) by (auto simp: permission_entries_def split: option.splits)
  then have "(a, l) \<in> set ps" by (rule map_of_SomeD)
  then have "entry_ok (a, l)" using assms by blast
  then show ?thesis by (simp add: entry_ok_def)
qed

lemma Unmarshal_marshal_permissions:
  assumes "\<forall>e\<in>set ps. entry_ok e"
  shows "Unmarshal (marshal_permissions ps) = Some (JObj (permission_object ps))"
proof -
  note ok = permission_entries_ok [OF assms]
  have "written (JObj (permission_object ps))"
    using ok escape_plain(2) [OF area_plain] escape_plain(2) [OF level_plain]
    by (auto simp: permission_object_def list_all_iff)
  moreover have "depth (JObj (permission_object ps)) \<le> max_nesting"
  proof -
    have "map (\<lambda>(k, v). depth v) (permission_object ps) = map (\<lambda>_. 0) (permission_entries ps)"
      by (auto simp: permission_object_def)
    moreover have "fold max (map (\<lambda>_. 0::nat) xs) 0 = 0" for xs :: "(area \<times> level) list" by (induction xs) auto
    ultimately show ?thesis by (simp add: max_nesting_def)
  qed
  ultimately show ?thesis by (simp only: marshal_permissions_compact [OF assms] Unmarshal_compact)
qed

lemma unmarshal_marshal_permissions:
  assumes "\<forall>e\<in>set ps. entry_ok e"
  shows "unmarshal_permissions (marshal_permissions ps) = Some (permission_entries ps)"
proof -
  note ok = permission_entries_ok [OF assms]
  note u = Unmarshal_marshal_permissions [OF assms]
  have "map fst (permission_object ps) = map area_String (map fst (permission_entries ps))"
    by (auto simp: permission_object_def)
  moreover have "inj_on area_String (set (map fst (permission_entries ps)))"
    using ok area_of_string_String by (intro inj_on_inverseI [where g = area_of_string]) auto
  ultimately have "distinct (map fst (permission_object ps))"
    using permission_entries_distinct [of ps] by (metis distinct_map)
  then have "last_wins (permission_object ps) = permission_object ps" by (rule last_wins_distinct)
  moreover have "map (\<lambda>(k, v). (area_of_string k, level_of_string (the (string_entry v)))) (permission_object ps)
      = permission_entries ps"
  proof -
    have "map (\<lambda>(k, v). (area_of_string k, level_of_string (the (string_entry v)))) (permission_object ps)
      = map (\<lambda>(a, l). (area_of_string (area_String a), level_of_string (level_String l))) (permission_entries ps)"
      by (auto simp: permission_object_def)
    also have "\<dots> = permission_entries ps"
      using ok area_of_string_String level_of_string_String by (intro map_idI) auto
    finally show ?thesis .
  qed
  moreover have "Normalize_permissions (permission_entries ps) = permission_entries ps"
    unfolding Normalize_permissions_def using ok by (intro filter_True) auto
  ultimately show ?thesis
    unfolding unmarshal_permissions_def u by (auto simp: list_all_iff permission_object_def)
qed

section \<open>Grants\<close>

lemma Normalize_clean:
  assumes "g \<in> set (Normalize_grants gs)"
  shows "storable g" and "trim_grant g = g"
proof -
  obtain n l where g: "g = mk_grant (n, l)" and k: "(n, l) \<in> kept gs"
    using assms by (auto simp: set_Normalize)
  have l: "l \<in> {LevelRead, LevelWrite}" "n \<noteq> ''''" using kept_levels [OF k] by auto
  have "best_level (best_of gs) n = l" using k by (auto simp: kept_def best_level_entry)
  moreover have "1 \<le> level_rank l" using l by auto
  ultimately have "\<exists>h\<in>set gs. storable h \<and> TrimSpace (g_Plugin h) = n \<and> 1 \<le> level_rank (g_Level h)"
    using best_of_rank [of 1 gs n] by simp
  then have "TrimSpace n = n" by (metis TrimSpace_idem)
  then show "storable g" and "trim_grant g = g"
    using g l by (auto simp: storable_def trim_grant_def mk_grant_def)
qed

lemma Normalize_idem: "Normalize_grants (Normalize_grants gs) = Normalize_grants gs"
proof -
  let ?hs = "Normalize_grants gs"
  have v: "Validate_grants ?hs = None" using Normalize_clean(1) by (auto simp: Validate_grants_None)
  have t: "map trim_grant ?hs = ?hs" using Normalize_clean(2) by (intro map_idI)
  have same: "Reaches (Normalize_grants ?hs) p m = Reaches ?hs p m" for p m
    using Normalize_reach [OF v, of p m] by (simp only: t)
  have le2: "reach_rank ks p \<le> 2" for ks p
  proof -
    have "level_rank l \<le> 2" for l by (cases l) auto
    then show ?thesis by (simp add: reach_rank_def)
  qed
  have r: "reach_rank ?hs p = reach_rank gs p" if "p \<noteq> ''''" "p \<noteq> Wildcard" for p
  proof -
    have "1 \<le> reach_rank ?hs p \<longleftrightarrow> 1 \<le> reach_rank gs p"
      using same [of p LevelRead] Reaches_Normalize [OF that, of ?hs LevelRead]
        Reaches_Normalize [OF that, of gs LevelRead] by simp
    moreover have "2 \<le> reach_rank ?hs p \<longleftrightarrow> 2 \<le> reach_rank gs p"
      using same [of p LevelWrite] Reaches_Normalize [OF that, of ?hs LevelWrite]
        Reaches_Normalize [OF that, of gs LevelWrite] by simp
    ultimately show ?thesis using le2 [of ?hs p] le2 [of gs p] by linarith
  qed
  have "kept ?hs = kept gs" using kept_of_reach [of ?hs gs] kept_of_reach [of gs ?hs] r by force
  then show ?thesis by (rule Normalize_eq)
qed

definition grant_object :: "grant \<Rightarrow> json" where
  "grant_object g = JObj [(''plugin'', JStr (g_Plugin g)), (''level'', JStr (level_String (g_Level g)))]"

lemma keys_plain:
  "quote_string ''plugin'' = quoted ''plugin''" "quote_string ''level'' = quoted ''level''"
  "ascii ''plugin''" "ascii ''level''"
proof -
  have "list_all (list_all (\<lambda>c. byte c < 128 \<and> escape_ascii c = [c])) [''plugin'', ''level'']" by code_simp
  then show "quote_string ''plugin'' = quoted ''plugin''" "quote_string ''level'' = quoted ''level''"
    "ascii ''plugin''" "ascii ''level''"
    using escape_plain [of "''plugin''"] escape_plain [of "''level''"] by auto
qed

lemma encode_grant_compact: "encode_grant = (\<lambda>g. compact (grant_object g))"
  by (rule ext) (simp add: encode_grant_def grant_object_def keys_plain)

lemma decode_grant_object:
  assumes "g_Level g = LevelRead \<or> g_Level g = LevelWrite"
  shows "decode_grant (grant_object g) = Some g"
proof -
  have "foldName ''plugin'' = ''PLUGIN''" "foldName ''level'' = ''LEVEL''" by code_simp+
  moreover have "level_of_string (level_String (g_Level g)) = g_Level g"
    using assms by (intro level_of_string_String) (auto simp: level_Valid_def)
  ultimately show ?thesis by (simp add: grant_object_def zero_grant_def)
qed

lemma DecodeGrants_EncodeGrants:
  assumes "\<forall>g\<in>set (Normalize_grants gs). ascii (g_Plugin g)"
  shows "DecodeGrants (EncodeGrants gs) = Normalize_grants gs"
proof -
  let ?hs = "Normalize_grants gs"
  have lv: "g_Level g = LevelRead \<or> g_Level g = LevelWrite" if "g \<in> set ?hs" for g
    using Normalize_clean(1) [OF that] by (simp add: storable_def)
  have lp: "ascii (level_String (g_Level g))" if "g \<in> set ?hs" for g
    using lv [OF that] by (intro escape_plain(2) [OF level_plain]) (auto simp: level_Valid_def)
  have "written (JArr (map grant_object ?hs))"
    using assms lp by (auto simp: list_all_iff grant_object_def keys_plain simp del: ascii_simps)
  moreover have "depth (JArr (map grant_object ?hs)) \<le> max_nesting"
  proof -
    have "fold max (map depth (map grant_object xs)) n \<le> max n 1" for xs n
    proof (induction xs arbitrary: n)
      case (Cons g xs)
      have "depth (grant_object g) = 1" by (simp add: grant_object_def)
      then show ?case using Cons.IH [of "max 1 n"] by simp
    qed simp
    from this [of ?hs 0] show ?thesis by (simp add: max_nesting_def)
  qed
  moreover have "EncodeGrants gs = compact (JArr (map grant_object ?hs))"
    by (simp add: EncodeGrants_def marshal_grants_def encode_grant_compact comp_def)
  ultimately have u: "Unmarshal (EncodeGrants gs) = Some (JArr (map grant_object ?hs))"
    by (simp only: Unmarshal_compact)
  have "decode_each (map grant_object xs) = Some xs" if "set xs \<subseteq> set ?hs" for xs
    using that lv by (induction xs) (auto simp: decode_grant_object)
  then have "decode_each (map grant_object ?hs) = Some ?hs" by blast
  then show ?thesis by (simp add: DecodeGrants_def u Normalize_idem)
qed


section \<open>Read back\<close>

text \<open>
  Permissions read back as they were stored. What \<open>MarshalJSON\<close> writes of a role's permissions is a
  document \<open>UnmarshalJSON\<close> accepts, and it yields the same level in every area, with no other entry.
\<close>
theorem permissions_read_back:
  assumes "\<forall>e\<in>set ps. entry_ok e"
  shows "\<exists>qs. unmarshal_permissions (marshal_permissions ps) = Some qs
     \<and> (\<forall>a. map_of qs a = (if area_Valid a then map_of ps a else None)) \<and> distinct (map fst qs)"
  using unmarshal_marshal_permissions [OF assms] map_of_permission_entries permission_entries_distinct
  by (simp add: area_Valid_def)

theorem permissions_read_back_witness:
  "\<exists>qs. unmarshal_permissions (marshal_permissions [(AreaApprovals, LevelDecide)]) = Some qs
     \<and> map_of qs AreaApprovals = Some LevelDecide"
proof -
  have "\<forall>e\<in>set [(AreaApprovals, LevelDecide)]. entry_ok e" by code_simp
  from permissions_read_back [OF this] show ?thesis by (auto simp: area_Valid_def Areas_def)
qed

text \<open>
  C40. Grants of ASCII names survive the column. A list of grants all of whose plugins have ASCII names, as
  every instance name is by its pattern, is read back as the normalised list it was written from: the
  encoding and the decoding drop nothing and invent nothing. (A name that is not UTF-8, which the validation
  of grants accepts, comes back as another: \<open>broken_name_reads_back_otherwise\<close>.)
\<close>
theorem grants_read_back:
  assumes "\<forall>g\<in>set (Normalize_grants gs). ascii (g_Plugin g)"
  shows "DecodeGrants (EncodeGrants gs) = Normalize_grants gs"
  using assms by (rule DecodeGrants_EncodeGrants)

theorem grants_read_back_witness:
  "DecodeGrants (EncodeGrants [\<lparr>g_Plugin = ''jira'', g_Level = LevelWrite\<rparr>])
     = Normalize_grants [\<lparr>g_Plugin = ''jira'', g_Level = LevelWrite\<rparr>]"
proof -
  have "\<forall>g\<in>set (Normalize_grants [\<lparr>g_Plugin = ''jira'', g_Level = LevelWrite\<rparr>]). ascii (g_Plugin g)"
  proof -
    have "TrimSpace ''jira'' = ''jira''" by (rule TrimSpace_visible) (simp_all add: visible_def)
    then have "best_of [\<lparr>g_Plugin = ''jira'', g_Level = LevelWrite\<rparr>] = [(''jira'', LevelWrite)]"
      by (simp add: best_of_def best_level_def Includes_def)
    moreover have "ascii ''jira''" by code_simp
    ultimately show ?thesis by (auto simp: set_Normalize kept_def mk_grant_def Wildcard_def best_level_def)
  qed
  then show ?thesis by (rule grants_read_back)
qed

text \<open>
  A byte that begins no character is written as the escape of the replacement character, and that is read
  back as the replacement character's three bytes.
\<close>

lemma broken_name_reads_back_otherwise:
  "escape_string [CHR 0xFF] = [CHR 0x5C] @ ''ufffd''"
  "unquote ([CHR 0x5C] @ ''ufffd'') = Some [CHR 0xEF, CHR 0xBF, CHR 0xBD]"
  by (simp_all add: escape_string.simps unquote.simps DecodeRune_def byte_def Let_def getu4_def hex_val_def
      is_surrogate_def EncodeRune_def char_of_def bit_iff_odd drop_bit_eq_div)

end
