(* ===== verification/Access_Facts.thy ===== *)
theory Access_Facts
  imports Access_Ops Codec_Facts
begin

text \<open>
  What the access stores promise their callers: whose rights a subject holds, which secrets and
  sessions open anything, what a stranger can obtain, and what no run of the operations ever loses.
\<close>

section \<open>Effective access\<close>

lemma Reaches_UnionGrants:
  assumes "\<forall>gs\<in>set gss. \<exists>raw. gs = Normalize_grants raw"
  shows "Reaches (UnionGrants gss) p m \<longleftrightarrow> (\<exists>gs\<in>set gss. Reaches gs p m)"
proof -
  have clean: "storable g \<and> trim_grant g = g" if "g \<in> set (concat gss)" for g
    using that assms Normalize_clean by auto
  then have "map trim_grant (concat gss) = concat gss" by (intro map_idI) blast
  moreover have "Validate_grants (concat gss) = None" using clean by (simp add: Validate_grants_None)
  ultimately have "Reaches (UnionGrants gss) p m = Reaches (concat gss) p m"
    unfolding UnionGrants_def by (metis Normalize_reach)
  then show ?thesis by (auto simp: Reaches_def list_ex_iff)
qed

lemma DecodeGrants_normal: "\<exists>raw. DecodeGrants encoded = Normalize_grants raw"
proof -
  have "Normalize_grants [] = []" by (simp add: Normalize_grants_def)
  then show ?thesis by (auto simp: DecodeGrants_def split: option.split json.split intro: exI [of _ "[]"])
qed

lemma unmarshal_permissions_distinct:
  assumes "unmarshal_permissions data = Some ps"
  shows "distinct (map fst ps)"
proof -
  have "distinct (map fst (map (\<lambda>(k, v). (area_of_string k, h v)) (last_wins es)))" for h :: "json \<Rightarrow> level" and es
  proof -
    have "map fst (map (\<lambda>(k, v). (area_of_string k, h v)) xs) = map area_of_string (map fst xs)"
      for xs :: "(string \<times> json) list"
      by (induction xs) auto
    moreover have "inj_on area_of_string A" for A by (metis area_String_of_string inj_onI)
    then have "distinct (map area_of_string (map fst (last_wins es)))"
      by (subst distinct_map) simp
    ultimately show ?thesis by metis
  qed
  then show ?thesis
    using assms
    by (auto simp: unmarshal_permissions_def Normalize_permissions_def distinct_map_filter
        split: option.splits json.splits if_splits)
qed

text \<open>What one row of the query allows.\<close>

definition role_allows :: "role_row option \<Rightarrow> permission \<Rightarrow> bool" where
  "role_allows role p \<longleftrightarrow> (case role of None \<Rightarrow> False | Some r \<Rightarrow>
     (case unmarshal_permissions (ro_permissions_json r) of None \<Rightarrow> False | Some ps \<Rightarrow> Holds ps p))"

lemma resolve_rows_allowed:
  assumes "resolve_rows out gs rows = Inr (out', gs')" and "p \<noteq> PermSignedIn"
  shows "Holds (rs_Permissions out') p \<longleftrightarrow> Holds (rs_Permissions out) p
     \<or> (\<exists>r\<in>set rows. role_allows (fst (snd (snd r))) p)"
  using assms(1)
proof (induction rows arbitrary: out gs)
  case (Cons e rows)
  obtain isGroup rid role encoded where e: "e = (isGroup, rid, role, encoded)" by (metis prod.exhaust)
  define out1 where "out1 = (if isGroup then out
      else out\<lparr>rs_RoleID := rid, rs_RoleName := (case role of Some r \<Rightarrow> ro_name r | None \<Rightarrow> '''')\<rparr>)"
  have same: "rs_Permissions out1 = rs_Permissions out" by (simp add: out1_def)
  show ?case
  proof (cases role)
    case None
    then have "resolve_rows out1 (gs @ [DecodeGrants encoded]) rows = Inr (out', gs')"
      using Cons.prems by (auto simp: e out1_def split: if_splits)
    then show ?thesis using Cons.IH None by (simp add: e same role_allows_def)
  next
    case (Some r)
    then obtain ps where ps: "unmarshal_permissions (ro_permissions_json r) = Some ps"
      and "resolve_rows (out1\<lparr>rs_Permissions := Merge (rs_Permissions out1) ps\<rparr>)
             (gs @ [DecodeGrants encoded]) rows = Inr (out', gs')"
      using Cons.prems by (cases isGroup) (auto simp: e out1_def Let_def split: option.splits)
    from Cons.IH [OF this(2)] show ?thesis
      using Some ps unmarshal_permissions_distinct [OF ps] by (simp add: e same role_allows_def Holds_Merge)
  qed
qed simp

lemma resolve_rows_grants:
  "resolve_rows out gs rows = Inr (out', gs') \<Longrightarrow> gs' = gs @ map (\<lambda>r. DecodeGrants (snd (snd (snd r)))) rows"
  by (induction out gs rows rule: resolve_rows.induct)
     (auto simp: Let_def split: option.splits if_splits)

text \<open>A subject's own row and the rows of its groups: the role each names and the grants it holds.\<close>

definition rights_rows :: "access_db \<Rightarrow> subject \<Rightarrow> (string \<times> string) set" where
  "rights_rows db s =
     {(us_role_id u, us_grants_json u) | u. u \<in> set (ad_users db) \<and> s = User (us_id u)}
   \<union> {(ke_role_id k, ke_grants_json k) | k. k \<in> set (ad_keys db) \<and> s = Key (ke_id k)}
   \<union> {(gr_role_id g, gr_grants_json g) | g m. g \<in> set (ad_groups db) \<and> m \<in> set (ad_members db)
        \<and> gm_group_id m = gr_id g \<and> names_subject s m}"

lemma sources_rows:
  assumes "kind_Valid (sub_Kind s)"
  shows "(\<exists>r\<in>set (own_sources s db @ group_sources s db). P (fst (snd (snd r))) (snd (snd (snd r))))
     \<longleftrightarrow> (\<exists>(rid, e)\<in>rights_rows db s. P (joined_role db rid) e)" (is "?L \<longleftrightarrow> ?R")
proof -
  let ?own = "{(us_role_id u, us_grants_json u) | u. u \<in> set (ad_users db) \<and> s = User (us_id u)}
     \<union> {(ke_role_id k, ke_grants_json k) | k. k \<in> set (ad_keys db) \<and> s = Key (ke_id k)}"
  let ?joined = "{(gr_role_id g, gr_grants_json g) | g m. g \<in> set (ad_groups db) \<and> m \<in> set (ad_members db)
        \<and> gm_group_id m = gr_id g \<and> names_subject s m}"
  have "(\<exists>r\<in>set (own_sources s db). P (fst (snd (snd r))) (snd (snd (snd r))))
      \<longleftrightarrow> (\<exists>(rid, e)\<in>?own. P (joined_role db rid) e)"
    using assms by (cases s; cases "sub_Kind s") (auto simp: own_sources_def User_def Key_def)
  moreover have "(\<exists>r\<in>set (group_sources s db). P (fst (snd (snd r))) (snd (snd (snd r))))
      \<longleftrightarrow> (\<exists>(rid, e)\<in>?joined. P (joined_role db rid) e)"
    by (auto simp: group_sources_def groups_joined_def)
  moreover have "?L \<longleftrightarrow> (\<exists>r\<in>set (own_sources s db). P (fst (snd (snd r))) (snd (snd (snd r))))
      \<or> (\<exists>r\<in>set (group_sources s db). P (fst (snd (snd r))) (snd (snd (snd r))))" by auto
  moreover have "rights_rows db s = ?own \<union> ?joined" by (simp add: rights_rows_def)
  ultimately show ?thesis by (simp only: bex_Un)
qed

lemma Holds_nothing: "Holds [] p \<longleftrightarrow> p = PermSignedIn"
proof -
  have "\<not> Includes (level_at [] a) l" if "Split p = Some (a, l)" for a l
    using Split_Some [OF that] entry_ok_rank [of a l] by (auto simp: Includes_rank level_at_def)
  then show ?thesis by (auto simp: Holds_def split: option.split)
qed

lemma Resolve_allowed:
  assumes "Resolve s db = Inr r" and "kind_Valid (sub_Kind s)" and "TrimSpace (sub_ID s) \<noteq> ''''"
    and "p \<noteq> PermSignedIn"
  shows "Holds (rs_Permissions r) p \<longleftrightarrow> (\<exists>(rid, e)\<in>rights_rows db s. role_allows (joined_role db rid) p)"
proof -
  obtain out gs where r: "resolve_rows no_access [] (own_sources s db @ group_sources s db) = Inr (out, gs)"
    and "rs_Permissions r = rs_Permissions out"
    using assms by (auto simp: Resolve_def split: sum.splits)
  then show ?thesis
    using resolve_rows_allowed [OF r assms(4)] sources_rows [OF assms(2), of db "\<lambda>role e. role_allows role p"] assms(4)
    by (simp add: no_access_def Holds_nothing)
qed

lemma Resolve_reaches:
  assumes "Resolve s db = Inr r" and "kind_Valid (sub_Kind s)" and "TrimSpace (sub_ID s) \<noteq> ''''"
  shows "Reaches (rs_Grants r) p m \<longleftrightarrow> (\<exists>(rid, e)\<in>rights_rows db s. Reaches (DecodeGrants e) p m)"
proof -
  let ?rows = "own_sources s db @ group_sources s db"
  obtain out gs where r: "resolve_rows no_access [] ?rows = Inr (out, gs)" and "rs_Grants r = UnionGrants gs"
    using assms by (auto simp: Resolve_def split: sum.splits)
  moreover have "gs = map (\<lambda>r. DecodeGrants (snd (snd (snd r)))) ?rows"
    using resolve_rows_grants [OF r] by simp
  moreover have "Reaches (UnionGrants (map (\<lambda>r. DecodeGrants (snd (snd (snd r)))) ?rows)) p m
      \<longleftrightarrow> (\<exists>x\<in>set ?rows. Reaches (DecodeGrants (snd (snd (snd x)))) p m)"
    by (subst Reaches_UnionGrants) (auto simp: DecodeGrants_normal)
  ultimately have "Reaches (rs_Grants r) p m \<longleftrightarrow> (\<exists>x\<in>set ?rows. Reaches (DecodeGrants (snd (snd (snd x)))) p m)"
    by simp
  then show ?thesis using sources_rows [OF assms(2), of db "\<lambda>role e. Reaches (DecodeGrants e) p m"] by simp
qed


section \<open>Keys\<close>

text \<open>A key that a secret opens at an instant: live, and holding the secret as its own or its former one.\<close>

definition key_live :: "time \<Rightarrow> key_row \<Rightarrow> bool" where
  "key_live now k \<longleftrightarrow> ke_revoked_at k = None
     \<and> (case ke_expires_at k of None \<Rightarrow> True | Some e \<Rightarrow> now < time_UnixMilli e)"

lemma key_Status_live: "key_Status (scanKey db gs k) now = StatusActive \<longleftrightarrow> key_live now k"
  by (auto simp: key_Status_def scanKey_def key_live_def timeOrNil_def split: option.splits)

lemma key_Verify_Inr:
  assumes "key_Verify now secret db = (Inr p, db')"
  shows "\<exists>k r. k \<in> set (ad_keys db) \<and> opens (digest secret) (UnixMilli now) k \<and> key_live now k
     \<and> has_prefix secret SecretPrefix \<and> Resolve (Key (ke_id k)) db = Inr r
     \<and> p = \<lparr>p_ID = ''key:'' @ ke_id k, p_DisplayName = ke_name k, p_RoleID = ke_role_id k,
            p_RoleName = rs_RoleName r, p_Permissions = rs_Permissions r, p_Grants = rs_Grants r,
            p_TokenID = ke_id k, p_Pending = False\<rparr>"
proof -
  obtain k where k: "find (opens (digest secret) (UnixMilli now)) (ad_keys db) = Some k"
    and s: "key_Status (scanKey db [] k) now = StatusActive" and "has_prefix secret SecretPrefix"
    and r: "\<exists>r. Resolve (Key (ke_id k)) db = Inr r \<and> p = \<lparr>p_ID = ''key:'' @ ke_id k, p_DisplayName = ke_name k,
            p_RoleID = ke_role_id k, p_RoleName = rs_RoleName r, p_Permissions = rs_Permissions r,
            p_Grants = rs_Grants r, p_TokenID = ke_id k, p_Pending = False\<rparr>"
    using assms
    by (auto simp: key_Verify_def Let_def scanKey_def split: option.splits key_status.splits sum.splits if_splits)
  then show ?thesis
    using find_SomeD [OF k] s by (auto simp: key_Status_live)
qed


section \<open>What every run keeps\<close>

lemma lawful_keeps:
  assumes "lawful db db'" and "P db"
    and "\<And>a b. mild a b \<Longrightarrow> P a \<Longrightarrow> P b" and "\<And>a b. harsh a b \<Longrightarrow> P a \<Longrightarrow> P b"
  shows "P db'"
proof -
  obtain d where any: "(sup mild harsh)\<^sup>*\<^sup>* db d" and rest: "milds d db'"
    using assms(1) by (auto simp: lawful_def)
  from any have "P d"
    by (induction rule: rtranclp_induct) (use assms(2-4) in auto)
  with rest show ?thesis
    by (induction rule: rtranclp_induct) (use assms(3) in auto)
qed

lemma history_keeps:
  assumes "access_history en dbs" and "hashes_usable en" and "dbs = newer @ db # older" and "P db"
    and step: "\<And>a b. lawful a b \<Longrightarrow> access_ok a \<Longrightarrow> P a \<Longrightarrow> P b" and "d \<in> set newer"
  shows "P d"
  using assms(1,3,6)
proof (induction arbitrary: newer d rule: access_history.induct)
  case (performed db0 past seen op)
  show ?case
  proof (cases newer)
    case (Cons x newer')
    then have past: "db0 # past = newer' @ db # older" using performed.prems(1) by simp
    have "P db0"
    proof (cases newer')
      case (Cons y ys)
      then show ?thesis using performed.IH [OF past, of y] past by simp
    qed (use past assms(4) in simp)
    moreover have "access_ok db0" "access_ok seen"
      using history_ok [OF performed.hyps(1) assms(2)] performed.hyps(2) by auto
    ultimately have "P (perform en seen op db0)" using step perform_lawful [OF assms(2)] by blast
    then show ?thesis using performed.IH [OF past] performed.prems Cons by auto
  qed (use performed.prems in simp)
qed (auto simp: Cons_eq_append_conv)

definition key_revoked :: "string \<Rightarrow> millis \<Rightarrow> access_db \<Rightarrow> bool" where
  "key_revoked kid t db \<longleftrightarrow> (\<exists>k\<in>set (ad_keys db). ke_id k = kid \<and> ke_revoked_at k = Some t)"

lemma mild_key_revoked: "mild a b \<Longrightarrow> key_revoked kid t a \<Longrightarrow> key_revoked kid t b"
proof (induction rule: mild.induct)
  case (keys_updated p f db)
  then obtain k where k: "k \<in> set (ad_keys db)" "ke_id k = kid" "ke_revoked_at k = Some t"
    by (auto simp: key_revoked_def)
  let ?k = "if p k then f k else k"
  have "?k \<in> set (update_where p f (ad_keys db))" using k(1) by (auto simp: set_update_where)
  moreover have "ke_id ?k = kid \<and> ke_revoked_at ?k = Some t"
    using keys_updated.hyps(1) k by (auto simp: keeps_key_def)
  ultimately show ?case unfolding key_revoked_def by (auto simp del: if_split)
qed (auto simp: key_revoked_def)

lemma harsh_key_revoked: "harsh a b \<Longrightarrow> key_revoked kid t a \<Longrightarrow> key_revoked kid t b"
  by (induction rule: harsh.induct) (auto simp: key_revoked_def)

lemma revoked_key_dead:
  assumes "access_ok db" and "key_revoked kid t db"
    and "key_Verify now secret db = (Inr p, db')"
  shows "p_TokenID p \<noteq> kid"
proof
  assume t: "p_TokenID p = kid"
  obtain k where k: "k \<in> set (ad_keys db)" "key_live now k" "ke_id k = kid"
    using key_Verify_Inr [OF assms(3)] t by auto
  obtain j where j: "j \<in> set (ad_keys db)" "ke_id j = kid" "ke_revoked_at j = Some t"
    using assms(2) by (auto simp: key_revoked_def)
  have "distinct (map ke_id (ad_keys db))" using access_okD(1) [OF assms(1)] by (simp add: ids_ok_def)
  then have "k = j" using k j unfolding distinct_map by (metis inj_onD)
  then show False using k(2) j(3) by (simp add: key_live_def)
qed


section \<open>Rotation\<close>

text \<open>What a key's row opens to after its secret was replaced.\<close>

lemma rotate_tx_Inr:
  assumes "rotate_tx en now actor kid grace secret db = Inr (x, db')" and "access_ok db"
  shows "\<exists>k\<in>set (ad_keys db). ke_id k = kid \<and> ke_revoked_at k = None
     \<and> (\<exists>k'\<in>set (ad_keys db'). ke_id k' = kid \<and> ke_revoked_at k' = None \<and> ke_expires_at k' = ke_expires_at k
          \<and> ke_role_id k' = ke_role_id k \<and> ke_grants_json k' = ke_grants_json k
          \<and> k' = k\<lparr>ke_secret_hash := ke_secret_hash k', ke_previous_secret_hash := ke_previous_secret_hash k',
               ke_previous_until := ke_previous_until k', ke_updated_at := UnixMilli now\<rparr>
          \<and> (\<forall>h t. opens h t k' \<longleftrightarrow> h = digest secret
               \<or> (0 < grace \<and> h = ke_secret_hash k \<and> t < UnixMilli (now + grace))))
     \<and> filter (\<lambda>j. ke_id j \<noteq> kid) (ad_keys db') = filter (\<lambda>j. ke_id j \<noteq> kid) (ad_keys db)
     \<and> map ke_id (ad_keys db') = map ke_id (ad_keys db)
     \<and> (\<exists>d. db' = db\<lparr>ad_keys := ad_keys db', ad_db := d\<rparr>)"
proof -
  from assms(1) obtain k where f: "find (\<lambda>k. ke_id k = kid) (ad_keys db) = Some k" and live: "ke_revoked_at k = None"
    by (auto simp: rotate_tx_def split: option.splits if_splits)
  let ?hit = "\<lambda>j. ke_id j = kid \<and> ke_revoked_at j = None \<and> ke_secret_hash j = ke_secret_hash k"
  let ?f = "\<lambda>j. j\<lparr>ke_secret_hash := digest secret,
      ke_previous_secret_hash := if 0 < grace then Some (ke_secret_hash k) else None,
      ke_previous_until := if 0 < grace then Some (UnixMilli (now + grace)) else None,
      ke_updated_at := UnixMilli now\<rparr>"
  have k: "k \<in> set (ad_keys db)" "ke_id k = kid" using find_SomeD [OF f] by auto
  have "\<exists>d. db' = db\<lparr>ad_keys := update_where ?hit ?f (ad_keys db), ad_db := d\<rparr>"
    using assms(1) f live
    by (auto simp: rotate_tx_def Let_def and_then_Inr with_keys_def dest!: Audit_Inr split: option.splits if_splits)
  then obtain d where d: "db' = db\<lparr>ad_keys := update_where ?hit ?f (ad_keys db), ad_db := d\<rparr>" by blast
  then have keys: "ad_keys db' = update_where ?hit ?f (ad_keys db)" by simp
  have "?f k \<in> set (ad_keys db')" using k live unfolding keys set_update_where by force
  moreover have "opens h t (?f k) \<longleftrightarrow> h = digest secret
      \<or> (0 < grace \<and> h = ke_secret_hash k \<and> t < UnixMilli (now + grace))" for h t
    by (auto simp: opens_def)
  moreover have "filter (\<lambda>j. ke_id j \<noteq> kid) (update_where ?hit ?f xs) = filter (\<lambda>j. ke_id j \<noteq> kid) xs" for xs
    by (induction xs) auto
  moreover have "map ke_id (update_where ?hit ?f xs) = map ke_id xs" for xs
    by (induction xs) auto
  moreover have "db' = db\<lparr>ad_keys := ad_keys db', ad_db := d\<rparr>" using d by simp
  ultimately show ?thesis using k live
    by (intro bexI [of _ k] conjI bexI [of _ "?f k"]) (auto simp: keys)
qed

section \<open>Strangers\<close>

text \<open>The row that puts an account, and no key, in the group of the default name.\<close>

definition default_member :: "string \<Rightarrow> string \<Rightarrow> access_db \<Rightarrow> member_row \<Rightarrow> bool" where
  "default_member name uid db m \<longleftrightarrow> gm_user_id m = Some uid \<and> gm_key_id m = None
     \<and> list_ex (\<lambda>g. gr_id g = gm_group_id m \<and> sql_lower (gr_name g) = sql_lower (TrimSpace name)) (ad_groups db)"

lemma joinDefaultGroup_Inr:
  assumes "joinDefaultGroup en uid name now db = Inr (j, db')"
  shows "\<exists>ms d. db' = db\<lparr>ad_members := ad_members db @ ms, ad_db := d\<rparr> \<and> length ms \<le> 1
     \<and> (\<forall>m\<in>set ms. default_member name uid db m)"
proof -
  have same: "db = db\<lparr>ad_members := ad_members db @ [], ad_db := ad_db db\<rparr>" by simp
  show ?thesis
  proof (cases "find (\<lambda>g. sql_lower (gr_name g) = sql_lower (TrimSpace name)) (ad_groups db)")
    case None
    then show ?thesis using assms same
      by (intro exI [of _ "[]"] exI [of _ "ad_db db"]) (auto simp: joinDefaultGroup_def split: if_splits)
  next
    case (Some g)
    then have g: "g \<in> set (ad_groups db)" "sql_lower (gr_name g) = sql_lower (TrimSpace name)"
      by (auto simp: find_Some_iff)
    then have dm: "default_member name uid db (member_row_of DefaultGroupActor (gr_id g) (User uid) now)"
      by (auto simp: default_member_def member_row_of_def list_ex_iff User_def)
    show ?thesis
    proof (cases "db' = db")
      case True
      then show ?thesis using same by (intro exI [of _ "[]"] exI [of _ "ad_db db"]) simp
    next
      case False
      then obtain d where "db' = db\<lparr>ad_members := ad_members db
          @ [member_row_of DefaultGroupActor (gr_id g) (User uid) now], ad_db := d\<rparr>"
        using assms Some
        by (auto simp: joinDefaultGroup_def AddMemberAudited_def AddMemberTx_def and_then_Inr Let_def
            dest!: Audit_Inr split: if_splits)
      then show ?thesis using dm
        by (intro exI [of _ "[member_row_of DefaultGroupActor (gr_id g) (User uid) now]"] exI [of _ d]) simp
    qed
  qed
qed

lemma register_tx_Inr:
  assumes "register_tx en now ident grp r db = Inr (x, db')"
  shows "ad_users db \<noteq> []" and "\<forall>u\<in>set (ad_users db). us_email u \<noteq> us_email r \<and> us_id u \<noteq> us_id r"
    and "\<exists>i ms d. db' = db\<lparr>ad_users := ad_users db @ [r], ad_identities := ad_identities db @ i,
         ad_members := ad_members db @ ms, ad_db := d\<rparr> \<and> length i \<le> 1 \<and> length ms \<le> 1
       \<and> (\<forall>y\<in>set i. ui_user_id y = us_id r \<and> ident \<noteq> None) \<and> (\<forall>m\<in>set ms. default_member grp (us_id r) db m)"
proof -
  show "ad_users db \<noteq> []" using assms by (auto simp: register_tx_def Let_def registrable_def split: if_splits)
  obtain db1 db2 j db3 a where
    1: "insert_user r db = Inr db1" and
    2: "(case ident of None \<Rightarrow> Inr db1
        | Some i \<Rightarrow> insertIdentity (i\<lparr>in_UserID := us_id r, in_LinkedBy := ''self:'' @ us_email r\<rparr>) now db1) = Inr db2" and
    3: "joinDefaultGroup en (us_id r) grp now db2 = Inr (j, db3)" and
    4: "Audit en now a db3 = Inr db'"
    using assms by (auto simp: register_tx_def Let_def and_then_Inr simp del: append.simps split: if_splits)
  have u: "db1 = db\<lparr>ad_users := ad_users db @ [r]\<rparr>" using 1 by (auto simp: insert_user_def split: if_splits)
  have "\<exists>i. db2 = db1\<lparr>ad_identities := ad_identities db1 @ i\<rparr> \<and> length i \<le> 1
      \<and> (\<forall>y\<in>set i. ui_user_id y = us_id r \<and> ident \<noteq> None)"
  proof (cases ident)
    case None
    then show ?thesis using 2 by (intro exI [of _ "[]"]) simp
  next
    case (Some y)
    then show ?thesis using 2 by (auto simp: insertIdentity_def split: if_splits)
  qed
  then obtain i where i: "db2 = db1\<lparr>ad_identities := ad_identities db1 @ i\<rparr>" "length i \<le> 1"
      "\<forall>y\<in>set i. ui_user_id y = us_id r \<and> ident \<noteq> None"
    by blast
  obtain ms d where m: "db3 = db2\<lparr>ad_members := ad_members db2 @ ms, ad_db := d\<rparr>" "length ms \<le> 1"
      "\<forall>m\<in>set ms. default_member grp (us_id r) db2 m"
    using joinDefaultGroup_Inr [OF 3] by blast
  obtain d' where d': "db' = db3\<lparr>ad_db := d'\<rparr>" using Audit_Inr [OF 4] by blast
  have "default_member grp (us_id r) db2 y = default_member grp (us_id r) db y" for y
    by (simp add: default_member_def i(1) u)
  then show "\<exists>i ms d. db' = db\<lparr>ad_users := ad_users db @ [r], ad_identities := ad_identities db @ i,
         ad_members := ad_members db @ ms, ad_db := d\<rparr> \<and> length i \<le> 1 \<and> length ms \<le> 1
       \<and> (\<forall>y\<in>set i. ui_user_id y = us_id r \<and> ident \<noteq> None) \<and> (\<forall>m\<in>set ms. default_member grp (us_id r) db m)"
    using i m d' by (intro exI [of _ i] exI [of _ ms] exI [of _ d']) (simp add: u)
  show "\<forall>u\<in>set (ad_users db). us_email u \<noteq> us_email r \<and> us_id u \<noteq> us_id r"
    using 1 by (auto simp: insert_user_def list_ex_iff split: if_splits)
qed


section \<open>Claims\<close>

lemma claim_tx_not_credentials:
  "claim_link_tx en now th bh l actor hash db \<noteq> Inl InvalidCredentials"
  by (auto simp: claim_link_tx_def Let_def insertIdentity_def Audit_def and_then_def
      split: if_splits sum.splits)

lemma claim_answers_oracle:
  assumes "claim_read (digest token) (digest binding) (UnixMilli readAt) seen = Some (l, u)"
    and "token \<noteq> ''''" and "binding \<noteq> ''''"
  shows "fst (ClaimPendingLink en readAt now token binding password seen db) = Inl InvalidCredentials
     \<longleftrightarrow> \<not> en_bcrypt_ok en (us_password_hash u) password"
proof (cases "en_bcrypt_ok en (us_password_hash u) password")
  case True
  then show ?thesis
    using assms claim_tx_not_credentials
    by (auto simp: ClaimPendingLink_def access_tx_def and_then_def or_duplicate_def user_ByID_def
        split: sum.splits option.splits if_splits)
next
  case False
  have "fst (recordLinkFailure th bh db) = Inr ()" for th bh
    by (simp add: recordLinkFailure_def access_tx_def Let_def)
  then show ?thesis
    using assms False by (auto simp: ClaimPendingLink_def case_prod_beta split: sum.split)
qed

text \<open>How many wrong passwords every row of an offer has counted.\<close>

definition failed_at_least :: "nat \<Rightarrow> string \<Rightarrow> string \<Rightarrow> access_db \<Rightarrow> bool" where
  "failed_at_least n th bh db \<longleftrightarrow>
     (\<forall>l\<in>set (ad_links db). li_token_hash l = th \<and> li_binding_hash l = bh \<longrightarrow>
        n \<le> li_failures l \<and> li_failures l < MaxPendingLinkFailures)"

lemma counted_differs [simp]: "r\<lparr>li_failures := Suc (li_failures r)\<rparr> \<noteq> r"
  by (cases r) simp

lemma wrong_password_counts:
  assumes "ClaimPendingLink en readAt now token binding password db db = (Inl InvalidCredentials, db')"
    and "n = 0 \<or> failed_at_least n (digest token) (digest binding) db"
  shows "failed_at_least (Suc n) (digest token) (digest binding) db'"
proof -
  obtain l u where r: "claim_read (digest token) (digest binding) (UnixMilli readAt) db = Some (l, u)"
    and ne: "token \<noteq> ''''" "binding \<noteq> ''''"
    using assms(1) by (auto simp: ClaimPendingLink_def split: if_splits option.splits)
  have "\<not> en_bcrypt_ok en (us_password_hash u) password"
    using claim_answers_oracle [OF r ne, of en now password db] assms(1) by simp
  then have "db' = snd (recordLinkFailure (digest token) (digest binding) db)"
    using assms(1) r ne by (auto simp: ClaimPendingLink_def case_prod_beta split: sum.splits)
  then show ?thesis
    using assms(2)
    by (auto simp: recordLinkFailure_def access_tx_def Let_def failed_at_least_def set_update_where)
qed

lemma spent_offer_refused:
  assumes "failed_at_least MaxPendingLinkFailures (digest token) (digest binding) db"
  shows "ClaimPendingLink en readAt now token binding password db db = (Inl UserNotFound, db)"
proof -
  have "claim_read (digest token) (digest binding) t db = None" for t
    using assms
    by (fastforce simp: claim_read_def failed_at_least_def live_offer_def find_None_iff split: option.splits)
  then show ?thesis by (simp add: ClaimPendingLink_def)
qed

lemma claim_link_Inr:
  assumes "ClaimPendingLink en readAt now token binding password seen db = (Inr v, db')"
  shows "\<exists>l u. l \<in> set (ad_links seen) \<and> live_offer (digest token) (digest binding) (UnixMilli readAt) l
     \<and> u \<in> set (ad_users seen) \<and> us_id u = li_user_id l \<and> \<not> us_disabled u
     \<and> us_password_hash u \<noteq> NoPassword \<and> en_bcrypt_ok en (us_password_hash u) password
     \<and> (\<exists>u'\<in>set (ad_users db). us_id u' = us_id u \<and> \<not> us_disabled u'
          \<and> us_password_hash u' = us_password_hash u)
     \<and> (\<exists>l'\<in>set (ad_links db). live_offer (digest token) (digest binding) (UnixMilli now) l')
     \<and> \<not> linked_to db (us_id u) (li_provider l)
     \<and> (\<exists>i. ad_identities db' = ad_identities db @ [i] \<and> ui_user_id i = us_id u
          \<and> ui_provider i = li_provider l \<and> ui_subject i = li_subject l)
     \<and> ad_users db' = ad_users db
     \<and> (\<forall>l'\<in>set (ad_links db'). \<not> live_offer (digest token) (digest binding) (UnixMilli now) l')"
proof -
  obtain l u where r: "claim_read (digest token) (digest binding) (UnixMilli readAt) seen = Some (l, u)"
    and ne: "token \<noteq> ''''" "binding \<noteq> ''''"
    using assms by (auto simp: ClaimPendingLink_def split: if_splits option.splits)
  have ok: "en_bcrypt_ok en (us_password_hash u) password"
    using assms r ne
    by (auto simp: ClaimPendingLink_def case_prod_beta split: if_splits sum.splits)
  have f: "l \<in> set (ad_links seen)" "live_offer (digest token) (digest binding) (UnixMilli readAt) l"
    "offer_account seen l = Some u"
    using r by (auto simp: claim_read_def dest!: find_SomeD split: option.splits)
  have u: "u \<in> set (ad_users seen)" "us_id u = li_user_id l" "\<not> us_disabled u" "us_password_hash u \<noteq> NoPassword"
    using f(3) by (auto simp: offer_account_def dest!: find_SomeD)
  have tx: "claim_link_tx en (UnixMilli now) (digest token) (digest binding) l (''user:'' @ us_email u)
      (us_password_hash u) db = Inr ((), db')"
    using assms r ne ok
    by (auto simp: ClaimPendingLink_def case_prod_beta access_tx_def and_then_def or_duplicate_def
        simp del: append.simps split: sum.splits if_splits prod.splits)
  then have "(\<exists>u'\<in>set (ad_users db). us_id u' = us_id u \<and> \<not> us_disabled u'
          \<and> us_password_hash u' = us_password_hash u)
     \<and> (\<exists>l'\<in>set (ad_links db). live_offer (digest token) (digest binding) (UnixMilli now) l')
     \<and> \<not> linked_to db (us_id u) (li_provider l)
     \<and> (\<exists>i. ad_identities db' = ad_identities db @ [i] \<and> ui_user_id i = us_id u
          \<and> ui_provider i = li_provider l \<and> ui_subject i = li_subject l)
     \<and> ad_users db' = ad_users db
     \<and> (\<forall>l'\<in>set (ad_links db'). \<not> live_offer (digest token) (digest binding) (UnixMilli now) l')"
    using u(2)
    by (auto simp: claim_link_tx_def Let_def and_then_Inr insertIdentity_def linked_to_def list_ex_iff
        count_where_def filter_empty_conv simp del: append.simps dest!: Audit_Inr split: if_splits)
  then show ?thesis using f u ok by blast
qed

end
