(* ===== verification/Access.thy ===== *)
theory Access
  imports Access_Facts
begin

text \<open>
  The properties of the access stores, over the operations of \<open>Access_Ops\<close> and any order of them, with
  a small host on which each is applied.
\<close>

section \<open>A host to apply them to\<close>

definition sample_env :: host_env where
  "sample_env = \<lparr>en_json_valid = (\<lambda>_. True), en_event_id = (\<lambda>n. ''evt''), en_parse_address = Some,
     en_to_lower = sql_lower, en_bcrypt = (\<lambda>p. Some (''h:'' @ p)), en_bcrypt_ok = (\<lambda>h p. h = ''h:'' @ p),
     en_dummy_hash = ''h:''\<rparr>"

text \<open>An administrator, a colleague in a group that approves, a key in use and a revoked one, an offer.\<close>

definition sample_user :: "string \<Rightarrow> string \<Rightarrow> string \<Rightarrow> user_row" where
  "sample_user uid email rid = fresh_user uid email ''h:correct horse'' '''' rid [] StatusActiveUser '''' None 0"

definition sample_key :: "string \<Rightarrow> string \<Rightarrow> key_row" where
  "sample_key kid secret =
    \<lparr>ke_id = kid, ke_name = kid, ke_secret_hash = secret, ke_previous_secret_hash = None,
     ke_previous_until = None, ke_role_id = RoleReader, ke_grants_json = ''[]'', ke_created_by = ''ann'',
     ke_created_at = 0, ke_updated_at = 0, ke_expires_at = None, ke_last_used_at = None,
     ke_revoked_at = None, ke_revoked_by = None\<rparr>"

definition sample_offer :: link_row where
  "sample_offer =
    \<lparr>li_token_hash = digest ''t'', li_provider = ProviderGoogle, li_subject = ''g-1'', li_email = ''bo@x'',
     li_display_name = '''', li_user_id = ''bo'', li_binding_hash = digest ''b'', li_failures = 0,
     li_created_at = 0, li_expires_at = 1000\<rparr>"

definition sample_session :: "string \<Rightarrow> string \<Rightarrow> session_row" where
  "sample_session token uid =
    \<lparr>se_session_hash = digest token, se_id = token, se_user_id = uid, se_csrf_token = ''c'',
     se_created_at = 0, se_expires_at = 1000, se_last_seen_at = 0\<rparr>"

definition sample_db :: access_db where
  "sample_db =
    \<lparr>ad_roles = map (builtin_row 0) BuiltinRoles,
     ad_users = [sample_user ''ann'' ''ann@x'' RoleAdministrator, sample_user ''bo'' ''bo@x'' RoleReader],
     ad_keys = [(sample_key ''k1'' ''s1''), (sample_key ''k2'' ''s2'')\<lparr>ke_revoked_at := Some 5\<rparr>],
     ad_groups = [\<lparr>gr_id = ''g'', gr_name = ''Field'', gr_description = '''', gr_role_id = RoleOperator,
       gr_grants_json = ''[]'', gr_created_by = ''ann'', gr_created_at = 0, gr_updated_at = 0\<rparr>],
     ad_members = [\<lparr>gm_group_id = ''g'', gm_user_id = Some ''bo'', gm_key_id = None,
       gm_added_by = ''ann'', gm_added_at = 0\<rparr>],
     ad_sessions = [sample_session ''sa'' ''ann'', sample_session ''sb'' ''bo''],
     ad_identities = [], ad_links = [sample_offer], ad_chatgpt_roles = [], ad_db = empty_db\<rparr>"

lemma sample_env_usable: "hashes_usable sample_env"
  by (simp add: hashes_usable_def sample_env_def usable_def NoPassword_def)

lemma BuiltinRoles_present:
  "b \<in> set BuiltinRoles \<Longrightarrow> ad_roles db = map (builtin_row t) BuiltinRoles \<Longrightarrow> role_Exists db (r_ID b)"
  by (simp add: role_Exists_iff builtin_row_def image_image)

lemma builtin_ids: "r_ID ` set BuiltinRoles = {RoleReader, RoleOperator, RoleAdministrator}"
  using map_ID_BuiltinRoles by (metis list.set_map list.simps(15) set_empty2)

lemma sample_ok: "access_ok sample_db"
proof -
  have roles: "role_Exists sample_db rid" if "rid \<in> {RoleReader, RoleOperator, RoleAdministrator}" for rid
    using that BuiltinRoles_present [of _ sample_db 0] unfolding builtin_ids [symmetric]
    by (auto simp: sample_db_def)
  have "map ro_id (ad_roles sample_db) = map r_ID BuiltinRoles"
    by (simp add: sample_db_def builtin_row_def)
  then have "distinct (map ro_id (ad_roles sample_db))" using BuiltinRoles_distinct by simp
  then have "ids_ok sample_db"
    by (simp add: ids_ok_def sample_db_def sample_user_def sample_key_def fresh_user_def member_key_def
        secrets_unique_iff)
  moreover have "builtins_ok sample_db"
    by (auto simp: builtins_ok_def sample_db_def builtin_row_def)
  moreover have "\<forall>u\<in>set (ad_users sample_db). account_ok sample_db u"
    using roles by (simp add: account_ok_def sample_user_def fresh_user_def usable_def NoPassword_def)
      (simp add: sample_db_def sample_user_def fresh_user_def)
  moreover have "\<forall>k\<in>set (ad_keys sample_db). key_ok sample_db k"
    using roles by (simp add: key_ok_def) (simp add: sample_db_def sample_key_def)
  moreover have "\<forall>g\<in>set (ad_groups sample_db). group_ok sample_db g"
    using roles by (simp add: group_ok_def) (simp add: sample_db_def)
  moreover have "\<forall>m\<in>set (ad_members sample_db). well_shaped sample_db m"
    by (simp add: well_shaped_def group_exists_def user_exists_def sample_db_def sample_user_def fresh_user_def)
  moreover have "identities_ok sample_db"
    by (simp add: identities_ok_def sample_db_def)
  moreover have "owners_ok sample_db"
    by (simp add: owners_ok_def link_ok_def user_exists_def sample_db_def sample_user_def fresh_user_def
        sample_offer_def sample_session_def provider_Valid_def)
  ultimately show ?thesis by (simp add: access_ok_def)
qed


section \<open>What no run loses\<close>

text \<open>
  C2. Once somebody can administer the host, somebody always can. In every history of the operations,
  in any order and with any arguments, each later database has an administrator who is enabled, active
  and holds a credential, if an earlier one had: no edit, deletion, demotion, rejection, unlinking,
  change of a role or of a group, nor a race of two of them, locks everybody out.
\<close>
theorem last_administrator_remains:
  assumes "access_history en (newer @ db # older)" and "hashes_usable en"
    and "CountAdministrators db > 0" and "d \<in> set newer"
  shows "CountAdministrators d > 0"
  using history_keeps [OF assms(1,2) refl, of "\<lambda>d. CountAdministrators d > 0"] assms(3,4)
    lawful_administered by blast

text \<open>
  C26. Every account has exactly one open way in: an invitation and then no password, or no
  invitation and then a password or a linked provider. No history of the operations leaves an account
  nobody can sign in to, nor an invitation standing beside a password somebody was given.
\<close>
theorem every_account_keeps_one_way_in:
  assumes "access_history en dbs" and "hashes_usable en" and "db \<in> set dbs" and "u \<in> set (ad_users db)"
  shows "if us_invite_provider u = '''' then usable (us_password_hash u) \<or> has_identity db (us_id u)
         else us_password_hash u = NoPassword"
  using access_okD(3) [OF history_ok [OF assms(1-3)]] assms(4) by (auto simp: account_ok_def)

text \<open>
  C12. The tables stay sound. In every history, in every database of it: identifiers, addresses, secrets
  and provider subjects are unique; the built-in roles are there with exactly their permissions; every
  account and group names a role that exists, and so does every key that is not revoked (a role may be
  deleted from under a revoked key, which then names none); every membership is one existing account or
  one existing key in an existing group; and sessions, identities and offers belong to accounts that exist.
\<close>
theorem access_tables_stay_sound:
  assumes "access_history en dbs" and "hashes_usable en" and "db \<in> set dbs"
  shows "access_ok db"
  using assms by (rule history_ok)

section \<open>Rights\<close>

text \<open>
  C11. A subject may do exactly what its own role or one of its groups' roles allows, and reaches exactly
  what its own grants or one of its groups' grants reach: the query, its decoding and the merging add
  nothing and lose nothing, and a role that is gone allows nothing.
\<close>
theorem effective_access_is_the_union:
  assumes "Resolve s db = Inr r" and "kind_Valid (sub_Kind s)" and "TrimSpace (sub_ID s) \<noteq> ''''"
    and "p \<noteq> PermSignedIn"
  shows "(Holds (rs_Permissions r) p \<longleftrightarrow> (\<exists>(rid, e)\<in>rights_rows db s. role_allows (joined_role db rid) p))
     \<and> (Reaches (rs_Grants r) plugin l \<longleftrightarrow> (\<exists>(rid, e)\<in>rights_rows db s. Reaches (DecodeGrants e) plugin l))"
  using Resolve_allowed [OF assms] Resolve_reaches [OF assms(1-3)] by simp

section \<open>Keys\<close>

text \<open>
  A revoked key stays dead. Whatever operation follows, the key is still there and still revoked at the
  same instant, and no secret presented at any instant is answered with it.
\<close>
theorem revoked_key_stays_dead:
  assumes "hashes_usable en" and "access_ok db" and "access_ok seen" and "key_revoked kid t db"
  shows "key_revoked kid t (perform en seen op db)
     \<and> (\<nexists>now secret p d. key_Verify now secret (perform en seen op db) = (Inr p, d) \<and> p_TokenID p = kid)"
proof -
  have l: "lawful db (perform en seen op db)" by (rule perform_lawful [OF assms(1-3)])
  then have k: "key_revoked kid t (perform en seen op db)"
    using lawful_keeps [of db _ "key_revoked kid t"] assms(4) mild_key_revoked harsh_key_revoked by blast
  then show ?thesis using revoked_key_dead [OF lawful_ok [OF l assms(2)] k] by blast
qed

lemma last_match:
  "fold (\<lambda>t m. if q t then Some t else m) ts m0 = (case rev (filter q ts) of [] \<Rightarrow> m0 | t # _ \<Rightarrow> Some t)"
  by (induction ts rule: rev_induct) auto

lemma StaticVerifier_cases:
  "case StaticVerifier_Verify tokens token of
     Inl e \<Rightarrow> e = Unauthenticated \<and> (token = '''' \<or> digest token \<notin> st_digest ` set tokens)
   | Inr p \<Rightarrow> token \<noteq> '''' \<and> (\<exists>t\<in>set tokens. st_digest t = digest token \<and> p = st_Principal t)"
proof (cases "rev (filter (\<lambda>t. st_digest t = digest token) tokens)")
  case Nil
  then show ?thesis by (auto simp: StaticVerifier_Verify_def last_match filter_empty_conv)
next
  case (Cons t ts)
  then have "t \<in> set (filter (\<lambda>t. st_digest t = digest token) tokens)" by (metis list.set_intros(1) set_rev)
  then show ?thesis by (auto simp: StaticVerifier_Verify_def last_match Cons)
qed

text \<open>
  C27. A bearer secret is answered with a principal in two cases only, whatever the tables hold. It is one of
  the static credentials of the configuration, by its digest, and the principal is that credential's; or it
  is none of them, and there is a live key that holds it, as its own secret or as the former one inside its
  grace period: then the principal is that key, pending nothing, with exactly the rights its role and groups
  resolve to. A key that is revoked or expired opens nothing, and every other outcome is one error.
\<close>
theorem key_opens_only_while_live:
  "case fst (Verifier_Verify (Some (StaticVerifier_Verify tokens)) True now token db) of
      Inl e \<Rightarrow> e = Unauthenticated
    | Inr p \<Rightarrow>
        if token \<noteq> '''' \<and> digest token \<in> st_digest ` set tokens
        then \<exists>t\<in>set tokens. st_digest t = digest token \<and> p = st_Principal t
        else \<exists>k r. k \<in> set (ad_keys db) \<and> opens (digest token) (UnixMilli now) k \<and> key_live now k
         \<and> has_prefix token SecretPrefix \<and> Resolve (Key (ke_id k)) db = Inr r
         \<and> p_ID p = ''key:'' @ ke_id k \<and> p_TokenID p = ke_id k \<and> p_Permissions p = rs_Permissions r
         \<and> p_Grants p = rs_Grants r \<and> \<not> p_Pending p"
proof (cases "StaticVerifier_Verify tokens token")
  case (Inr p)
  then show ?thesis using StaticVerifier_cases [of token tokens] by (force simp: Verifier_Verify_def)
next
  case (Inl e)
  note none = StaticVerifier_cases [of token tokens, unfolded Inl sum.case]
  obtain r d where v: "key_Verify now token db = (r, d)" by fastforce
  then show ?thesis
    using key_Verify_Inr [of now token db] none Inl
    by (cases r) (auto simp: Verifier_Verify_def)
qed

text \<open>
  C28. Rotating hands one secret over to the next. The new secret opens the key from then on; the one it
  replaces opens it until the grace period ends and not after, at once when there is none. Of the key only
  its two secrets, the end of the grace period and the time of its last change are other than before: its
  name, its creator, its last use, what it may do and when it ends are the same, every other key is as it
  was, and so are its memberships of groups and every other table of access.
\<close>
theorem rotation_hands_over:
  assumes "access_ok db" and "Rotate en now actor kid grace b db = (Inr (v, secret), db')"
  shows "\<exists>k\<in>set (ad_keys db). ke_id k = kid \<and> ke_revoked_at k = None
     \<and> (\<exists>k'\<in>set (ad_keys db'). ke_id k' = kid \<and> ke_revoked_at k' = None \<and> ke_expires_at k' = ke_expires_at k
          \<and> ke_role_id k' = ke_role_id k \<and> ke_grants_json k' = ke_grants_json k
          \<and> k' = k\<lparr>ke_secret_hash := ke_secret_hash k', ke_previous_secret_hash := ke_previous_secret_hash k',
               ke_previous_until := ke_previous_until k', ke_updated_at := UnixMilli now\<rparr>
          \<and> (\<forall>h t. opens h t k' \<longleftrightarrow> h = digest secret
               \<or> (0 < grace \<and> h = ke_secret_hash k \<and> t < UnixMilli (now + grace))))
     \<and> filter (\<lambda>j. ke_id j \<noteq> kid) (ad_keys db') = filter (\<lambda>j. ke_id j \<noteq> kid) (ad_keys db)
     \<and> map ke_id (ad_keys db') = map ke_id (ad_keys db)
     \<and> (\<exists>d. db' = db\<lparr>ad_keys := ad_keys db', ad_db := d\<rparr>)"
proof -
  obtain x where x: "rotate_tx en now actor kid grace secret db = Inr (x, db')"
    using assms(2)
    by (auto simp: Rotate_def Let_def case_prod_beta access_tx_def and_then_def split: if_splits sum.splits)
  show ?thesis by (rule rotate_tx_Inr [OF x assms(1)])
qed


section \<open>Sessions\<close>

text \<open>
  C29. A session token is answered only while a session of that token is before its deadline and was seen
  within the idle window, and only with its own account, which exists and is enabled. In every other case
  the answer is one error.
\<close>
theorem session_opens_only_while_live:
  "case ResolveSession now token idle db of
     Inl e \<Rightarrow> e = UserNotFound
   | Inr (u, sess) \<Rightarrow>
       (\<exists>s\<in>set (ad_sessions db). se_session_hash s = digest token \<and> UnixMilli now < se_expires_at s
         \<and> (idle \<le> 0 \<or> now < time_UnixMilli (se_last_seen_at s) + idle) \<and> sv_ID sess = se_id s
         \<and> (\<exists>r\<in>set (ad_users db). us_id r = se_user_id s \<and> \<not> us_disabled r \<and> u = scanUser r))"
  by (cases "ResolveSession now token idle db")
     (auto simp: ResolveSession_def Let_def and_then_def user_ByID_def scanUser_def
        dest!: find_SomeD split: option.splits if_splits sum.splits)

text \<open>The edits of an account that end its sessions when they succeed.\<close>

datatype account_change = NewPassword string | NewRights user_update | Removal

fun change_account ::
  "host_env \<Rightarrow> time \<Rightarrow> time \<Rightarrow> string \<Rightarrow> account_change \<Rightarrow> access_db \<Rightarrow> access_error option \<times> access_db" where
  "change_account en now now2 uid (NewPassword p) db =
    (case SetPassword en now uid p db of (r, d) \<Rightarrow> (case_sum Some (\<lambda>_. None) r, d))"
| "change_account en now now2 uid (NewRights req) db =
    (case user_Update now now2 uid req db of (r, d) \<Rightarrow> (case_sum Some (\<lambda>_. None) r, d))"
| "change_account en now now2 uid Removal db =
    (case user_Delete uid db of (r, d) \<Rightarrow> (case_sum Some (\<lambda>_. None) r, d))"

fun changes_rights :: "account_change \<Rightarrow> bool" where
  "changes_rights (NewRights req) \<longleftrightarrow> uu_RoleID req \<noteq> None \<or> uu_Grants req \<noteq> None \<or> uu_Disabled req \<noteq> None"
| "changes_rights _ \<longleftrightarrow> True"

lemma gone_sessions:
  "filter (\<lambda>s. \<not> list_ex (\<lambda>u. us_id u = se_user_id s \<and> us_id u = uid) us) ss
     = filter (\<lambda>s. se_user_id s \<noteq> uid \<or> uid \<notin> us_id ` set us) ss"
  by (rule filter_cong) (auto simp: list_ex_iff image_iff)

lemma user_update_ends_sessions:
  assumes "user_update_tx now now2 uid name rid gs disabled invite db = Inr (x, db')"
    and "disabled \<noteq> None \<or> rid \<noteq> None \<or> gs \<noteq> None"
  shows "ad_sessions db' = filter (\<lambda>s. se_user_id s \<noteq> uid) (ad_sessions db)"
  using assms
  by (auto simp: user_update_tx_def Let_def and_then_Inr reinvite_def end_sessions_def split: if_splits option.splits)

lemma check_field_None: "check_field v f = Inr w \<Longrightarrow> w = None \<longleftrightarrow> v = None"
  by (auto simp: check_field_def and_then_Inr split: option.splits)

text \<open>
  C30. A change of what an account may do, a new password or the account's removal ends its sessions in the
  same transaction, and no other account's: when the call succeeds the sessions left are exactly those of
  the others.
\<close>
theorem changed_account_is_signed_out:
  assumes "change_account en now now2 uid ch db = (None, db')" and "changes_rights ch"
  shows "ad_sessions db' = filter (\<lambda>s. se_user_id s \<noteq> uid) (ad_sessions db)"
proof (cases ch)
  case (NewPassword p)
  then show ?thesis
    using assms
    by (auto simp: SetPassword_def access_tx_def set_password_tx_def end_sessions_def
        split: sum.splits if_splits prod.splits)
next
  case (NewRights req)
  then obtain name gs x where
    "user_update_tx (UnixMilli now) now2 uid name (map_option TrimSpace (uu_RoleID req)) gs (uu_Disabled req)
       (uu_InviteProvider req) db = Inr (x, db')"
    and g: "check_field (uu_Grants req) validated_grants = Inr gs"
    using assms
    by (auto simp: user_Update_def access_tx_def and_then_def split: sum.splits if_splits prod.splits)
  then show ?thesis
    using assms(2) NewRights check_field_None [OF g] by (intro user_update_ends_sessions) auto
next
  case Removal
  then show ?thesis
    using assms
    by (auto simp: user_Delete_def access_tx_def user_delete_tx_def and_then_def Let_def delete_users_def
        gone_sessions split: sum.splits if_splits prod.splits) (auto intro!: filter_cong)
qed

section \<open>Strangers\<close>

text \<open>
  A host is claimed once. The first account is made only while there is none, and it is then the only
  one, with the administrator's role, a password and no invitation; once there is an account, the call
  changes nothing.
\<close>
theorem host_is_claimed_once:
  "case CreateFirst en now b email password name db of
     (Inl e, db') \<Rightarrow> db' = db
   | (Inr v, db') \<Rightarrow> ad_users db = [] \<and>
       (\<exists>u. ad_users db' = [u] \<and> us_role_id u = RoleAdministrator \<and> us_invite_provider u = ''''
          \<and> us_status u = StatusActiveUser \<and> HashPassword en password = Inr (us_password_hash u))"
  by (auto simp: CreateFirst_def create_first_tx_def insert_user_def access_tx_def and_then_def Let_def
      fresh_user_def split: prod.split sum.splits if_splits)

text \<open>
  C31. Registering gives a stranger an account and nothing else. On success the host was claimed before, the
  policy allows the address, nobody had it, and the one new account has the operator's role, no grants of its
  own and, unless a provider proved the address, waits for approval when the policy asks for it. No other
  row of the tables of access changes: no account, role, group, key, session or offer; the identity linked,
  if one is, is the new account's; and the membership added, if one is, puts the new account, and nobody
  else, in the group the policy names as the default.
\<close>
theorem registration_gives_no_more:
  assumes "Register en now b req db = (Inr v, db')"
  shows "\<exists>r email i ms d. db' = db\<lparr>ad_users := ad_users db @ [r], ad_identities := ad_identities db @ i,
         ad_members := ad_members db @ ms, ad_db := d\<rparr> \<and> ad_users db \<noteq> []
     \<and> normalized en (rr_Email req) = Inr email \<and> policy_Allows en (rr_Policy req) email = None
     \<and> us_email r = email \<and> (\<forall>u\<in>set (ad_users db). us_email u \<noteq> email \<and> us_id u \<noteq> us_id r)
     \<and> us_role_id r = RoleOperator \<and> us_grants_json r = EncodeGrants [] \<and> us_invite_provider r = ''''
     \<and> us_status r = StatusFor (rr_Policy req) (rr_Identity req \<noteq> None)
     \<and> length i \<le> 1 \<and> (\<forall>x\<in>set i. ui_user_id x = us_id r \<and> rr_Identity req \<noteq> None)
     \<and> length ms \<le> 1 \<and> (\<forall>m\<in>set ms. default_member (rp_DefaultGroup (rr_Policy req)) (us_id r) db m)"
proof -
  obtain r email hash name where e: "normalized en (rr_Email req) = Inr email" "policy_Allows en (rr_Policy req) email = None"
    and r: "r = fresh_user (newID ''usr_'' b) email hash name RoleOperator []
        (StatusFor (rr_Policy req) (rr_Identity req \<noteq> None)) '''' None (UnixMilli now)"
    and tx: "register_tx en (UnixMilli now) (rr_Identity req) (rp_DefaultGroup (rr_Policy req)) r db = Inr ((), db')"
    using assms
    by (auto simp: Register_def Let_def case_prod_beta access_tx_def and_then_def or_duplicate_def
        split: sum.splits option.splits if_splits)
  obtain i ms d where db': "db' = db\<lparr>ad_users := ad_users db @ [r], ad_identities := ad_identities db @ i,
      ad_members := ad_members db @ ms, ad_db := d\<rparr>" "length i \<le> 1" "length ms \<le> 1"
    "\<forall>x\<in>set i. ui_user_id x = us_id r \<and> rr_Identity req \<noteq> None"
    "\<forall>m\<in>set ms. default_member (rp_DefaultGroup (rr_Policy req)) (us_id r) db m"
    using register_tx_Inr(3) [OF tx] by blast
  show ?thesis using register_tx_Inr(1,2) [OF tx] e db'
    by (intro exI [of _ r] exI [of _ email] exI [of _ i] exI [of _ ms] exI [of _ d]) (auto simp: r fresh_user_def)
qed

section \<open>Offers\<close>

text \<open>
  An offer to link a provider is taken up only with the account's own password, compared against the
  hash the account still has when the link is written; the account is enabled, the offer stands at both
  moments and is spent by it, the provider is linked once, and the account itself is not changed.
\<close>
theorem offer_needs_the_password:
  assumes "ClaimPendingLink en readAt now token binding password seen db = (Inr v, db')"
  shows "\<exists>l u. l \<in> set (ad_links seen) \<and> live_offer (digest token) (digest binding) (UnixMilli readAt) l
     \<and> u \<in> set (ad_users seen) \<and> us_id u = li_user_id l \<and> \<not> us_disabled u
     \<and> us_password_hash u \<noteq> NoPassword \<and> en_bcrypt_ok en (us_password_hash u) password
     \<and> (\<exists>u'\<in>set (ad_users db). us_id u' = us_id u \<and> \<not> us_disabled u'
          \<and> us_password_hash u' = us_password_hash u)
     \<and> (\<exists>l'\<in>set (ad_links db). live_offer (digest token) (digest binding) (UnixMilli now) l')
     \<and> \<not> linked_to db (us_id u) (li_provider l)
     \<and> (\<exists>i. ad_identities db' = ad_identities db @ [i] \<and> ui_user_id i = us_id u
          \<and> ui_provider i = li_provider l \<and> ui_subject i = li_subject l)
     \<and> ad_users db' = ad_users db
     \<and> (\<forall>l'\<in>set (ad_links db'). \<not> live_offer (digest token) (digest binding) (UnixMilli now) l')"
  using assms by (rule claim_link_Inr)

text \<open>
  C32. Three wrong passwords, one after another, end an offer: after the third is counted no password, the
  right one included, is compared or links anything.
\<close>
theorem three_wrong_passwords_end_an_offer:
  assumes "ClaimPendingLink en r1 n1 token binding p1 db0 db0 = (Inl InvalidCredentials, db1)"
    and "ClaimPendingLink en r2 n2 token binding p2 db1 db1 = (Inl InvalidCredentials, db2)"
    and "ClaimPendingLink en r3 n3 token binding p3 db2 db2 = (Inl InvalidCredentials, db3)"
  shows "ClaimPendingLink en r n token binding p db3 db3 = (Inl UserNotFound, db3)"
proof -
  have "failed_at_least (Suc (Suc (Suc 0))) (digest token) (digest binding) db3"
    using assms by (blast intro: wrong_password_counts)
  then show ?thesis by (intro spent_offer_refused) (simp add: MaxPendingLinkFailures_def eval_nat_numeral)
qed

text \<open>
  The count bounds guesses made one after another and not guesses made at once. Every claim that read the
  offer while it stood is answered by whether its password is right, whatever the others have counted
  since: \<open>db\<close> is any database, one where the offer has long been retired included.
\<close>
theorem late_guesses_are_still_answered:
  assumes "claim_read (digest token) (digest binding) (UnixMilli readAt) seen = Some (l, u)"
    and "token \<noteq> ''''" and "binding \<noteq> ''''"
  shows "fst (ClaimPendingLink en readAt now token binding password seen db) = Inl InvalidCredentials
     \<longleftrightarrow> \<not> en_bcrypt_ok en (us_password_hash u) password"
  using assms by (rule claim_answers_oracle)

end
