(* ===== verification/Access_Examples.thy ===== *)
theory Access_Examples
  imports Access
begin

text \<open>
  The properties of \<open>Access\<close> applied to a claimed host and to the small host of that theory. Digests
  stay unevaluated: nothing here depends on their value.
\<close>

section \<open>A claimed host\<close>

definition claimed_host :: access_db where
  "claimed_host = perform sample_env (first_start 0 empty_db) (OpCreateFirst 0 [1] ''ann@x'' ''correct horse'' '''')
     (first_start 0 empty_db)"

lemma everything_ok: "\<forall>e\<in>set (map (\<lambda>a. (a, last (Levels a))) Areas). entry_ok e"
  by code_simp

lemma administrator_writes:
  assumes "ad_roles db = map (builtin_row t) BuiltinRoles"
  shows "role_writes_access (ad_roles db) RoleAdministrator"
proof -
  let ?ps = "map (\<lambda>a. (a, last (Levels a))) Areas"
  have "BuiltinRole RoleAdministrator \<noteq> None \<and> map_option r_Permissions (BuiltinRole RoleAdministrator) = Some ?ps"
    using BuiltinRole_permissions(3) by auto
  then obtain b where b: "b \<in> set BuiltinRoles" "r_ID b = RoleAdministrator" "r_Permissions b = ?ps"
    by (auto simp: BuiltinRole_def dest!: find_SomeD)
  have "map_of (permission_object ?ps) ''access'' = Some (JStr ''write'')" by code_simp
  then have "json_extract_is (marshal_permissions ?ps) ''access'' ''write''"
    using Unmarshal_marshal_permissions [OF everything_ok] by (simp add: json_extract_is_def)
  then show ?thesis
    using b by (auto simp: assms role_writes_access_def list_ex_iff builtin_row_def intro!: bexI [of _ b])
qed

lemma sample_normalized:
  "s \<noteq> [] \<Longrightarrow> visible (hd s) \<Longrightarrow> visible (last s) \<Longrightarrow> sql_lower s = s \<Longrightarrow> normalized sample_env s = Inr s"
  by (simp add: normalized_def NormalizeEmail_def TrimSpace_visible sample_env_def)

lemma sample_hash:
  "12 \<le> length p \<Longrightarrow> length p \<le> 72 \<Longrightarrow> HashPassword sample_env p = Inr (''h:'' @ p)"
  by (simp add: HashPassword_def ValidatePassword_def sample_env_def)

lemma claimed_host_rows:
  "claimed_host = (first_start 0 empty_db)\<lparr>ad_users :=
     [fresh_user (newID ''usr_'' [1]) ''ann@x'' ''h:correct horse'' '''' RoleAdministrator
        (GrantsAt [Wildcard] LevelWrite) StatusActiveUser '''' None 0]\<rparr>"
proof -
  have "sql_lower ''ann@x'' = ''ann@x''" by code_simp
  then have "normalized sample_env ''ann@x'' = Inr ''ann@x''" by (intro sample_normalized) (simp_all add: visible_def)
  moreover have "HashPassword sample_env ''correct horse'' = Inr ''h:correct horse''" by (simp add: sample_hash)
  moreover have "labelled (ValidateDisplayName '''') = Inr ''''"
    by (simp add: labelled_def ValidateDisplayName_def)
  moreover have "UnixMilli 0 = 0" by code_simp
  ultimately show ?thesis
    by (simp add: Let_def claimed_host_def CreateFirst_def access_tx_def create_first_tx_def insert_user_def
        and_then_def first_start_rows)
qed

lemma claimed_host_history: "access_history sample_env [claimed_host, first_start 0 empty_db]"
  unfolding claimed_host_def by (intro access_history.intros) simp

lemma claimed_host_administered: "CountAdministrators claimed_host > 0"
proof -
  have "role_writes_access (ad_roles claimed_host) RoleAdministrator"
    by (rule administrator_writes [of _ "UnixMilli 0"]) (simp add: claimed_host_rows first_start_rows)
  then show ?thesis
    by (simp add: CountAdministrators_pos administers_def claimed_host_rows fresh_user_def StatusActiveUser_def)
qed

theorem last_administrator_remains_witness:
  "CountAdministrators (perform sample_env claimed_host (OpUserDelete (newID ''usr_'' [1])) claimed_host) > 0"
proof -
  have "access_history sample_env ([perform sample_env claimed_host (OpUserDelete (newID ''usr_'' [1])) claimed_host]
      @ claimed_host # [first_start 0 empty_db])"
    using access_history.performed [OF claimed_host_history, of claimed_host] by (simp del: perform.simps)
  from last_administrator_remains [OF this sample_env_usable claimed_host_administered] show ?thesis by simp
qed

theorem every_account_keeps_one_way_in_witness:
  "ad_users claimed_host \<noteq> [] \<and> usable (us_password_hash (hd (ad_users claimed_host)))"
  using every_account_keeps_one_way_in [OF claimed_host_history sample_env_usable, of claimed_host
      "hd (ad_users claimed_host)"]
  by (simp add: claimed_host_rows first_start_rows fresh_user_def has_identity_def split: if_splits)

theorem access_tables_stay_sound_witness: "access_ok claimed_host"
  by (rule access_tables_stay_sound [OF claimed_host_history sample_env_usable]) simp

section \<open>The small host\<close>

lemma sample_rows:
  "ad_users sample_db = [sample_user ''ann'' ''ann@x'' RoleAdministrator, sample_user ''bo'' ''bo@x'' RoleReader]"
  "ad_keys sample_db = [sample_key ''k1'' ''s1'', (sample_key ''k2'' ''s2'')\<lparr>ke_revoked_at := Some 5\<rparr>]"
  "ad_sessions sample_db = [sample_session ''sa'' ''ann'', sample_session ''sb'' ''bo'']"
  "ad_identities sample_db = []" "ad_links sample_db = [sample_offer]"
  "ad_roles sample_db = map (builtin_row 0) BuiltinRoles" "ad_db sample_db = empty_db"
  by (simp_all add: sample_db_def)

lemma sample_user_fields:
  "us_id (sample_user uid email rid) = uid" "us_disabled (sample_user uid email rid) = False"
  "us_password_hash (sample_user uid email rid) = ''h:correct horse''"
  "us_grants_json (sample_user uid email rid) = EncodeGrants []"
  "us_role_id (sample_user uid email rid) = rid" "us_email (sample_user uid email rid) = email"
  by (simp_all add: sample_user_def fresh_user_def)

lemma sample_audit:
  assumes "db_audit (ad_db db) = []"
  shows "\<exists>d. Audit sample_env now a db = Inr (db\<lparr>ad_db := d\<rparr>)"
  using assms
  by (auto simp: Audit_def AppendAudit_def appendAudit_def insert_audit_def wrap_def Let_def sample_env_def
      audit_row_of_def nullStr_def)

lemma digest_not_short: "length s \<noteq> 64 \<Longrightarrow> digest t \<noteq> s"
  by (metis digest_def length_sha256_hex)

lemma resolve_rows_total:
  assumes "\<forall>x\<in>set rows. case fst (snd (snd x)) of None \<Rightarrow> True
    | Some q \<Rightarrow> unmarshal_permissions (ro_permissions_json q) \<noteq> None"
  shows "\<exists>y. resolve_rows out gs rows = Inr y"
  using assms
  by (induction out gs rows rule: resolve_rows.induct) (auto simp: Let_def split: option.splits)

lemma builtin_rows_decode:
  assumes "b \<in> set BuiltinRoles"
  shows "unmarshal_permissions (ro_permissions_json (builtin_row t b)) = Some (permission_entries (r_Permissions b))"
proof -
  have "\<forall>b\<in>set BuiltinRoles. \<forall>e\<in>set (r_Permissions b). entry_ok e" by code_simp
  then show ?thesis using assms by (simp add: builtin_row_def unmarshal_marshal_permissions)
qed

lemma joined_builtin:
  assumes "joined_role sample_db rid = Some q"
  obtains b where "b \<in> set BuiltinRoles" "q = builtin_row 0 b" "r_ID b = rid"
proof -
  have "q \<in> set (map (builtin_row 0) BuiltinRoles)" "ro_id q = rid"
    using find_SomeD [OF assms [unfolded joined_role_def sample_rows(6)]] by blast+
  then show ?thesis using that by (auto simp: builtin_row_def)
qed

lemma sample_resolves: "\<exists>r. Resolve s sample_db = Inr r"
proof -
  have "case fst (snd (snd x)) of None \<Rightarrow> True | Some q \<Rightarrow> unmarshal_permissions (ro_permissions_json q) \<noteq> None"
    if x: "x \<in> set (own_sources s sample_db @ group_sources s sample_db)" for x
  proof (cases "fst (snd (snd x))")
    case (Some q)
    have "\<exists>rid. fst (snd (snd x)) = joined_role sample_db rid"
      using x by (auto simp: own_sources_def group_sources_def split: kind.splits)
    then obtain b where "b \<in> set BuiltinRoles" "q = builtin_row 0 b"
      using joined_builtin Some by metis
    then show ?thesis using Some builtin_rows_decode by simp
  qed simp
  then have "\<exists>y. resolve_rows no_access [] (own_sources s sample_db @ group_sources s sample_db) = Inr y"
    by (intro resolve_rows_total) blast
  then show ?thesis by (auto simp: Resolve_def split: sum.splits)
qed

lemma operator_joined:
  "role_allows (joined_role sample_db RoleOperator) PermApprovalsDecide"
proof -
  have "RoleOperator \<in> r_ID ` set BuiltinRoles" unfolding builtin_ids by simp
  then have "\<exists>q. joined_role sample_db RoleOperator = Some q"
    unfolding joined_role_def sample_rows
    by (cases "find (\<lambda>r. ro_id r = RoleOperator) (map (builtin_row 0) BuiltinRoles)")
       (auto simp: find_None_iff builtin_row_def)
  then obtain b where b: "joined_role sample_db RoleOperator = Some (builtin_row 0 b)" "b \<in> set BuiltinRoles"
    "r_ID b = RoleOperator"
    using joined_builtin by metis
  have "\<forall>b\<in>set BuiltinRoles. r_ID b = RoleOperator
      \<longrightarrow> Holds (permission_entries (r_Permissions b)) PermApprovalsDecide" by code_simp
  then show ?thesis using b by (simp add: role_allows_def builtin_rows_decode)
qed

theorem effective_access_is_the_union_witness:
  "\<exists>r. Resolve (User ''bo'') sample_db = Inr r \<and> Holds (rs_Permissions r) PermApprovalsDecide"
proof -
  obtain r where r: "Resolve (User ''bo'') sample_db = Inr r" using sample_resolves by blast
  have "(RoleOperator, ''[]'') \<in> rights_rows sample_db (User ''bo'')"
    by (auto simp: rights_rows_def sample_db_def names_subject_def User_def)
  moreover have "TrimSpace (sub_ID (User ''bo'')) \<noteq> ''''"
    using TrimSpace_visible [of "''bo''"] by (simp add: User_def visible_def)
  moreover have "PermApprovalsDecide \<noteq> PermSignedIn" "kind_Valid (sub_Kind (User ''bo''))" by code_simp+
  ultimately show ?thesis
    using effective_access_is_the_union [OF r, of PermApprovalsDecide "''x''" LevelRead] r operator_joined by blast
qed

lemma sample_k2: "key_revoked ''k2'' 5 sample_db"
  by (simp add: key_revoked_def sample_db_def sample_key_def)

theorem revoked_key_stays_dead_witness:
  "key_revoked ''k2'' 5 (perform sample_env sample_db (OpRevoke 9 ''ann'' ''k2'') sample_db)"
  using revoked_key_stays_dead [OF sample_env_usable sample_ok sample_ok sample_k2] by blast

theorem changed_account_is_signed_out_witness:
  "ad_sessions (snd (change_account sample_env 0 0 ''bo'' (NewPassword ''battery staple'') sample_db))
     = [sample_session ''sa'' ''ann'']"
proof -
  have h: "HashPassword sample_env ''battery staple'' = Inr ''h:battery staple''" by (simp add: sample_hash)
  have "\<exists>db'. change_account sample_env 0 0 ''bo'' (NewPassword ''battery staple'') sample_db = (None, db')"
    by (simp add: SetPassword_def h access_tx_def set_password_tx_def sample_rows sample_user_fields
        count_where_def)
  then obtain db' where r: "change_account sample_env 0 0 ''bo'' (NewPassword ''battery staple'') sample_db = (None, db')"
    by blast
  from changed_account_is_signed_out [OF r] show ?thesis
    by (simp add: r sample_rows sample_session_def del: change_account.simps)
qed

lemma sample_claim_read:
  "claim_read (digest ''t'') (digest ''b'') (UnixMilli 0) sample_db
      = Some (sample_offer, sample_user ''bo'' ''bo@x'' RoleReader)"
    by (simp add: claim_read_def live_offer_def offer_account_def linked_to_def sample_rows sample_offer_def
        sample_user_fields NoPassword_def UnixMilli_def MaxPendingLinkFailures_def)

theorem late_guesses_are_still_answered_witness:
  "fst (ClaimPendingLink sample_env 0 0 ''t'' ''b'' ''guess'' sample_db (sample_db\<lparr>ad_links := []\<rparr>))
     = Inl InvalidCredentials"
  using late_guesses_are_still_answered [OF sample_claim_read, of sample_env 0 "''guess''" "sample_db\<lparr>ad_links := []\<rparr>"]
  by (simp add: sample_user_fields sample_env_def)

lemma sample_rotates:
  "\<exists>db'. rotate_tx sample_env 0 ''ann'' ''k1'' Hour secret sample_db = Inr ((), db')
     \<and> (\<exists>k\<in>set (ad_keys db'). ke_id k = ''k1'')"
proof -
  define k where "k = (sample_key ''k1'' ''s1'')\<lparr>ke_secret_hash := digest secret,
    ke_previous_secret_hash := Some ''s1'', ke_previous_until := Some (UnixMilli (0 + Hour)), ke_updated_at := UnixMilli 0\<rparr>"
  define ks where "ks = [k, (sample_key ''k2'' ''s2'')\<lparr>ke_revoked_at := Some 5\<rparr>]"
  have h: "digest secret \<noteq> ''s1''" "digest secret \<noteq> ''s2''" by (simp_all add: digest_not_short)
  have "0 < Hour" by code_simp
  have "with_keys ks sample_db = Inr (sample_db\<lparr>ad_keys := ks\<rparr>)"
    using h by (simp add: with_keys_Inr secrets_unique_iff ks_def k_def sample_key_def)
  moreover obtain d where "Audit sample_env (UnixMilli 0) (act ''apikey.rotated'' ''ann'' ''k1'' ''rotate''
      [(''name'', JStr ''k1''), (''grace_seconds'', JNum (show_int (Hour div Second)))]) (sample_db\<lparr>ad_keys := ks\<rparr>)
    = Inr ((sample_db\<lparr>ad_keys := ks\<rparr>)\<lparr>ad_db := d\<rparr>)"
    using sample_audit [of "sample_db\<lparr>ad_keys := ks\<rparr>"] by (auto simp: sample_rows(7) empty_db_def)
  moreover have "update_where (\<lambda>j. ke_id j = ''k1'' \<and> ke_revoked_at j = None \<and> ke_secret_hash j = ''s1'')
      (\<lambda>j. j\<lparr>ke_secret_hash := digest secret, ke_previous_secret_hash := Some ''s1'',
        ke_previous_until := Some (UnixMilli (0 + Hour)), ke_updated_at := UnixMilli 0\<rparr>) (ad_keys sample_db) = ks"
    by (simp add: sample_rows ks_def k_def sample_key_def)
  moreover have "find (\<lambda>j. ke_id j = ''k1'') (ad_keys sample_db) = Some (sample_key ''k1'' ''s1'')"
    "count_where (\<lambda>j. ke_id j = ''k1'' \<and> ke_revoked_at j = None \<and> ke_secret_hash j = ''s1'') (ad_keys sample_db) \<noteq> 0"
    "ke_secret_hash (sample_key ''k1'' ''s1'') = ''s1''" "ke_revoked_at (sample_key ''k1'' ''s1'') = None"
    "ke_name (sample_key ''k1'' ''s1'') = ''k1''" "ke_id k = ''k1''"
    by (simp_all add: sample_rows sample_key_def count_where_def k_def)
  ultimately show ?thesis
    using \<open>0 < Hour\<close> by (simp add: rotate_tx_def and_then_Inr ks_def)
qed

theorem rotation_hands_over_witness:
  "\<exists>v secret db'. Rotate sample_env 0 ''ann'' ''k1'' Hour [1] sample_db = (Inr (v, secret), db')
     \<and> (\<exists>k\<in>set (ad_keys db'). ke_id k = ''k1'' \<and> opens ''s1'' 5 k \<and> opens (digest secret) 5 k)"
proof -
  have g: "\<not> Hour < 0" "\<not> Hour > MaxGrace" "0 < Hour" "5 < UnixMilli (0 + Hour)" by code_simp+
  obtain db' where d: "rotate_tx sample_env 0 ''ann'' ''k1'' Hour (GenerateSecret [1]) sample_db = Inr ((), db')"
    and k: "\<exists>k\<in>set (ad_keys db'). ke_id k = ''k1''"
    using sample_rotates by blast
  have "find (\<lambda>k. ke_id k = ''k1'') (ad_keys db') \<noteq> None" using k by (auto simp: find_None_iff)
  then obtain v where "key_ByID ''k1'' db' = Inr v" by (auto simp: key_ByID_def)
  then have r: "Rotate sample_env 0 ''ann'' ''k1'' Hour [1] sample_db = (Inr (v, GenerateSecret [1]), db')"
    using d g by (simp add: Rotate_def access_tx_def and_then_def)
  from rotation_hands_over [OF sample_ok r] show ?thesis
    using r g by (auto simp: sample_rows sample_key_def)
qed

lemma sample_guess:
  assumes "n < 3"
  shows "ClaimPendingLink sample_env 0 0 ''t'' ''b'' ''guess'' (sample_db\<lparr>ad_links := [sample_offer\<lparr>li_failures := n\<rparr>]\<rparr>)
      (sample_db\<lparr>ad_links := [sample_offer\<lparr>li_failures := n\<rparr>]\<rparr>)
    = (Inl InvalidCredentials,
       sample_db\<lparr>ad_links := filter (\<lambda>l. li_failures l < 3) [sample_offer\<lparr>li_failures := Suc n\<rparr>]\<rparr>)"
proof -
  let ?l = "sample_offer\<lparr>li_failures := n\<rparr>"
  have "claim_read (digest ''t'') (digest ''b'') (UnixMilli 0) (sample_db\<lparr>ad_links := [?l]\<rparr>)
      = Some (?l, sample_user ''bo'' ''bo@x'' RoleReader)"
    using assms by (simp add: claim_read_def live_offer_def offer_account_def linked_to_def sample_rows sample_offer_def
        sample_user_fields NoPassword_def UnixMilli_def MaxPendingLinkFailures_def)
  moreover have "recordLinkFailure (digest ''t'') (digest ''b'') (sample_db\<lparr>ad_links := [?l]\<rparr>)
      = (Inr (), sample_db\<lparr>ad_links := filter (\<lambda>l. li_failures l < 3) [sample_offer\<lparr>li_failures := Suc n\<rparr>]\<rparr>)"
    by (auto simp: recordLinkFailure_def access_tx_def MaxPendingLinkFailures_def sample_offer_def)
  ultimately show ?thesis
    by (simp add: ClaimPendingLink_def sample_user_fields) (simp add: sample_env_def)
qed

theorem three_wrong_passwords_end_an_offer_witness:
  "ClaimPendingLink sample_env 0 0 ''t'' ''b'' ''correct horse'' (sample_db\<lparr>ad_links := []\<rparr>) (sample_db\<lparr>ad_links := []\<rparr>)
     = (Inl UserNotFound, sample_db\<lparr>ad_links := []\<rparr>)
   \<and> snd (ClaimPendingLink sample_env 0 0 ''t'' ''b'' ''guess'' (sample_db\<lparr>ad_links := [sample_offer\<lparr>li_failures := 2\<rparr>]\<rparr>)
       (sample_db\<lparr>ad_links := [sample_offer\<lparr>li_failures := 2\<rparr>]\<rparr>)) = sample_db\<lparr>ad_links := []\<rparr>"
proof -
  let ?at = "\<lambda>n. sample_db\<lparr>ad_links := [sample_offer\<lparr>li_failures := n\<rparr>]\<rparr>"
  have "ClaimPendingLink sample_env 0 0 ''t'' ''b'' ''guess'' (?at 0) (?at 0) = (Inl InvalidCredentials, ?at 1)"
    using sample_guess [of 0] by simp
  moreover have "ClaimPendingLink sample_env 0 0 ''t'' ''b'' ''guess'' (?at 1) (?at 1) = (Inl InvalidCredentials, ?at 2)"
    using sample_guess [of 1] by (simp add: numeral_2_eq_2)
  moreover have third: "ClaimPendingLink sample_env 0 0 ''t'' ''b'' ''guess'' (?at 2) (?at 2)
      = (Inl InvalidCredentials, sample_db\<lparr>ad_links := []\<rparr>)"
    using sample_guess [of 2] by simp
  ultimately show ?thesis
    using three_wrong_passwords_end_an_offer [of sample_env 0 0 "''t''" "''b''" "''guess''" "?at 0" "?at 1" 0 0 "''guess''"
        "?at 2" 0 0 "''guess''" "sample_db\<lparr>ad_links := []\<rparr>" 0 0 "''correct horse''"] by simp
qed

theorem offer_needs_the_password_witness:
  "\<exists>v db'. ClaimPendingLink sample_env 0 0 ''t'' ''b'' ''correct horse'' sample_db sample_db = (Inr v, db')
     \<and> (\<exists>i\<in>set (ad_identities db'). ui_user_id i = ''bo'' \<and> ui_subject i = ''g-1'')"
proof -
  have a: "\<exists>d'. Audit sample_env now e (sample_db\<lparr>ad_links := [], ad_identities := xs\<rparr>) = Inr d'
      \<and> ad_users d' = ad_users sample_db" for xs now e
    using sample_audit [of "sample_db\<lparr>ad_links := [], ad_identities := xs\<rparr>"]
    by (fastforce simp: sample_rows(7) empty_db_def)
  have "\<exists>db'. claim_link_tx sample_env 0 (digest ''t'') (digest ''b'') sample_offer ''user:bo@x''
      ''h:correct horse'' sample_db = Inr ((), db') \<and> ad_users db' = ad_users sample_db"
    using a
    by (simp add: claim_link_tx_def live_offer_def sample_rows sample_offer_def MaxPendingLinkFailures_def
        count_where_def sample_user_fields linked_to_def insertIdentity_def and_then_Inr)
  then obtain db' where tx: "claim_link_tx sample_env 0 (digest ''t'') (digest ''b'') sample_offer ''user:bo@x''
      ''h:correct horse'' sample_db = Inr ((), db')" "ad_users db' = ad_users sample_db" by blast
  have "user_ByID ''bo'' db' = Inr (scanUser (sample_user ''bo'' ''bo@x'' RoleReader))"
    using tx(2) by (simp add: user_ByID_def sample_rows sample_user_fields)
  then obtain v where r: "ClaimPendingLink sample_env 0 0 ''t'' ''b'' ''correct horse'' sample_db sample_db = (Inr v, db')"
    using tx sample_claim_read
    by (simp add: ClaimPendingLink_def sample_user_fields access_tx_def UnixMilli_def sample_offer_def sample_env_def
       or_duplicate_def and_then_def)
  from offer_needs_the_password [OF r] have "\<exists>l i. l \<in> set (ad_links sample_db) \<and> i \<in> set (ad_identities db')
     \<and> ui_user_id i = li_user_id l \<and> ui_subject i = li_subject l" by fastforce
  then show ?thesis using r by (auto simp: sample_rows sample_offer_def)
qed

lemma claimed_audit: "\<exists>d. Audit sample_env now a (claimed_host\<lparr>ad_users := us\<rparr>) = Inr d"
  using sample_audit [of "claimed_host\<lparr>ad_users := us\<rparr>"]
  by (fastforce simp: claimed_host_rows first_start_rows empty_db_def)

definition cys_request :: register_request where
  "cys_request = \<lparr>rr_Email = ''cy@x'', rr_DisplayName = [], rr_Password = ''correct horse'', rr_Identity = None,
     rr_Policy = \<lparr>rp_Enabled = True, rp_RequireApproval = False, rp_AllowedDomains = [], rp_DefaultGroup = []\<rparr>\<rparr>"

theorem registration_gives_no_more_witness:
  "\<exists>v db'. Register sample_env 0 [2] cys_request claimed_host = (Inr v, db')
     \<and> (\<exists>r\<in>set (ad_users db'). us_email r = ''cy@x'' \<and> us_role_id r = RoleOperator
          \<and> us_status r = StatusPendingUser)"
proof -
  have "sql_lower ''cy@x'' = ''cy@x''" by code_simp
  then have n: "normalized sample_env ''cy@x'' = Inr ''cy@x''" by (intro sample_normalized) (simp_all add: visible_def)
  have h: "HashPassword sample_env ''correct horse'' = Inr ''h:correct horse''" by (simp add: sample_hash)
  have "hex_digit 2 \<noteq> hex_digit (Suc 0)" by code_simp
  then have i: "newID ''usr_'' [2] \<noteq> newID ''usr_'' [Suc 0]" by (simp add: newID_def hex_encode_def)
  let ?r = "fresh_user (newID ''usr_'' [2]) ''cy@x'' ''h:correct horse'' [] RoleOperator [] StatusPendingUser [] None (UnixMilli 0)"
  have "labelled (ValidateDisplayName []) = Inr []" by (simp add: labelled_def ValidateDisplayName_def)
  moreover have "\<exists>db'. register_tx sample_env (UnixMilli 0) None [] ?r claimed_host = Inr ((), db')"
    using claimed_audit n i
    by (simp add: register_tx_def registrable_def name_collides_def insert_user_def sql_lower_def joinDefaultGroup_def
        claimed_host_rows fresh_user_def and_then_Inr)
  ultimately obtain v db' where r: "Register sample_env 0 [2] cys_request claimed_host = (Inr v, db')"
    using n h by (auto simp: Register_def cys_request_def policy_Allows_def register_name_def register_credential_def
      StatusFor_def access_tx_def and_then_def or_duplicate_def Let_def)
  from registration_gives_no_more [OF r] show ?thesis
    using r n by (fastforce simp: cys_request_def StatusFor_def)
qed

end
