(* ===== verification/Bypass_Store.thy ===== *)
theory Bypass_Store
  imports Approval Audit_Trail
begin

text \<open>
  The stored bypass windows (\<open>internal/storage/sqlite/bypasses.go\<close>, table \<open>approval_bypasses\<close> of
  migration 0022) and \<open>activeBypasses\<close> of \<open>internal/app/app.go\<close>, which hands them to the approval
  policy. The random bytes of an identifier, the identifier of the audit entry and the clock are
  arguments; \<open>jv\<close> is SQLite's \<open>json_valid\<close>.
\<close>

section \<open>Rows\<close>

record window_row =
  wi_id :: string
  wi_created_at :: millis
  wi_expires_at :: millis
  wi_created_by :: string
  wi_reason :: string
  wi_plugin :: string
  wi_ceiling :: string
  wi_revoked_at :: "millis option"
  wi_revoked_by :: "string option"

record window_db =
  wd_windows :: "window_row list"
  wd_db :: database

datatype bypass_error = BypassTooLong | BypassCritical | BypassSql sql_error | BypassAudit op_error

definition newBypassID :: "nat list \<Rightarrow> string" where
  "newBypassID b = ''byp_'' @ hex_encode b"

definition scanBypass :: "window_row \<Rightarrow> bypass" where
  "scanBypass r =
    \<lparr>by_ID = wi_id r, by_Plugin = wi_plugin r, by_Ceiling = risk_of_string (wi_ceiling r),
     by_ExpiresAt = time_UnixMilli (wi_expires_at r), by_Reason = wi_reason r,
     by_CreatedBy = wi_created_by r, by_CreatedAt = time_UnixMilli (wi_created_at r)\<rparr>"

text \<open>\<open>AppendAudit\<close> inside the transaction; an error rolls everything back.\<close>

definition window_audit ::
  "(string \<Rightarrow> bool) \<Rightarrow> string \<Rightarrow> millis \<Rightarrow> admin_act \<Rightarrow> window_db \<Rightarrow> bypass_error + window_db" where
  "window_audit jv eid now a db =
    (case AppendAudit jv now eid a (wd_db db) of
       Inl e \<Rightarrow> Inl (BypassAudit e) | Inr d \<Rightarrow> Inr (db\<lparr>wd_db := d\<rparr>))"

section \<open>Opening\<close>

definition window_row_of :: "bypass \<Rightarrow> window_row" where
  "window_row_of b =
    \<lparr>wi_id = by_ID b, wi_created_at = UnixMilli (by_CreatedAt b), wi_expires_at = UnixMilli (by_ExpiresAt b),
     wi_created_by = by_CreatedBy b, wi_reason = by_Reason b, wi_plugin = by_Plugin b,
     wi_ceiling = risk_String (by_Ceiling b), wi_revoked_at = None, wi_revoked_by = None\<rparr>"

definition open_tx ::
  "(string \<Rightarrow> bool) \<Rightarrow> string \<Rightarrow> int \<Rightarrow> bypass \<Rightarrow> window_db \<Rightarrow> bypass_error + window_db" where
  "open_tx jv eid minutes b db =
    (if list_ex (\<lambda>w. wi_id w = by_ID b) (wd_windows db)
       then Inl (BypassSql (UniqueFailed ''approval_bypasses.id''))
     else window_audit jv eid (UnixMilli (by_CreatedAt b))
       \<lparr>aa_Kind = ''approval.bypass.opened'', aa_Actor = by_CreatedBy b, aa_Subject = by_ID b,
        aa_Action = ''open'',
        aa_Detail = JObj [(''minutes'', JNum (show_int minutes)), (''plugin'', JStr (by_Plugin b)),
          (''ceiling'', JStr (risk_String (by_Ceiling b))), (''reason'', JStr (by_Reason b)),
          (''expires_at'', JStr (format_RFC3339 (by_ExpiresAt b)))]\<rparr>
       (db\<lparr>wd_windows := wd_windows db @ [window_row_of b]\<rparr>))"

definition window_Open ::
  "(string \<Rightarrow> bool) \<Rightarrow> string \<Rightarrow> time \<Rightarrow> nat list \<Rightarrow> string \<Rightarrow> int \<Rightarrow> string \<Rightarrow> risk_level \<Rightarrow> string \<Rightarrow> window_db
     \<Rightarrow> (bypass_error + bypass) \<times> window_db" where
  "window_Open jv eid now bytes actor minutes plugin ceiling reason db =
    (if minutes < MinBypassMinutes \<or> minutes > MaxBypassMinutes then (Inl BypassTooLong, db)
     else if ceiling = RiskCritical \<or> \<not> risk_Valid ceiling then (Inl BypassCritical, db)
     else
       (let b = \<lparr>by_ID = newBypassID bytes, by_Plugin = plugin, by_Ceiling = ceiling,
                 by_ExpiresAt = now + minutes * Minute, by_Reason = reason, by_CreatedBy = actor,
                 by_CreatedAt = now\<rparr>
        in case open_tx jv eid minutes b db of
             Inl e \<Rightarrow> (Inl e, db)
           | Inr db' \<Rightarrow> (Inr b, db')))"

section \<open>Reading\<close>

definition in_force :: "millis \<Rightarrow> window_row \<Rightarrow> bool" where
  "in_force now w \<longleftrightarrow> wi_revoked_at w = None \<and> wi_expires_at w > now"

definition broader :: "bypass \<Rightarrow> bypass \<Rightarrow> bool" where
  "broader a b =
    (if (by_Plugin a = '''') \<noteq> (by_Plugin b = '''') then by_Plugin a = ''''
     else risk_AtLeast (by_Ceiling a) (by_Ceiling b) \<and> by_Ceiling a \<noteq> by_Ceiling b)"

text \<open>\<open>ORDER BY expires_at DESC\<close>, then a stable sort that puts the broadest first.\<close>

definition window_Active :: "time \<Rightarrow> window_db \<Rightarrow> bypass list" where
  "window_Active now db =
    sort_by (\<lambda>a b. \<not> broader b a)
      (map scanBypass (sort_by (\<lambda>a b. wi_expires_at b \<le> wi_expires_at a)
        (filter (in_force (UnixMilli now)) (wd_windows db))))"

text \<open>What the policy of a proposal holds: nothing, when the host has no store.\<close>

definition activeBypasses :: "time \<Rightarrow> window_db option \<Rightarrow> bypass option list" where
  "activeBypasses now store =
    (case store of None \<Rightarrow> [] | Some db \<Rightarrow> map Some (window_Active now db))"

section \<open>Closing\<close>

definition revoke_all_tx ::
  "(string \<Rightarrow> bool) \<Rightarrow> string \<Rightarrow> millis \<Rightarrow> string \<Rightarrow> window_db \<Rightarrow> bypass_error + nat \<times> window_db" where
  "revoke_all_tx jv eid now actor db =
    (let closed = count_where (in_force now) (wd_windows db);
         db1 = db\<lparr>wd_windows := update_where (in_force now)
                 (\<lambda>w. w\<lparr>wi_revoked_at := Some now, wi_revoked_by := Some actor\<rparr>) (wd_windows db)\<rparr>
     in if closed = 0 then Inr (closed, db1)
        else and_then (window_audit jv eid now
            \<lparr>aa_Kind = ''approval.bypass.revoked'', aa_Actor = actor, aa_Subject = ''all'', aa_Action = ''revoke'',
             aa_Detail = JObj [(''closed'', JNum (show_nat closed))]\<rparr> db1)
          (\<lambda>db2. Inr (closed, db2)))"

text \<open>On a failure the count already read is still returned beside the error.\<close>

definition RevokeAll ::
  "(string \<Rightarrow> bool) \<Rightarrow> string \<Rightarrow> time \<Rightarrow> string \<Rightarrow> window_db \<Rightarrow> (nat \<times> bypass_error option) \<times> window_db" where
  "RevokeAll jv eid now actor db =
    (case revoke_all_tx jv eid (UnixMilli now) actor db of
       Inl e \<Rightarrow> ((count_where (in_force (UnixMilli now)) (wd_windows db), Some e), db)
     | Inr (closed, db') \<Rightarrow> ((closed, None), db'))"

section \<open>Counting\<close>

text \<open>SQLite's \<open>LIKE\<close> compares ASCII letters without regard to case.\<close>

definition ascii_lower :: "char \<Rightarrow> char" where
  "ascii_lower c = (if 65 \<le> (of_char c :: nat) \<and> (of_char c :: nat) \<le> 90
     then char_of ((of_char c :: nat) + 32) else c)"

definition like_bypass :: "string \<Rightarrow> bool" where
  "like_bypass s \<longleftrightarrow> has_prefix (map ascii_lower s) ''bypass:''"

definition authorities :: "database \<Rightarrow> string list" where
  "authorities db = filter like_bypass (List.map_filter c_authorized_by_rule (db_operations db))"

definition trim_bypass :: "string \<Rightarrow> string" where
  "trim_bypass s = (case drop_prefix ''bypass:'' s of Some r \<Rightarrow> r | None \<Rightarrow> s)"

definition Approved :: "window_db \<Rightarrow> (string \<times> nat) list" where
  "Approved db =
    (let as = authorities (wd_db db)
     in foldl (\<lambda>out a. put (trim_bypass a) (count_list as a) out) [] (remdups as))"

section \<open>Runs of the store\<close>

text \<open>Any call may follow any other; what the rest of the host writes is any other change of the database.\<close>

inductive window_step :: "(string \<Rightarrow> bool) \<Rightarrow> window_db \<Rightarrow> window_db \<Rightarrow> bool" for jv where
  opened: "window_step jv db (snd (window_Open jv eid now bytes actor minutes plugin ceiling reason db))"
| closed: "window_step jv db (snd (RevokeAll jv eid now actor db))"
| elsewhere: "window_step jv db (db\<lparr>wd_db := d\<rparr>)"

text \<open>The row a window has: a ceiling below critical, and an end at most eight hours from its start.\<close>

definition window_ok :: "window_row \<Rightarrow> bool" where
  "window_ok w \<longleftrightarrow> risk_of_string (wi_ceiling w) \<in> {RiskLow, RiskMedium, RiskHigh}
     \<and> wi_created_at w + 60000 \<le> wi_expires_at w \<and> wi_expires_at w \<le> wi_created_at w + 480 * 60000"

lemma window_ok_closed [simp]: "window_ok (w\<lparr>wi_revoked_at := a, wi_revoked_by := b\<rparr>) = window_ok w"
  by (simp add: window_ok_def)

text \<open>What a later table makes of an earlier one: no row lost, no end moved, nothing closed opened again.\<close>

definition carries :: "window_row list \<Rightarrow> window_row list \<Rightarrow> bool" where
  "carries ws ws' \<longleftrightarrow> wi_id ` set ws \<subseteq> wi_id ` set ws'
     \<and> (\<forall>w'\<in>set ws'. wi_id w' \<notin> wi_id ` set ws
          \<or> (\<exists>w\<in>set ws. wi_id w' = wi_id w \<and> wi_expires_at w' = wi_expires_at w
               \<and> (wi_revoked_at w \<noteq> None \<longrightarrow> wi_revoked_at w' = wi_revoked_at w)))"

lemma carries_refl [simp]: "carries ws ws"
  by (auto simp: carries_def)

lemma carries_trans: "carries us vs \<Longrightarrow> carries vs ws \<Longrightarrow> carries us ws"
  unfolding carries_def by (smt (verit) subset_iff)

lemma window_audit_rows: "window_audit jv eid now a db = Inr db' \<Longrightarrow> wd_windows db' = wd_windows db"
  by (auto simp: window_audit_def split: sum.splits)

lemma window_Open_rows:
  "wd_windows (snd (window_Open jv eid now bytes actor minutes plugin ceiling reason db)) = wd_windows db
   \<or> (\<exists>w. wd_windows (snd (window_Open jv eid now bytes actor minutes plugin ceiling reason db)) = wd_windows db @ [w]
        \<and> wi_id w \<notin> wi_id ` set (wd_windows db) \<and> window_ok w \<and> wi_revoked_at w = None)"
proof -
  have ends: "UnixMilli (now + minutes * 60000000000) = UnixMilli now + minutes * 60000"
    by (simp add: UnixMilli_def)
  have "window_ok (window_row_of \<lparr>by_ID = i, by_Plugin = plugin, by_Ceiling = ceiling,
      by_ExpiresAt = now + minutes * Minute, by_Reason = reason, by_CreatedBy = actor, by_CreatedAt = now\<rparr>)"
    if "\<not> (minutes < MinBypassMinutes \<or> minutes > MaxBypassMinutes)" "ceiling \<noteq> RiskCritical" "risk_Valid ceiling" for i
    using that
    by (auto simp: window_ok_def window_row_of_def ends risk_Valid_cases risk_of_string_def MinBypassMinutes_def
        MaxBypassMinutes_def)
  then show ?thesis
    by (force simp: window_Open_def open_tx_def Let_def list_ex_iff window_row_of_def
        dest!: window_audit_rows split: sum.splits if_splits)
qed

lemma RevokeAll_rows:
  "wd_windows (snd (RevokeAll jv eid now actor db)) = wd_windows db
   \<or> wd_windows (snd (RevokeAll jv eid now actor db)) = update_where (in_force (UnixMilli now))
       (\<lambda>w. w\<lparr>wi_revoked_at := Some (UnixMilli now), wi_revoked_by := Some actor\<rparr>) (wd_windows db)"
  by (auto simp: RevokeAll_def revoke_all_tx_def Let_def and_then_def dest!: window_audit_rows split: sum.splits)

lemma closing_carries:
  "carries ws (update_where (in_force now) (\<lambda>w. w\<lparr>wi_revoked_at := Some now, wi_revoked_by := Some actor\<rparr>) ws)"
proof -
  let ?ws = "update_where (in_force now) (\<lambda>w. w\<lparr>wi_revoked_at := Some now, wi_revoked_by := Some actor\<rparr>) ws"
  have "\<exists>w\<in>set ws. wi_id w' = wi_id w \<and> wi_expires_at w' = wi_expires_at w
      \<and> (wi_revoked_at w \<noteq> None \<longrightarrow> wi_revoked_at w' = wi_revoked_at w)" if w': "w' \<in> set ?ws" for w'
  proof -
    obtain w where "w \<in> set ws" "w' = (if in_force now w
        then w\<lparr>wi_revoked_at := Some now, wi_revoked_by := Some actor\<rparr> else w)"
      using w' by (auto simp only: set_update_where image_iff)
    then show ?thesis by (intro bexI [of _ w]) (auto simp: in_force_def)
  qed
  moreover have "map wi_id ?ws = map wi_id ws" by (rule map_key_update_where) simp
  then have "wi_id ` set ?ws = wi_id ` set ws" by (metis list.set_map)
  ultimately show ?thesis by (simp add: carries_def)
qed

lemma opening_carries: "wi_id w \<notin> wi_id ` set ws \<Longrightarrow> carries ws (ws @ [w])"
  by (auto simp: carries_def)

lemma window_step_rows:
  assumes "window_step jv db db'"
  shows "carries (wd_windows db) (wd_windows db')"
    and "\<forall>w\<in>set (wd_windows db). window_ok w \<Longrightarrow> \<forall>w\<in>set (wd_windows db'). window_ok w"
proof -
  show "carries (wd_windows db) (wd_windows db')"
    using assms
  proof cases
    case (opened eid now bytes actor minutes plugin ceiling reason)
    then show ?thesis
      using window_Open_rows [of jv eid now bytes actor minutes plugin ceiling reason db] opening_carries by auto
  next
    case (closed eid now actor)
    then show ?thesis
      using RevokeAll_rows [of jv eid now actor db] closing_carries by auto
  qed simp
  show "\<forall>w\<in>set (wd_windows db'). window_ok w" if "\<forall>w\<in>set (wd_windows db). window_ok w"
    using assms
  proof cases
    case (opened eid now bytes actor minutes plugin ceiling reason)
    then show ?thesis
      using window_Open_rows [of jv eid now bytes actor minutes plugin ceiling reason db] that by auto
  next
    case (closed eid now actor)
    then show ?thesis
      using RevokeAll_rows [of jv eid now actor db] that by (auto simp: set_update_where split: if_splits)
  qed (use that in simp)
qed

lemma windows_later:
  "(window_step jv)\<^sup>*\<^sup>* db db' \<Longrightarrow> carries (wd_windows db) (wd_windows db')"
  by (induction rule: rtranclp_induct) (auto intro: carries_trans window_step_rows(1))

lemma windows_ok:
  "(window_step jv)\<^sup>*\<^sup>* db db' \<Longrightarrow> wd_windows db = [] \<Longrightarrow> \<forall>w\<in>set (wd_windows db'). window_ok w"
proof (induction rule: rtranclp_induct)
  case (step d d')
  then show ?case using window_step_rows(2) [OF step.hyps(2)] by blast
qed simp

lemma set_window_Active: "set (window_Active now db) = scanBypass ` {w \<in> set (wd_windows db). in_force (UnixMilli now) w}"
  by (auto simp: window_Active_def)

section \<open>Properties\<close>

text \<open>
  C25. A window authorises a change only while it is open, and every window ends. Whatever calls were made of the
  store, a change the windows approve is reversible and excluded by no rule, and one row stands behind it:
  not closed, opened by a call, ending at most eight hours after that, not ended at either of the instants
  it is consulted, covering the plugin, with a ceiling below critical that the risk does not exceed.
\<close>
theorem window_authorises_only_while_open:
  assumes "(window_step jv)\<^sup>*\<^sup>* db0 db" and "wd_windows db0 = []"
    and "AutoApprove (applyBypass d (activeBypasses readAt (Some db)) req now)" and "\<not> AutoApprove d"
  shows "\<not> Excluded d \<and> q_Reversible req \<and> risk_Valid (q_Risk req)
     \<and> (\<exists>w\<in>set (wd_windows db). wi_revoked_at w = None
          \<and> UnixMilli readAt < wi_expires_at w \<and> UnixMilli now < wi_expires_at w
          \<and> wi_expires_at w \<le> wi_created_at w + 480 * 60000
          \<and> (wi_plugin w = '''' \<or> wi_plugin w = q_Plugin req)
          \<and> risk_of_string (wi_ceiling w) \<noteq> RiskCritical
          \<and> risk_rank (q_Risk req) \<le> risk_rank (risk_of_string (wi_ceiling w)))"
proof -
  have ok: "\<forall>w\<in>set (wd_windows db). window_ok w" by (rule windows_ok [OF assms(1,2)])
  obtain b where "\<not> Excluded d" and b: "b \<in> set (activeBypasses readAt (Some db))" "fst (Covers b req now)"
    using assms(3,4) by (auto simp: applyBypass_iff)
  from b(1) obtain w where w: "w \<in> set (wd_windows db)" "in_force (UnixMilli readAt) w" "b = Some (scanBypass w)"
    by (auto simp: activeBypasses_def set_window_Active)
  with b(2) have "now < time_UnixMilli (wi_expires_at w)" "q_Reversible req" "risk_Valid (q_Risk req)"
    "risk_of_string (wi_ceiling w) \<noteq> RiskCritical" "wi_plugin w = '''' \<or> wi_plugin w = q_Plugin req"
    "risk_AtLeast (risk_of_string (wi_ceiling w)) (q_Risk req)"
    by (auto simp: Covers_iff scanBypass_def)
  then show ?thesis
    using w ok \<open>\<not> Excluded d\<close>
    by (auto simp: in_force_def window_ok_def before_UnixMilli risk_AtLeast_def intro!: bexI [of _ w])
qed

text \<open>
  Closing the windows closes them all, for good. The call answers with the number of windows that were in
  force; whatever follows, at any later instant of a clock that has not stepped back no window of the table
  it left is in force, so what it left approves nothing.
\<close>
theorem revoking_closes_every_window:
  assumes "RevokeAll jv eid t actor db = ((n, None), db')" and "(window_step jv)\<^sup>*\<^sup>* db' later" and "t \<le> t'"
  shows "n = length (window_Active t db) \<and> window_Active t' db' = []
     \<and> (\<forall>w\<in>set (wd_windows later). in_force (UnixMilli t') w \<longrightarrow> wi_id w \<notin> wi_id ` set (wd_windows db'))"
proof -
  have ms: "UnixMilli t \<le> UnixMilli t'" using assms(3) by (rule UnixMilli_mono)
  have rows: "wd_windows db' = update_where (in_force (UnixMilli t))
       (\<lambda>w. w\<lparr>wi_revoked_at := Some (UnixMilli t), wi_revoked_by := Some actor\<rparr>) (wd_windows db)"
    and n: "n = count_where (in_force (UnixMilli t)) (wd_windows db)"
    using assms(1)
    by (auto simp: RevokeAll_def revoke_all_tx_def Let_def and_then_def dest!: window_audit_rows split: sum.splits if_splits)
  have closed: "\<not> in_force (UnixMilli t') w" if w: "w \<in> set (wd_windows db')" for w
  proof -
    obtain r where "w = (if in_force (UnixMilli t) r
        then r\<lparr>wi_revoked_at := Some (UnixMilli t), wi_revoked_by := Some actor\<rparr> else r)"
      using w unfolding rows set_update_where by blast
    then show ?thesis using ms by (cases "in_force (UnixMilli t) r") (auto simp: in_force_def)
  qed
  have "wi_id w \<notin> wi_id ` set (wd_windows db')" if w: "w \<in> set (wd_windows later)" "in_force (UnixMilli t') w" for w
  proof
    assume "wi_id w \<in> wi_id ` set (wd_windows db')"
    then obtain v where "v \<in> set (wd_windows db')" "wi_expires_at w = wi_expires_at v"
      "wi_revoked_at v \<noteq> None \<longrightarrow> wi_revoked_at w = wi_revoked_at v"
      using windows_later [OF assms(2)] w(1) unfolding carries_def by blast
    then show False using closed [of v] w(2) by (cases "wi_revoked_at v") (auto simp: in_force_def)
  qed
  moreover have "filter (in_force (UnixMilli t')) (wd_windows db') = []"
    using closed by (simp add: filter_empty_conv)
  ultimately show ?thesis by (simp add: n window_Active_def count_where_def)
qed

lemma map_of_foldl_put:
  "map_of (foldl (\<lambda>out a. put (f a) (g a) out) init as) k
     = (case find (\<lambda>a. f a = k) (rev as) of Some a \<Rightarrow> Some (g a) | None \<Rightarrow> map_of init k)"
  by (induction as arbitrary: init rule: rev_induct) auto

lemma count_authorities:
  "like_bypass a \<Longrightarrow> count_list (authorities db) a = count_where (\<lambda>r. c_authorized_by_rule r = Some a) (db_operations db)"
proof -
  have "count_list (filter like_bypass (List.map_filter c_authorized_by_rule rs)) a
      = length (filter (\<lambda>r. c_authorized_by_rule r = Some a) rs)" if "like_bypass a" for rs
    using that by (induction rs) (auto simp: List.map_filter_simps split: option.splits)
  then show "like_bypass a \<Longrightarrow> ?thesis" by (simp add: authorities_def count_where_def)
qed

text \<open>
  What a window let through is counted from the operations themselves: the count under a window's
  identifier is the number of operations whose recorded authority is that window, whatever else the table holds.
\<close>
theorem window_count_is_exact:
  "map_of (Approved db) (newBypassID bytes)
     = (let n = count_where (\<lambda>r. c_authorized_by_rule r = Some (BypassAuthority (newBypassID bytes)))
                  (db_operations (wd_db db))
        in if n = 0 then None else Some n)"
proof -
  let ?id = "newBypassID bytes" and ?as = "authorities (wd_db db)"
  have like: "like_bypass (BypassAuthority ?id)"
    by (simp add: like_bypass_def BypassAuthority_def has_prefix_iff ascii_lower_def)
  have only: "trim_bypass a = ?id \<longleftrightarrow> a = BypassAuthority ?id" if "a \<in> set ?as" for a
  proof (cases "drop_prefix ''bypass:'' a")
    case None
    have "a \<noteq> ?id"
      using that by (auto simp: authorities_def like_bypass_def has_prefix_iff newBypassID_def ascii_lower_def)
    moreover have "a \<noteq> BypassAuthority ?id" using None by (auto simp: BypassAuthority_def)
    ultimately show ?thesis by (simp add: trim_bypass_def None)
  next
    case (Some r)
    then show ?thesis by (auto simp: trim_bypass_def BypassAuthority_def drop_prefix_Some)
  qed
  have "find (\<lambda>a. trim_bypass a = ?id) (rev (remdups ?as)) = (if BypassAuthority ?id \<in> set ?as then Some (BypassAuthority ?id) else None)"
  proof (cases "find (\<lambda>a. trim_bypass a = ?id) (rev (remdups ?as))")
    case None
    then show ?thesis using only by (auto simp: find_None_iff)
  next
    case (Some a)
    then have "a \<in> set ?as" "trim_bypass a = ?id" by (auto dest: find_SomeD)
    then show ?thesis using only Some by auto
  qed
  moreover have "BypassAuthority ?id \<in> set ?as \<longleftrightarrow> count_list ?as (BypassAuthority ?id) \<noteq> 0"
    by (simp add: count_list_0_iff)
  ultimately show ?thesis
    by (simp add: Approved_def map_of_foldl_put count_authorities [OF like] Let_def)
qed


section \<open>An evening's window\<close>

definition quiet_host :: window_db where
  "quiet_host = \<lparr>wd_windows = [], wd_db = empty_db\<rparr>"

definition evening :: window_db where
  "evening = snd (window_Open (\<lambda>_. True) ''evt_1'' 0 [1] ''ann'' 60 '''' RiskMedium ''night work'' quiet_host)"

definition evening_change :: approval_question where
  "evening_change = \<lparr>q_Plugin = ''wifi'', q_Action = ''radio.set'', q_Principal = ''key:k1'', q_Risk = RiskLow, q_Reversible = True\<rparr>"

definition unapproved :: approval_decision where
  "unapproved = \<lparr>AutoApprove = False, d_Rule = None, d_Why = NoRuleCovers, d_Bypass = None\<rparr>"

lemma evening_windows:
  "\<exists>d. evening = \<lparr>wd_windows = [\<lparr>wi_id = newBypassID [1], wi_created_at = 0, wi_expires_at = 3600000,
     wi_created_by = ''ann'', wi_reason = ''night work'', wi_plugin = '''', wi_ceiling = ''medium'',
     wi_revoked_at = None, wi_revoked_by = None\<rparr>], wd_db = d\<rparr> \<and> db_audit d \<noteq> []
     \<and> au_event_id ` set (db_audit d) = {''evt_1''}"
  by (simp add: evening_def window_Open_def MinBypassMinutes_def MaxBypassMinutes_def risk_Valid_def open_tx_def
      quiet_host_def window_audit_def AppendAudit_def appendAudit_def insert_audit_def wrap_def Let_def empty_db_def
      audit_row_of_def nullStr_def window_row_of_def UnixMilli_def)

lemma evening_reached: "(window_step (\<lambda>_. True))\<^sup>*\<^sup>* quiet_host evening"
  unfolding evening_def by (intro r_into_rtranclp window_step.opened)

theorem window_authorises_only_while_open_witness:
  "\<not> Excluded unapproved \<and> AutoApprove (applyBypass unapproved (activeBypasses 5 (Some evening)) evening_change 6)"
proof -
  obtain d where d: "evening = \<lparr>wd_windows = [\<lparr>wi_id = newBypassID [1], wi_created_at = 0, wi_expires_at = 3600000,
     wi_created_by = ''ann'', wi_reason = ''night work'', wi_plugin = '''', wi_ceiling = ''medium'',
     wi_revoked_at = None, wi_revoked_by = None\<rparr>], wd_db = d\<rparr>"
    using evening_windows by blast
  have a: "AutoApprove (applyBypass unapproved (activeBypasses 5 (Some evening)) evening_change 6)"
    by (simp add: applyBypass_iff unapproved_def activeBypasses_def window_Active_def d in_force_def UnixMilli_def
        Covers_iff scanBypass_def time_UnixMilli_def evening_change_def risk_of_string_def risk_Valid_def
        risk_AtLeast_def Excluded_def)
  have "wd_windows quiet_host = []" "\<not> AutoApprove unapproved" by (simp_all add: quiet_host_def unapproved_def)
  from window_authorises_only_while_open [OF evening_reached this(1) a this(2)] a show ?thesis by blast
qed

theorem revoking_closes_every_window_witness:
  "\<exists>db'. RevokeAll (\<lambda>_. True) ''evt_2'' 7 ''bo'' evening = ((1, None), db') \<and> window_Active 8 db' = []"
proof -
  have "\<exists>db'. RevokeAll (\<lambda>_. True) ''evt_2'' 7 ''bo'' evening = ((1, None), db')"
  proof -
    obtain d where d: "evening = \<lparr>wd_windows = [\<lparr>wi_id = newBypassID [1], wi_created_at = 0, wi_expires_at = 3600000,
       wi_created_by = ''ann'', wi_reason = ''night work'', wi_plugin = '''', wi_ceiling = ''medium'',
       wi_revoked_at = None, wi_revoked_by = None\<rparr>], wd_db = d\<rparr>" "au_event_id ` set (db_audit d) = {''evt_1''}"
      using evening_windows by blast
    show ?thesis
    by (simp add: d RevokeAll_def revoke_all_tx_def count_where_def in_force_def UnixMilli_def Let_def window_audit_def
        AppendAudit_def appendAudit_def insert_audit_def wrap_def audit_row_of_def nullStr_def and_then_def)
  qed
  then obtain db' where r: "RevokeAll (\<lambda>_. True) ''evt_2'' 7 ''bo'' evening = ((1, None), db')" by blast
  have "window_Active 8 db' = []"
    using revoking_closes_every_window [OF r rtranclp.rtrancl_refl, of 8] by simp
  with r show ?thesis by blast
qed

end
