(* ===== verification/Plugin_Registry.thy ===== *)
theory Plugin_Registry
  imports Principal Risk Float64
begin

text \<open>
  What an integration declares to the host (\<open>internal/plugins/plugin.go\<close>, \<open>registry.go\<close>,
  \<open>mutation.go\<close>, \<open>resources.go\<close>, \<open>prompts.go\<close>): descriptors, the naming rules, the specifications of
  tools, mutations, resources and prompts, and the registry that collects them with the errors it
  found. An error is a constructor holding what its text quotes. Handlers are not run here; what
  \<open>checkSchemaType\<close> finds in a Go type by reflection is an argument. A mutation's erased handler is
  of any type \<open>'a\<close>. Resources and prompts keep what the gate is asked about them.
\<close>

section \<open>Descriptors\<close>

datatype runtime = RuntimeUnset | RuntimeBuiltin | RuntimeMCP | RuntimeOther string

fun runtime_Valid :: "runtime \<Rightarrow> bool" where
  "runtime_Valid RuntimeBuiltin = True"
| "runtime_Valid RuntimeMCP = True"
| "runtime_Valid _ = False"

record descriptor =
  ds_Name :: string
  ds_Version :: string
  ds_Title :: string
  ds_Description :: string
  ds_Runtime :: runtime
  ds_Purpose :: string

definition EffectiveRuntime :: "descriptor \<Rightarrow> runtime" where
  "EffectiveRuntime d = (if ds_Runtime d = RuntimeUnset then RuntimeBuiltin else ds_Runtime d)"

definition is_lower :: "char \<Rightarrow> bool" where
  "is_lower c \<longleftrightarrow> c \<in> set ''abcdefghijklmnopqrstuvwxyz''"

definition is_upper :: "char \<Rightarrow> bool" where
  "is_upper c \<longleftrightarrow> c \<in> set ''ABCDEFGHIJKLMNOPQRSTUVWXYZ''"

definition name_char :: "char \<Rightarrow> bool" where
  "name_char c \<longleftrightarrow> is_lower c \<or> is_digit c \<or> c = CHR ''_''"

text \<open>\<open>^[a-z][a-z0-9_-]{1,31}$\<close>, also the rule of \<open>internal/app/instances.go\<close>.\<close>

definition namePattern :: "string \<Rightarrow> bool" where
  "namePattern s =
    (case s of [] \<Rightarrow> False
     | c # cs \<Rightarrow> is_lower c \<and> 1 \<le> length cs \<and> length cs \<le> 31
         \<and> list_all (\<lambda>d. name_char d \<or> d = CHR ''-'') cs)"

text \<open>\<open>^[a-z][a-z0-9_]{1,47}$\<close>\<close>

definition toolNamePattern :: "string \<Rightarrow> bool" where
  "toolNamePattern s =
    (case s of [] \<Rightarrow> False
     | c # cs \<Rightarrow> is_lower c \<and> 1 \<le> length cs \<and> length cs \<le> 47 \<and> list_all name_char cs)"

text \<open>\<open>^[A-Za-z0-9_.-]+$\<close>\<close>

definition remoteToolNamePattern :: "string \<Rightarrow> bool" where
  "remoteToolNamePattern s \<longleftrightarrow>
     s \<noteq> [] \<and> list_all (\<lambda>c. name_char c \<or> is_upper c \<or> c = CHR ''.'' \<or> c = CHR ''-'') s"

text \<open>\<open>^[a-z][a-z0-9_]*(\.[a-z][a-z0-9_]*)+$\<close>: two words or more with dots between them.\<close>

fun split_dots :: "string \<Rightarrow> string list" where
  "split_dots [] = [[]]"
| "split_dots (c # cs) =
    (if c = CHR ''.'' then [] # split_dots cs
     else (case split_dots cs of w # ws \<Rightarrow> (c # w) # ws | [] \<Rightarrow> [[c]]))"

definition action_word :: "string \<Rightarrow> bool" where
  "action_word w = (case w of [] \<Rightarrow> False | c # cs \<Rightarrow> is_lower c \<and> list_all name_char cs)"

definition actionPattern :: "string \<Rightarrow> bool" where
  "actionPattern s \<longleftrightarrow> 2 \<le> length (split_dots s) \<and> list_all action_word (split_dots s)"

text \<open>\<open>^[a-z][a-z0-9+.-]*$\<close>\<close>

definition uriSchemePattern :: "string \<Rightarrow> bool" where
  "uriSchemePattern s =
    (case s of [] \<Rightarrow> False
     | c # cs \<Rightarrow> is_lower c
         \<and> list_all (\<lambda>d. is_lower d \<or> is_digit d \<or> d = CHR ''+'' \<or> d = CHR ''.'' \<or> d = CHR ''-'') cs)"

definition promptNamePattern :: "string \<Rightarrow> bool" where
  "promptNamePattern s = toolNamePattern s"

datatype tool_problem =
    ToolCapability capability | ToolNegativeRate | ToolCharset | ToolTooLong nat | ToolPattern
  | ToolBareVerb string | ToolNoVerb | ToolNoDescription | ToolTwice | ToolInputSchema string
  | ToolOutputSchema string

datatype mutation_problem =
    MutationRemote | MutationPattern | MutationNegativeRate | MutationNoDescription
  | MutationRisk risk_level | MutationNilHandler | MutationTwice

datatype extra_problem =
    ResourceNoPath | ResourceScheme | ResourceNoName | ExtraNoDescription
  | ExtraCapability capability | ResourceBadScheme | ExtraTwice | PromptPattern | PromptUnnamedArg
  | PromptArgTwice string

datatype register_error =
    DescriptorName string | DescriptorRuntime string runtime | DescriptorVersion string
  | DescriptorTitle string | ToolError string string tool_problem
  | MutationError string string mutation_problem | ExtraError string string extra_problem

definition Validate_descriptor :: "descriptor \<Rightarrow> register_error option" where
  "Validate_descriptor d =
    (if \<not> namePattern (ds_Name d) then Some (DescriptorName (ds_Name d))
     else if \<not> runtime_Valid (EffectiveRuntime d) then Some (DescriptorRuntime (ds_Name d) (ds_Runtime d))
     else if ds_Version d = '''' then Some (DescriptorVersion (ds_Name d))
     else if ds_Title d = '''' then Some (DescriptorTitle (ds_Name d))
     else None)"

definition Endpoint :: "descriptor \<Rightarrow> string" where
  "Endpoint d = ''/mcp/'' @ ds_Name d"

section \<open>Tool names\<close>

definition toolVerbs :: "string list" where
  "toolVerbs = [''aggregate_'', ''get_'', ''list_'', ''search_'']"

definition maxQualifiedToolName :: nat where "maxQualifiedToolName = 128"

text \<open>\<open>strings.TrimSuffix(verb, "_")\<close>\<close>

definition trim_underscore :: "string \<Rightarrow> string" where
  "trim_underscore s = (if s \<noteq> [] \<and> last s = CHR ''_'' then butlast s else s)"

fun checkToolVerb_loop :: "string \<Rightarrow> string list \<Rightarrow> tool_problem option" where
  "checkToolVerb_loop name [] = Some ToolNoVerb"
| "checkToolVerb_loop name (verb # verbs) =
    (if name = trim_underscore verb then Some (ToolBareVerb verb)
     else if has_prefix name verb \<and> length name > length verb then None
     else checkToolVerb_loop name verbs)"

definition checkToolVerb :: "string \<Rightarrow> tool_problem option" where
  "checkToolVerb name = checkToolVerb_loop name toolVerbs"

definition checkToolName :: "descriptor \<Rightarrow> string \<Rightarrow> tool_problem option" where
  "checkToolName d name =
    (if EffectiveRuntime d = RuntimeMCP then
       (if \<not> remoteToolNamePattern name then Some ToolCharset
        else if length (ds_Name d) + 1 + length name > maxQualifiedToolName
          then Some (ToolTooLong (length (ds_Name d) + 1 + length name))
        else None)
     else if \<not> toolNamePattern name then Some ToolPattern
     else checkToolVerb name)"

section \<open>Specifications\<close>

record tool_spec =
  ts_Name :: string
  ts_Title :: string
  ts_Description :: string
  ts_Idempotent :: bool
  ts_Capability :: capability
  ts_RateLimit :: f64
  ts_InputSchema :: string

record mutation_spec =
  ms_Action :: string
  ms_Title :: string
  ms_Description :: string
  ms_Risk :: risk_level
  ms_Reversible :: bool
  ms_Verifiable :: bool
  ms_RateLimit :: f64
  ms_InputSchema :: string

record resource_spec =
  rs_Path :: string
  rs_Name :: string
  rs_Title :: string
  rs_Description :: string
  rs_MIMEType :: string
  rs_Capability :: capability

record prompt_arg =
  pa_Name :: string
  pa_Description :: string
  pa_Required :: bool

record prompt_spec =
  ps_Name :: string
  ps_Title :: string
  ps_Description :: string
  ps_Args :: "prompt_arg list"
  ps_Capability :: capability

definition negative :: "f64 \<Rightarrow> bool" where
  "negative x \<longleftrightarrow> f_neg x \<and> f_mant x \<noteq> 0"

definition validate_tool :: "tool_spec \<Rightarrow> descriptor \<Rightarrow> tool_problem option" where
  "validate_tool s d =
    (if ts_Capability s \<noteq> CapUnset \<and> \<not> capability_Valid (ts_Capability s)
       then Some (ToolCapability (ts_Capability s))
     else if negative (ts_RateLimit s) then Some ToolNegativeRate
     else case checkToolName d (ts_Name s) of
       Some e \<Rightarrow> Some e
     | None \<Rightarrow> if ts_Description s = '''' then Some ToolNoDescription else None)"

definition validate_mutation :: "mutation_spec \<Rightarrow> mutation_problem option" where
  "validate_mutation s =
    (if \<not> actionPattern (ms_Action s) then Some MutationPattern
     else if negative (ms_RateLimit s) then Some MutationNegativeRate
     else if ms_Description s = '''' then Some MutationNoDescription
     else if \<not> risk_Valid (ms_Risk s) then Some (MutationRisk (ms_Risk s))
     else None)"

fun contains :: "string \<Rightarrow> string \<Rightarrow> bool" where
  "contains [] p = (p = [])"
| "contains (c # cs) p = (has_prefix (c # cs) p \<or> contains cs p)"

definition validate_resource :: "resource_spec \<Rightarrow> extra_problem option" where
  "validate_resource s =
    (if TrimSpace (rs_Path s) = '''' then Some ResourceNoPath
     else if contains (rs_Path s) ''://'' then Some ResourceScheme
     else if TrimSpace (rs_Name s) = '''' then Some ResourceNoName
     else if TrimSpace (rs_Description s) = '''' then Some ExtraNoDescription
     else if rs_Capability s \<noteq> CapUnset \<and> \<not> capability_Valid (rs_Capability s)
       then Some (ExtraCapability (rs_Capability s))
     else None)"

fun validate_args :: "string list \<Rightarrow> prompt_arg list \<Rightarrow> extra_problem option" where
  "validate_args seen [] = None"
| "validate_args seen (a # as) =
    (if TrimSpace (pa_Name a) = '''' then Some PromptUnnamedArg
     else if pa_Name a \<in> set seen then Some (PromptArgTwice (pa_Name a))
     else validate_args (pa_Name a # seen) as)"

definition validate_prompt :: "prompt_spec \<Rightarrow> extra_problem option" where
  "validate_prompt s =
    (if \<not> promptNamePattern (ps_Name s) then Some PromptPattern
     else if TrimSpace (ps_Description s) = '''' then Some ExtraNoDescription
     else case validate_args [] (ps_Args s) of
       Some e \<Rightarrow> Some e
     | None \<Rightarrow>
         if ps_Capability s \<noteq> CapUnset \<and> \<not> capability_Valid (ps_Capability s)
           then Some (ExtraCapability (ps_Capability s))
         else None)"

section \<open>Registries\<close>

record registered_tool =
  rt_spec :: tool_spec
  rt_qualified :: string
  rt_capability :: capability

record 'a registered_mutation =
  rm_spec :: mutation_spec
  rm_plugin :: string
  rm_qualified :: string
  rm_adapter :: 'a

record registered_resource =
  rr_spec :: resource_spec
  rr_uri :: string
  rr_capability :: capability

record registered_prompt =
  rp_spec :: prompt_spec
  rp_qualified :: string
  rp_capability :: capability

record 'a registry =
  rg_descriptor :: descriptor
  rg_tools :: "registered_tool list"
  rg_mutations :: "'a registered_mutation list"
  rg_resources :: "registered_resource list"
  rg_prompts :: "registered_prompt list"
  rg_errs :: "register_error list"

definition newRegistry :: "descriptor \<Rightarrow> 'a registry" where
  "newRegistry d = \<lparr>rg_descriptor = d, rg_tools = [], rg_mutations = [], rg_resources = [],
     rg_prompts = [], rg_errs = []\<rparr>"

definition hasTool :: "string \<Rightarrow> 'a registry \<Rightarrow> bool" where
  "hasTool name r = list_ex (\<lambda>t. ts_Name (rt_spec t) = name) (rg_tools r)"

definition hasMutation :: "string \<Rightarrow> 'a registry \<Rightarrow> bool" where
  "hasMutation action r = list_ex (\<lambda>m. ms_Action (rm_spec m) = action) (rg_mutations r)"

definition hasResource :: "string \<Rightarrow> 'a registry \<Rightarrow> bool" where
  "hasResource uri r = list_ex (\<lambda>x. rr_uri x = uri) (rg_resources r)"

definition hasPrompt :: "string \<Rightarrow> 'a registry \<Rightarrow> bool" where
  "hasPrompt qualified r = list_ex (\<lambda>p. rp_qualified p = qualified) (rg_prompts r)"

definition reg_error :: "register_error \<Rightarrow> 'a registry \<Rightarrow> 'a registry" where
  "reg_error e r = r\<lparr>rg_errs := rg_errs r @ [e]\<rparr>"

definition qualify :: "string \<Rightarrow> string \<Rightarrow> string" where
  "qualify plugin name = plugin @ ''_'' @ name"

definition read_unless_set :: "capability \<Rightarrow> capability" where
  "read_unless_set c = (if c = CapUnset then CapRead else c)"

definition Registry_Tool ::
  "string option \<Rightarrow> string option \<Rightarrow> tool_spec \<Rightarrow> 'a registry \<Rightarrow> 'a registry" where
  "Registry_Tool inSchema outSchema s r =
    (let d = rg_descriptor r; refuse = (\<lambda>p. reg_error (ToolError (ds_Name d) (ts_Name s) p) r)
     in case validate_tool s d of
          Some e \<Rightarrow> refuse e
        | None \<Rightarrow>
            if hasTool (ts_Name s) r then refuse ToolTwice
            else if ts_InputSchema s = '''' \<and> inSchema \<noteq> None then refuse (ToolInputSchema (the inSchema))
            else (case outSchema of
                Some p \<Rightarrow> refuse (ToolOutputSchema p)
              | None \<Rightarrow> r\<lparr>rg_tools := rg_tools r @ [\<lparr>rt_spec = s, rt_qualified = qualify (ds_Name d) (ts_Name s),
                  rt_capability = read_unless_set (ts_Capability s)\<rparr>]\<rparr>))"

text \<open>\<open>strings.ReplaceAll(action, ".", "_")\<close>\<close>

definition action_name :: "string \<Rightarrow> string" where
  "action_name a = map (\<lambda>c. if c = CHR ''.'' then CHR ''_'' else c) a"

text \<open>A nil handler is \<open>None\<close>; \<open>newAdapter\<close> erases the types of the one given.\<close>

definition Registry_Mutation :: "mutation_spec \<Rightarrow> 'a option \<Rightarrow> 'a registry \<Rightarrow> 'a registry" where
  "Registry_Mutation s h r =
    (let d = rg_descriptor r; refuse = (\<lambda>p. reg_error (MutationError (ds_Name d) (ms_Action s) p) r)
     in if EffectiveRuntime d = RuntimeMCP then refuse MutationRemote
        else case validate_mutation s of
          Some e \<Rightarrow> refuse e
        | None \<Rightarrow>
            (case h of
               None \<Rightarrow> refuse MutationNilHandler
             | Some a \<Rightarrow>
                 if hasMutation (ms_Action s) r then refuse MutationTwice
                 else r\<lparr>rg_mutations := rg_mutations r @ [\<lparr>rm_spec = s, rm_plugin = ds_Name d,
                        rm_qualified = qualify (ds_Name d) (action_name (ms_Action s)), rm_adapter = a\<rparr>]\<rparr>))"

text \<open>\<open>strings.TrimPrefix(spec.Path, "/")\<close>\<close>

definition trim_slash :: "string \<Rightarrow> string" where
  "trim_slash p = (if has_prefix p ''/'' then tl p else p)"

definition resource_uri :: "descriptor \<Rightarrow> resource_spec \<Rightarrow> string" where
  "resource_uri d s = ds_Name d @ ''://'' @ trim_slash (rs_Path s)"

definition Registry_Resource :: "resource_spec \<Rightarrow> 'a registry \<Rightarrow> 'a registry" where
  "Registry_Resource s r =
    (let d = rg_descriptor r; refuse = (\<lambda>p. reg_error (ExtraError (ds_Name d) (rs_Path s) p) r)
     in case validate_resource s of
          Some e \<Rightarrow> refuse e
        | None \<Rightarrow>
            if \<not> uriSchemePattern (ds_Name d) then refuse ResourceBadScheme
            else if hasResource (resource_uri d s) r then refuse ExtraTwice
            else r\<lparr>rg_resources := rg_resources r @ [\<lparr>rr_spec = s, rr_uri = resource_uri d s,
                   rr_capability = read_unless_set (rs_Capability s)\<rparr>]\<rparr>)"

definition Registry_Prompt :: "prompt_spec \<Rightarrow> 'a registry \<Rightarrow> 'a registry" where
  "Registry_Prompt s r =
    (let d = rg_descriptor r; refuse = (\<lambda>p. reg_error (ExtraError (ds_Name d) (ps_Name s) p) r)
     in case validate_prompt s of
          Some e \<Rightarrow> refuse e
        | None \<Rightarrow>
            if hasPrompt (qualify (ds_Name d) (ps_Name s)) r then refuse ExtraTwice
            else r\<lparr>rg_prompts := rg_prompts r @ [\<lparr>rp_spec = s, rp_qualified = qualify (ds_Name d) (ps_Name s),
                   rp_capability = read_unless_set (ps_Capability s)\<rparr>]\<rparr>)"

definition ToolNames :: "'a registry \<Rightarrow> string list" where
  "ToolNames r = map rt_qualified (rg_tools r)"

definition MutationActions :: "'a registry \<Rightarrow> string list" where
  "MutationActions r = map (\<lambda>m. ms_Action (rm_spec m)) (rg_mutations r)"

definition mutationByAction :: "string \<Rightarrow> 'a registry \<Rightarrow> 'a registered_mutation option" where
  "mutationByAction action r = find (\<lambda>m. ms_Action (rm_spec m) = action) (rg_mutations r)"

definition ToolDescriptions :: "'a registry \<Rightarrow> (string \<times> string) list" where
  "ToolDescriptions r = last_wins
    (map (\<lambda>t. (rt_qualified t, ts_Description (rt_spec t))) (rg_tools r)
     @ map (\<lambda>m. (rm_qualified m, ms_Description (rm_spec m))) (rg_mutations r))"

text \<open>The lifecycle tools of an endpoint, in the order they are attached, with what each takes.\<close>

definition approval_tools :: "(string \<times> capability) list" where
  "approval_tools = [(''list_operations'', CapRead), (''get_operation'', CapRead),
     (''approve_operation'', CapApprove), (''reject_operation'', CapApprove),
     (''cancel_operation'', CapPropose)]"

definition Registry_Capabilities :: "'a registry \<Rightarrow> (string \<times> capability) list" where
  "Registry_Capabilities r = last_wins
    (map (\<lambda>t. (rt_qualified t, rt_capability t)) (rg_tools r)
     @ map (\<lambda>m. (rm_qualified m, CapPropose)) (rg_mutations r)
     @ map (\<lambda>(n, c). (qualify (ds_Name (rg_descriptor r)) n, c)) approval_tools)"

section \<open>What a plugin declares\<close>

text \<open>The calls a plugin's \<open>Register\<close> makes on its registry, in order.\<close>

datatype 'a declared =
    DeclareTool "string option" "string option" tool_spec
  | DeclareMutation mutation_spec "'a option"
  | DeclareResource resource_spec
  | DeclarePrompt prompt_spec

fun register_one :: "'a declared \<Rightarrow> 'a registry \<Rightarrow> 'a registry" where
  "register_one (DeclareTool i o' s) r = Registry_Tool i o' s r"
| "register_one (DeclareMutation s h) r = Registry_Mutation s h r"
| "register_one (DeclareResource s) r = Registry_Resource s r"
| "register_one (DeclarePrompt s) r = Registry_Prompt s r"

definition register_all :: "descriptor \<Rightarrow> 'a declared list \<Rightarrow> 'a registry" where
  "register_all d ds = fold register_one ds (newRegistry d)"

lemma register_fixed [simp]: "rg_descriptor (register_one x r) = rg_descriptor r"
  by (cases x) (simp_all add: Registry_Tool_def Registry_Mutation_def Registry_Resource_def
      Registry_Prompt_def reg_error_def Let_def split: option.split)

lemma register_all_fixed [simp]: "rg_descriptor (register_all d ds) = d"
  by (induction ds rule: rev_induct) (simp_all add: register_all_def newRegistry_def)

section \<open>What a registry holds\<close>

definition tool_ok :: "descriptor \<Rightarrow> registered_tool \<Rightarrow> bool" where
  "tool_ok d t \<longleftrightarrow> checkToolName d (ts_Name (rt_spec t)) = None
     \<and> ts_Description (rt_spec t) \<noteq> '''' \<and> capability_Valid (rt_capability t)
     \<and> rt_qualified t = qualify (ds_Name d) (ts_Name (rt_spec t))"

definition mutation_ok :: "descriptor \<Rightarrow> 'a registered_mutation \<Rightarrow> bool" where
  "mutation_ok d m \<longleftrightarrow> actionPattern (ms_Action (rm_spec m)) \<and> risk_Valid (ms_Risk (rm_spec m))
     \<and> ms_Description (rm_spec m) \<noteq> '''' \<and> rm_plugin m = ds_Name d
     \<and> rm_qualified m = qualify (ds_Name d) (action_name (ms_Action (rm_spec m)))"

definition resource_ok :: "descriptor \<Rightarrow> registered_resource \<Rightarrow> bool" where
  "resource_ok d x \<longleftrightarrow> uriSchemePattern (ds_Name d) \<and> \<not> contains (rs_Path (rr_spec x)) ''://''
     \<and> rr_uri x = resource_uri d (rr_spec x) \<and> capability_Valid (rr_capability x)"

definition prompt_ok :: "descriptor \<Rightarrow> registered_prompt \<Rightarrow> bool" where
  "prompt_ok d p \<longleftrightarrow> promptNamePattern (ps_Name (rp_spec p)) \<and> capability_Valid (rp_capability p)
     \<and> rp_qualified p = qualify (ds_Name d) (ps_Name (rp_spec p))
     \<and> distinct (map pa_Name (ps_Args (rp_spec p)))"

definition registry_ok :: "'a registry \<Rightarrow> bool" where
  "registry_ok r \<longleftrightarrow>
     list_all (tool_ok (rg_descriptor r)) (rg_tools r) \<and> distinct (ToolNames r)
     \<and> list_all (mutation_ok (rg_descriptor r)) (rg_mutations r) \<and> distinct (MutationActions r)
     \<and> (EffectiveRuntime (rg_descriptor r) = RuntimeMCP \<longrightarrow> rg_mutations r = [])
     \<and> list_all (resource_ok (rg_descriptor r)) (rg_resources r) \<and> distinct (map rr_uri (rg_resources r))
     \<and> list_all (prompt_ok (rg_descriptor r)) (rg_prompts r) \<and> distinct (map rp_qualified (rg_prompts r))"

lemma qualify_inject [simp]: "qualify p a = qualify p b \<longleftrightarrow> a = b"
  by (simp add: qualify_def)

lemma validate_args_distinct:
  "validate_args seen xs = None \<Longrightarrow> distinct (map pa_Name xs) \<and> set seen \<inter> pa_Name ` set xs = {}"
proof (induction xs arbitrary: seen)
  case (Cons a xs)
  then have "pa_Name a \<notin> set seen" "validate_args (pa_Name a # seen) xs = None"
    by (auto split: if_splits)
  then show ?case using Cons.IH [of "pa_Name a # seen"] by auto
qed simp

lemma registry_ok_reg_error [simp]: "registry_ok (reg_error e r) = registry_ok r"
  by (simp add: registry_ok_def reg_error_def ToolNames_def MutationActions_def)

text \<open>A call either adds an error or, its checks passed, the one entry.\<close>

lemma Registry_Tool_cases:
  "(\<exists>e. Registry_Tool i o' s r = reg_error e r)
   \<or> validate_tool s (rg_descriptor r) = None \<and> \<not> hasTool (ts_Name s) r
     \<and> Registry_Tool i o' s r = r\<lparr>rg_tools := rg_tools r @ [\<lparr>rt_spec = s,
         rt_qualified = qualify (ds_Name (rg_descriptor r)) (ts_Name s),
         rt_capability = read_unless_set (ts_Capability s)\<rparr>]\<rparr>"
  by (auto simp: Registry_Tool_def Let_def split: option.split)

lemma Registry_Mutation_cases:
  "(\<exists>e. Registry_Mutation s h r = reg_error e r)
   \<or> (\<exists>a. EffectiveRuntime (rg_descriptor r) \<noteq> RuntimeMCP \<and> validate_mutation s = None
        \<and> \<not> hasMutation (ms_Action s) r
        \<and> Registry_Mutation s h r = r\<lparr>rg_mutations := rg_mutations r @ [\<lparr>rm_spec = s,
            rm_plugin = ds_Name (rg_descriptor r),
            rm_qualified = qualify (ds_Name (rg_descriptor r)) (action_name (ms_Action s)), rm_adapter = a\<rparr>]\<rparr>)"
  by (auto simp: Registry_Mutation_def Let_def split: option.split)

lemma Registry_Resource_cases:
  "(\<exists>e. Registry_Resource s r = reg_error e r)
   \<or> validate_resource s = None \<and> uriSchemePattern (ds_Name (rg_descriptor r))
     \<and> \<not> hasResource (resource_uri (rg_descriptor r) s) r
     \<and> Registry_Resource s r = r\<lparr>rg_resources := rg_resources r @ [\<lparr>rr_spec = s,
         rr_uri = resource_uri (rg_descriptor r) s, rr_capability = read_unless_set (rs_Capability s)\<rparr>]\<rparr>"
  by (auto simp: Registry_Resource_def Let_def split: option.split)

lemma Registry_Prompt_cases:
  "(\<exists>e. Registry_Prompt s r = reg_error e r)
   \<or> validate_prompt s = None \<and> \<not> hasPrompt (qualify (ds_Name (rg_descriptor r)) (ps_Name s)) r
     \<and> Registry_Prompt s r = r\<lparr>rg_prompts := rg_prompts r @ [\<lparr>rp_spec = s,
         rp_qualified = qualify (ds_Name (rg_descriptor r)) (ps_Name s),
         rp_capability = read_unless_set (ps_Capability s)\<rparr>]\<rparr>"
  by (auto simp: Registry_Prompt_def Let_def split: option.split)

lemma validated_tool:
  "validate_tool s d = None \<Longrightarrow> tool_ok d \<lparr>rt_spec = s, rt_qualified = qualify (ds_Name d) (ts_Name s),
     rt_capability = read_unless_set (ts_Capability s)\<rparr>"
  by (auto simp: validate_tool_def tool_ok_def read_unless_set_def split: if_splits option.splits)

lemma validated_mutation:
  "validate_mutation s = None \<Longrightarrow> mutation_ok d \<lparr>rm_spec = s, rm_plugin = ds_Name d,
     rm_qualified = qualify (ds_Name d) (action_name (ms_Action s)), rm_adapter = a\<rparr>"
  by (auto simp: validate_mutation_def mutation_ok_def split: if_splits)

lemma validated_resource:
  "validate_resource s = None \<Longrightarrow> uriSchemePattern (ds_Name d) \<Longrightarrow> resource_ok d \<lparr>rr_spec = s,
     rr_uri = resource_uri d s, rr_capability = read_unless_set (rs_Capability s)\<rparr>"
  by (auto simp: validate_resource_def resource_ok_def read_unless_set_def split: if_splits)

lemma validated_prompt:
  "validate_prompt s = None \<Longrightarrow> prompt_ok d \<lparr>rp_spec = s, rp_qualified = qualify (ds_Name d) (ps_Name s),
     rp_capability = read_unless_set (ps_Capability s)\<rparr>"
  by (auto simp: validate_prompt_def prompt_ok_def read_unless_set_def dest: validate_args_distinct
      split: if_splits option.splits)

lemma new_tool_name:
  assumes "list_all (tool_ok (rg_descriptor r)) (rg_tools r)" and "\<not> hasTool n r"
  shows "qualify (ds_Name (rg_descriptor r)) n \<notin> rt_qualified ` set (rg_tools r)"
  using assms by (auto simp: hasTool_def list_ex_iff list_all_iff tool_ok_def)

lemma new_action: "\<not> hasMutation a r \<Longrightarrow> a \<notin> (\<lambda>m. ms_Action (rm_spec m)) ` set (rg_mutations r)"
  by (auto simp: hasMutation_def list_ex_iff)

lemma new_uri: "\<not> hasResource u r \<Longrightarrow> u \<notin> rr_uri ` set (rg_resources r)"
  by (auto simp: hasResource_def list_ex_iff)

lemma new_prompt: "\<not> hasPrompt u r \<Longrightarrow> u \<notin> rp_qualified ` set (rg_prompts r)"
  by (auto simp: hasPrompt_def list_ex_iff)

lemmas kept_defs = registry_ok_def ToolNames_def MutationActions_def

lemma Tool_keeps: assumes ok: "registry_ok r" shows "registry_ok (Registry_Tool i o' s r)"
  using Registry_Tool_cases [of i o' s r]
proof (elim disjE exE conjE)
  assume v: "validate_tool s (rg_descriptor r) = None" and n: "\<not> hasTool (ts_Name s) r"
    and eq: "Registry_Tool i o' s r = r\<lparr>rg_tools := rg_tools r @ [\<lparr>rt_spec = s,
         rt_qualified = qualify (ds_Name (rg_descriptor r)) (ts_Name s),
         rt_capability = read_unless_set (ts_Capability s)\<rparr>]\<rparr>"
  show ?thesis
    unfolding eq using ok validated_tool [OF v] new_tool_name [OF _ n] by (simp add: kept_defs)
qed (simp add: ok)

lemma Mutation_keeps: assumes ok: "registry_ok r" shows "registry_ok (Registry_Mutation s h r)"
  using Registry_Mutation_cases [of s h r]
proof (elim disjE exE conjE)
  fix a assume m: "EffectiveRuntime (rg_descriptor r) \<noteq> RuntimeMCP" and v: "validate_mutation s = None"
    and n: "\<not> hasMutation (ms_Action s) r"
    and eq: "Registry_Mutation s h r = r\<lparr>rg_mutations := rg_mutations r @ [\<lparr>rm_spec = s,
            rm_plugin = ds_Name (rg_descriptor r),
            rm_qualified = qualify (ds_Name (rg_descriptor r)) (action_name (ms_Action s)), rm_adapter = a\<rparr>]\<rparr>"
  show ?thesis
    unfolding eq using ok m validated_mutation [OF v] new_action [OF n] by (simp add: kept_defs)
qed (simp add: ok)

lemma Resource_keeps: assumes ok: "registry_ok r" shows "registry_ok (Registry_Resource s r)"
  using Registry_Resource_cases [of s r]
proof (elim disjE exE conjE)
  assume v: "validate_resource s = None" and u: "uriSchemePattern (ds_Name (rg_descriptor r))"
    and n: "\<not> hasResource (resource_uri (rg_descriptor r) s) r"
    and eq: "Registry_Resource s r = r\<lparr>rg_resources := rg_resources r @ [\<lparr>rr_spec = s,
         rr_uri = resource_uri (rg_descriptor r) s, rr_capability = read_unless_set (rs_Capability s)\<rparr>]\<rparr>"
  show ?thesis
    unfolding eq using ok validated_resource [OF v u] new_uri [OF n] by (simp add: kept_defs)
qed (simp add: ok)

lemma Prompt_keeps: assumes ok: "registry_ok r" shows "registry_ok (Registry_Prompt s r)"
  using Registry_Prompt_cases [of s r]
proof (elim disjE exE conjE)
  assume v: "validate_prompt s = None"
    and n: "\<not> hasPrompt (qualify (ds_Name (rg_descriptor r)) (ps_Name s)) r"
    and eq: "Registry_Prompt s r = r\<lparr>rg_prompts := rg_prompts r @ [\<lparr>rp_spec = s,
         rp_qualified = qualify (ds_Name (rg_descriptor r)) (ps_Name s),
         rp_capability = read_unless_set (ps_Capability s)\<rparr>]\<rparr>"
  show ?thesis
    unfolding eq using ok validated_prompt [OF v] new_prompt [OF n] by (simp add: kept_defs)
qed (simp add: ok)

lemma register_one_keeps: "registry_ok r \<Longrightarrow> registry_ok (register_one x r)"
  by (cases x) (simp_all add: Tool_keeps Mutation_keeps Resource_keeps Prompt_keeps)

lemma register_all_ok: "registry_ok (register_all d xs)"
proof (induction xs rule: rev_induct)
  case Nil
  then show ?case by (simp add: register_all_def newRegistry_def kept_defs)
next
  case (snoc x xs)
  then show ?case using register_one_keeps [of "register_all d xs" x] by (simp add: register_all_def)
qed

lemma registered_tool_ok: "t \<in> set (rg_tools (register_all d xs)) \<Longrightarrow> tool_ok d t"
  using register_all_ok [of d xs] by (simp add: registry_ok_def list_all_iff)

text \<open>
  C20. Whatever a plugin declares, in whatever order and however wrongly, its registry is well formed.
  No two read tools have one name, no two mutations one action, no two resources one address and no two
  prompts one name. Every tool and prompt name, action and address follows the pattern for it and is made
  of the plugin's own name and the declared one; every tool and mutation has a description; every tool,
  resource and prompt has a capability the host knows, and every mutation a risk it knows; a prompt names
  no argument twice; and a remote MCP server has no mutation at all. (The names of the tools that
  mutations become may still collide: \<open>actions_share_a_tool\<close>.)
\<close>
theorem registrations_are_sound: "registry_ok (register_all d xs)"
  by (rule register_all_ok)

section \<open>How long a tool's name is\<close>

lemma namePattern_length: "namePattern s \<Longrightarrow> length s \<le> 32"
  by (auto simp: namePattern_def split: list.splits)

lemma checkToolName_length:
  assumes "checkToolName d name = None" and "namePattern (ds_Name d)"
  shows "length (qualify (ds_Name d) name) \<le> maxQualifiedToolName"
  using assms namePattern_length [OF assms(2)]
  by (auto simp: checkToolName_def maxQualifiedToolName_def qualify_def toolNamePattern_def
      split: if_splits list.splits)

text \<open>
  Every read tool's name, as a client sees it, stays within the 128 characters the protocol
  allows, whatever a plugin or a remote server declares.
\<close>
theorem tool_names_fit:
  assumes "namePattern (ds_Name d)"
  shows "list_all (\<lambda>t. length (rt_qualified t) \<le> maxQualifiedToolName) (rg_tools (register_all d xs))"
  using assms by (auto simp: list_all_iff tool_ok_def dest!: registered_tool_ok intro: checkToolName_length)

text \<open>A mutation's tool has no such bound: the pattern of an action has none.\<close>

definition long_action :: "nat \<Rightarrow> mutation_spec" where
  "long_action n = \<lparr>ms_Action = ''a.b'' @ replicate n (CHR ''b''), ms_Title = '''', ms_Description = ''d'',
     ms_Risk = RiskLow, ms_Reversible = True, ms_Verifiable = True, ms_RateLimit = F64 False 0 0,
     ms_InputSchema = ''''\<rparr>"

lemma split_dots_plain: "CHR ''.'' \<notin> set s \<Longrightarrow> split_dots s = [s]"
  by (induction s) auto

lemma long_action_accepted: "validate_mutation (long_action n) = None"
proof -
  have "split_dots (''b'' @ replicate n (CHR ''b'')) = [''b'' @ replicate n (CHR ''b'')]"
    by (rule split_dots_plain) simp
  then show ?thesis
    by (simp add: validate_mutation_def long_action_def actionPattern_def action_word_def is_lower_def
        name_char_def list_all_iff negative_def risk_Valid_def)
qed

lemma mutation_names_are_unbounded:
  "\<exists>m. rg_mutations (register_all (d :: descriptor) [DeclareMutation (long_action n) (Some ())]) = [m]
     \<and> length (rm_qualified m) > n"
  if "EffectiveRuntime d \<noteq> RuntimeMCP"
  using that
  by (simp add: register_all_def Registry_Mutation_def newRegistry_def long_action_accepted hasMutation_def
      qualify_def action_name_def) (simp add: long_action_def)

text \<open>
  Dots and underscores of an action become the same character of its tool's name: two actions that are
  both accepted, and both mutations of the registry, have one tool name between them.
\<close>

definition named_action :: "string \<Rightarrow> mutation_spec" where
  "named_action a = (long_action 0)\<lparr>ms_Action := a\<rparr>"

lemma actions_share_a_tool:
  fixes d :: descriptor
  assumes "EffectiveRuntime d \<noteq> RuntimeMCP"
  shows "let r = register_all d [DeclareMutation (named_action ''dns.zone.set'') (Some ()),
        DeclareMutation (named_action ''dns.zone_set'') (Some ())] in
      rg_errs r = [] \<and> MutationActions r = [''dns.zone.set'', ''dns.zone_set'']
      \<and> map rm_qualified (rg_mutations r)
          = [qualify (ds_Name d) ''dns_zone_set'', qualify (ds_Name d) ''dns_zone_set'']"
proof -
  have "validate_mutation (named_action ''dns.zone.set'') = None" "validate_mutation (named_action ''dns.zone_set'') = None"
    by (simp_all add: validate_mutation_def named_action_def long_action_def actionPattern_def action_word_def
        is_lower_def name_char_def list_all_iff negative_def risk_Valid_def)
  then show ?thesis using assms
    by (simp add: register_all_def Registry_Mutation_def newRegistry_def hasMutation_def MutationActions_def
        action_name_def Let_def) (simp add: named_action_def)
qed

end
