(* ===== verification/Plugin_Host.thy ===== *)
theory Plugin_Host
  imports Plugin_Registry
begin

text \<open>
  The host's side of the plugins: the gate every tool call passes and the filter of the tool list
  (\<open>toolGate\<close>, \<open>splitToolName\<close> of \<open>internal/app/app.go\<close>), the manager that mounts plugins and serves
  them alone or together (\<open>internal/plugins/manager.go\<close>), and the endpoints
  (\<open>internal/mcp/host.go\<close>). A server of the MCP SDK is the list of the tools handed to it, in order,
  with the filter installed on it; which names the SDK refuses with a panic is an argument, and so are
  a plugin's own calls, which act on a state of any type. What a failed start is explained as
  (\<open>Explain\<close>) is an argument too. Log lines, resources' and prompts' servers and the instructions are
  left out.
\<close>

section \<open>The gate\<close>

definition splitToolName :: "string \<Rightarrow> string \<times> string \<times> bool" where
  "splitToolName q = (case Cut q (CHR ''_'') of (plugin, bare, found) \<Rightarrow>
     if found then (plugin, bare, True) else (q, '''', False))"

text \<open>The error is the refusal's code, \<open>None\<close> when the call may go on.\<close>

definition toolGate :: "principal option \<Rightarrow> string \<Rightarrow> capability \<Rightarrow> string option" where
  "toolGate po tool required =
    (case splitToolName tool of (plugin, bare, ok) \<Rightarrow> Decision_Error (AuthorizeTool po plugin required))"

definition tool_visible :: "principal option \<Rightarrow> string \<Rightarrow> capability \<Rightarrow> bool" where
  "tool_visible po tool required =
    (case splitToolName tool of (plugin, bare, ok) \<Rightarrow> Allowed (AuthorizeTool po plugin required))"

section \<open>Servers\<close>

datatype 'a binding = ToolBinding registered_tool | MutationBinding "'a registered_mutation"
  | LifecycleBinding string string capability

text \<open>What the gate is asked of a call of each.\<close>

fun binding_needs :: "'a binding \<Rightarrow> capability" where
  "binding_needs (ToolBinding t) = rt_capability t"
| "binding_needs (MutationBinding m) = CapPropose"
| "binding_needs (LifecycleBinding p n c) = c"

type_synonym capabilities = "(string \<times> capability) list"

record 'a server =
  sv_tools :: "(string \<times> 'a binding) list"
  sv_filter :: "capabilities option"

datatype attach_error = AttachPanic | NoApprovalService

definition lifecycle_bindings :: "string \<Rightarrow> (string \<times> 'a binding) list" where
  "lifecycle_bindings plugin =
    map (\<lambda>(n, c). (qualify plugin n, LifecycleBinding plugin n c)) approval_tools"

definition attachAll :: "(string \<Rightarrow> bool) \<Rightarrow> bool \<Rightarrow> 'a registry \<Rightarrow> attach_error + (string \<times> 'a binding) list" where
  "attachAll refuses approvals reg =
    (let perTool = (EffectiveRuntime (rg_descriptor reg) = RuntimeMCP);
         tools = map (\<lambda>t. (rt_qualified t, ToolBinding t)) (rg_tools reg);
         kept = (if perTool then filter (\<lambda>b. \<not> refuses (fst b)) tools else tools);
         extras = map rr_uri (rg_resources reg) @ map rp_qualified (rg_prompts reg);
         proposals = map (\<lambda>m. (rm_qualified m, MutationBinding m)) (rg_mutations reg);
         lifecycle = lifecycle_bindings (ds_Name (rg_descriptor reg))
     in if \<not> perTool \<and> list_ex (refuses \<circ> fst) tools \<or> list_ex refuses extras then Inl AttachPanic
        else if rg_mutations reg = [] then Inr kept
        else if \<not> approvals then Inl NoApprovalService
        else if list_ex (refuses \<circ> fst) (proposals @ lifecycle) then Inl AttachPanic
        else Inr (kept @ proposals @ lifecycle))"

text \<open>The middleware \<open>FilterTools\<close> installs, on the tools the SDK would list.\<close>

definition listed_tools :: "principal option \<Rightarrow> capabilities \<Rightarrow> string list \<Rightarrow> string list" where
  "listed_tools po caps names =
    filter (\<lambda>n. tool_visible po n (case map_of caps n of None \<Rightarrow> CapRead | Some c \<Rightarrow> c)) names"

section \<open>The manager\<close>

datatype health_state = HealthyState | DegradedState | UnhealthyState

record health =
  he_State :: health_state
  he_Message :: string
  he_CheckedAt :: time

definition Healthy :: "time \<Rightarrow> health" where
  "Healthy now = \<lparr>he_State = HealthyState, he_Message = '''', he_CheckedAt = now\<rparr>"

definition Unhealthy :: "time \<Rightarrow> string \<Rightarrow> health" where
  "Unhealthy now msg = \<lparr>he_State = UnhealthyState, he_Message = msg, he_CheckedAt = now\<rparr>"

text \<open>A plugin: what it is and declares, and the optional interfaces it implements.\<close>

record ('a, 'u) plugin =
  pg_Descriptor :: descriptor
  pg_Declares :: "'a declared list"
  pg_RegisterErr :: "string option"
  pg_Start :: "('u \<Rightarrow> string option \<times> 'u) option"
  pg_Shutdown :: "('u \<Rightarrow> string option \<times> 'u) option"
  pg_Check :: "('u \<Rightarrow> health \<times> 'u) option"
  pg_Health :: "('u \<Rightarrow> health) option"

record ('a, 'u) mounted =
  mt_Descriptor :: descriptor
  mt_Server :: "'a server"
  mt_Registry :: "'a registry"
  mt_Required :: bool
  mt_plugin :: "('a, 'u) plugin"
  mt_health :: health

record ('a, 'u) manager =
  mg_mounted :: "(string \<times> ('a, 'u) mounted) list"
  mg_order :: "string list"
  mg_aggregates :: "(string \<times> 'a server) list"

datatype manager_error =
    BadDescriptor register_error | RegisteredTwice string | RegisterFailed string
  | RegistrationErrors "register_error list" | RegisteredNothing string | AttachFailed string attach_error
  | RequiredStart string string | StartFailed string | NotMounted string | NothingToServe

text \<open>What the process around the manager supplies.\<close>

record manager_env =
  me_refuses :: "string \<Rightarrow> bool"
  me_approvals :: bool
  me_purpose :: "string \<Rightarrow> string"
  me_Explain :: "string \<Rightarrow> string \<Rightarrow> string"

definition NewManager :: "('a, 'u) manager" where
  "NewManager = \<lparr>mg_mounted = [], mg_order = [], mg_aggregates = []\<rparr>"

definition Lookup_plugin :: "('a, 'u) manager \<Rightarrow> string \<Rightarrow> ('a, 'u) mounted option" where
  "Lookup_plugin m name = map_of (mg_mounted m) name"

definition manager_Names :: "('a, 'u) manager \<Rightarrow> string list" where
  "manager_Names m = sort_by (\<le>) (mg_order m)"

definition manager_build :: "manager_env \<Rightarrow> time \<Rightarrow> descriptor \<Rightarrow> ('a, 'u) plugin \<Rightarrow> bool
    \<Rightarrow> manager_error + ('a, 'u) mounted" where
  "manager_build env now d p required =
    (let d1 = d\<lparr>ds_Purpose := TrimSpace (me_purpose env (ds_Name d))\<rparr>;
         reg = register_all d1 (pg_Declares p)
     in case pg_RegisterErr p of
          Some e \<Rightarrow> Inl (RegisterFailed e)
        | None \<Rightarrow>
            if rg_errs reg \<noteq> [] then Inl (RegistrationErrors (rg_errs reg))
            else if rg_tools reg = [] \<and> rg_mutations reg = [] \<and> rg_resources reg = [] \<and> rg_prompts reg = []
              then Inl (RegisteredNothing (ds_Name d))
            else (case attachAll (me_refuses env) (me_approvals env) reg of
                Inl e \<Rightarrow> Inl (AttachFailed (ds_Name d) e)
              | Inr tools \<Rightarrow> Inr \<lparr>mt_Descriptor = d1,
                  mt_Server = \<lparr>sv_tools = tools, sv_filter = Some (Registry_Capabilities reg)\<rparr>,
                  mt_Registry = reg, mt_Required = required, mt_plugin = p, mt_health = Healthy now\<rparr>))"

definition manager_Register :: "manager_env \<Rightarrow> time \<Rightarrow> ('a, 'u) plugin \<Rightarrow> string \<Rightarrow> bool
    \<Rightarrow> ('a, 'u) manager \<Rightarrow> manager_error option \<times> ('a, 'u) manager" where
  "manager_Register env now p instance required m =
    (let d = (if instance \<noteq> '''' then (pg_Descriptor p)\<lparr>ds_Name := instance\<rparr> else pg_Descriptor p)
     in case Validate_descriptor d of
          Some e \<Rightarrow> (Some (BadDescriptor e), m)
        | None \<Rightarrow>
            if Lookup_plugin m (ds_Name d) \<noteq> None then (Some (RegisteredTwice (ds_Name d)), m)
            else (case manager_build env now d p required of
                Inl e \<Rightarrow> (Some e, m)
              | Inr mt \<Rightarrow> (None, m\<lparr>mg_mounted := put (ds_Name d) mt (mg_mounted m),
                  mg_order := mg_order m @ [ds_Name d], mg_aggregates := []\<rparr>)))"

text \<open>The state \<open>u\<close> of the plugins is returned with the manager's.\<close>

definition shut_down :: "('a, 'u) plugin \<Rightarrow> 'u \<Rightarrow> 'u" where
  "shut_down p u = (case pg_Shutdown p of None \<Rightarrow> u | Some f \<Rightarrow> snd (f u))"

definition Remount :: "manager_env \<Rightarrow> time \<Rightarrow> string \<Rightarrow> ('a, 'u) plugin \<Rightarrow> bool
    \<Rightarrow> ('a, 'u) manager \<times> 'u \<Rightarrow> manager_error option \<times> ('a, 'u) manager \<times> 'u" where
  "Remount env now instance p required s =
    (let (m, u) = s;
         existing = Lookup_plugin m instance;
         d = (pg_Descriptor p)\<lparr>ds_Name := instance\<rparr>
     in case Validate_descriptor d of
          Some e \<Rightarrow> (Some (BadDescriptor e), m, u)
        | None \<Rightarrow>
            (case manager_build env now d p required of
               Inl e \<Rightarrow> (Some e, m, u)
             | Inr rebuilt \<Rightarrow>
                 (let (failed, u1) = (case pg_Start p of None \<Rightarrow> (None, u) | Some f \<Rightarrow> f u)
                  in case failed of
                       Some e \<Rightarrow> (Some (StartFailed (me_Explain env instance e)), m, u1)
                     | None \<Rightarrow>
                         (None, m\<lparr>mg_mounted := put instance rebuilt (mg_mounted m),
                            mg_order := (if existing = None then mg_order m @ [instance] else mg_order m),
                            mg_aggregates := []\<rparr>,
                          case existing of None \<Rightarrow> u1 | Some old \<Rightarrow> shut_down (mt_plugin old) u1))))"

definition Unmount :: "string \<Rightarrow> ('a, 'u) manager \<times> 'u \<Rightarrow> manager_error option \<times> ('a, 'u) manager \<times> 'u" where
  "Unmount instance s =
    (let (m, u) = s
     in case Lookup_plugin m instance of
          None \<Rightarrow> (Some (NotMounted instance), m, u)
        | Some old \<Rightarrow>
            (None, m\<lparr>mg_mounted := filter (\<lambda>(n, x). n \<noteq> instance) (mg_mounted m),
               mg_order := remove1 instance (mg_order m), mg_aggregates := []\<rparr>,
             shut_down (mt_plugin old) u))"

definition SetHealth :: "string \<Rightarrow> health \<Rightarrow> ('a, 'u) manager \<Rightarrow> ('a, 'u) manager" where
  "SetHealth name h m =
    m\<lparr>mg_mounted := map (\<lambda>(n, x). (n, if n = name then x\<lparr>mt_health := h\<rparr> else x)) (mg_mounted m)\<rparr>"

text \<open>\<open>Start\<close>, \<open>Shutdown\<close> and \<open>CheckHealth\<close> go through the plugins in the order they registered.\<close>

fun start_each :: "manager_env \<Rightarrow> time \<Rightarrow> string list \<Rightarrow> ('a, 'u) manager \<times> 'u
    \<Rightarrow> manager_error option \<times> ('a, 'u) manager \<times> 'u" where
  "start_each env now [] s = (None, s)"
| "start_each env now (name # names) (m, u) =
    (case Lookup_plugin m name of
       None \<Rightarrow> (None, m, u)
     | Some mp \<Rightarrow>
         (case pg_Start (mt_plugin mp) of
            None \<Rightarrow> start_each env now names (m, u)
          | Some f \<Rightarrow>
              (let (failed, u1) = f u
               in case failed of
                    Some e \<Rightarrow>
                      if mt_Required mp then (Some (RequiredStart name (me_Explain env name e)), m, u1)
                      else start_each env now names
                        (SetHealth name (Unhealthy now (me_Explain env name e)) m, u1)
                  | None \<Rightarrow>
                      (let h = (case pg_Health (mt_plugin mp) of None \<Rightarrow> Healthy now | Some r \<Rightarrow> r u1)
                       in start_each env now names (SetHealth name h m, u1)))))"

definition Start_all :: "manager_env \<Rightarrow> time \<Rightarrow> ('a, 'u) manager \<times> 'u
    \<Rightarrow> manager_error option \<times> ('a, 'u) manager \<times> 'u" where
  "Start_all env now s = start_each env now (mg_order (fst s)) s"

fun shutdown_each :: "('a, 'u) manager \<Rightarrow> string list \<Rightarrow> 'u \<Rightarrow> (string \<times> string) list \<times> 'u" where
  "shutdown_each m [] u = ([], u)"
| "shutdown_each m (name # names) u =
    (case Lookup_plugin m name of
       None \<Rightarrow> ([], u)
     | Some mp \<Rightarrow>
         (case pg_Shutdown (mt_plugin mp) of
            None \<Rightarrow> shutdown_each m names u
          | Some f \<Rightarrow>
              (let (failed, u1) = f u; (errs, u2) = shutdown_each m names u1
               in ((case failed of None \<Rightarrow> [] | Some e \<Rightarrow> [(name, e)]) @ errs, u2))))"

definition Shutdown_all :: "('a, 'u) manager \<Rightarrow> 'u \<Rightarrow> (string \<times> string) list \<times> 'u" where
  "Shutdown_all m u = shutdown_each m (rev (mg_order m)) u"

fun check_each :: "string list \<Rightarrow> ('a, 'u) manager \<times> 'u \<Rightarrow> ('a, 'u) manager \<times> 'u" where
  "check_each [] s = s"
| "check_each (name # names) (m, u) =
    (case Lookup_plugin m name of
       None \<Rightarrow> (m, u)
     | Some mp \<Rightarrow>
         (case pg_Check (mt_plugin mp) of
            None \<Rightarrow> check_each names (m, u)
          | Some f \<Rightarrow> (let (h, u1) = f u in check_each names (SetHealth name h m, u1))))"

definition CheckHealth :: "('a, 'u) manager \<times> 'u \<Rightarrow> (string \<times> health) list \<times> ('a, 'u) manager \<times> 'u" where
  "CheckHealth s =
    (let (m, u) = check_each (mg_order (fst s)) s
     in (map (\<lambda>(n, x). (n, mt_health x)) (mg_mounted m), m, u))"

section \<open>Serving several plugins\<close>

text \<open>The attachments of the named plugins, one after another; a name not mounted contributes none.\<close>

fun build_tools :: "manager_env \<Rightarrow> ('a, 'u) manager \<Rightarrow> string list
    \<Rightarrow> manager_error + (string \<times> 'a binding) list" where
  "build_tools env m [] = Inr []"
| "build_tools env m (name # names) =
    (case Lookup_plugin m name of
       None \<Rightarrow> build_tools env m names
     | Some mp \<Rightarrow>
         (case attachAll (me_refuses env) (me_approvals env) (mt_Registry mp) of
            Inl e \<Rightarrow> Inl (AttachFailed name e)
          | Inr tools \<Rightarrow>
              (case build_tools env m names of Inl e \<Rightarrow> Inl e | Inr rest \<Rightarrow> Inr (tools @ rest))))"

definition BuildServer :: "manager_env \<Rightarrow> ('a, 'u) manager \<Rightarrow> string list \<Rightarrow> manager_error + 'a server" where
  "BuildServer env m names =
    (if names = [] then Inl NothingToServe
     else case build_tools env m names of
       Inl e \<Rightarrow> Inl e | Inr tools \<Rightarrow> Inr \<lparr>sv_tools = tools, sv_filter = None\<rparr>)"

definition manager_Capabilities :: "('a, 'u) manager \<Rightarrow> string list \<Rightarrow> capabilities" where
  "manager_Capabilities m names = last_wins (concat (map
     (\<lambda>n. case Lookup_plugin m n of None \<Rightarrow> [] | Some mp \<Rightarrow> Registry_Capabilities (mt_Registry mp)) names))"

text \<open>\<open>strings.Join(sorted, "\x00")\<close>\<close>

fun join_nul :: "string list \<Rightarrow> string" where
  "join_nul [] = []"
| "join_nul [x] = x"
| "join_nul (x # xs) = x @ CHR 0x00 # join_nul xs"

definition aggregateKey :: "string list \<Rightarrow> string" where
  "aggregateKey names = join_nul (sort_by (\<le>) names)"

definition built_aggregate :: "manager_env \<Rightarrow> ('a, 'u) manager \<Rightarrow> string list \<Rightarrow> manager_error + 'a server" where
  "built_aggregate env m names =
    (case BuildServer env m names of
       Inl e \<Rightarrow> Inl e | Inr srv \<Rightarrow> Inr (srv\<lparr>sv_filter := Some (manager_Capabilities m names)\<rparr>))"

definition AggregateServer :: "manager_env \<Rightarrow> string list \<Rightarrow> ('a, 'u) manager
    \<Rightarrow> (manager_error + 'a server) \<times> ('a, 'u) manager" where
  "AggregateServer env names m =
    (if names = [] then (Inl NothingToServe, m)
     else case map_of (mg_aggregates m) (aggregateKey names) of
       Some srv \<Rightarrow> (Inr srv, m)
     | None \<Rightarrow>
         (case built_aggregate env m names of
            Inl e \<Rightarrow> (Inl e, m)
          | Inr srv \<Rightarrow> (Inr srv, m\<lparr>mg_aggregates := put (aggregateKey names) srv (mg_aggregates m)\<rparr>)))"

section \<open>Endpoints\<close>

text \<open>
  \<open>authenticate\<close> and \<open>resolveServer\<close>: what a request for \<open>/mcp\<close> (no name) or \<open>/mcp/<name>\<close> is answered
  by. \<open>verified\<close> is what the verifier made of the bearer token, \<open>None\<close> when there is no token or it was
  refused. A server that cannot be resolved is an endpoint without tools.
\<close>

datatype 'a answered = Challenge | UnknownEndpoint | NoServer | Serves "'a server"

definition serve_endpoint :: "manager_env \<Rightarrow> principal option \<Rightarrow> string \<Rightarrow> ('a, 'u) manager
    \<Rightarrow> 'a answered \<times> ('a, 'u) manager" where
  "serve_endpoint env verified name m =
    (case verified of
       None \<Rightarrow> (Challenge, m)
     | Some p \<Rightarrow>
         if name = '''' then
           (let granted = VisiblePlugins (Some p) (manager_Names m)
            in if granted = [] then (UnknownEndpoint, m)
               else (case AggregateServer env granted m of
                   (Inl e, m1) \<Rightarrow> (NoServer, m1)
                 | (Inr srv, m1) \<Rightarrow> (Serves srv, m1)))
         else if \<not> Allowed (AuthorizeEndpoint (Some p) name) then (UnknownEndpoint, m)
         else (case Lookup_plugin m name of
             None \<Rightarrow> (UnknownEndpoint, m)
           | Some mt \<Rightarrow> (Serves (mt_Server mt), m)))"

text \<open>What a client is shown of a server.\<close>

definition shown :: "principal option \<Rightarrow> 'a server \<Rightarrow> string list" where
  "shown po srv =
    (case sv_filter srv of None \<Rightarrow> map fst (sv_tools srv)
     | Some caps \<Rightarrow> listed_tools po caps (map fst (sv_tools srv)))"

section \<open>What the gate decides\<close>

lemma Cut_takeWhile: "Cut (p @ sep # t) sep = (takeWhile (\<lambda>c. c \<noteq> sep) p,
    (if sep \<in> set p then tl (dropWhile (\<lambda>c. c \<noteq> sep) p) @ sep # t else t), True)"
proof (cases "sep \<in> set p")
  case True
  then obtain a b where p: "p = a @ sep # b" "sep \<notin> set a" by (metis split_list_first)
  then have "takeWhile (\<lambda>c. c \<noteq> sep) p = a" "tl (dropWhile (\<lambda>c. c \<noteq> sep) p) = b"
    by (simp_all add: takeWhile_append dropWhile_append)
  then show ?thesis using p Cut_found [of a sep "b @ sep # t"] True by auto
next
  case False
  then have w: "takeWhile (\<lambda>c. c \<noteq> sep) p = p" by (auto simp: takeWhile_eq_all_conv)
  show ?thesis unfolding w using Cut_found [of p sep t] False by auto
qed

lemma splitToolName_qualify:
  "fst (splitToolName (qualify plugin tool)) = takeWhile (\<lambda>c. c \<noteq> CHR ''_'') plugin"
  by (simp add: splitToolName_def qualify_def Cut_takeWhile)

lemma toolGate_split: "toolGate po q c = Decision_Error (AuthorizeTool po (fst (splitToolName q)) c)"
  by (simp add: toolGate_def split: prod.split)

lemma visible_gate: "tool_visible po q c \<longleftrightarrow> toolGate po q c = None"
  by (simp add: tool_visible_def toolGate_def Decision_Error_def split: prod.split)

text \<open>
  The gate judges a tool by the text before the first underscore of the instance's name, whatever
  the tool: by the instance itself exactly when its name has no underscore.
\<close>
theorem gate_judges_the_first_word:
  "toolGate po (qualify plugin tool) c
     = Decision_Error (AuthorizeTool po (takeWhile (\<lambda>x. x \<noteq> CHR ''_'') plugin) c)
   \<and> (takeWhile (\<lambda>x. x \<noteq> CHR ''_'') plugin = plugin \<longleftrightarrow> CHR ''_'' \<notin> set plugin)"
  by (auto simp: toolGate_split splitToolName_qualify takeWhile_eq_all_conv)

lemma takeWhile_plain: "x \<notin> set a \<Longrightarrow> takeWhile (\<lambda>c. c \<noteq> x) a = a"
  by (induction a) auto

lemma underscore_class [simp]: "\<not> is_lower (CHR ''_'')" "\<not> is_digit (CHR ''_'')"
  by (simp_all add: is_lower_def is_digit_def)

text \<open>A caller with these grants and nothing else.\<close>

definition granted_only :: "(string \<times> level) list \<Rightarrow> principal option" where
  "granted_only gs = Some \<lparr>p_ID = ''client:1'', p_DisplayName = '''', p_RoleID = ''client'', p_RoleName = ''Client'',
     p_Permissions = [], p_Grants = map (\<lambda>(n, l). \<lparr>g_Plugin = n, g_Level = l\<rparr>) gs, p_TokenID = '''',
     p_Pending = False\<rparr>"

lemma namePattern_head: "namePattern n \<Longrightarrow> takeWhile (\<lambda>x. x \<noteq> CHR ''_'') n \<noteq> ''''
    \<and> takeWhile (\<lambda>x. x \<noteq> CHR ''_'') n \<noteq> Wildcard \<and> n \<noteq> '''' \<and> n \<noteq> Wildcard"
  by (auto simp: namePattern_def Wildcard_def is_lower_def split: list.splits if_splits)

text \<open>
  C22. The naming rules accept an instance whose name has an underscore, and its grants do not work: a
  caller granted that instance alone reaches its endpoint and is refused every tool of it, and a caller
  who may write to the instance named by the first word passes the gate of its propose tools although
  it may only read this one.
\<close>
theorem underscored_instance_is_misjudged:
  assumes "namePattern n" and "CHR ''_'' \<in> set n"
  shows "(let a = takeWhile (\<lambda>x. x \<noteq> CHR ''_'') n;
              owner = granted_only [(n, LevelWrite)];
              reader = granted_only [(a, LevelWrite), (n, LevelRead)]
          in Allowed (AuthorizeEndpoint owner n) \<and> toolGate owner (qualify n t) c \<noteq> None
             \<and> toolGate reader (qualify n t) CapPropose = None \<and> \<not> Allowed (AuthorizeTool reader n CapPropose))"
proof -
  let ?a = "takeWhile (\<lambda>x. x \<noteq> CHR ''_'') n"
  have a: "?a \<noteq> n" "n \<noteq> ?a" using assms(2) by (metis set_takeWhileD)+
  then have "\<not> Allowed (AuthorizeEndpoint (granted_only [(n, LevelWrite)]) ?a)"
    using namePattern_head [OF assms(1)]
    by (simp add: granted_only_def AuthorizeEndpoint_def Principal_Reaches_def Reaches_def)
  then have "toolGate (granted_only [(n, LevelWrite)]) (qualify n t) c \<noteq> None"
    by (simp add: toolGate_split splitToolName_qualify AuthorizeTool_def Decision_Error_def Let_def)
  then show ?thesis
    using namePattern_head [OF assms(1)] a
    by (simp add: toolGate_split splitToolName_qualify granted_only_def AuthorizeTool_def AuthorizeEndpoint_def
        Principal_Reaches_def Reaches_def Decision_Error_def Includes_def Let_def)
qed

text \<open>\<open>graylog_prod\<close>, beside an instance \<open>graylog\<close>.\<close>

theorem underscored_instance_is_misjudged_witness:
  "namePattern ''graylog_prod'' \<and>
   (let a = takeWhile (\<lambda>x. x \<noteq> CHR ''_'') ''graylog_prod'';
        owner = granted_only [(''graylog_prod'', LevelWrite)];
        reader = granted_only [(a, LevelWrite), (''graylog_prod'', LevelRead)]
    in Allowed (AuthorizeEndpoint owner ''graylog_prod'')
       \<and> toolGate owner (qualify ''graylog_prod'' ''search_messages'') CapRead \<noteq> None
       \<and> toolGate reader (qualify ''graylog_prod'' ''search_messages'') CapPropose = None
       \<and> \<not> Allowed (AuthorizeTool reader ''graylog_prod'' CapPropose))"
proof -
  have "namePattern ''graylog_prod''"
    by (simp add: namePattern_def is_lower_def name_char_def is_digit_def)
  then show ?thesis
    using underscored_instance_is_misjudged [of "''graylog_prod''" "''search_messages''" CapRead] by simp
qed

text \<open>What the gate takes of a resource's address for a plugin's name: it holds a colon still.\<close>

lemma resource_judged_by:
  assumes "uriSchemePattern (ds_Name d)"
  shows "CHR '':'' \<in> set (fst (splitToolName (resource_uri d s)))"
proof -
  have low: "CHR ''_'' \<notin> set (ds_Name d)"
    using assms by (auto simp: uriSchemePattern_def list_all_iff split: list.splits)
  show ?thesis
  proof (cases "CHR ''_'' \<in> set (trim_slash (rs_Path s))")
    case True
    then obtain a b where t: "trim_slash (rs_Path s) = a @ CHR ''_'' # b" "CHR ''_'' \<notin> set a"
      by (metis split_list_first)
    have "Cut ((ds_Name d @ ''://'' @ a) @ CHR ''_'' # b) (CHR ''_'') = (ds_Name d @ ''://'' @ a, b, True)"
      using low t(2) by (intro Cut_found) auto
    then show ?thesis by (simp add: splitToolName_def resource_uri_def t(1))
  next
    case False
    then have no: "CHR ''_'' \<notin> set (resource_uri d s)" using low by (simp add: resource_uri_def)
    have "\<not> found" if "Cut (resource_uri d s) (CHR ''_'') = (a, b, found)" for a b found
      using Cut_sound [of "resource_uri d s" "CHR ''_''" a b] no that by (cases found) auto
    then have "fst (splitToolName (resource_uri d s)) = resource_uri d s"
      by (auto simp: splitToolName_def split: prod.split)
    then show ?thesis by (simp add: resource_uri_def)
  qed
qed

lemma namePattern_no_colon: "namePattern s \<Longrightarrow> CHR '':'' \<notin> set s"
proof (cases s)
  case (Cons c cs)
  moreover assume "namePattern s"
  moreover have "\<not> name_char (CHR '':'')" "\<not> is_lower (CHR '':'')" by (simp_all add: name_char_def is_lower_def is_digit_def)
  ultimately show ?thesis by (auto simp: namePattern_def list_all_iff)
qed simp

text \<open>A principal with only those of its grants that are for every instance.\<close>

definition wildcard_only :: "principal \<Rightarrow> principal" where
  "wildcard_only p = p\<lparr>p_Grants := filter (\<lambda>g. g_Plugin g = Wildcard) (p_Grants p)\<rparr>"

text \<open>
  C23. A resource is addressed by a URI and the gate is asked about the URI, of which it takes the text
  before the first underscore, or all of it, for the name of an instance. That is no instance's name. So
  let a principal's grants be what grants are meant to be, each of an instance, by a name of the pattern
  of instance names, or of every instance, by the wildcard. For every resource a plugin has registered and
  the capability it has, the principal's grants of single instances do not count: with a wildcard grant it
  is judged by that alone, and with none it is refused, also if it was granted the very instance that
  serves the resource. A resource to be read is open exactly to those who hold the wildcard at read.
\<close>
theorem resources_need_the_wildcard:
  assumes names: "list_all (\<lambda>g. namePattern (g_Plugin g) \<or> g_Plugin g = Wildcard) (p_Grants p)"
    and x: "x \<in> set (rg_resources (register_all d xs))"
  shows "toolGate (Some p) (rr_uri x) (rr_capability x) = toolGate (Some (wildcard_only p)) (rr_uri x) (rr_capability x)
    \<and> (p_Grants (wildcard_only p) = [] \<longrightarrow> toolGate (Some p) (rr_uri x) (rr_capability x) = Some CodeAuthNotAuthorized)
    \<and> (rr_capability x = CapRead \<longrightarrow> (toolGate (Some p) (rr_uri x) (rr_capability x) = None
         \<longleftrightarrow> \<not> p_Pending p \<and> list_ex (\<lambda>g. Includes (g_Level g) LevelRead) (p_Grants (wildcard_only p))))"
proof -
  let ?q = "fst (splitToolName (rr_uri x))"
  have "resource_ok d x" using register_all_ok [of d xs] x by (auto simp: registry_ok_def list_all_iff)
  then have colon: "CHR '':'' \<in> set ?q" using resource_judged_by by (simp add: resource_ok_def)
  then have q: "?q \<noteq> ''''" "?q \<noteq> Wildcard" by (auto simp: Wildcard_def)
  have "\<forall>g\<in>set (p_Grants p). g_Plugin g \<noteq> ?q"
    using names colon namePattern_no_colon q by (fastforce simp: list_all_iff)
  then have r: "Reaches (p_Grants p) ?q l
      \<longleftrightarrow> list_ex (\<lambda>g. Includes (g_Level g) l) (p_Grants (wildcard_only p))"
    and rw: "Reaches (p_Grants (wildcard_only p)) ?q l
      \<longleftrightarrow> list_ex (\<lambda>g. Includes (g_Level g) l) (p_Grants (wildcard_only p))" for l
    using q by (auto simp: Reaches_def wildcard_only_def list_ex_iff)
  have same: "p_Pending (wildcard_only p) = p_Pending p" "Can (Some (wildcard_only p)) perm = Can (Some p) perm" for perm
    by (simp_all add: wildcard_only_def Can_def)
  show ?thesis
    unfolding toolGate_split AuthorizeTool_def AuthorizeEndpoint_def Principal_Reaches_def Let_def option.case r rw same
    by (auto simp: Decision_Error_def)
qed

definition inventory :: resource_spec where
  "inventory = \<lparr>rs_Path = ''inventory'', rs_Name = ''Inventory'', rs_Title = '''', rs_Description = ''Devices'',
     rs_MIMEType = '''', rs_Capability = CapUnset\<rparr>"

definition descriptor_of :: "string \<Rightarrow> runtime \<Rightarrow> descriptor" where
  "descriptor_of n rt = \<lparr>ds_Name = n, ds_Version = ''1'', ds_Title = n, ds_Description = '''', ds_Runtime = rt,
     ds_Purpose = ''''\<rparr>"

theorem resources_need_the_wildcard_witness:
  "let x = \<lparr>rr_spec = inventory, rr_uri = ''observium://inventory'', rr_capability = CapRead\<rparr> in
   x \<in> set (rg_resources (register_all (descriptor_of ''observium'' RuntimeBuiltin) [DeclareResource inventory :: unit declared]))
   \<and> toolGate (granted_only [(''observium'', LevelWrite)]) (rr_uri x) CapRead = Some CodeAuthNotAuthorized
   \<and> toolGate (granted_only [(''*'', LevelRead)]) (rr_uri x) CapRead = None"
proof -
  let ?x = "\<lparr>rr_spec = inventory, rr_uri = ''observium://inventory'', rr_capability = CapRead\<rparr>"
  have "TrimSpace ''inventory'' = ''inventory''" "TrimSpace ''Inventory'' = ''Inventory''" "TrimSpace ''Devices'' = ''Devices''"
    by (rule TrimSpace_visible; simp add: visible_def)+
  then have x: "?x \<in> set (rg_resources (register_all (descriptor_of ''observium'' RuntimeBuiltin)
      [DeclareResource inventory :: unit declared]))"
    by (simp add: register_all_def newRegistry_def Registry_Resource_def validate_resource_def inventory_def
        descriptor_of_def uriSchemePattern_def is_lower_def hasResource_def resource_uri_def trim_slash_def
        read_unless_set_def Let_def)
  have n: "list_all (\<lambda>g. namePattern (g_Plugin g) \<or> g_Plugin g = Wildcard) [\<lparr>g_Plugin = ''observium'', g_Level = LevelWrite\<rparr>]"
      "list_all (\<lambda>g. namePattern (g_Plugin g) \<or> g_Plugin g = Wildcard) [\<lparr>g_Plugin = ''*'', g_Level = LevelRead\<rparr>]"
    by (simp_all add: namePattern_def is_lower_def name_char_def is_digit_def Wildcard_def)
  show ?thesis
    using resources_need_the_wildcard [OF _ x, of "the (granted_only [(''observium'', LevelWrite)])"]
      resources_need_the_wildcard [OF _ x, of "the (granted_only [(''*'', LevelRead)])"] n x
    by (auto simp: granted_only_def wildcard_only_def Wildcard_def Includes_def)
qed

section \<open>What a server holds\<close>

lemma attached_names:
  assumes ok: "registry_ok reg" and att: "attachAll refuses ap reg = Inr ts" and b: "(n, b) \<in> set ts"
  shows "\<exists>x. n = qualify (ds_Name (rg_descriptor reg)) x"
  using att b ok
  by (auto simp: attachAll_def Let_def lifecycle_bindings_def registry_ok_def list_all_iff tool_ok_def mutation_ok_def
      split: if_splits)

lemma qualify_plain_inject:
  "qualify a x = qualify b y \<Longrightarrow> CHR ''_'' \<notin> set a \<Longrightarrow> CHR ''_'' \<notin> set b \<Longrightarrow> a = b"
  using splitToolName_qualify [of a x] splitToolName_qualify [of b y] by (simp add: takeWhile_plain)

text \<open>
  The tools of two instances whose names have no underscore never share a name, so an endpoint
  that serves both shows each under its own.
\<close>
theorem plain_instances_cannot_collide:
  assumes "attachAll refuses ap (register_all d1 xs) = Inr ts1" and "attachAll refuses ap (register_all d2 ys) = Inr ts2"
    and "CHR ''_'' \<notin> set (ds_Name d1)" and "CHR ''_'' \<notin> set (ds_Name d2)" and "ds_Name d1 \<noteq> ds_Name d2"
  shows "fst ` set ts1 \<inter> fst ` set ts2 = {}"
proof -
  have "\<exists>x. n = qualify (ds_Name d1) x" if "(n, b) \<in> set ts1" for n b
    using attached_names [OF register_all_ok assms(1) that] by simp
  moreover have "\<exists>x. n = qualify (ds_Name d2) x" if "(n, b) \<in> set ts2" for n b
    using attached_names [OF register_all_ok assms(2) that] by simp
  ultimately show ?thesis using assms(3-5) qualify_plain_inject by (fastforce simp: image_iff)
qed

definition read_tool :: "string \<Rightarrow> capability \<Rightarrow> 'a declared" where
  "read_tool name c = DeclareTool None None \<lparr>ts_Name = name, ts_Title = '''', ts_Description = ''d'',
     ts_Idempotent = True, ts_Capability = c, ts_RateLimit = F64 False 0 0, ts_InputSchema = ''''\<rparr>"

lemmas register_defs = register_all_def newRegistry_def read_tool_def Registry_Tool_def validate_tool_def
  checkToolName_def EffectiveRuntime_def negative_def toolNamePattern_def is_lower_def is_digit_def name_char_def
  checkToolVerb_def toolVerbs_def trim_underscore_def hasTool_def read_unless_set_def descriptor_of_def
  attachAll_def qualify_def Let_def

text \<open>A name with an underscore can be another's with a verb: the two tools are one to a client.\<close>

lemma underscored_instances_collide:
  "\<exists>ts1 ts2. attachAll (\<lambda>_. False) True (register_all (descriptor_of ''radio'' RuntimeBuiltin)
       [read_tool ''get_list_sites'' CapRead]) = Inr ts1
     \<and> attachAll (\<lambda>_. False) True (register_all (descriptor_of ''radio_get'' RuntimeBuiltin)
       [read_tool ''list_sites'' CapRead]) = Inr ts2
     \<and> namePattern ''radio'' \<and> namePattern ''radio_get''
     \<and> map fst ts1 = [''radio_get_list_sites''] \<and> map fst ts2 = [''radio_get_list_sites'']"
  by (simp add: register_defs namePattern_def)

theorem plain_instances_cannot_collide_witness:
  "\<exists>(ts1 :: (string \<times> unit binding) list) (ts2 :: (string \<times> unit binding) list).
     ts1 \<noteq> [] \<and> ts2 \<noteq> [] \<and> fst ` set ts1 \<inter> fst ` set ts2 = {}"
proof -
  let ?d1 = "descriptor_of ''radio'' RuntimeBuiltin" and ?d2 = "descriptor_of ''switch'' RuntimeBuiltin"
  obtain ts1 ts2 :: "(string \<times> unit binding) list" where
    t: "attachAll (\<lambda>_. False) True (register_all ?d1 [read_tool ''list_sites'' CapRead]) = Inr ts1"
      "attachAll (\<lambda>_. False) True (register_all ?d2 [read_tool ''list_sites'' CapRead]) = Inr ts2"
      "ts1 \<noteq> []" "ts2 \<noteq> []"
    by (simp add: register_defs)
  have "fst ` set ts1 \<inter> fst ` set ts2 = {}"
    by (rule plain_instances_cannot_collide [OF t(1,2)]) (simp_all add: descriptor_of_def)
  then show ?thesis using t(3,4) by blast
qed

section \<open>What a client is shown\<close>

definition declared_needs :: "'a registry \<Rightarrow> capabilities" where
  "declared_needs r = map (\<lambda>t. (rt_qualified t, rt_capability t)) (rg_tools r)
     @ map (\<lambda>m. (rm_qualified m, CapPropose)) (rg_mutations r)
     @ map (\<lambda>(n, c). (qualify (ds_Name (rg_descriptor r)) n, c)) approval_tools"

lemma Capabilities_declared: "Registry_Capabilities r = last_wins (declared_needs r)"
  by (simp add: Registry_Capabilities_def declared_needs_def)

lemma attached_needs:
  assumes "attachAll refuses ap reg = Inr ts" and "(n, b) \<in> set ts"
  shows "(n, binding_needs b) \<in> set (declared_needs reg)"
  using assms
  by (fastforce simp: attachAll_def Let_def lifecycle_bindings_def declared_needs_def split: if_splits)

lemma distinct_needs:
  "distinct (map fst es) \<Longrightarrow> (n, c) \<in> set es \<Longrightarrow> map_of (last_wins es) n = Some c"
  by (simp add: last_wins_distinct)

text \<open>
  C21. Where the declarations of a plugin, with the tools of the approval queue, give no name twice, a
  client of its endpoint is shown exactly the tools the gate would let it call.
\<close>
theorem shown_exactly_when_callable:
  assumes "manager_build env now d p required = Inr mt"
    and "distinct (map fst (declared_needs (mt_Registry mt)))" and "(n, b) \<in> set (sv_tools (mt_Server mt))"
  shows "n \<in> set (shown po (mt_Server mt)) \<longleftrightarrow> toolGate po n (binding_needs b) = None"
proof -
  have att: "attachAll (me_refuses env) (me_approvals env) (mt_Registry mt) = Inr (sv_tools (mt_Server mt))"
    and f: "sv_filter (mt_Server mt) = Some (last_wins (declared_needs (mt_Registry mt)))"
    using assms(1) by (auto simp: manager_build_def Let_def Capabilities_declared split: option.splits if_splits sum.splits)
  have "map_of (last_wins (declared_needs (mt_Registry mt))) n = Some (binding_needs b)"
    by (rule distinct_needs [OF assms(2) attached_needs [OF att assms(3)]])
  then show ?thesis using assms(3) by (force simp: shown_def f listed_tools_def visible_gate)
qed

text \<open>A plugin that declares these and implements nothing else.\<close>

definition plugin_of :: "descriptor \<Rightarrow> 'a declared list \<Rightarrow> ('a, 'u) plugin" where
  "plugin_of d xs = \<lparr>pg_Descriptor = d, pg_Declares = xs, pg_RegisterErr = None, pg_Start = None,
     pg_Shutdown = None, pg_Check = None, pg_Health = None\<rparr>"

definition quiet_env :: manager_env where
  "quiet_env = \<lparr>me_refuses = (\<lambda>_. False), me_approvals = True, me_purpose = (\<lambda>_. ''''), me_Explain = (\<lambda>_ e. e)\<rparr>"

lemmas build_defs = manager_build_def plugin_of_def quiet_env_def register_defs

theorem shown_exactly_when_callable_witness:
  "\<exists>mt :: (unit, unit) mounted. \<exists>b. manager_build quiet_env 0 (descriptor_of ''radio'' RuntimeBuiltin)
       (plugin_of (descriptor_of ''radio'' RuntimeBuiltin) [read_tool ''list_sites'' CapApprove]) False = Inr mt
     \<and> sv_tools (mt_Server mt) = [(''radio_list_sites'', b)]
     \<and> (''radio_list_sites'' \<in> set (shown (granted_only [(''radio'', LevelWrite)]) (mt_Server mt))
        \<longleftrightarrow> toolGate (granted_only [(''radio'', LevelWrite)]) ''radio_list_sites'' (binding_needs b) = None)"
proof -
  let ?d = "descriptor_of ''radio'' RuntimeBuiltin"
  have "TrimSpace '''' = ''''" by (simp add: TrimSpace_visible)
  then obtain mt :: "(unit, unit) mounted" and b where
    mt: "manager_build quiet_env 0 ?d (plugin_of ?d [read_tool ''list_sites'' CapApprove]) False = Inr mt"
      "sv_tools (mt_Server mt) = [(''radio_list_sites'', b)]"
      "distinct (map fst (declared_needs (mt_Registry mt)))"
    by (simp add: build_defs declared_needs_def approval_tools_def)
  have "(''radio_list_sites'', b) \<in> set (sv_tools (mt_Server mt))" by (simp add: mt(2))
  from shown_exactly_when_callable [OF mt(1,3) this] show ?thesis using mt(1,2) by blast
qed

text \<open>A remote server's tool that has the name of a tool of the queue is hidden from a caller who may call it.\<close>

lemma queue_name_hides_a_tool:
  "\<exists>mt :: (unit, unit) mounted. \<exists>b. manager_build quiet_env 0 (descriptor_of ''wiki'' RuntimeMCP)
       (plugin_of (descriptor_of ''wiki'' RuntimeMCP) [read_tool ''approve_operation'' CapRead]) False = Inr mt
     \<and> sv_tools (mt_Server mt) = [(''wiki_approve_operation'', b)]
     \<and> shown (granted_only [(''wiki'', LevelRead)]) (mt_Server mt) = []
     \<and> toolGate (granted_only [(''wiki'', LevelRead)]) ''wiki_approve_operation'' (binding_needs b) = None"
proof -
  have t: "TrimSpace '''' = ''''" by (simp add: TrimSpace_visible)
  have h: "\<not> Holds [] PermApprovalsDecide" by code_simp
  have s: "splitToolName ''wiki_approve_operation'' = (''wiki'', ''approve_operation'', True)"
    by (simp add: splitToolName_def)
  show ?thesis
    by (simp add: build_defs t remoteToolNamePattern_def maxQualifiedToolName_def shown_def listed_tools_def
        Capabilities_declared declared_needs_def approval_tools_def last_wins_def tool_visible_def toolGate_split s
        AuthorizeTool_def AuthorizeEndpoint_def Principal_Reaches_def Reaches_def granted_only_def Wildcard_def
        Includes_def Decision_Error_def Can_def h)
qed

end
