(* ===== verification/Manager_Facts.thy ===== *)
theory Manager_Facts
  imports Plugin_Host
begin

text \<open>
  Invariants of the plugin manager over every sequence of its operations, and what they give the
  endpoints: the cached servers are the ones that would be built now, and a caller is served nothing
  but the tools of plugins granted to it.
\<close>

section \<open>Runs\<close>

text \<open>
  Any of the manager's operations, in any order; the purposes an operator wrote may change between two
  of them, and a plugin's own calls may do anything to the plugins' state.
\<close>

inductive managed :: "manager_env \<Rightarrow> ('a, 'u) manager \<Rightarrow> bool" for env where
  empty: "managed env NewManager"
| registers: "managed env m \<Longrightarrow> managed env (snd (manager_Register (env\<lparr>me_purpose := pf\<rparr>) now p inst req m))"
| remounts: "managed env m \<Longrightarrow> Remount (env\<lparr>me_purpose := pf\<rparr>) now inst p req (m, u) = (r, m', u') \<Longrightarrow> managed env m'"
| unmounts: "managed env m \<Longrightarrow> Unmount inst (m, u) = (r, m', u') \<Longrightarrow> managed env m'"
| starts: "managed env m \<Longrightarrow> Start_all (env\<lparr>me_purpose := pf\<rparr>) now (m, u) = (r, m', u') \<Longrightarrow> managed env m'"
| checks: "managed env m \<Longrightarrow> CheckHealth (m, u) = (hs, m', u') \<Longrightarrow> managed env m'"
| health: "managed env m \<Longrightarrow> managed env (SetHealth name h m)"
| serves: "managed env m \<Longrightarrow> managed env (snd (serve_endpoint env po name m))"

section \<open>The invariant\<close>

definition mounted_ok :: "manager_env \<Rightarrow> string \<Rightarrow> ('a, 'u) mounted \<Rightarrow> bool" where
  "mounted_ok env n mt \<longleftrightarrow>
     namePattern n \<and> ds_Name (mt_Descriptor mt) = n \<and> rg_descriptor (mt_Registry mt) = mt_Descriptor mt
     \<and> registry_ok (mt_Registry mt) \<and> rg_errs (mt_Registry mt) = []
     \<and> attachAll (me_refuses env) (me_approvals env) (mt_Registry mt) = Inr (sv_tools (mt_Server mt))
     \<and> sv_filter (mt_Server mt) = Some (Registry_Capabilities (mt_Registry mt))"

definition mounts_ok :: "manager_env \<Rightarrow> ('a, 'u) manager \<Rightarrow> bool" where
  "mounts_ok env m \<longleftrightarrow>
     distinct (mg_order m) \<and> distinct (map fst (mg_mounted m)) \<and> set (mg_order m) = fst ` set (mg_mounted m)
     \<and> list_all (\<lambda>(n, mt). mounted_ok env n mt) (mg_mounted m)"

definition cache_ok :: "manager_env \<Rightarrow> ('a, 'u) manager \<Rightarrow> bool" where
  "cache_ok env m \<longleftrightarrow>
     list_all (\<lambda>(k, srv). \<exists>ns. sorted ns \<and> list_all namePattern ns \<and> k = aggregateKey ns
       \<and> built_aggregate env m ns = Inr srv) (mg_aggregates m)"

lemma Lookup_ok: "mounts_ok env m \<Longrightarrow> Lookup_plugin m n = Some mt \<Longrightarrow> mounted_ok env n mt"
  by (auto simp: mounts_ok_def Lookup_plugin_def list_all_iff dest!: map_of_SomeD)

lemma put_ok:
  assumes "mounts_ok env m" and "mounted_ok env n mt"
  shows "mounts_ok env (m\<lparr>mg_mounted := put n mt (mg_mounted m),
    mg_order := (if Lookup_plugin m n = None then mg_order m @ [n] else mg_order m), mg_aggregates := c\<rparr>)"
  using assms set_put_subset [of n mt "mg_mounted m"] map_of_eq_None_iff [of "mg_mounted m" n]
  by (auto simp: mounts_ok_def Lookup_plugin_def list_all_iff image_iff)

lemma remove_ok:
  assumes "mounts_ok env m"
  shows "mounts_ok env (m\<lparr>mg_mounted := filter (\<lambda>(n, x). n \<noteq> i) (mg_mounted m), mg_order := remove1 i (mg_order m),
    mg_aggregates := c\<rparr>)"
  using assms distinct_map_filter [of fst "mg_mounted m"]
  by (force simp: mounts_ok_def list_all_iff)

lemma SetHealth_ok: "mounts_ok env m \<Longrightarrow> mounts_ok env (SetHealth n h m)"
  by (force simp: mounts_ok_def SetHealth_def list_all_iff mounted_ok_def comp_def case_prod_unfold)

lemma build_ok:
  "manager_build (env\<lparr>me_purpose := pf\<rparr>) now d p req = Inr mt \<Longrightarrow> namePattern (ds_Name d) \<Longrightarrow> mounted_ok env (ds_Name d) mt"
  by (auto simp: manager_build_def mounted_ok_def Let_def register_all_ok
      split: option.splits if_splits sum.splits)

lemma Validate_name: "Validate_descriptor d = None \<Longrightarrow> namePattern (ds_Name d)"
  by (simp add: Validate_descriptor_def split: if_splits)

text \<open>A registration or a remount changes nothing, or mounts what was built.\<close>

abbreviation mounting :: "string \<Rightarrow> ('a, 'u) mounted \<Rightarrow> ('a, 'u) manager \<Rightarrow> ('a, 'u) manager" where
  "mounting n mt m \<equiv> m\<lparr>mg_mounted := put n mt (mg_mounted m),
     mg_order := (if Lookup_plugin m n = None then mg_order m @ [n] else mg_order m), mg_aggregates := []\<rparr>"

lemma Register_cases:
  "snd (manager_Register env now p inst req m) = m
   \<or> (\<exists>d mt. namePattern (ds_Name d) \<and> manager_build env now d p req = Inr mt
        \<and> snd (manager_Register env now p inst req m) = mounting (ds_Name d) mt m)"
proof -
  define d where "d = (if inst \<noteq> '''' then (pg_Descriptor p)\<lparr>ds_Name := inst\<rparr> else pg_Descriptor p)"
  show ?thesis
    unfolding manager_Register_def Let_def d_def [symmetric]
    by (auto dest: Validate_name split: option.split sum.split)
qed

lemma Remount_cases:
  assumes "Remount env now inst p req (m, u) = (r, m', u')"
  shows "m' = m \<or> (\<exists>mt d. namePattern (ds_Name d) \<and> ds_Name d = inst \<and> manager_build env now d p req = Inr mt
    \<and> m' = mounting inst mt m)"
proof -
  define d where "d = (pg_Descriptor p)\<lparr>ds_Name := inst\<rparr>"
  have "ds_Name d = inst" by (simp add: d_def)
  then show ?thesis
    using assms unfolding Remount_def Let_def case_prod_conv d_def [symmetric]
    by (auto dest!: Validate_name split: option.splits sum.splits prod.splits)
qed

lemma Register_ok:
  assumes "mounts_ok env m"
  shows "mounts_ok env (snd (manager_Register (env\<lparr>me_purpose := pf\<rparr>) now p inst req m))"
  using Register_cases [of "env\<lparr>me_purpose := pf\<rparr>" now p inst req m] put_ok [OF assms build_ok] assms by metis

lemma Remount_ok:
  assumes "mounts_ok env m" and "Remount (env\<lparr>me_purpose := pf\<rparr>) now inst p req (m, u) = (r, m', u')"
  shows "mounts_ok env m'"
  using Remount_cases [OF assms(2)] put_ok [OF assms(1) build_ok] assms(1) by metis

lemma Unmount_ok: "mounts_ok env m \<Longrightarrow> Unmount inst (m, u) = (r, m', u') \<Longrightarrow> mounts_ok env m'"
  by (auto simp: Unmount_def Let_def remove_ok split: option.splits)

section \<open>The cache\<close>

text \<open>A server depends only on what the mounted plugins registered.\<close>

lemma build_tools_cong:
  "(\<And>n. map_option mt_Registry (Lookup_plugin m n) = map_option mt_Registry (Lookup_plugin m' n))
    \<Longrightarrow> build_tools env m ns = build_tools env m' ns"
proof (induction ns)
  case (Cons n ns)
  then show ?case
    using Cons.prems [of n]
    by (cases "Lookup_plugin m n"; cases "Lookup_plugin m' n") (simp_all split: sum.split)
qed simp

lemma built_aggregate_cong:
  assumes "\<And>n. map_option mt_Registry (Lookup_plugin m n) = map_option mt_Registry (Lookup_plugin m' n)"
  shows "built_aggregate env m ns = built_aggregate env m' ns"
proof -
  have "(case Lookup_plugin m n of None \<Rightarrow> [] | Some mp \<Rightarrow> Registry_Capabilities (mt_Registry mp))
      = (case Lookup_plugin m' n of None \<Rightarrow> [] | Some mp \<Rightarrow> Registry_Capabilities (mt_Registry mp))" for n
    using assms [of n] by (cases "Lookup_plugin m n"; cases "Lookup_plugin m' n") simp_all
  then have "manager_Capabilities m ns = manager_Capabilities m' ns" by (simp add: manager_Capabilities_def)
  then show ?thesis
    using build_tools_cong [OF assms, of env ns] by (simp add: built_aggregate_def BuildServer_def split: sum.split)
qed

lemma Lookup_SetHealth:
  "map_option mt_Registry (Lookup_plugin (SetHealth i h m) n) = map_option mt_Registry (Lookup_plugin m n)"
proof -
  have "map_option mt_Registry (map_of (map (\<lambda>(k, x). (k, if k = i then x\<lparr>mt_health := h\<rparr> else x)) xs) n)
      = map_option mt_Registry (map_of xs n)" for xs :: "(string \<times> ('a, 'b) mounted) list"
    by (induction xs) auto
  then show ?thesis by (simp add: Lookup_plugin_def SetHealth_def)
qed

lemma cache_SetHealth: "cache_ok env m \<Longrightarrow> cache_ok env (SetHealth i h m)"
proof -
  have "built_aggregate env (SetHealth i h m) ns = built_aggregate env m ns" for ns
    by (rule built_aggregate_cong) (rule Lookup_SetHealth)
  moreover have "mg_aggregates (SetHealth i h m) = mg_aggregates m" by (simp add: SetHealth_def)
  ultimately show "cache_ok env m \<Longrightarrow> cache_ok env (SetHealth i h m)" by (simp add: cache_ok_def)
qed

lemma sorted_sort: "sorted (sort_by (\<le>) (xs :: string list))"
  by (rule sorted_sort_by) (auto simp: total_on_list_def)

lemma sort_sorted: "sorted (xs :: string list) \<Longrightarrow> sort_by (\<le>) xs = xs"
  by (rule sort_by_unique) (auto simp: total_on_list_def)

lemma Names_ok: "mounts_ok env m \<Longrightarrow> list_all namePattern (manager_Names m)"
  by (fastforce simp: mounts_ok_def manager_Names_def list_all_iff mounted_ok_def)

lemma visible_sorted: "sorted (VisiblePlugins po (manager_Names m))"
  using sorted_filter [of id "sort_by (\<le>) (mg_order m)" "\<lambda>n. Principal_Reaches po n LevelRead"]
  by (simp add: VisiblePlugins_filter manager_Names_def sorted_sort)

lemma visible_names:
  "mounts_ok env m \<Longrightarrow> list_all namePattern (VisiblePlugins po (manager_Names m))"
  using Names_ok by (auto simp: VisiblePlugins_filter list_all_iff)

text \<open>The key names the set: names without a zero byte can be read back from it.\<close>

lemma join_nul_inject:
  "join_nul xs = join_nul ys \<Longrightarrow> list_all (\<lambda>x. CHR 0x00 \<notin> set x \<and> x \<noteq> '''') xs
    \<Longrightarrow> list_all (\<lambda>x. CHR 0x00 \<notin> set x \<and> x \<noteq> '''') ys \<Longrightarrow> xs = ys"
proof (induction xs arbitrary: ys rule: join_nul.induct)
  case 1
  then show ?case by (cases ys rule: join_nul.cases) auto
next
  case (2 x)
  then show ?case
  proof (cases ys rule: join_nul.cases)
    case (3 y z zs)
    then have "CHR 0x00 \<in> set x" using 2 by (metis in_set_conv_decomp join_nul.simps(2,3))
    then show ?thesis using 2 by simp
  qed auto
next
  case (3 x x' xs)
  then show ?case
  proof (cases ys rule: join_nul.cases)
    case (2 y)
    then have "CHR 0x00 \<in> set y" using 3 by (metis in_set_conv_decomp join_nul.simps(2,3))
    then show ?thesis using 2 3 by simp
  next
    case eq: (3 y y' ys')
    have c: "Cut (join_nul (x # x' # xs)) (CHR 0x00) = (x, join_nul (x' # xs), True)"
      "Cut (join_nul ys) (CHR 0x00) = (y, join_nul (y' # ys'), True)"
      using "3.prems"(2,3) unfolding eq join_nul.simps by (intro Cut_found; force)+
    then have "x = y" "join_nul (x' # xs) = join_nul (y' # ys')" using "3.prems"(1) by simp_all
    then show ?thesis using "3.IH" [of "y' # ys'"] "3.prems"(2,3) eq by simp
  qed auto
qed

lemma namePattern_nul: "list_all namePattern ns \<Longrightarrow> list_all (\<lambda>x. CHR 0x00 \<notin> set x \<and> x \<noteq> '''') ns"
proof (induction ns)
  case (Cons n ns)
  have "\<not> is_lower (CHR 0x00)" "\<not> is_digit (CHR 0x00)" by (simp_all add: is_lower_def is_digit_def)
  then show ?case using Cons by (auto simp: namePattern_def name_char_def list_all_iff split: list.splits)
qed simp

lemma aggregateKey_inject:
  assumes "aggregateKey xs = aggregateKey ys" "sorted xs" "sorted ys" "list_all namePattern xs" "list_all namePattern ys"
  shows "xs = ys"
  using assms join_nul_inject [OF _ namePattern_nul namePattern_nul] by (simp add: aggregateKey_def sort_sorted)

section \<open>Every operation keeps both\<close>

definition manager_ok :: "manager_env \<Rightarrow> ('a, 'u) manager \<Rightarrow> bool" where
  "manager_ok env m \<longleftrightarrow> mounts_ok env m \<and> cache_ok env m"

lemma no_cache [simp]: "mg_aggregates m = [] \<Longrightarrow> cache_ok env m"
  by (simp add: cache_ok_def)

lemma SetHealth_keeps: "manager_ok env m \<Longrightarrow> manager_ok env (SetHealth n h m)"
  by (simp add: manager_ok_def SetHealth_ok cache_SetHealth)

lemma start_each_keeps:
  "manager_ok env m \<Longrightarrow> start_each env' now ns (m, u) = (r, m', u') \<Longrightarrow> manager_ok env m'"
proof (induction ns arbitrary: m u)
  case (Cons n ns)
  then show ?case
    by (auto simp: Let_def split: option.splits prod.splits if_splits) (blast intro: SetHealth_keeps)+
qed simp

lemma check_each_keeps: "manager_ok env m \<Longrightarrow> check_each ns (m, u) = (m', u') \<Longrightarrow> manager_ok env m'"
proof (induction ns arbitrary: m u)
  case (Cons n ns)
  then show ?case
    by (auto simp: Let_def split: option.splits prod.splits) (blast intro: SetHealth_keeps)
qed simp

lemma list_all_put: "list_all Q es \<Longrightarrow> Q (k, v) \<Longrightarrow> list_all Q (put k v es)"
  using set_put_subset [of k v es] by (auto simp: list_all_iff)

lemma Aggregate_keeps:
  assumes ok: "manager_ok env m" and ns: "sorted ns" "list_all namePattern ns"
  shows "manager_ok env (snd (AggregateServer env ns m))"
proof -
  have add: "manager_ok env (m\<lparr>mg_aggregates := put (aggregateKey ns) srv (mg_aggregates m)\<rparr>)"
    if b: "built_aggregate env m ns = Inr srv" for srv
  proof -
    have "mounts_ok env (m\<lparr>mg_aggregates := c\<rparr>)" for c
      using ok by (simp add: manager_ok_def mounts_ok_def)
    moreover have "built_aggregate env (m\<lparr>mg_aggregates := c\<rparr>) xs = built_aggregate env m xs" for c xs
      by (rule built_aggregate_cong) (simp add: Lookup_plugin_def)
    ultimately show ?thesis
      using ok ns b unfolding manager_ok_def cache_ok_def by (auto intro!: list_all_put)
  qed
  show ?thesis using ok add by (auto simp: AggregateServer_def split: option.split sum.split)
qed

lemma Serve_keeps: "manager_ok env m \<Longrightarrow> manager_ok env (snd (serve_endpoint env po name m))"
  using Aggregate_keeps [of env m "VisiblePlugins po (manager_Names m)"] visible_sorted [of po m]
  by (auto simp: serve_endpoint_def Let_def manager_ok_def visible_names split: option.split sum.split prod.split)

lemma managed_ok: "managed env m \<Longrightarrow> manager_ok env m"
proof (induction rule: managed.induct)
  case empty
  then show ?case by (simp add: manager_ok_def mounts_ok_def NewManager_def)
next
  case (registers m pf now p inst req)
  then show ?case
    using Register_ok [of env m pf now p inst req] Register_cases [of "env\<lparr>me_purpose := pf\<rparr>" now p inst req m]
    by (auto simp: manager_ok_def)
next
  case (remounts m pf now inst p req u r m' u')
  then show ?case
    using Remount_ok [of env m pf now inst p req u r m' u'] Remount_cases [of "env\<lparr>me_purpose := pf\<rparr>" now inst p req m u r m' u']
    by (auto simp: manager_ok_def)
next
  case (unmounts m inst u r m' u')
  then show ?case
    using Unmount_ok [of env m inst u r m' u'] by (auto simp: manager_ok_def Unmount_def Let_def split: option.splits)
next
  case (starts m pf now u r m' u')
  then show ?case using start_each_keeps by (auto simp: Start_all_def)
next
  case (checks m u hs m' u')
  then show ?case using check_each_keeps by (auto simp: CheckHealth_def Let_def split: prod.splits)
next
  case (health m name h)
  then show ?case by (simp add: SetHealth_keeps)
next
  case (serves m po name)
  then show ?case by (simp add: Serve_keeps)
qed

section \<open>What the endpoints serve\<close>

lemma aggregate_is_current_facts:
  assumes "managed env m"
  shows "fst (AggregateServer env (VisiblePlugins po (manager_Names m)) m)
    = built_aggregate env m (VisiblePlugins po (manager_Names m))"
proof -
  let ?ns = "VisiblePlugins po (manager_Names m)"
  have ok: "mounts_ok env m" "cache_ok env m" using managed_ok [OF assms] by (auto simp: manager_ok_def)
  have "built_aggregate env m ?ns = Inr srv" if hit: "map_of (mg_aggregates m) (aggregateKey ?ns) = Some srv" for srv
  proof -
    obtain ns where ns: "sorted ns" "list_all namePattern ns" "aggregateKey ?ns = aggregateKey ns"
        "built_aggregate env m ns = Inr srv"
      using ok(2) map_of_SomeD [OF hit] by (fastforce simp: cache_ok_def list_all_iff)
    then have "?ns = ns" by (intro aggregateKey_inject visible_sorted visible_names [OF ok(1)])
    then show ?thesis using ns(4) by simp
  qed
  then show ?thesis
    by (auto simp: AggregateServer_def built_aggregate_def [of env m "[]"] BuildServer_def split: option.split sum.split)
qed

text \<open>
  C14. The cache of combined servers is never stale. After any run of the manager, in whatever order
  plugins were mounted, rebuilt, removed, started and served, the server a caller's grants select is the
  one that would be built from the plugins mounted now.
\<close>
theorem aggregate_is_current:
  assumes "managed env m"
  shows "fst (AggregateServer env (VisiblePlugins po (manager_Names m)) m)
    = built_aggregate env m (VisiblePlugins po (manager_Names m))"
  by (rule aggregate_is_current_facts [OF assms])

lemma built_tools:
  "build_tools env m ns = Inr ts \<Longrightarrow> b \<in> set ts \<Longrightarrow> \<exists>n mp xs. n \<in> set ns \<and> Lookup_plugin m n = Some mp
     \<and> attachAll (me_refuses env) (me_approvals env) (mt_Registry mp) = Inr xs \<and> b \<in> set xs"
proof (induction ns arbitrary: ts)
  case (Cons n ns)
  show ?case
  proof (cases "Lookup_plugin m n")
    case None
    then show ?thesis using Cons by auto
  next
    case (Some mp)
    with Cons.prems obtain xs rest where
      x: "attachAll (me_refuses env) (me_approvals env) (mt_Registry mp) = Inr xs" "build_tools env m ns = Inr rest"
        "ts = xs @ rest"
      by (auto split: sum.splits)
    then show ?thesis using Cons.IH [OF x(2)] Cons.prems(2) Some by auto
  qed
qed simp

text \<open>
  C13. Whatever endpoint a caller asks, each tool of the server it is given was registered by a mounted
  plugin that the caller's grants reach, and at a plugin's own address by that plugin.
\<close>
theorem only_granted_tools_are_served:
  assumes run: "managed env m" and srv: "serve_endpoint env (Some p) name m = (Serves srv, m')"
    and b: "b \<in> set (sv_tools srv)"
  shows "\<exists>plugin mt xs. Lookup_plugin m plugin = Some mt \<and> Principal_Reaches (Some p) plugin LevelRead
    \<and> attachAll (me_refuses env) (me_approvals env) (mt_Registry mt) = Inr xs \<and> b \<in> set xs
    \<and> (if name = '''' then True else plugin = name)"
proof (cases "name = ''''")
  case True
  let ?ns = "VisiblePlugins (Some p) (manager_Names m)"
  have "fst (AggregateServer env ?ns m) = Inr srv"
    using srv True by (auto simp: serve_endpoint_def Let_def split: sum.splits prod.splits if_splits)
  then have "built_aggregate env m ?ns = Inr srv" using aggregate_is_current_facts [OF run] by simp
  then have "build_tools env m ?ns = Inr (sv_tools srv)"
    by (auto simp: built_aggregate_def BuildServer_def split: sum.splits if_splits)
  from built_tools [OF this b] show ?thesis using True by (auto simp: VisiblePlugins_filter)
next
  case False
  then obtain mt where mt: "Lookup_plugin m name = Some mt" "srv = mt_Server mt"
      "Allowed (AuthorizeEndpoint (Some p) name)"
    using srv by (auto simp: serve_endpoint_def split: option.splits if_splits)
  have "mounted_ok env name mt" using Lookup_ok [OF _ mt(1)] managed_ok [OF run] by (simp add: manager_ok_def)
  then show ?thesis
    using mt b False by (auto simp: mounted_ok_def AuthorizeEndpoint_def split: if_splits)
qed

section \<open>A run\<close>

definition radio :: descriptor where "radio = descriptor_of ''radio'' RuntimeBuiltin"

definition radio_plugin :: "(unit, unit) plugin" where
  "radio_plugin = plugin_of radio [read_tool ''list_sites'' CapRead]"

text \<open>One plugin mounted, and a caller granted it served from the combined endpoint.\<close>

definition one_mounted :: "(unit, unit) manager" where
  "one_mounted = snd (manager_Register quiet_env 0 radio_plugin '''' False NewManager)"

definition one_served :: "(unit, unit) manager" where
  "one_served = snd (serve_endpoint quiet_env (granted_only [(''radio'', LevelRead)]) '''' one_mounted)"

lemma quiet_purpose: "quiet_env\<lparr>me_purpose := (\<lambda>_. '''')\<rparr> = quiet_env"
  by (simp add: quiet_env_def)

lemma one_mounted_managed: "managed quiet_env one_mounted"
  using registers [OF empty, of quiet_env "\<lambda>_. ''''" 0 radio_plugin "''''" False]
  by (simp add: one_mounted_def quiet_purpose)

lemma one_served_managed: "managed quiet_env one_served"
  unfolding one_served_def by (rule serves [OF one_mounted_managed])

lemma trim_nothing: "TrimSpace '''' = ''''"
  by (simp add: TrimSpace_visible)

lemma radio_mounted:
  "\<exists>mt t. one_mounted = \<lparr>mg_mounted = [(''radio'', mt)], mg_order = [''radio''], mg_aggregates = []\<rparr>
     \<and> mt_Server mt = \<lparr>sv_tools = [(''radio_list_sites'', ToolBinding t)],
         sv_filter = Some (Registry_Capabilities (mt_Registry mt))\<rparr>
     \<and> attachAll (\<lambda>_. False) True (mt_Registry mt) = Inr [(''radio_list_sites'', ToolBinding t)]"
  by (simp add: one_mounted_def radio_plugin_def radio_def manager_Register_def Lookup_plugin_def NewManager_def
      Validate_descriptor_def namePattern_def build_defs trim_nothing)

lemma radio_visible:
  "VisiblePlugins (granted_only [(''radio'', LevelRead)]) [''radio''] = [''radio'']"
  by (simp add: VisiblePlugins_filter granted_only_def Principal_Reaches_def Reaches_def Wildcard_def Includes_def)

lemma radio_served:
  "\<exists>srv t. serve_endpoint quiet_env (granted_only [(''radio'', LevelRead)]) '''' one_mounted = (Serves srv, one_served)
     \<and> sv_tools srv = [(''radio_list_sites'', ToolBinding t)] \<and> mg_aggregates one_served = [(''radio'', srv)]
     \<and> manager_Names one_served = [''radio'']"
proof -
  obtain mt t where m: "one_mounted = \<lparr>mg_mounted = [(''radio'', mt)], mg_order = [''radio''], mg_aggregates = []\<rparr>"
      "attachAll (\<lambda>_. False) True (mt_Registry mt) = Inr [(''radio_list_sites'', ToolBinding t)]"
    using radio_mounted by blast
  show ?thesis
    using m(2) radio_visible
    by (simp add: one_served_def serve_endpoint_def m(1) manager_Names_def AggregateServer_def built_aggregate_def
        BuildServer_def Lookup_plugin_def granted_only_def Let_def) (simp add: quiet_env_def aggregateKey_def)
qed

theorem aggregate_is_current_witness:
  "\<exists>srv. mg_aggregates one_served = [(''radio'', srv)]
     \<and> fst (AggregateServer quiet_env (VisiblePlugins (granted_only [(''radio'', LevelRead)]) (manager_Names one_served)) one_served)
       = built_aggregate quiet_env one_served
           (VisiblePlugins (granted_only [(''radio'', LevelRead)]) (manager_Names one_served))"
  using radio_served aggregate_is_current [OF one_served_managed] by blast

theorem only_granted_tools_are_served_witness:
  "\<exists>srv t plugin mt. serve_endpoint quiet_env (granted_only [(''radio'', LevelRead)]) '''' one_mounted = (Serves srv, one_served)
     \<and> sv_tools srv = [(''radio_list_sites'', ToolBinding t)] \<and> Lookup_plugin one_mounted plugin = Some mt
     \<and> Principal_Reaches (granted_only [(''radio'', LevelRead)]) plugin LevelRead"
proof -
  obtain srv t where s: "serve_endpoint quiet_env (granted_only [(''radio'', LevelRead)]) '''' one_mounted = (Serves srv, one_served)"
      "sv_tools srv = [(''radio_list_sites'', ToolBinding t)]"
    using radio_served by blast
  have b: "(''radio_list_sites'', ToolBinding t) \<in> set (sv_tools srv)" by (simp add: s(2))
  show ?thesis
    using only_granted_tools_are_served [OF one_mounted_managed s(1) [unfolded granted_only_def] b] s
    unfolding granted_only_def by blast
qed

end
