(* ===== verification/Rate_Limits.thy ===== *)
theory Rate_Limits
  imports Float64
begin

text \<open>
  Rate limits of tools and proposals (\<open>internal/plugins/ratelimit.go\<close>). The token bucket is
  \<open>golang.org/x/time/rate\<close>, so its operations are an argument: a fresh limiter of a rate, \<open>ReserveN\<close> of
  one token (whether it was given, and the delay until it is due), \<open>CancelAt\<close>, and whether
  \<open>TokensAt\<close> has reached the burst. A refusal is a constructor. A mutation's limiter points at the
  limiters of its callers: they are objects in a heap, and a call of its \<open>allow\<close> takes three steps, as
  the code takes three locks (the map's for the look-up, the limiter's for \<open>ReserveN\<close> and again for
  \<open>CancelAt\<close>). \<open>mutation_allow\<close> is a call whose steps nothing comes between; \<open>limiter_run\<close> runs the
  steps of any number of calls in any order.
\<close>

record 'l bucket =
  bk_new :: "f64 \<Rightarrow> 'l"
  bk_reserve :: "time \<Rightarrow> 'l \<Rightarrow> (bool \<times> duration) \<times> 'l"
  bk_cancel :: "time \<Rightarrow> 'l \<Rightarrow> 'l"
  bk_full :: "time \<Rightarrow> 'l \<Rightarrow> bool"

datatype limited = CannotNow | NoTurn duration

definition take_turn :: "'l bucket \<Rightarrow> time \<Rightarrow> 'l \<Rightarrow> limited option \<times> 'l" where
  "take_turn bk now l =
    (case bk_reserve bk now l of ((ok, delay), l1) \<Rightarrow>
       if \<not> ok then (Some CannotNow, l1)
       else if delay > 0 then (Some (NoTurn delay), bk_cancel bk now l1)
       else (None, l1))"

definition not_positive :: "f64 \<Rightarrow> bool" where
  "not_positive x \<longleftrightarrow> f_neg x \<or> f_mant x = 0"

text \<open>A tool's limiter; \<open>None\<close> is the unbounded one.\<close>

definition newToolLimiter :: "'l bucket \<Rightarrow> f64 \<Rightarrow> 'l option" where
  "newToolLimiter bk perSecond = (if not_positive perSecond then None else Some (bk_new bk perSecond))"

definition tool_allow :: "'l bucket \<Rightarrow> time \<Rightarrow> 'l option \<Rightarrow> limited option \<times> 'l option" where
  "tool_allow bk now t =
    (case t of None \<Rightarrow> (None, None)
     | Some l \<Rightarrow> (case take_turn bk now l of (r, l1) \<Rightarrow> (r, Some l1)))"


definition maxTrackedProposers :: nat where "maxTrackedProposers = 1024"

text \<open>
  A mutation's limiter: its rate, where the budget of each caller seen is, and the limiters, the address
  of one being its position.
\<close>

record 'l mutation_limiter =
  ml_perSecond :: f64
  ml_byCaller :: "(string \<times> nat) list"
  ml_heap :: "'l list"


definition evictIdle :: "'l bucket \<Rightarrow> time \<Rightarrow> 'l list \<Rightarrow> (string \<times> nat) list \<Rightarrow> (string \<times> nat) list" where
  "evictIdle bk now h es = filter (\<lambda>(c, a). \<not> bk_full bk now (h ! a)) es"

text \<open>The step under the map's lock: the address of the caller's limiter, made if it has none.\<close>

definition find_limiter :: "'l bucket \<Rightarrow> time \<Rightarrow> string \<Rightarrow> 'l mutation_limiter \<Rightarrow> nat \<times> 'l mutation_limiter" where
  "find_limiter bk now caller m =
    (case map_of (ml_byCaller m) caller of
       Some a \<Rightarrow> (a, m)
     | None \<Rightarrow>
         (let es = (if length (ml_byCaller m) \<ge> maxTrackedProposers
                    then evictIdle bk now (ml_heap m) (ml_byCaller m) else ml_byCaller m);
              a = length (ml_heap m)
          in (a, m\<lparr>ml_byCaller := put caller a es, ml_heap := ml_heap m @ [bk_new bk (ml_perSecond m)]\<rparr>)))"

definition write_limiter :: "nat \<Rightarrow> 'l \<Rightarrow> 'l mutation_limiter \<Rightarrow> 'l mutation_limiter" where
  "write_limiter a l m = m\<lparr>ml_heap := (ml_heap m)[a := l]\<rparr>"

definition mutation_allow :: "'l bucket \<Rightarrow> string \<Rightarrow> time \<Rightarrow> 'l mutation_limiter
    \<Rightarrow> limited option \<times> 'l mutation_limiter" where
  "mutation_allow bk caller now m =
    (case find_limiter bk now caller m of (a, m1) \<Rightarrow>
       (case take_turn bk now (ml_heap m1 ! a) of (r, l1) \<Rightarrow> (r, write_limiter a l1 m1)))"

definition tracked :: "'l mutation_limiter \<Rightarrow> nat" where
  "tracked m = length (ml_byCaller m)"

section \<open>Calls that overlap\<close>

text \<open>
  The steps of calls known by a number: \<open>Looks\<close> finds the caller's limiter, \<open>Reserves\<close> asks it and
  decides the answer, \<open>Cancels\<close> hands the turn back after a delay was answered.
\<close>

datatype allow_step = Looks nat string time | Reserves nat | Cancels nat

text \<open>A call under way: its caller, its instant, whether it has still to hand its turn back, and a place.\<close>

record 'p flight =
  fl_caller :: string
  fl_now :: time
  fl_refused :: bool
  fl_place :: 'p

definition no_longer :: "nat \<Rightarrow> (nat \<times> 'p flight) list \<Rightarrow> (nat \<times> 'p flight) list" where
  "no_longer i w = filter (\<lambda>(j, f). j \<noteq> i) w"

text \<open>The answer, and whether the turn is handed back.\<close>

definition turn_answer :: "bool \<times> duration \<Rightarrow> limited option \<times> bool" where
  "turn_answer r = (case r of (ok, delay) \<Rightarrow>
     if \<not> ok then (Some CannotNow, False) else if delay > 0 then (Some (NoTurn delay), True) else (None, False))"

fun limiter_step :: "'l bucket \<Rightarrow> allow_step \<Rightarrow> 'l mutation_limiter \<times> (nat \<times> nat flight) list
    \<Rightarrow> (string \<times> limited option) list \<times> 'l mutation_limiter \<times> (nat \<times> nat flight) list" where
  "limiter_step bk (Looks i c now) (m, w) =
    (case map_of w i of Some f \<Rightarrow> ([], m, w)
     | None \<Rightarrow> (case find_limiter bk now c m of (a, m1) \<Rightarrow>
         ([], m1, (i, \<lparr>fl_caller = c, fl_now = now, fl_refused = False, fl_place = a\<rparr>) # w)))"
| "limiter_step bk (Reserves i) (m, w) =
    (case map_of w i of None \<Rightarrow> ([], m, w)
     | Some f \<Rightarrow> if fl_refused f then ([], m, w) else
         (case bk_reserve bk (fl_now f) (ml_heap m ! fl_place f) of (r, l1) \<Rightarrow>
            ([(fl_caller f, fst (turn_answer r))], write_limiter (fl_place f) l1 m,
             if snd (turn_answer r) then (i, f\<lparr>fl_refused := True\<rparr>) # no_longer i w else no_longer i w)))"
| "limiter_step bk (Cancels i) (m, w) =
    (case map_of w i of None \<Rightarrow> ([], m, w)
     | Some f \<Rightarrow> if \<not> fl_refused f then ([], m, w) else
         ([], write_limiter (fl_place f) (bk_cancel bk (fl_now f) (ml_heap m ! fl_place f)) m, no_longer i w))"

fun limiter_run :: "'l bucket \<Rightarrow> allow_step list \<Rightarrow> 'l mutation_limiter \<times> (nat \<times> nat flight) list
    \<Rightarrow> (string \<times> limited option) list" where
  "limiter_run bk [] s = []"
| "limiter_run bk (x # xs) s = (case limiter_step bk x s of (out, s1) \<Rightarrow> out @ limiter_run bk xs s1)"

text \<open>A call whose steps nothing comes between is \<open>mutation_allow\<close>.\<close>

lemma allow_is_its_steps:
  "limiter_run bk [Looks i c now, Reserves i, Cancels i] (m, []) = [(c, fst (mutation_allow bk c now m))]"
  by (auto simp: mutation_allow_def take_turn_def turn_answer_def no_longer_def write_limiter_def split: prod.splits)

section \<open>Eviction forgives nobody\<close>

text \<open>
  The specification: every caller has a budget of its own for ever, whatever the others do, fresh when
  it first calls.
\<close>

fun own_step :: "'l bucket \<Rightarrow> allow_step \<Rightarrow> (string \<Rightarrow> 'l) \<times> (nat \<times> unit flight) list
    \<Rightarrow> (string \<times> limited option) list \<times> (string \<Rightarrow> 'l) \<times> (nat \<times> unit flight) list" where
  "own_step bk (Looks i c now) (b, w) =
    (case map_of w i of Some f \<Rightarrow> ([], b, w)
     | None \<Rightarrow> ([], b, (i, \<lparr>fl_caller = c, fl_now = now, fl_refused = False, fl_place = ()\<rparr>) # w))"
| "own_step bk (Reserves i) (b, w) =
    (case map_of w i of None \<Rightarrow> ([], b, w)
     | Some f \<Rightarrow> if fl_refused f then ([], b, w) else
         (case bk_reserve bk (fl_now f) (b (fl_caller f)) of (r, l1) \<Rightarrow>
            ([(fl_caller f, fst (turn_answer r))], b(fl_caller f := l1),
             if snd (turn_answer r) then (i, f\<lparr>fl_refused := True\<rparr>) # no_longer i w else no_longer i w)))"
| "own_step bk (Cancels i) (b, w) =
    (case map_of w i of None \<Rightarrow> ([], b, w)
     | Some f \<Rightarrow> if \<not> fl_refused f then ([], b, w) else
         ([], b(fl_caller f := bk_cancel bk (fl_now f) (b (fl_caller f))), no_longer i w))"

fun own_run :: "'l bucket \<Rightarrow> allow_step list \<Rightarrow> (string \<Rightarrow> 'l) \<times> (nat \<times> unit flight) list
    \<Rightarrow> (string \<times> limited option) list" where
  "own_run bk [] s = []"
| "own_run bk (x # xs) s = (case own_step bk x s of (out, s1) \<Rightarrow> out @ own_run bk xs s1)"

text \<open>What eviction relies on: a limiter back at its burst acts as a fresh one, then and later.\<close>

definition acts_as :: "'l bucket \<Rightarrow> time \<Rightarrow> 'l \<Rightarrow> 'l \<Rightarrow> bool" where
  "acts_as bk t l l' \<longleftrightarrow> (\<forall>later \<ge> t. bk_reserve bk later l = bk_reserve bk later l')"







definition addresses_ok :: "'l mutation_limiter \<Rightarrow> bool" where
  "addresses_ok m \<longleftrightarrow> (\<forall>c a. map_of (ml_byCaller m) c = Some a \<longrightarrow> a < length (ml_heap m)
     \<and> (\<forall>d. map_of (ml_byCaller m) d = Some a \<longrightarrow> d = c))"



definition unplaced :: "(nat \<times> nat flight) list \<Rightarrow> (nat \<times> unit flight) list" where
  "unplaced w = map (\<lambda>(i, f). (i, \<lparr>fl_caller = fl_caller f, fl_now = fl_now f, fl_refused = fl_refused f,
     fl_place = ()\<rparr>)) w"


lemma acts_as_refl [simp]: "acts_as bk t l l"
  by (simp add: acts_as_def)



lemma unplaced_cons [simp]:
  "unplaced [] = []"
  "unplaced ((i, f) # w) = (i, \<lparr>fl_caller = fl_caller f, fl_now = fl_now f, fl_refused = fl_refused f,
     fl_place = ()\<rparr>) # unplaced w"
  by (simp_all add: unplaced_def)

lemma unplaced_no_longer [simp]: "unplaced (no_longer i w) = no_longer i (unplaced w)"
  by (induction w) (auto simp: no_longer_def)


lemma map_of_evict:
  "distinct (map fst es) \<Longrightarrow> map_of (evictIdle bk now h es) c
     = (case map_of es c of Some a \<Rightarrow> if bk_full bk now (h ! a) then None else Some a | None \<Rightarrow> None)"
proof (induction es)
  case (Cons e es)
  then show ?case
    by (cases e) (auto simp: evictIdle_def map_of_eq_None_iff image_iff split: option.split)
qed (simp add: evictIdle_def)
















text \<open>A bucket of one token a period: the instant from which the next is due, if one was taken.\<close>

definition one_token :: "duration \<Rightarrow> time option bucket" where
  "one_token period = \<lparr>bk_new = (\<lambda>_. None),
     bk_reserve = (\<lambda>now l. case l of None \<Rightarrow> ((True, 0), Some (now + period))
       | Some due \<Rightarrow> ((True, max 0 (due - now)), Some (max now due + period))),
     bk_cancel = (\<lambda>now l. map_option (\<lambda>due. due - period) l),
     bk_full = (\<lambda>now l. case l of None \<Rightarrow> True | Some due \<Rightarrow> due \<le> now)\<rparr>"



text \<open>
  What an eviction between the look-up and the reservation does, whatever the limiter holds: a caller
  whose budget is full looks it up, a newcomer's look-up drops it, and the caller's next call is given a
  fresh one. It has two turns at one instant, and the limiter the first call still holds is nobody's.
\<close>
lemma evicted_under_a_call:
  assumes m: "maxTrackedProposers \<le> length (ml_byCaller m)" "distinct (map fst (ml_byCaller m))" "addresses_ok m"
    and c: "map_of (ml_byCaller m) c = Some a" "ml_heap m ! a = None" and d: "map_of (ml_byCaller m) d = None"
    and p: "0 < period" and steps: "steps = [Looks 1 c now, Looks 2 d now, Looks 3 c now, Reserves 1, Reserves 2, Reserves 3]"
  shows "limiter_run (one_token period) steps (m, []) = [(c, None), (d, None), (c, None)]"
    and "own_run (one_token period) steps (\<lambda>_. None, []) = [(c, None), (d, None), (c, Some (NoTurn period))]"
proof -
  have a: "a < length (ml_heap m)" and cd: "c \<noteq> d" using m(3) c d by (auto simp: addresses_ok_def)
  have e: "map_of (evictIdle (one_token period) now (ml_heap m) (ml_byCaller m)) c = None"
    using c by (simp add: map_of_evict [OF m(2)] one_token_def)
  show "limiter_run (one_token period) steps (m, []) = [(c, None), (d, None), (c, None)]"
    using m(1) c d cd a e
    by (simp add: steps find_limiter_def Let_def write_limiter_def turn_answer_def no_longer_def nth_append
        one_token_def nth_list_update)
  show "own_run (one_token period) steps (\<lambda>_. None, []) = [(c, None), (d, None), (c, Some (NoTurn period))]"
    using cd p by (simp add: steps one_token_def turn_answer_def no_longer_def)
qed

end
