(* ===== verification/Tool_Calls.thy ===== *)
theory Tool_Calls
  imports Workflow Plugin_Host Rate_Limits
begin

text \<open>
  The tools that carry the approval workflow to a client: the tool that proposes a mutation and waits
  for its decision (\<open>attachProposeTool\<close>, \<open>resolveApproval\<close> of \<open>internal/plugins/registry.go\<close>), the
  question put to the user (\<open>elicit.go\<close>), the five tools of the approval queue and what a client is
  told of an operation (\<open>approval_tools.go\<close>), and the runner that brings the executor to the mounted
  plugins (\<open>runner.go\<close>). A note's sentences are constructors. What the client answers to the question,
  and what encoding the decoded arguments gives, are arguments. Metrics and log lines are left out.
\<close>

section \<open>The runner\<close>

text \<open>A mutation's handler with its types erased; the handle of a plan is the typed plan, if there is one.\<close>

record ('u, 'h) adapter =
  ad_plan :: "raw_message \<Rightarrow> 'u \<Rightarrow> (run_error + 'h option plan_result) \<times> 'u"
  ad_apply :: "raw_message \<Rightarrow> 'h \<Rightarrow> 'u \<Rightarrow> (apply_outcome \<times> run_error option) \<times> 'u"
  ad_observe :: "raw_message \<Rightarrow> 'u \<Rightarrow> (run_error + raw_message) \<times> 'u"

definition zero_outcome :: apply_outcome where
  "zero_outcome = \<lparr>ao_UpstreamRef = '''', ao_Async = False\<rparr>"

definition resolve_mutation :: "environment \<Rightarrow> (('u, 'h) adapter, 'v) manager \<Rightarrow> string \<Rightarrow> string
    \<Rightarrow> run_error + ('u, 'h) adapter" where
  "resolve_mutation env m plugin action =
    (case Lookup_plugin m plugin of
       None \<Rightarrow> Inl (Refused (''plugins: '' @ en_Quote env plugin @ '' is not mounted''))
     | Some mt \<Rightarrow>
         (case mutationByAction action (mt_Registry mt) of
            None \<Rightarrow> Inl (Refused (''plugins: '' @ plugin @ '' registers no mutation '' @ en_Quote env action))
          | Some x \<Rightarrow> Inr (rm_adapter x)))"

definition Runner :: "environment \<Rightarrow> (('u, 'h) adapter, 'v) manager \<Rightarrow> ('u, 'h option) mutation_runner" where
  "Runner env m = \<lparr>
     mr_Plan = (\<lambda>plugin action params u.
       case resolve_mutation env m plugin action of Inl e \<Rightarrow> (Inl e, u) | Inr a \<Rightarrow> ad_plan a params u),
     mr_Apply = (\<lambda>plugin action params plan u.
       case resolve_mutation env m plugin action of
         Inl e \<Rightarrow> ((zero_outcome, Some e), u)
       | Inr a \<Rightarrow>
           (case pl_Handle plan of
              None \<Rightarrow> ((zero_outcome, Some (Refused (''plugins: no plan is available for '' @ plugin @ ''.'' @ action
                 @ ''; Plan must run immediately before Apply''))), u)
            | Some t \<Rightarrow> ad_apply a params t u)),
     mr_Observe = (\<lambda>plugin action params u.
       case resolve_mutation env m plugin action of Inl e \<Rightarrow> (Inl e, u) | Inr a \<Rightarrow> ad_observe a params u)\<rparr>"

section \<open>What a client is told\<close>

datatype missing_proof = NoPreconditions | NotObservable

datatype sentence =
    NothingHasChangedYet | ApprovedNotApplied | BeingApplied | AppliedUnconfirmed | AppliedMismatch
  | AppliedConfirmed | NotApplied | UnknownOutcome | RejectedUnchanged | ExpiredUnchanged
  | WithdrawnUnchanged | GatedCall "missing_proof list" | NobodyAsked string
  | ShowInFull | CouldNotApprove op_error

definition assuranceCaveat :: "operation \<Rightarrow> sentence list" where
  "assuranceCaveat op =
    (if Assurance op = AssuranceReviewedChange then []
     else [GatedCall ((if \<not> DriftChecked op then [NoPreconditions] else [])
       @ (if \<not> op_Verifiable op then [NotObservable] else []))])"

definition stateNote :: "operation \<Rightarrow> sentence list" where
  "stateNote op =
    (case op_State op of
       StatePendingApproval \<Rightarrow> NothingHasChangedYet # assuranceCaveat op
     | StateApproved \<Rightarrow> ApprovedNotApplied # assuranceCaveat op
     | StateExecuting \<Rightarrow> [BeingApplied]
     | StateSucceeded \<Rightarrow>
         (case op_OutcomeVerified op of
            None \<Rightarrow> [AppliedUnconfirmed] | Some v \<Rightarrow> if \<not> v then [AppliedMismatch] else [AppliedConfirmed])
     | StateFailed \<Rightarrow> [NotApplied]
     | StateIndeterminate \<Rightarrow> [UnknownOutcome]
     | StateRejected \<Rightarrow> [RejectedUnchanged]
     | StateExpired \<Rightarrow> [ExpiredUnchanged]
     | StateCancelled \<Rightarrow> [WithdrawnUnchanged]
     | _ \<Rightarrow> [])"

definition authorisationNote :: "operation \<Rightarrow> sentence list" where
  "authorisationNote op = (if \<not> AutoApproved op then [] else [NobodyAsked (op_AuthorizedByRule op)])"

definition noteFor :: "operation \<Rightarrow> sentence list" where
  "noteFor op = stateNote op @ authorisationNote op"

text \<open>A stored value as an \<open>any\<close>; its numbers stay the literals they were.\<close>

datatype decoded = NoValue | Decoded json | Undecodable

definition decodeJSON :: "raw_message \<Rightarrow> decoded" where
  "decodeJSON raw =
    (if length raw = 0 then NoValue
     else case Unmarshal raw of
       None \<Rightarrow> Undecodable | Some v \<Rightarrow> if floats_ok v then Decoded v else Undecodable)"

record operation_view =
  ov_OperationID :: string
  ov_State :: string
  ov_Plugin :: string
  ov_Action :: string
  ov_Risk :: string
  ov_Impact :: string
  ov_Changes :: "change list"
  ov_Target :: decoded
  ov_RequestedBy :: string
  ov_RequestedAt :: time
  ov_ExpiresAt :: time
  ov_ApprovedBy :: string
  ov_AuthorizedByRule :: string
  ov_ExecuteBy :: "time option"
  ov_Verified :: "bool option"
  ov_Observed :: decoded
  ov_ErrorCode :: string
  ov_ErrorDetail :: string
  ov_Assurance :: string
  ov_Note :: "sentence list"

definition viewOf :: "operation \<Rightarrow> operation_view" where
  "viewOf op = \<lparr>ov_OperationID = op_ID op, ov_State = state_String (op_State op), ov_Plugin = op_Plugin op,
     ov_Action = op_Action op, ov_Risk = risk_String (op_Risk op), ov_Impact = op_Impact op,
     ov_Changes = op_Changes op, ov_Target = decodeJSON (op_Target op), ov_RequestedBy = op_RequestedBy op,
     ov_RequestedAt = op_RequestedAt op, ov_ExpiresAt = op_ExpiresAt op, ov_ApprovedBy = op_ApprovedBy op,
     ov_AuthorizedByRule = op_AuthorizedByRule op, ov_ExecuteBy = op_ApprovalExpiresAt op,
     ov_Verified = op_OutcomeVerified op, ov_Observed = decodeJSON (op_Observed op),
     ov_ErrorCode = op_ErrorCode op, ov_ErrorDetail = op_ErrorDetail op,
     ov_Assurance = assurance_String (Assurance op), ov_Note = noteFor op\<rparr>"

section \<open>Asking the user\<close>

text \<open>
  A client that offers elicitation names the form mode, the URL mode, both or neither. \<open>ec_Session\<close> is
  whether the request has a session, and \<open>ec_Elicit\<close> what the client makes of the question about an
  operation: an error, or the action the user took.
\<close>

record elicit_client =
  ec_Capability :: "(bool \<times> bool) option"
  ec_Session :: bool
  ec_Elicit :: "operation \<Rightarrow> string + string"

definition elicitationSupported :: "elicit_client option \<Rightarrow> bool" where
  "elicitationSupported req =
    (case req of None \<Rightarrow> False
     | Some c \<Rightarrow> (case ec_Capability c of None \<Rightarrow> False | Some (form, url) \<Rightarrow> form \<or> (\<not> form \<and> \<not> url)))"

datatype elicit_decision = decisionUnavailable | decisionApproved | decisionDeclined

definition askUser :: "elicit_client option \<Rightarrow> operation \<Rightarrow> elicit_decision \<times> string option" where
  "askUser req op =
    (if \<not> elicitationSupported req then (decisionUnavailable, None)
     else case req of None \<Rightarrow> (decisionUnavailable, None)
       | Some c \<Rightarrow>
           if \<not> ec_Session c then (decisionUnavailable, None)
           else (case ec_Elicit c op of
                   Inl e \<Rightarrow> (decisionUnavailable, Some e)
                 | Inr action \<Rightarrow>
                     (if action = ''accept'' then decisionApproved else decisionDeclined, None)))"

section \<open>Proposing from a conversation\<close>

definition derefRisk :: "risk_level option \<Rightarrow> risk_level" where
  "derefRisk r = (case r of None \<Rightarrow> RiskLow | Some x \<Rightarrow> x)"

text \<open>\<open>inlinePolicyFunc\<close> of \<open>app.go\<close> reads the policy anew each time; \<open>inline\<close> is whether there is one.\<close>

definition allows_inline :: "environment \<Rightarrow> risk_level \<Rightarrow> ('s, 'm) host_scheme \<Rightarrow> bool \<times> ('s, 'm) host_scheme" where
  "allows_inline env risk h =
    (let (policy, h1) = read_policy env h in (Allows (po_InlineApproval policy) risk, h1))"

text \<open>The outcome if it comes in time, else what is known already.\<close>

definition awaited :: "'s repository \<Rightarrow> operation \<Rightarrow> nat \<Rightarrow> ('s, 'm) host_scheme
    \<Rightarrow> operation_view \<times> ('s, 'm) host_scheme" where
  "awaited repo op ticks h =
    (let (r, h1) = AwaitOutcome repo (op_ID op) ticks h
     in case r of (Some final, None) \<Rightarrow> (viewOf final, h1) | _ \<Rightarrow> (viewOf op, h1))"

definition resolveApproval :: "environment \<Rightarrow> 's repository \<Rightarrow> bool \<Rightarrow> principal option \<Rightarrow> elicit_client option
    \<Rightarrow> nat \<Rightarrow> operation \<Rightarrow> ('s, 'm) host_scheme \<Rightarrow> operation_view \<times> ('s, 'm) host_scheme" where
  "resolveApproval env repo inline po req ticks op h =
    (if op_State op \<noteq> StatePendingApproval then awaited repo op ticks h
     else if \<not> inline then (viewOf op, h)
     else
       (let (allowed, h1) = allows_inline env (op_Risk op) h
        in if \<not> allowed then ((viewOf op)\<lparr>ov_Note := ShowInFull # noteFor op\<rparr>, h1)
           else
             (let (decision, err) = askUser req op
              in if err \<noteq> None \<or> decision = decisionUnavailable then (viewOf op, h1)
                 else if decision = decisionDeclined then
                   (let (r, h2) = svc_Reject env repo po (op_ID op) ''declined by the user when asked'' h1
                    in case r of Inr rejected \<Rightarrow> (viewOf rejected, h2) | Inl e \<Rightarrow> (viewOf op, h2))
                 else
                   (let (r, h2) = ApproveInline env repo po (op_ID op) h1
                    in case r of
                         Inl e \<Rightarrow> ((viewOf op)\<lparr>ov_Note := [CouldNotApprove e]\<rparr>, h2)
                       | Inr approved \<Rightarrow> awaited repo approved ticks h2))))"

datatype call_error = GateRefused string | RateLimited limited | NotEncoded | NotPlanned run_error
  | NotRecorded op_error | UnknownState string

definition propose_request_of :: "string \<Rightarrow> mutation_spec \<Rightarrow> string \<Rightarrow> raw_message \<Rightarrow> 'h plan_result
    \<Rightarrow> svc_propose_request" where
  "propose_request_of plugin spec correlation params plan =
    \<lparr>rq_Plugin = plugin, rq_Action = ms_Action spec,
     rq_Risk = MaxRisk [ms_Risk spec, derefRisk (pl_RiskOverride plan)],
     rq_Target = pl_Before plan, rq_Params = params, rq_Before = pl_Before plan, rq_Desired = pl_Desired plan,
     rq_Preconditions = pl_Preconditions plan, rq_Rollback = pl_Rollback plan, rq_Changes = pl_Changes plan,
     rq_Impact = pl_Impact plan, rq_Verifiable = ms_Verifiable spec, rq_Reversible = ms_Reversible spec,
     rq_IdempotencyKey = '''', rq_CorrelationID = correlation\<rparr>"

text \<open>
  What a call of a propose tool brings: the request's client, the ticks its wait for an outcome lasts, the
  instant its limiter is asked at, the correlation identifier, and its arguments encoded again, if they can
  be.
\<close>

record tool_call =
  tc_Principal :: "principal option"
  tc_Client :: "elicit_client option"
  tc_Ticks :: nat
  tc_Now :: time
  tc_Correlation :: string
  tc_Params :: "raw_message option"

definition propose_call :: "environment \<Rightarrow> 's repository \<Rightarrow> bool \<Rightarrow> 'l bucket
    \<Rightarrow> ('u, 'h) adapter registered_mutation \<Rightarrow> tool_call \<Rightarrow> 'l mutation_limiter \<Rightarrow> ('s, 'u) exec_host
    \<Rightarrow> (call_error + operation_view) \<times> 'l mutation_limiter \<times> ('s, 'u) exec_host" where
  "propose_call env repo inline bk mu call lim h =
    (case toolGate (tc_Principal call) (rm_qualified mu) CapPropose of
       Some code \<Rightarrow> (Inl (GateRefused code), lim, h)
     | None \<Rightarrow>
         (case mutation_allow bk (ID_of (tc_Principal call)) (tc_Now call) lim of
            (Some e, lim1) \<Rightarrow> (Inl (RateLimited e), lim1, h)
          | (None, lim1) \<Rightarrow>
              (case tc_Params call of
                 None \<Rightarrow> (Inl NotEncoded, lim1, h)
               | Some params \<Rightarrow>
                   (case call_up (ad_plan (rm_adapter mu) params) h of
                      (Inl e, h1) \<Rightarrow> (Inl (NotPlanned e), lim1, h1)
                    | (Inr plan, h1) \<Rightarrow>
                        (case svc_Propose env repo (tc_Principal call)
                                (propose_request_of (rm_plugin mu) (rm_spec mu) (tc_Correlation call) params plan) h1 of
                           (Inl e, h2) \<Rightarrow> (Inl (NotRecorded e), lim1, h2)
                         | (Inr op, h2) \<Rightarrow>
                             (case resolveApproval env repo inline (tc_Principal call) (tc_Client call)
                                     (tc_Ticks call) op h2 of
                                (view, h3) \<Rightarrow> (Inr view, lim1, h3)))))))"

section \<open>The approval queue\<close>

datatype queue_call = ListOperations string int | GetOperation string | ApproveOperation string string
  | RejectOperation string string | CancelOperation string string

fun queue_tool :: "queue_call \<Rightarrow> string \<times> capability" where
  "queue_tool (ListOperations s n) = (''list_operations'', CapRead)"
| "queue_tool (GetOperation i) = (''get_operation'', CapRead)"
| "queue_tool (ApproveOperation i why) = (''approve_operation'', CapApprove)"
| "queue_tool (RejectOperation i why) = (''reject_operation'', CapApprove)"
| "queue_tool (CancelOperation i why) = (''cancel_operation'', CapPropose)"

definition one_view :: "(op_error + operation) \<times> ('s, 'm) host_scheme
    \<Rightarrow> (call_error + operation_view list) \<times> ('s, 'm) host_scheme" where
  "one_view r = (case r of (Inl e, h) \<Rightarrow> (Inl (NotRecorded e), h) | (Inr op, h) \<Rightarrow> (Inr [viewOf op], h))"

definition list_call :: "'s repository \<Rightarrow> string \<Rightarrow> principal option \<Rightarrow> string \<Rightarrow> int \<Rightarrow> ('s, 'm) host_scheme
    \<Rightarrow> (call_error + operation_view list) \<times> ('s, 'm) host_scheme" where
  "list_call repo plugin po st n h =
    (let state = state_of_string st; limit = (if n \<le> 0 then 20 else n)
     in if st \<noteq> '''' \<and> \<not> state_Valid state then (Inl (UnknownState st), h)
        else (case svc_List repo po plugin (if st \<noteq> '''' then [state] else []) limit h of
            (Inl e, h1) \<Rightarrow> (Inl (NotRecorded e), h1)
          | (Inr ops, h1) \<Rightarrow> (Inr (map viewOf ops), h1)))"

definition run_queue_call :: "environment \<Rightarrow> 's repository \<Rightarrow> string \<Rightarrow> principal option \<Rightarrow> queue_call
    \<Rightarrow> ('s, 'm) host_scheme \<Rightarrow> (call_error + operation_view list) \<times> ('s, 'm) host_scheme" where
  "run_queue_call env repo plugin po c h =
    (case toolGate po (qualify plugin (fst (queue_tool c))) (snd (queue_tool c)) of
       Some code \<Rightarrow> (Inl (GateRefused code), h)
     | None \<Rightarrow>
         (case c of
            ListOperations st n \<Rightarrow> list_call repo plugin po st n h
          | GetOperation i \<Rightarrow> one_view (svc_Get repo po i h)
          | ApproveOperation i why \<Rightarrow> one_view (svc_Approve env repo po i why h)
          | RejectOperation i why \<Rightarrow> one_view (svc_Reject env repo po i why h)
          | CancelOperation i why \<Rightarrow> one_view (svc_Cancel env repo po i why h)))"

section \<open>Tool calls keep the rules and write nothing\<close>

lemma allows_inline_store [simp]:
  "h_store (snd (allows_inline env risk h)) = h_store h"
  by (simp add: allows_inline_def read_policy_def Let_def)

lemma one_view_snd: "snd (one_view r) = snd r"
  by (simp add: one_view_def split: prod.split sum.split)

context shared_store
begin

lemma awaited_keeps: "sound jv h \<Longrightarrow> sound jv (snd (awaited (sqlite jv others clk) op ticks h))"
  using Await_loop_keeps [of h "op_ID op" ticks None]
  by (auto simp: awaited_def AwaitOutcome_def Let_def split: prod.split option.split)

lemma resolveApproval_keeps:
  assumes s: "sound jv h"
  shows "sound jv (snd (resolveApproval env (sqlite jv others clk) inline po req ticks op h))"
proof -
  obtain a h1 where a: "allows_inline env (op_Risk op) h = (a, h1)" by fastforce
  have s1: "sound jv h1" using s allows_inline_store [of env "op_Risk op" h] by (simp add: a sound_def)
  obtain d err where d: "askUser req op = (d, err)" by fastforce
  obtain r h2 where r: "svc_Reject env (sqlite jv others clk) po (op_ID op) ''declined by the user when asked'' h1 = (r, h2)"
    by fastforce
  obtain r' h3 where r': "ApproveInline env (sqlite jv others clk) po (op_ID op) h1 = (r', h3)" by fastforce
  have "sound jv h2" "sound jv h3"
    using Reject_keeps [OF s1, of env po "op_ID op" "''declined by the user when asked''"]
      ApproveInline_keeps [OF s1, of env po "op_ID op"] by (simp_all add: r r')
  then show ?thesis
    unfolding resolveApproval_def Let_def a d r r' case_prod_conv
    by (auto intro!: awaited_keeps s s1 split: sum.split)
qed

lemma propose_call_keeps:
  assumes s: "sound jv h"
  shows "sound jv (snd (snd (propose_call env (sqlite jv others clk) inline bk mu call lim h)))"
proof -
  have up: "sound jv h1" if "call_up f h = (x, h1)" for f and x :: "run_error + 'd plan_result" and h1
    using that s call_up_store [OF that] by (simp add: sound_def)
  have rec: "sound jv h2" if "svc_Propose env (sqlite jv others clk) po rq h1 = (x, h2)" "sound jv h1" for po rq h1 x h2
    using Propose_keeps [OF that(2), of env po rq] that(1) by simp
  have res: "sound jv h3" if "resolveApproval env (sqlite jv others clk) inline po req ticks op h2 = (v, h3)" "sound jv h2"
    for po req ticks op h2 v h3
    using resolveApproval_keeps [OF that(2), of env inline po req ticks op] that(1) by simp
  show ?thesis
    unfolding propose_call_def
    by (auto simp: s split: option.split prod.split sum.split dest!: up dest: rec res)
qed

lemma list_call_keeps: "sound jv h \<Longrightarrow> sound jv (snd (list_call (sqlite jv others clk) plugin po st n h))"
proof -
  assume s: "sound jv h"
  have "sound jv h1" if "svc_List (sqlite jv others clk) po plugin states m h = (x, h1)" for states m x h1
    using svc_List_keeps [OF s, of po plugin states m] that by simp
  then show ?thesis using s by (auto simp: list_call_def Let_def split: prod.split sum.split)
qed

lemma queue_call_keeps: "sound jv h \<Longrightarrow> sound jv (snd (run_queue_call env (sqlite jv others clk) plugin po c h))"
  by (cases c) (simp_all add: run_queue_call_def one_view_snd list_call_keeps svc_Get_keeps Approve_keeps Reject_keeps
      Cancel_keeps split: option.split)

end

text \<open>The service acts on the store, the clock, the identifiers, the policy and the wake-ups alone.\<close>

lemma call_repo_more: "call_repo f h = (x, h') \<Longrightarrow> host.more h' = host.more h"
  by (auto simp: call_repo_def split: prod.splits)

lemma approve_more: "host.more (snd (svc_approve env repo po op why ch h)) = host.more h"
  by (auto simp: svc_approve_def host_defs Let_def split: option.splits sum.splits prod.splits dest!: call_repo_more)

lemma autoApprove_more: "host.more (snd (autoApprove env repo op rv h)) = host.more h"
  by (auto simp: autoApprove_def host_defs Let_def split: option.splits sum.splits prod.splits dest!: call_repo_more)

lemma autoApprove_more_eq: "autoApprove env repo op rv h = (op', h') \<Longrightarrow> host.more h' = host.more h"
  using autoApprove_more [of env repo op rv h] by simp

lemma more_cases:
  "host.more (snd a) = m \<Longrightarrow> host.more (snd b) = m \<Longrightarrow> host.more (snd (if c then a else b)) = m"
  "(\<And>e. host.more (snd (f e)) = m) \<Longrightarrow> (\<And>y. host.more (snd (g y)) = m)
    \<Longrightarrow> host.more (snd (case x of Inl e \<Rightarrow> f e | Inr y \<Rightarrow> g y)) = m"
  "host.more (snd n) = m \<Longrightarrow> (\<And>y. host.more (snd (s y)) = m) \<Longrightarrow> host.more (snd (case o' of None \<Rightarrow> n | Some y \<Rightarrow> s y)) = m"
  by (simp_all split: sum.split option.split)

lemma propose_tail_more:
  assumes "host.more h = m"
  shows "host.more (snd (case call_repo f h of
      (res, h8) \<Rightarrow> case res of Inl e \<Rightarrow> (Inl e, h8)
        | Inr stored \<Rightarrow> (case autoApprove env repo stored rv (h8\<lparr>h_woken := w h8\<rparr>) of
            (op', h9) \<Rightarrow> (Inr op', h9)))) = m"
  using assms by (auto split: prod.split sum.split dest!: call_repo_more autoApprove_more_eq)

lemma Propose_more: "host.more (snd (svc_Propose env repo po rq h)) = host.more h"
  unfolding svc_Propose_def Let_def host_defs case_prod_conv
  by (intro more_cases propose_tail_more) simp_all

lemma Reject_more: "host.more (snd (svc_Reject env repo po i why h)) = host.more h"
  by (auto simp: svc_Reject_def host_defs Let_def split: option.splits sum.splits prod.splits dest!: call_repo_more)

lemma ApproveInline_more: "host.more (snd (ApproveInline env repo po i h)) = host.more h"
  by (auto simp: ApproveInline_def read_policy_def approve_more split: prod.splits sum.splits dest!: call_repo_more)

lemma Await_loop_more: "host.more (snd (AwaitOutcome_loop repo i n prev h)) = host.more h"
proof (induction n arbitrary: prev h)
  case 0
  then show ?case
    by (subst AwaitOutcome_loop.simps)
       (auto simp del: AwaitOutcome_loop.simps split: prod.splits sum.splits dest!: call_repo_more)
next
  case (Suc n)
  then show ?case
    by (subst AwaitOutcome_loop.simps)
       (auto simp del: AwaitOutcome_loop.simps split: prod.splits sum.splits dest!: call_repo_more)
qed

lemma awaited_more: "host.more (snd (awaited repo op ticks h)) = host.more h"
  using Await_loop_more [of repo "op_ID op" ticks None h]
  by (auto simp: awaited_def AwaitOutcome_def Let_def split: prod.split option.split)

lemma resolveApproval_more: "host.more (snd (resolveApproval env repo inline po req ticks op h)) = host.more h"
proof -
  obtain a h1 where a: "allows_inline env (op_Risk op) h = (a, h1)" by fastforce
  have m1: "host.more h1 = host.more h" using a by (auto simp: allows_inline_def read_policy_def Let_def)
  obtain d err where d: "askUser req op = (d, err)" by fastforce
  obtain r h2 where r: "svc_Reject env repo po (op_ID op) ''declined by the user when asked'' h1 = (r, h2)"
    by fastforce
  obtain r' h3 where r': "ApproveInline env repo po (op_ID op) h1 = (r', h3)" by fastforce
  have "host.more h2 = host.more h" "host.more h3 = host.more h"
    using Reject_more [of env repo po "op_ID op" "''declined by the user when asked''" h1]
      ApproveInline_more [of env repo po "op_ID op" h1] by (simp_all add: r r' m1)
  then show ?thesis
    unfolding resolveApproval_def Let_def a d r r' case_prod_conv
    by (auto simp: awaited_more m1 split: sum.split)
qed

lemma Approve_more: "host.more (snd (svc_Approve env repo po i why h)) = host.more h"
  by (auto simp: svc_Approve_def approve_more split: prod.splits sum.splits dest!: call_repo_more)

lemma Cancel_more: "host.more (snd (svc_Cancel env repo po i why h)) = host.more h"
  by (auto simp: svc_Cancel_def host_defs Let_def split: option.splits sum.splits prod.splits dest!: call_repo_more)

lemma Get_more: "host.more (snd (svc_Get repo po i h)) = host.more h"
  by (auto simp: svc_Get_def split: sum.splits prod.splits dest!: call_repo_more)

lemma List_more: "host.more (snd (svc_List repo po plugin states n h)) = host.more h"
  by (auto simp: svc_List_def Let_def split: prod.splits dest!: call_repo_more intro: call_repo_more [OF surjective_pairing])

lemma list_call_more: "host.more (snd (list_call repo plugin po st n h)) = host.more h"
  using List_more [of repo po plugin "if st \<noteq> '''' then [state_of_string st] else []" "if n \<le> 0 then 20 else n" h]
  by (auto simp: list_call_def Let_def split: prod.split sum.split)

lemma queue_call_more: "host.more (snd (run_queue_call env repo plugin po c h)) = host.more h"
  by (cases c) (simp_all add: run_queue_call_def one_view_snd list_call_more Get_more Approve_more Reject_more Cancel_more
      split: option.split)

lemma more_up: "host.more h = host.more h' \<Longrightarrow> x_up h = x_up h'" for h h' :: "('s, 'u) exec_host"
  by (cases h; cases h') simp

lemma Propose_up: "svc_Propose env repo po rq h = (x, h') \<Longrightarrow> x_up h' = x_up h" for h h' :: "('s, 'u) exec_host"
  using Propose_more [of env repo po rq h] by (intro more_up) simp

lemma resolveApproval_up:
  "resolveApproval env repo inline po req ticks op h = (v, h') \<Longrightarrow> x_up h' = x_up h" for h h' :: "('s, 'u) exec_host"
  using resolveApproval_more [of env repo inline po req ticks op h] by (intro more_up) simp

lemma call_up_up: "call_up f h = (x, h') \<Longrightarrow> x_up h' = snd (f (x_up h))"
  by (auto simp: call_up_def split: prod.splits)

text \<open>All a proposal does upstream is to plan, once.\<close>

definition only_planned :: "('u, 'h) adapter registered_mutation \<Rightarrow> tool_call \<Rightarrow> 'u \<Rightarrow> 'u \<Rightarrow> bool" where
  "only_planned mu call u u' \<longleftrightarrow>
     u' = u \<or> (\<exists>params. tc_Params call = Some params \<and> u' = snd (ad_plan (rm_adapter mu) params u))"

lemma propose_call_up:
  "only_planned mu call (x_up h) (x_up (snd (snd (propose_call env repo inline bk mu call lim h))))"
  unfolding propose_call_def only_planned_def
  by (auto split: option.split prod.split sum.split dest!: call_up_up Propose_up resolveApproval_up)

definition other_writes :: "(raw_message \<Rightarrow> 'h \<Rightarrow> 'u \<Rightarrow> (apply_outcome \<times> run_error option) \<times> 'u)
    \<Rightarrow> (raw_message \<Rightarrow> 'u \<Rightarrow> (run_error + raw_message) \<times> 'u)
    \<Rightarrow> ('u, 'h) adapter registered_mutation \<Rightarrow> ('u, 'h) adapter registered_mutation" where
  "other_writes f g mu = mu\<lparr>rm_adapter := (rm_adapter mu)\<lparr>ad_apply := f, ad_observe := g\<rparr>\<rparr>"

lemma other_writes_sel:
  "rm_plugin (other_writes f g mu) = rm_plugin mu" "rm_spec (other_writes f g mu) = rm_spec mu"
  "rm_qualified (other_writes f g mu) = rm_qualified mu"
  "ad_plan (rm_adapter (other_writes f g mu)) = ad_plan (rm_adapter mu)"
  by (simp_all add: other_writes_def)

lemma propose_call_plans_only:
  "propose_call env repo inline bk (other_writes f g mu) call lim h = propose_call env repo inline bk mu call lim h"
  unfolding propose_call_def other_writes_sel by (rule refl)

text \<open>
  C7. A conversation can propose and decide, and does not write. Against a store others work on, every
  call of a propose tool and of the approval queue, whatever the model, the client and the user answer,
  leaves a store that lawful calls reach. All that a call of a propose tool does upstream of itself is to
  plan once: the upstream system stays as it was or as that plan left it, and with any other \<open>Apply\<close> and
  \<open>Observe\<close> in the mutation's place the call returns the same and leaves the same. A call of the queue
  does nothing upstream. (An executor may carry out the change meanwhile, and the call may wait for it;
  what executions write is \<open>write_needs_claim\<close> and \<open>at_most_one_write\<close>.)
\<close>
theorem tool_calls_keep_the_rules:
  fixes h :: "(sql_state, 'u) exec_host"
  assumes "\<And>db n. reached jv db \<Longrightarrow> reached jv (run_calls jv (others n) db)" and "sound jv h"
  shows "sound jv (snd (snd (propose_call env (sqlite jv others clk) inline bk mu call lim h)))
    \<and> only_planned mu call (x_up h) (x_up (snd (snd (propose_call env (sqlite jv others clk) inline bk mu call lim h))))
    \<and> propose_call env (sqlite jv others clk) inline bk (other_writes f g mu) call lim h
        = propose_call env (sqlite jv others clk) inline bk mu call lim h
    \<and> sound jv (snd (run_queue_call env (sqlite jv others clk) plugin po c h))
    \<and> x_up (snd (run_queue_call env (sqlite jv others clk) plugin po c h)) = x_up h"
proof -
  have st: "shared_store jv others" using assms(1) by unfold_locales
  show ?thesis
    by (intro conjI shared_store.propose_call_keeps [OF st assms(2)] shared_store.queue_call_keeps [OF st assms(2)]
      propose_call_up propose_call_plans_only more_up queue_call_more)
qed

theorem tool_calls_keep_the_rules_witness:
  "\<forall>others clk env mu call lim po c. sound (\<lambda>s. True) (snd (snd (propose_call env (sqlite (\<lambda>s. True) (deciders others) clk) True
       (one_token Second) mu call lim fresh_exec)))
     \<and> sound (\<lambda>s. True) (snd (run_queue_call env (sqlite (\<lambda>s. True) (deciders others) clk) ''radio'' po c fresh_exec))
     \<and> x_up (snd (run_queue_call env (sqlite (\<lambda>s. True) (deciders others) clk) ''radio'' po c fresh_exec)) = x_up fresh_exec"
proof (intro allI)
  fix others clk env mu call lim po c
  show "sound (\<lambda>s. True) (snd (snd (propose_call env (sqlite (\<lambda>s. True) (deciders others) clk) True
       (one_token Second) mu call lim fresh_exec)))
     \<and> sound (\<lambda>s. True) (snd (run_queue_call env (sqlite (\<lambda>s. True) (deciders others) clk) ''radio'' po c fresh_exec))
     \<and> x_up (snd (run_queue_call env (sqlite (\<lambda>s. True) (deciders others) clk) ''radio'' po c fresh_exec)) = x_up fresh_exec"
    using tool_calls_keep_the_rules [where jv = "\<lambda>s. True" and others = "deciders others" and h = fresh_exec]
      deciding.rely fresh_sound by blast
qed

section \<open>Refusals\<close>

text \<open>
  A proposal that is refused costs nothing. The gate's refusal spends no turn of the caller's budget;
  the limiter's, and arguments that cannot be encoded, leave the host as it was, with nothing read upstream;
  and a plan that fails leaves no operation, identifier or wake-up behind.
\<close>
theorem refused_proposals_leave_no_trace:
  "case propose_call env repo inline bk mu call lim h of
     (Inl (GateRefused c), lim', h') \<Rightarrow> lim' = lim \<and> h' = h
   | (Inl (RateLimited e), lim', h') \<Rightarrow> h' = h \<and> toolGate (tc_Principal call) (rm_qualified mu) CapPropose = None
   | (Inl NotEncoded, lim', h') \<Rightarrow> h' = h
   | (Inl (NotPlanned e), lim', h') \<Rightarrow> h' = h\<lparr>x_up := x_up h'\<rparr>
   | (Inl (UnknownState s), lim', h') \<Rightarrow> False
   | (Inl (NotRecorded e), lim', h') \<Rightarrow> True
   | (Inr view, lim', h') \<Rightarrow> True"
  by (auto simp: propose_call_def call_up_def split: option.split prod.split sum.split)

section \<open>Notes are true\<close>







end
