(* ===== verification/Spec2Isabelle.thy ===== *)
theory Spec2Isabelle
  imports Executor_Facts Ids Delivery Access_Examples Bypass_Store Manager_Facts Tool_Calls
begin

text \<open>
  A model of mcpd: the gateway that lets a model propose changes to other systems, decides which of them
  reach those systems, and keeps the accounts, keys, roles and grants that say who may do what.

  A client calls a tool. The gate judges the caller and the tool's plugin; a propose tool asks the limiter,
  plans the change and hands it to the service, which makes it an operation: it hashes the canonical payload
  and asks the standing rules and the open bypass windows whether a person has to decide. A person approves
  or rejects it, in the conversation or with the tools of the approval queue. An executor claims it, checks
  that the target has not moved, writes upstream once, verifies and settles; a reaper expires what nobody
  decided and settles what an executor abandoned. Every change of state is one SQLite transaction that also
  writes a transition row, a hash-chained audit row and an outbox event, and a publisher hands the events on.

  \<^bold>\<open>Foundations.\<close>
  \<^item> \<open>Prelude\<close>: lists, association lists (\<open>put\<close>, \<open>last_wins\<close>), tables, sorting, and the locales
    \<open>strict_choice\<close> (a fold that keeps the best under a strict order) and \<open>ranked\<close>.
  \<^item> \<open>Go_Lib\<close>, \<open>Json\<close>, \<open>Json_Facts\<close>, \<open>Float64\<close>, \<open>Float_Ops\<close>, \<open>Sha256\<close>: what the code uses of Go's
    library: decimal printing, prefixes, \<open>Cut\<close>, \<open>TrimSpace\<close>, \<open>encoding/json\<close> (scanner, escapes, \<open>Marshal\<close>,
    and that what it writes reads back), binary64 parsing, printing and arithmetic, SHA-256 on 32-bit words.

  \<^bold>\<open>Operations\<close> (\<open>internal/operations\<close>).
  \<^item> \<open>Risk\<close>, \<open>Operations\<close>: \<open>models.go\<close>, \<open>errors.go\<close>, \<open>repository.go\<close>.
  \<^item> \<open>Canonical\<close>: \<open>canonical.go\<close>, the canonical form, the payload hash and the drift check.
  \<^item> \<open>State_Machine\<close>: \<open>state_machine.go\<close>, the table, its guards and \<open>Validate\<close>; runs are \<open>table_path\<close>.
  \<^item> \<open>Rules\<close>: \<open>autoapprove.go\<close>. \<open>Approval\<close>: \<open>bypass.go\<close>, \<open>inline.go\<close>, \<open>approval.go\<close>.
  \<^item> \<open>Host\<close>: the repository interface, the process around it (\<open>environment\<close>, \<open>host\<close>) and the store behind
    it with everybody else at work on it (\<open>sqlite\<close>). \<open>Service\<close>: \<open>service.go\<close>. \<open>Executor\<close>:
    \<open>executor.go\<close>. \<open>Reaper\<close>: \<open>reaper.go\<close>. \<open>Redact\<close>: \<open>redact.go\<close>. \<open>Ids\<close>: \<open>ids.go\<close>.
  \<^item> \<open>Workflow\<close>: the components on one store. The locale \<open>shared_store\<close> states what they rely on of the
    others; \<open>system\<close> is any number of executors, services and reapers, with crashes between any two steps.
  \<^item> \<open>Executor_Facts\<close>: what an answer of the upstream system is settled as, by what \<open>Observe\<close> reads after
    the write, and verification as a bounded search.

  \<^bold>\<open>The store\<close> (\<open>internal/storage/sqlite\<close>).
  \<^item> \<open>Database\<close>: the tables with the checks, unique indexes and triggers of the migrations, guarded updates
    and transactions. \<open>Audit_Trail\<close>: \<open>audit.go\<close>. \<open>Store\<close>: \<open>operations.go\<close>.
  \<^item> \<open>Store_Facts\<close>, \<open>Store_Props\<close>: the invariant \<open>store_ok\<close> and what the calls do. \<open>Lifecycle\<close>: the stores
    that lawful calls reach (\<open>reached\<close>) and the life of each operation in them.
  \<^item> \<open>Bypass_Store\<close>: \<open>bypasses.go\<close>, the windows and what the approval policy is handed of them.
  \<^item> \<open>Outbox\<close>: \<open>outbox.go\<close>. \<open>Publisher\<close>, \<open>Delivery\<close>: \<open>internal/messaging\<close>, over any outbox whose statements
    may fail (the locale \<open>outbox_contract\<close>) or do not (\<open>steady_outbox\<close>), and any handler, which may fail or
    panic (\<open>waits_until_taken\<close>). What the handler itself returned is recorded in \<open>pu_calls\<close>; the app's
    handler runs the executor, in part when plugin code panics (\<open>Execute_upto\<close>).

  \<^bold>\<open>Access\<close> (\<open>internal/auth\<close>).
  \<^item> \<open>Permissions\<close>, \<open>Principal\<close>, \<open>Grant_Codec\<close>, \<open>Codec_Facts\<close>, \<open>Labels\<close>: permissions, grants, roles,
    decisions, their encodings, names, passwords and addresses.
  \<^item> \<open>Access_Db\<close>: the tables (\<open>Api_Keys\<close> also has the static credentials of \<open>authentication.go\<close>). \<open>Access_Roles\<close>, \<open>Access_Groups\<close>, \<open>Api_Keys\<close>, \<open>Accounts\<close>, \<open>Account_Sessions\<close>,
    \<open>Registration\<close>, \<open>Pending_Links\<close>: one theory per store.
  \<^item> \<open>Access_Rows\<close>: the invariant \<open>access_ok\<close> of the tables, and which row changes keep it (\<open>mild\<close>, \<open>harsh\<close>).
    \<open>Access_Steps\<close>: every operation is \<open>lawful\<close>. \<open>Access_Ops\<close>: the operations as one type (\<open>perform\<close>) and
    histories of them (\<open>access_history\<close>). \<open>Access_Facts\<close>, \<open>Access\<close>, \<open>Access_Examples\<close>: what follows, and
    concrete histories.

  \<^bold>\<open>Plugins and tools\<close> (\<open>internal/plugins\<close>, \<open>internal/app/app.go\<close>, \<open>internal/mcp/host.go\<close>).
  \<^item> \<open>Plugin_Registry\<close>: descriptors, naming rules and registration. \<open>Plugin_Host\<close>: the gate, the manager, the
    combined servers with their cache, the endpoints. \<open>Manager_Facts\<close>: runs of the manager (\<open>managed\<close>).
  \<^item> \<open>Rate_Limits\<close>: the limiters of tools and proposals; a proposal's limiter is an object its look-up finds
    and its reservation writes, and the two steps of different calls interleave. \<open>Tool_Calls\<close>: the propose tool, the question put to
    the user, the approval queue, what a client is told, and the runner that serves the executor.

  \<^bold>\<open>Conventions.\<close> A Go error is a constructor in a sum, a nil pointer \<open>None\<close>, a \<open>json.RawMessage\<close> its bytes;
  the text of a refusal or a note is a constructor holding what it quotes, unless the text is stored. Times
  and durations are unbounded integers of nanoseconds (milliseconds in the tables), but for the delay between
  two verifications, whose doubling wraps at 64 bits. A clock is a function of
  the number of its reading, and so are identifiers and the policy. The state a call leaves is returned with
  its result. What is not code of the repository is an argument: SQLite's \<open>json_valid\<close> (\<open>jv\<close>), the password
  hash (\<open>hashes_usable\<close> says that it is usable), random bytes, the plugins' own calls, the token bucket, what
  the client answers to a question, and which tools the MCP SDK refuses. A read before a transaction takes
  the table it saw as an argument of its own (\<open>seen\<close>), so others may commit between the two. The store's
  \<open>Propose\<close> looks a key up before its transaction; \<open>Propose_amid\<close> lets others commit before and after the
  transaction, and what it leaves is what one uninterrupted call leaves or nothing
  (\<open>proposal_amid_is_a_call\<close>), so what holds of series of calls holds of it.

  \<^bold>\<open>Bounds.\<close> Recursions that search carry a bound that their input supplies (digits of a float, blocks of
  a message, rows of a table) or that the code has (attempts, batches, ticks of a wait), so every definition
  is total. Verification is bounded by \<open>VerifyAttempts\<close>, and \<open>backlog_drains\<close> shows how many drains suffice.

  \<^bold>\<open>What the lemmas show.\<close> An operation is written upstream at most once, after an approval and with the
  payload approved, and its tables account for it; an exclusion is never overridden; the audit trail cannot
  be rewritten without a collision; no event is lost. The access tables stay well formed under any history,
  an administrator who can sign in remains, and keys, sessions, links and registrations open only what they
  should. A caller is served the tools of its granted plugins only, from servers that are never stale, and
  what a client is told of an unchanged target is true. Some theorems state where the code falls short of its
  purpose: instances whose name has an underscore, resources, guesses made at once, retried events, budgets
  dropped under a call (\<open>evicted_under_a_call\<close>), actions that become one tool (\<open>actions_share_a_tool\<close>), and
  grants of names that are not UTF-8 (\<open>broken_name_reads_back_otherwise\<close>).

  \<^bold>\<open>Not modelled.\<close> The integrations behind the plugins, remote MCP servers, the registry of servers and the
  tunnel, sign-in at identity providers: exchanges with systems whose code is elsewhere. The administration
  API and the dashboard: HTTP handlers over the modelled stores. Process wiring, configuration and the
  catalogue of settings: start-up and data. Backups, mail, metrics, certificates, updates and caches: I/O
  around the core.
\<close>

end
